(* ===== verification/UfsPrelude.thy ===== *)
theory UfsPrelude
  imports Main "HOL-Library.Word"
begin

text \<open>
  Shared vocabulary of the development: the machine types of the Rust sources, the
  saturating operations of the standard library, slice access (\<open>get\<close> on a range,
  \<open>copy_from_slice\<close>), the result type behind the \<open>?\<close> operator, and the generic lemmas
  on them that the component theories use.

  Conventions. \<open>u8\<close>, \<open>u16\<close>, \<open>u32\<close>, \<open>u64\<close> and the signed \<open>i32\<close>, \<open>i64\<close> are words of
  their width; a signed value is read with \<^const>\<open>sint\<close>, an \<open>as u64\<close> cast of a signed
  value is \<^const>\<open>scast\<close>, a widening \<open>From\<close> is \<^const>\<open>ucast\<close> (unsigned) or \<^const>\<open>scast\<close> (signed).
  \<open>usize\<close> (64 bits wide) counts positions of a slice and is a \<^typ>\<open>nat\<close>, with the saturation
  at \<open>usize_max\<close> written out where the source saturates.
\<close>

type_synonym u8 = "8 word"
type_synonym u16 = "16 word"
type_synonym u32 = "32 word"
type_synonym u64 = "64 word"
type_synonym i32 = "32 word"
type_synonym i64 = "64 word"
type_synonym usize = nat
type_synonym bytes = "8 word list"

text \<open>A string literal as the bytes the sources compare it with.\<close>

abbreviation str :: "string \<Rightarrow> bytes" where
  "str s \<equiv> map of_char s"

named_theorems slice_simps \<open>evaluation and shape of slice accesses\<close>
named_theorems sat_simps \<open>saturating arithmetic read as natural numbers\<close>
named_theorems sb_consts \<open>constants and field offsets of the on-disk structures\<close>

section \<open>Machine arithmetic\<close>

abbreviation usize_max :: nat where
  "usize_max \<equiv> 18446744073709551615"

abbreviation isize_max :: nat where
  "isize_max \<equiv> 9223372036854775807"

text \<open>The Rust guarantee on every slice: at most \<open>isize::MAX\<close> bytes.\<close>

definition valid_slice :: "'a list \<Rightarrow> bool" where
  "valid_slice xs \<longleftrightarrow> length xs \<le> isize_max"

definition sat_add :: "'a::len word \<Rightarrow> 'a word \<Rightarrow> 'a word" where
  "sat_add a b = (if unat a + unat b < 2 ^ LENGTH('a) then a + b else - 1)"

definition sat_mul :: "'a::len word \<Rightarrow> 'a word \<Rightarrow> 'a word" where
  "sat_mul a b = (if unat a * unat b < 2 ^ LENGTH('a) then a * b else - 1)"

definition sat_sub :: "'a::len word \<Rightarrow> 'a word \<Rightarrow> 'a word" where
  "sat_sub a b = (if a < b then 0 else a - b)"

definition usize_sat_add :: "usize \<Rightarrow> usize \<Rightarrow> usize" where
  "usize_sat_add a b = min (a + b) usize_max"

text \<open>\<open>u64::div_ceil\<close>, as the standard library computes it (no overflow).\<close>

definition div_ceil :: "'a::len word \<Rightarrow> 'a word \<Rightarrow> 'a word" where
  "div_ceil a b = (let q = a div b; r = a mod b in if 0 < r then q + 1 else q)"

lemma unat_lt [simp]: "unat (w :: 'a::len word) < 2 ^ LENGTH('a)"
  by (rule unsigned_less)

lemma unat_max_word: "unat (- 1 :: 'a::len word) = 2 ^ LENGTH('a) - 1"
  by (simp add: unsigned_minus_1_eq_mask mask_eq_exp_minus_1)

lemma unat_sat_add [sat_simps]:
  "unat (sat_add a b) = min (unat a + unat b) (2 ^ LENGTH('a) - 1)" for a b :: "'a::len word"
  by (auto simp: sat_add_def unat_word_ariths unat_max_word min_def)

lemma unat_sat_mul [sat_simps]:
  "unat (sat_mul a b) = min (unat a * unat b) (2 ^ LENGTH('a) - 1)" for a b :: "'a::len word"
proof (cases "unat a * unat b < 2 ^ LENGTH('a)")
  case True
  then have "unat a * unat b \<le> 2 ^ LENGTH('a) - 1" by linarith
  with True show ?thesis by (simp add: sat_mul_def unat_word_ariths min_def)
next
  case False
  then have "2 ^ LENGTH('a) - 1 \<le> unat a * unat b" by linarith
  then have "min (unat a * unat b) (2 ^ LENGTH('a) - 1) = 2 ^ LENGTH('a) - 1"
    by (rule min_absorb2)
  then show ?thesis by (simp only: sat_mul_def False if_False unat_max_word)
qed

lemma unat_sat_sub [sat_simps]: "unat (sat_sub a b) = unat a - unat b"
  by (auto simp: sat_sub_def unat_sub word_less_nat_alt not_less word_le_nat_alt)

lemma unat_div_ceil:
  fixes a b :: "'a::len word"
  assumes "0 < unat b"
  shows "unat (div_ceil a b) = (unat a + unat b - 1) div unat b"
proof -
  let ?a = "unat a" and ?b = "unat b"
  have ba: "?a div ?b + 1 < 2 ^ LENGTH('a)" if "0 < ?a mod ?b"
  proof -
    have "?b \<noteq> 1" using that by auto
    with assms have "2 \<le> ?b" by simp
    then have "?a div ?b \<le> ?a div 2" by (simp add: div_le_mono2)
    moreover have "0 < ?a" using that by (cases "?a") auto
    ultimately have "?a div ?b < ?a" by linarith
    then show ?thesis using unat_lt [of a] by linarith
  qed
  have r: "(?a + ?b - 1) div ?b = ?a div ?b + (if 0 < ?a mod ?b then 1 else 0)"
  proof (cases "?a mod ?b = 0")
    case True
    then obtain k where "?a = ?b * k" by (auto simp: mod_eq_0_iff_dvd)
    moreover have "(?b * k + ?b - 1) div ?b = k"
      using assms by (intro div_nat_eqI) auto
    ultimately show ?thesis using True assms by simp
  next
    case False
    have e: "?b * (?a div ?b) + ?a mod ?b = ?a" by simp
    have "(?a + ?b - 1) div ?b = ?a div ?b + 1"
    proof (intro div_nat_eqI)
      show "?b * (?a div ?b + 1) \<le> ?a + ?b - 1"
        using False e by (simp only: distrib_left mult_1_right)
      show "?a + ?b - 1 < ?b * Suc (?a div ?b + 1)"
        using mod_less_divisor [OF assms, of ?a] e assms
        by (simp only: mult_Suc_right distrib_left mult_1_right)
    qed
    then show ?thesis using False by simp
  qed
  show ?thesis
  proof (cases "0 < ?a mod ?b")
    case True
    then have "(0::'a word) < a mod b" by (simp add: word_less_nat_alt unat_mod)
    then show ?thesis using True ba [OF True] r
      by (simp add: div_ceil_def Let_def unat_word_ariths unat_div)
  next
    case False
    then have "\<not> (0::'a word) < a mod b" by (simp add: word_less_nat_alt unat_mod)
    then show ?thesis using False r
      by (simp add: div_ceil_def Let_def unat_div)
  qed
qed

lemma usize_sat_add_small [simp]: "a + b \<le> usize_max \<Longrightarrow> usize_sat_add a b = a + b"
  by (simp add: usize_sat_add_def)

text \<open>A chain of saturating steps saturates once: the bound can be taken at the end.\<close>

lemma min_add_min: "min (min x m + y) m = min (x + y) m" "min (x + min y m) m = min (x + y) m"
  for x y m :: nat
  by (auto simp: min_def)

lemma min_mult_min:
  fixes x y m :: nat
  assumes "0 < y"
  shows "min (min x m * y) m = min (x * y) m"
proof (cases "x \<le> m")
  case False
  have "m \<le> m * y" using assms by simp
  moreover have "m \<le> x * y" using assms False by (simp add: le_trans [of m x])
  moreover have "min x m = m" using False by simp
  ultimately show ?thesis by (simp only: min_absorb2)
qed simp

lemma unat_u64_le: "unat (x :: u64) \<le> usize_max"
  using unat_lt [of x] by simp

text \<open>The casts of the sources: \<open>u32\<close> and \<open>i32\<close> to \<open>u64\<close>.\<close>

lemma unat_ucast_up:
  assumes "LENGTH('a) \<le> LENGTH('b)"
  shows "unat (ucast (w :: 'a::len word) :: 'b::len word) = unat w"
proof -
  have "(2 :: nat) ^ LENGTH('a) \<le> 2 ^ LENGTH('b)"
    using assms by (intro power_increasing) simp_all
  with unat_lt [of w] have "unat w < 2 ^ LENGTH('b)" by (rule less_le_trans)
  then show ?thesis unfolding unsigned_ucast_eq by (rule take_bit_nat_eq_self)
qed

lemma unat_ucast_32_64 [simp]: "unat (ucast (w :: 32 word) :: 64 word) = unat w"
  by (simp add: unat_ucast_up)

lemma unat_ucast_16_64 [simp]: "unat (ucast (w :: 16 word) :: 64 word) = unat w"
  by (simp add: unat_ucast_up)

lemma sint_le_i32: "sint (w :: i32) < 2 ^ 31" "- (2 ^ 31) \<le> sint (w :: i32)"
  using sint_lt [of w] sint_ge [of w] by simp_all

lemma unat_scast_i32:
  fixes w :: i32
  assumes "0 \<le> sint w"
  shows "unat (scast w :: u64) = nat (sint w)"
proof -
  have "sint w < 2 ^ 64" using sint_le_i32 [of w] by simp
  then have "take_bit 64 (sint w) = sint w" using assms by (simp add: take_bit_int_eq_self)
  then have "unat (word_of_int (sint w) :: u64) = nat (sint w)"
    unfolding unsigned_of_int by simp
  then show ?thesis unfolding scast_eq .
qed

lemma int_unat_scast_i32: "0 \<le> sint (w :: i32) \<Longrightarrow> int (unat (scast w :: u64)) = sint w"
  by (simp add: unat_scast_i32)

section \<open>Slices\<close>

text \<open>\<open>xs.get(a..b)\<close>, \<open>xs.get(a..)\<close> and \<open>xs.get_mut(a..a + n)\<close> followed by \<open>copy_from_slice\<close>.\<close>

definition slice_get :: "'a list \<Rightarrow> usize \<Rightarrow> usize \<Rightarrow> 'a list option" where
  "slice_get xs a b = (if a \<le> b \<and> b \<le> length xs then Some (take (b - a) (drop a xs)) else None)"

definition slice_from :: "'a list \<Rightarrow> usize \<Rightarrow> 'a list option" where
  "slice_from xs a = (if a \<le> length xs then Some (drop a xs) else None)"

definition slice_put :: "'a list \<Rightarrow> usize \<Rightarrow> 'a list \<Rightarrow> 'a list" where
  "slice_put xs a ys =
     (if a + length ys \<le> length xs then take a xs @ ys @ drop (a + length ys) xs else xs)"

lemma slice_get_None_iff [slice_simps]: "slice_get xs a b = None \<longleftrightarrow> b < a \<or> length xs < b"
  by (auto simp: slice_get_def)

lemma slice_get_Some_iff [slice_simps]:
  "slice_get xs a b = Some ys \<longleftrightarrow> a \<le> b \<and> b \<le> length xs \<and> ys = take (b - a) (drop a xs)"
  by (auto simp: slice_get_def)

lemma slice_get_length: "slice_get xs a b = Some ys \<Longrightarrow> length ys = b - a"
  by (auto simp: slice_get_def split: if_splits)

lemma slice_get_nth:
  "slice_get xs a b = Some ys \<Longrightarrow> i < b - a \<Longrightarrow> ys ! i = xs ! (a + i)"
  by (auto simp: slice_get_def split: if_splits)

lemma take_drop_window:
  "a + n \<le> m \<Longrightarrow> take n (drop a (take m (drop p xs))) = take n (drop (p + a) xs)"
  by (simp add: drop_take add.commute min_absorb1)

lemma slice_get_clamped:
  assumes "valid_slice xs"
  shows "(case slice_get xs (min s usize_max) (max (min (usize_sat_add (min s usize_max) n) (length xs)) (min s usize_max))
            of Some ys \<Rightarrow> ys | None \<Rightarrow> []) = take n (drop s xs)"
proof -
  have len: "length xs < usize_max" using assms by (simp add: valid_slice_def)
  show ?thesis
  proof (cases "s \<le> length xs")
    case True
    then have s: "min s usize_max = s" using len by simp
    have e: "max (min (usize_sat_add s n) (length xs)) s = min (s + n) (length xs)"
      using True len by (auto simp: usize_sat_add_def)
    have "take (min (s + n) (length xs) - s) (drop s xs) = take n (drop s xs)"
      using True by (cases "s + n \<le> length xs") (simp_all add: min_def)
    then show ?thesis unfolding s e using True by (simp add: slice_get_def)
  next
    case False
    then have "slice_get xs (min s usize_max) k = None" for k
      using len by (auto simp: slice_get_None_iff)
    then show ?thesis using False by simp
  qed
qed

lemma slice_get_append_left:
  "b \<le> length xs \<Longrightarrow> slice_get (xs @ ys) a b = slice_get xs a b"
  by (auto simp: slice_get_def)

lemma slice_get_at: "n = length ys \<Longrightarrow> slice_get (xs @ ys @ zs) (length xs) (length xs + n) = Some ys"
  by (simp add: slice_get_def)

lemma length_slice_put [simp]: "length (slice_put xs a ys) = length xs"
  by (simp add: slice_put_def)

lemma slice_put_nth:
  "i < length xs \<Longrightarrow> slice_put xs a ys ! i =
     (if a + length ys \<le> length xs \<and> a \<le> i \<and> i < a + length ys then ys ! (i - a) else xs ! i)"
  by (auto simp: slice_put_def nth_append)

lemma slice_get_put_same:
  "a + length ys \<le> length xs \<Longrightarrow> slice_get (slice_put xs a ys) a (a + length ys) = Some ys"
  by (simp add: slice_get_def slice_put_def)

lemma slice_get_put_other:
  assumes "b \<le> c \<or> c + length ys \<le> a" and "a \<le> b"
  shows "slice_get (slice_put xs c ys) a b = slice_get xs a b"
proof (cases "b \<le> length xs")
  case True
  have "take (b - a) (drop a (slice_put xs c ys)) = take (b - a) (drop a xs)"
    by (rule nth_equalityI) (use assms True in \<open>auto simp: slice_put_nth\<close>)
  then show ?thesis by (simp add: slice_get_def)
next
  case False
  then show ?thesis by (simp add: slice_get_def)
qed

lemma take4_drop:
  assumes "off + 4 \<le> length d"
  shows "take 4 (drop off d) = [d ! off, d ! (off + 1), d ! (off + 2), d ! (off + 3)]"
proof (rule nth_equalityI)
  show "length (take 4 (drop off d)) = length [d ! off, d ! (off + 1), d ! (off + 2), d ! (off + 3)]"
    using assms by simp
next
  fix i assume "i < length (take 4 (drop off d))"
  then have "i = 0 \<or> i = 1 \<or> i = 2 \<or> i = 3" by auto
  then show "take 4 (drop off d) ! i = [d ! off, d ! (off + 1), d ! (off + 2), d ! (off + 3)] ! i"
    using assms by (elim disjE) simp_all
qed

text \<open>
  A structure laid out in a buffer: the fields with their offsets, in ascending order and without
  overlap, and the buffer after all of them have been written.
\<close>

definition patch :: "'a list \<Rightarrow> (nat \<times> 'a list) list \<Rightarrow> 'a list" where
  "patch d fs = fold (\<lambda>(off, b) d. slice_put d off b) fs d"

definition ordered_fields :: "(nat \<times> 'a list) list \<Rightarrow> bool" where
  "ordered_fields fs \<longleftrightarrow> sorted_wrt (\<lambda>(off, b) (off', b'). off + length b \<le> off') fs"

lemma patch_simps [simp]:
  "patch d [] = d"
  "patch d ((off, b) # fs) = patch (slice_put d off b) fs"
  by (simp_all add: patch_def)

lemma length_patch [simp]: "length (patch d fs) = length d"
proof (induction fs arbitrary: d)
  case (Cons f fs)
  then show ?case by (cases f) simp
qed simp

lemma patch_get_other:
  assumes "\<forall>(off, b) \<in> set fs. z \<le> off \<or> off + length b \<le> a" and "a \<le> z"
  shows "slice_get (patch d fs) a z = slice_get d a z"
  using assms(1)
proof (induction fs arbitrary: d)
  case (Cons f fs)
  obtain off b where f: "f = (off, b)" by (cases f)
  from Cons.prems have "z \<le> off \<or> off + length b \<le> a" by (simp add: f)
  then have "slice_get (slice_put d off b) a z = slice_get d a z"
    using assms(2) by (rule slice_get_put_other)
  moreover have "slice_get (patch (slice_put d off b) fs) a z = slice_get (slice_put d off b) a z"
    using Cons.prems by (intro Cons.IH) simp
  ultimately show ?case by (simp add: f)
qed simp

lemma patch_get:
  assumes "ordered_fields fs" and "(off, b) \<in> set fs" and "off + length b \<le> length d"
  shows "slice_get (patch d fs) off (off + length b) = Some b"
  using assms
proof (induction fs arbitrary: d)
  case (Cons f fs)
  obtain off' b' where f: "f = (off', b')" by (cases f)
  show ?case
  proof (cases "(off, b) = f")
    case True
    from Cons.prems(1) have "\<forall>(o', c) \<in> set fs. off + length b \<le> o'"
      using True by (auto simp: ordered_fields_def)
    then have "slice_get (patch (slice_put d off b) fs) off (off + length b)
        = slice_get (slice_put d off b) off (off + length b)"
      by (intro patch_get_other) auto
    then show ?thesis using True Cons.prems(3) by (simp flip: True add: slice_get_put_same)
  next
    case False
    then have "(off, b) \<in> set fs" using Cons.prems(2) by auto
    moreover have "ordered_fields fs" using Cons.prems(1) by (simp add: ordered_fields_def)
    ultimately have "slice_get (patch (slice_put d off' b') fs) off (off + length b) = Some b"
      using Cons.prems(3) by (intro Cons.IH) simp_all
    then show ?thesis by (simp add: f)
  qed
qed simp

lemma slice_put_id: "slice_get d off (off + length b) = Some b \<Longrightarrow> slice_put d off b = d"
  by (metis add.commute add_diff_cancel_right' append_take_drop_id drop_drop slice_get_Some_iff slice_put_def)

lemma patch_id:
  "\<forall>(off, b) \<in> set fs. slice_get d off (off + length b) = Some b \<Longrightarrow> patch d fs = d"
  by (induction fs) (auto simp: slice_put_id)

section \<open>Vectors as stacks\<close>

text \<open>\<open>Vec::pop\<close>: the last element and the rest. \<open>Vec::push\<close> is appending one element.\<close>

definition vec_pop :: "'a list \<Rightarrow> ('a \<times> 'a list) option" where
  "vec_pop xs = (if xs = [] then None else Some (last xs, butlast xs))"

lemma vec_pop_None [simp]: "vec_pop xs = None \<longleftrightarrow> xs = []"
  by (simp add: vec_pop_def)

lemma vec_pop_Some: "vec_pop xs = Some (x, ys) \<longleftrightarrow> xs = ys @ [x]"
  by (auto simp: vec_pop_def)

lemma vec_pop_snoc [simp]: "vec_pop (ys @ [x]) = Some (x, ys)"
  by (simp add: vec_pop_def)

lemma vec_pop_Nil [simp]: "vec_pop [] = None"
  by (simp add: vec_pop_def)

section \<open>Results\<close>

text \<open>The \<open>?\<close> operator on \<open>Result\<close>: the error (\<^const>\<open>Inl\<close>) is returned, the value is passed on.\<close>

definition try_bind :: "'e + 'a \<Rightarrow> ('a \<Rightarrow> 'e + 'b) \<Rightarrow> 'e + 'b" where
  "try_bind r f = (case r of Inl e \<Rightarrow> Inl e | Inr x \<Rightarrow> f x)"

lemma try_bind_simps [simp]: "try_bind (Inl e) f = Inl e" "try_bind (Inr x) f = f x"
  by (simp_all add: try_bind_def)

lemma try_bind_Inr_iff: "try_bind r f = Inr y \<longleftrightarrow> (\<exists>x. r = Inr x \<and> f x = Inr y)"
  by (cases r) auto

lemma try_bind_Inl_iff: "try_bind r f = Inl e \<longleftrightarrow> r = Inl e \<or> (\<exists>x. r = Inr x \<and> f x = Inl e)"
  by (cases r) auto

end
