(* ===== verification/UfsBytes.thy ===== *)
theory UfsBytes
  imports UfsPrelude
begin

text \<open>
  \<open>core/src/bytes.rs\<close>: the byte-order selector and the bounds-checked readers. The readers
  yield \<open>0\<close> when the range lies outside the buffer. The encoders \<open>word_to_le\<close>, \<open>word_to_be\<close> and
  \<open>endian_bytes\<close> are the inverse (\<open>to_le_bytes\<close>, \<open>to_be_bytes\<close>); the laws that tie a reader to its
  encoder are the locale \<open>byte_codec\<close>, interpreted on every reader of the module.
\<close>

section \<open>The byte order\<close>

datatype endian = Little | Big

instantiation endian :: enum
begin

definition enum_endian :: "endian list" where
  "enum_endian = [Little, Big]"

definition enum_all_endian :: "(endian \<Rightarrow> bool) \<Rightarrow> bool" where
  "enum_all_endian P \<longleftrightarrow> P Little \<and> P Big"

definition enum_ex_endian :: "(endian \<Rightarrow> bool) \<Rightarrow> bool" where
  "enum_ex_endian P \<longleftrightarrow> P Little \<or> P Big"

instance
proof
  have U: "(UNIV :: endian set) = {Little, Big}"
    using endian.exhaust by auto
  show "(UNIV :: endian set) = set enum_class.enum"
    by (simp add: enum_endian_def U)
  show "distinct (enum_class.enum :: endian list)"
    by (simp add: enum_endian_def)
  show "enum_class.enum_all P \<longleftrightarrow> Ball UNIV P" for P :: "endian \<Rightarrow> bool"
    by (simp add: enum_all_endian_def U)
  show "enum_class.enum_ex P \<longleftrightarrow> Bex UNIV P" for P :: "endian \<Rightarrow> bool"
    by (simp add: enum_ex_endian_def U)
qed

end

section \<open>Integers and their bytes\<close>

fun le_nat :: "bytes \<Rightarrow> nat" where
  "le_nat [] = 0"
| "le_nat (b # bs) = unat b + 256 * le_nat bs"

text \<open>\<open>from_le_bytes\<close> and \<open>from_be_bytes\<close>.\<close>

definition from_le :: "bytes \<Rightarrow> 'a::len word" where
  "from_le bs = of_nat (le_nat bs)"

definition from_be :: "bytes \<Rightarrow> 'a::len word" where
  "from_be bs = from_le (rev bs)"

fun nat_to_le :: "nat \<Rightarrow> nat \<Rightarrow> bytes" where
  "nat_to_le 0 v = []"
| "nat_to_le (Suc n) v = of_nat v # nat_to_le n (v div 256)"

lemma nat_to_le_numeral [simp]:
  "nat_to_le (numeral k) v = of_nat v # nat_to_le (pred_numeral k) (v div 256)"
  unfolding numeral_eq_Suc [of k] by (rule nat_to_le.simps)

text \<open>\<open>to_le_bytes\<close> and \<open>to_be_bytes\<close>.\<close>

definition word_to_le :: "'a::len word \<Rightarrow> bytes" where
  "word_to_le w = nat_to_le (LENGTH('a) div 8) (unat w)"

definition word_to_be :: "'a::len word \<Rightarrow> bytes" where
  "word_to_be w = rev (word_to_le w)"

section \<open>The readers\<close>

text \<open>
  The common shape of the readers: a zeroed array of \<open>n\<close> bytes, overwritten by
  \<open>data.get(off..off.saturating_add(n))\<close> when that range exists.
\<close>

definition read_array :: "nat \<Rightarrow> bytes \<Rightarrow> usize \<Rightarrow> bytes" where
  "read_array n d off =
     (case slice_get d off (usize_sat_add off n) of Some s \<Rightarrow> s | None \<Rightarrow> replicate n 0)"

definition le_u16 :: "bytes \<Rightarrow> usize \<Rightarrow> u16" where
  "le_u16 d off = from_le (read_array 2 d off)"

definition be_u16 :: "bytes \<Rightarrow> usize \<Rightarrow> u16" where
  "be_u16 d off = from_be (read_array 2 d off)"

definition le_u32 :: "bytes \<Rightarrow> usize \<Rightarrow> u32" where
  "le_u32 d off = from_le (read_array 4 d off)"

definition be_u32 :: "bytes \<Rightarrow> usize \<Rightarrow> u32" where
  "be_u32 d off = from_be (read_array 4 d off)"

definition le_u64 :: "bytes \<Rightarrow> usize \<Rightarrow> u64" where
  "le_u64 d off = from_le (read_array 8 d off)"

definition be_u64 :: "bytes \<Rightarrow> usize \<Rightarrow> u64" where
  "be_u64 d off = from_be (read_array 8 d off)"

definition u8_at :: "bytes \<Rightarrow> usize \<Rightarrow> u8" where
  "u8_at d off = (if off < length d then d ! off else 0)"

definition endian_u16 :: "endian \<Rightarrow> bytes \<Rightarrow> usize \<Rightarrow> u16" where
  "endian_u16 e d off = (case e of Little \<Rightarrow> le_u16 d off | Big \<Rightarrow> be_u16 d off)"

definition endian_u32 :: "endian \<Rightarrow> bytes \<Rightarrow> usize \<Rightarrow> u32" where
  "endian_u32 e d off = (case e of Little \<Rightarrow> le_u32 d off | Big \<Rightarrow> be_u32 d off)"

text \<open>\<open>as i32\<close> and \<open>as i64\<close> keep the bits; the sign is in the reading (\<^const>\<open>sint\<close>).\<close>

definition endian_i32 :: "endian \<Rightarrow> bytes \<Rightarrow> usize \<Rightarrow> i32" where
  "endian_i32 e d off = endian_u32 e d off"

definition endian_u64 :: "endian \<Rightarrow> bytes \<Rightarrow> usize \<Rightarrow> u64" where
  "endian_u64 e d off = (case e of Little \<Rightarrow> le_u64 d off | Big \<Rightarrow> be_u64 d off)"

definition endian_i64 :: "endian \<Rightarrow> bytes \<Rightarrow> usize \<Rightarrow> i64" where
  "endian_i64 e d off = endian_u64 e d off"

definition endian_bytes :: "endian \<Rightarrow> 'a::len word \<Rightarrow> bytes" where
  "endian_bytes e w = (case e of Little \<Rightarrow> word_to_le w | Big \<Rightarrow> word_to_be w)"

section \<open>Encoding and decoding one integer\<close>

lemma le_nat_bound: "le_nat bs < 256 ^ length bs"
proof (induction bs)
  case Nil
  then show ?case by simp
next
  case (Cons b bs)
  have "unat b < 256" using unat_lt [of b] by simp
  moreover have "256 * (le_nat bs + 1) \<le> 256 * 256 ^ length bs"
    using Cons.IH by (intro mult_le_mono2) simp
  ultimately show ?case by simp
qed

lemma le_nat_to_le: "le_nat (nat_to_le n v) = v mod 256 ^ n"
proof (induction n arbitrary: v)
  case 0
  then show ?case by simp
next
  case (Suc n)
  have "unat (of_nat v :: u8) = v mod 256" by (simp add: unat_of_nat)
  moreover have "v mod 256 + 256 * (v div 256 mod 256 ^ n) = v mod (256 * 256 ^ n)"
    by (simp add: mod_mult2_eq)
  ultimately show ?case by (simp add: Suc.IH)
qed

lemma nat_to_le_le_nat: "nat_to_le (length bs) (le_nat bs) = bs"
proof (induction bs)
  case Nil
  then show ?case by simp
next
  case (Cons b bs)
  have b: "unat b < 256" using unat_lt [of b] by simp
  then have "(unat b + 256 * le_nat bs) div 256 = le_nat bs" by simp
  moreover have "of_nat (unat b + 256 * le_nat bs) = b"
  proof -
    have z: "(256 :: u8) = 0" by simp
    have "of_nat (256 * le_nat bs) = (0 :: u8)"
      by (simp only: of_nat_mult of_nat_numeral z mult_zero_left)
    then show ?thesis by simp
  qed
  ultimately show ?case using Cons.IH by simp
qed

lemma length_nat_to_le [simp]: "length (nat_to_le n v) = n"
  by (induction n arbitrary: v) auto

lemma le_nat_append: "le_nat (xs @ ys) = le_nat xs + 256 ^ length xs * le_nat ys"
  by (induction xs) (auto simp: algebra_simps)

lemma le_nat_replicate_0 [simp]: "le_nat (replicate n 0) = 0"
  by (induction n) auto

lemma length_word_to_le [simp]: "length (word_to_le (w :: 'a::len word)) = LENGTH('a) div 8"
  by (simp add: word_to_le_def)

lemma length_word_to_be [simp]: "length (word_to_be (w :: 'a::len word)) = LENGTH('a) div 8"
  by (simp add: word_to_be_def)

lemma length_endian_bytes [simp]: "length (endian_bytes e (w :: 'a::len word)) = LENGTH('a) div 8"
  by (cases e) (simp_all add: endian_bytes_def)

lemma from_le_to_le:
  fixes w :: "'a::len word"
  assumes "LENGTH('a) = 8 * n"
  shows "from_le (word_to_le w) = w"
proof -
  have "(256 :: nat) ^ n = 2 ^ LENGTH('a)" by (simp add: assms power_mult)
  with unat_lt [of w] have "unat w mod 256 ^ n = unat w" by simp
  then have "le_nat (word_to_le w) = unat w"
    using assms by (simp add: word_to_le_def le_nat_to_le)
  then show ?thesis by (simp add: from_le_def)
qed

lemma from_be_to_be: "LENGTH('a) = 8 * n \<Longrightarrow> from_be (word_to_be (w :: 'a::len word)) = w"
  by (simp add: from_be_def word_to_be_def from_le_to_le)

lemma unat_from_le:
  assumes "LENGTH('a) = 8 * length bs"
  shows "unat (from_le bs :: 'a::len word) = le_nat bs"
proof -
  have "(256 :: nat) ^ length bs = 2 ^ LENGTH('a)" by (simp add: assms power_mult)
  with le_nat_bound [of bs] have "le_nat bs < 2 ^ LENGTH('a)" by simp
  then show ?thesis by (simp add: from_le_def unat_of_nat)
qed

lemma to_le_from_le: "LENGTH('a) = 8 * length bs \<Longrightarrow> word_to_le (from_le bs :: 'a::len word) = bs"
  using nat_to_le_le_nat [of bs] by (simp add: word_to_le_def unat_from_le)

lemma to_be_from_be: "LENGTH('a) = 8 * length bs \<Longrightarrow> word_to_be (from_be bs :: 'a::len word) = bs"
  by (simp add: word_to_be_def from_be_def to_le_from_le)

lemma from_le_replicate_0 [simp]: "from_le (replicate n 0) = 0"
  by (simp add: from_le_def)

lemma from_be_replicate_0 [simp]: "from_be (replicate n 0) = 0"
  by (simp add: from_be_def)

lemma length_read_array:
  "off + n \<le> usize_max \<Longrightarrow> length (read_array n d off) = n"
  by (auto simp: read_array_def slice_get_length split: option.splits)

lemma read_array_in:
  "off + n \<le> usize_max \<Longrightarrow> off + n \<le> length d \<Longrightarrow> read_array n d off = take n (drop off d)"
  by (simp add: read_array_def slice_get_def)

lemma read_array_out:
  "off + n \<le> usize_max \<Longrightarrow> length d < off + n \<Longrightarrow> read_array n d off = replicate n 0"
  by (simp add: read_array_def slice_get_def)

section \<open>The reader interface\<close>

text \<open>
  What a parser relies on when it reads a field: the reader looks at the \<open>n\<close> bytes at \<open>off\<close> and
  at nothing else, decodes what the encoder wrote, loses nothing of what it read, and yields \<open>0\<close>
  outside the buffer.
\<close>

locale byte_codec =
  fixes rd :: "bytes \<Rightarrow> usize \<Rightarrow> 'w::len word"
    and enc :: "'w word \<Rightarrow> bytes"
    and n :: nat
  assumes enc_length: "length (enc w) = n"
    and rd_local: "off + n \<le> usize_max \<Longrightarrow> off + n \<le> length d \<Longrightarrow> rd d off = rd (take n (drop off d)) 0"
    and rd_enc: "rd (enc w) 0 = w"
    and enc_rd: "length d = n \<Longrightarrow> enc (rd d 0) = d"
    and rd_out: "off + n \<le> usize_max \<Longrightarrow> length d < off + n \<Longrightarrow> rd d off = 0"
begin

lemma rd_at:
  assumes "off + n \<le> usize_max" and "slice_get d off (off + n) = Some (enc w)"
  shows "rd d off = w"
proof -
  from assms(2) have "off + n \<le> length d" "take n (drop off d) = enc w"
    by (auto simp: slice_get_Some_iff)
  then show ?thesis using rd_local [OF assms(1)] by (simp add: rd_enc)
qed

lemma rd_put_same:
  assumes "off + n \<le> usize_max" and "off + n \<le> length d"
  shows "rd (slice_put d off (enc w)) off = w"
  using assms slice_get_put_same [of off "enc w" d] by (intro rd_at) (simp_all add: enc_length)

lemma rd_cong:
  assumes "off + n \<le> usize_max" and "slice_get d off (off + n) = slice_get d' off (off + n)"
  shows "rd d off = rd d' off"
proof (cases "off + n \<le> length d")
  case True
  with assms(2) have "off + n \<le> length d'" "take n (drop off d) = take n (drop off d')"
    by (auto simp: slice_get_def split: if_splits)
  then show ?thesis
    using True rd_local [OF assms(1), of d] rd_local [OF assms(1), of d'] by simp
next
  case False
  with assms(2) have "\<not> off + n \<le> length d'"
    by (auto simp: slice_get_def split: if_splits)
  then show ?thesis using False assms(1) by (simp add: rd_out)
qed

lemma rd_put_other:
  assumes "off + n \<le> usize_max" and "off + n \<le> c \<or> c + length ys \<le> off"
  shows "rd (slice_put d c ys) off = rd d off"
  using assms by (intro rd_cong) (simp_all add: slice_get_put_other)

lemma rd_append:
  "off + n \<le> usize_max \<Longrightarrow> off + n \<le> length d \<Longrightarrow> rd (d @ e) off = rd d off"
  by (intro rd_cong) (simp_all add: slice_get_append_left)

lemma rd_drop:
  assumes "k + off + n \<le> usize_max" and "k \<le> length d"
  shows "rd (drop k d) off = rd d (k + off)"
proof (cases "k + off + n \<le> length d")
  case True
  then show ?thesis
    using assms rd_local [of off "drop k d"] rd_local [of "k + off" d] by (simp add: add.commute)
next
  case False
  then show ?thesis using assms by (simp add: rd_out)
qed

lemma rd_window:
  assumes "p + off + n \<le> usize_max" and "p + off + n \<le> length d" and "off + n \<le> m"
  shows "rd (take m (drop p d)) off = rd d (p + off)"
  using assms rd_local [of off "take m (drop p d)"] rd_local [of "p + off" d]
  by (simp add: take_drop_window)

lemma enc_rd_at:
  assumes "off + n \<le> usize_max" and "off + n \<le> length d"
  shows "slice_get d off (off + n) = Some (enc (rd d off))"
  using assms rd_local [OF assms] by (simp add: slice_get_def enc_rd)

lemma rd_inj:
  assumes "off + n \<le> usize_max" "off + n \<le> length d" "off + n \<le> length d'"
    and "rd d off = rd d' off"
  shows "slice_get d off (off + n) = slice_get d' off (off + n)"
  using assms enc_rd_at [of off d] enc_rd_at [of off d'] by simp

end

lemmas reader_defs = le_u16_def be_u16_def le_u32_def be_u32_def le_u64_def be_u64_def
  endian_u16_def endian_u32_def endian_u64_def endian_bytes_def

text \<open>Every reader of the module is such a codec; one proof covers the six of them and the selectors.\<close>

lemma le_codec:
  assumes "LENGTH('w) = 8 * n" "n \<le> 8"
  shows "byte_codec (\<lambda>d off. from_le (read_array n d off) :: 'w::len word) word_to_le n"
  by unfold_locales
    (use assms in \<open>simp_all add: read_array_in read_array_out from_le_to_le to_le_from_le\<close>)

lemma be_codec:
  assumes "LENGTH('w) = 8 * n" "n \<le> 8"
  shows "byte_codec (\<lambda>d off. from_be (read_array n d off) :: 'w::len word) word_to_be n"
  by unfold_locales
    (use assms in \<open>simp_all add: read_array_in read_array_out from_be_to_be to_be_from_be\<close>)

interpretation le16: byte_codec le_u16 word_to_le 2
  using le_codec [where 'w = 16 and n = 2] by (simp add: le_u16_def [abs_def])

interpretation be16: byte_codec be_u16 word_to_be 2
  using be_codec [where 'w = 16 and n = 2] by (simp add: be_u16_def [abs_def])

interpretation le32: byte_codec le_u32 word_to_le 4
  using le_codec [where 'w = 32 and n = 4] by (simp add: le_u32_def [abs_def])

interpretation be32: byte_codec be_u32 word_to_be 4
  using be_codec [where 'w = 32 and n = 4] by (simp add: be_u32_def [abs_def])

interpretation le64: byte_codec le_u64 word_to_le 8
  using le_codec [where 'w = 64 and n = 8] by (simp add: le_u64_def [abs_def])

interpretation be64: byte_codec be_u64 word_to_be 8
  using be_codec [where 'w = 64 and n = 8] by (simp add: be_u64_def [abs_def])

interpretation eu16: byte_codec "endian_u16 e" "endian_bytes e" 2 for e
  by (cases e) (simp_all add: endian_u16_def [abs_def] endian_bytes_def [abs_def]
      le16.byte_codec_axioms be16.byte_codec_axioms)

interpretation eu32: byte_codec "endian_u32 e" "endian_bytes e" 4 for e
  by (cases e) (simp_all add: endian_u32_def [abs_def] endian_bytes_def [abs_def]
      le32.byte_codec_axioms be32.byte_codec_axioms)

interpretation eu64: byte_codec "endian_u64 e" "endian_bytes e" 8 for e
  by (cases e) (simp_all add: endian_u64_def [abs_def] endian_bytes_def [abs_def]
      le64.byte_codec_axioms be64.byte_codec_axioms)

interpretation ei32: byte_codec "endian_i32 e" "endian_bytes e" 4 for e
  using eu32.byte_codec_axioms by (simp add: endian_i32_def [abs_def])

interpretation ei64: byte_codec "endian_i64 e" "endian_bytes e" 8 for e
  using eu64.byte_codec_axioms by (simp add: endian_i64_def [abs_def])

section \<open>On-disk structures\<close>

text \<open>
  What the layout of an on-disk structure promises its parser: fields in ascending order, without
  overlap, inside the structure's extent. Then every field is read back from a buffer it was written
  to, and a buffer that begins with a written structure holds it.
\<close>

locale record_layout =
  fixes fields :: "'r \<Rightarrow> (nat \<times> bytes) list" and extent :: "'r \<Rightarrow> nat"
  assumes ordered: "ordered_fields (fields r)"
    and bounds: "(off, b) \<in> set (fields r) \<Longrightarrow> off + length b \<le> extent r"
    and small: "extent r \<le> usize_max"
begin

lemma get:
  assumes "extent r \<le> length d" and "(off, b) \<in> set (fields r)"
  shows "slice_get (patch d (fields r)) off (off + length b) = Some b"
  using assms bounds [OF assms(2)] by (intro patch_get ordered) simp_all

lemma in_range: "(off, b) \<in> set (fields r) \<Longrightarrow> off + length b \<le> usize_max"
  using bounds [of off b r] small [of r] by simp

lemma reads:
  assumes "extent r \<le> length d"
  shows "(off, endian_bytes e w16) \<in> set (fields r) \<Longrightarrow> endian_u16 e (patch d (fields r)) off = w16"
    and "(off, endian_bytes e w32) \<in> set (fields r) \<Longrightarrow> endian_u32 e (patch d (fields r)) off = w32"
    and "(off, endian_bytes e w64) \<in> set (fields r) \<Longrightarrow> endian_u64 e (patch d (fields r)) off = w64"
    and "(off, endian_bytes e i32) \<in> set (fields r) \<Longrightarrow> endian_i32 e (patch d (fields r)) off = i32"
    and "(off, endian_bytes e i64) \<in> set (fields r) \<Longrightarrow> endian_i64 e (patch d (fields r)) off = i64"
  using get [OF assms] in_range
  by (fastforce intro!: eu16.rd_at eu32.rd_at eu64.rd_at ei32.rd_at ei64.rd_at)+

lemma written_prefix:
  assumes "extent r \<le> length d" and "take (extent r) (patch d (fields r)) = take (extent r) d'"
  shows "patch d' (fields r) = d'"
proof (rule patch_id, clarify)
  fix off b assume f: "(off, b) \<in> set (fields r)"
  note bd = bounds [OF f]
  have "extent r \<le> length d'" using arg_cong [OF assms(2), of length] assms(1) by simp
  moreover have "take (length b) (drop off (take (extent r) (patch d (fields r)))) = b"
    using get [OF assms(1) f] bd by (simp add: slice_get_Some_iff drop_take min_absorb1)
  ultimately show "slice_get d' off (off + length b) = Some b"
    using bd unfolding assms(2) by (simp add: slice_get_Some_iff drop_take min_absorb1)
qed

lemma beyond: "extent r \<le> length d \<Longrightarrow> drop (extent r) (patch d (fields r)) = drop (extent r) d"
  using patch_get_other [of "fields r" "length d" "extent r" d] bounds [of _ _ r]
  by (auto simp: slice_get_def)

end

section \<open>Properties\<close>

lemma read_array_beyond:
  assumes "valid_slice d" and "length d < off + n" and "n \<le> 8"
  shows "read_array n d off = replicate n 0"
proof -
  have "length d < usize_sat_add off n" using assms by (auto simp: usize_sat_add_def valid_slice_def)
  then show ?thesis by (simp add: read_array_def slice_get_def)
qed

text \<open>
  Writing an integer in a byte order and reading it back at the same place in the same order
  gives the integer, for the three widths; and reading it in the other order gives the integer whose
  bytes are reversed.
\<close>

lemma readers_roundtrip:
  assumes "valid_slice d" and "off + 8 \<le> length d"
  shows "endian_u16 e (slice_put d off (endian_bytes e a)) off = a
    \<and> endian_u32 e (slice_put d off (endian_bytes e b)) off = b
    \<and> endian_u64 e (slice_put d off (endian_bytes e c)) off = c
    \<and> endian_u32 Big (slice_put d off (word_to_le b)) off = from_le (rev (word_to_le b))"
proof -
  have l: "off + 2 \<le> usize_max" "off + 4 \<le> usize_max" "off + 8 \<le> usize_max"
    "off + 2 \<le> length d" "off + 4 \<le> length d"
    using assms by (simp_all add: valid_slice_def)
  have "endian_u32 Big (slice_put d off (word_to_le b)) off = from_be (word_to_le b)"
    using l slice_get_put_same [of off "word_to_le b" d]
    by (simp add: endian_u32_def be_u32_def read_array_def)
  then show ?thesis
    using l assms(2) eu16.rd_put_same [of off d e a] eu32.rd_put_same [of off d e b]
      eu64.rd_put_same [of off d e c]
    by (simp add: from_be_def)
qed

lemma readers_roundtrip_witness:
  "endian_u32 Big (slice_put (replicate 16 0) 3 (endian_bytes Big (0x00011954 :: u32))) 3 = 0x00011954"
  using readers_roundtrip [of "replicate 16 0" 3 Big 0 "0x00011954" 0] by (simp add: valid_slice_def)

text \<open>
  A read that does not lie inside the buffer yields 0 for every width and either order, also at
  offsets where the end of the range saturates; a byte read past the end yields 0.
\<close>

lemma readers_out_of_range:
  assumes "valid_slice d" and "off \<le> usize_max"
  shows "(length d < off + 2 \<longrightarrow> endian_u16 e d off = 0) \<and> (length d < off + 4 \<longrightarrow> endian_u32 e d off = 0)
    \<and> (length d < off + 8 \<longrightarrow> endian_u64 e d off = 0) \<and> (length d < off + 1 \<longrightarrow> u8_at d off = 0)"
  using assms(1)
  by (cases e) (auto simp: reader_defs read_array_beyond u8_at_def)

lemma readers_out_of_range_witness:
  "endian_u32 Little [1, 2, 3] 18446744073709551615 = 0 \<and> endian_u16 Big [1, 2, 3] 2 = 0"
  using readers_out_of_range [of "[1, 2, 3]" 18446744073709551615 Little]
    readers_out_of_range [of "[1, 2, 3]" 2 Big]
  by (simp add: valid_slice_def)

end
