(* ===== verification/UfsError.thy ===== *)
theory UfsError
  imports UfsBytes
begin

text \<open>
  \<open>core/src/error.rs\<close>: the error type of the reader, with the message each variant displays, and
  the fragment of the standard formatter those messages (and the notes of the auditor) use:
  decimal integers, \<open>{:#010x}\<close>, \<open>{:02x}\<close> and the debug form of a byte array.
\<close>

section \<open>Formatting\<close>

fun digits_in :: "nat \<Rightarrow> nat \<Rightarrow> nat list" where
  "digits_in b n = (if n < b \<or> b < 2 then [n] else digits_in b (n div b) @ [n mod b])"

declare digits_in.simps [simp del]

definition digit_char :: "nat \<Rightarrow> char" where
  "digit_char d = (if d < 10 then char_of (48 + d) else char_of (87 + d))"

definition pad_zero :: "nat \<Rightarrow> string \<Rightarrow> string" where
  "pad_zero w s = replicate (w - length s) (CHR ''0'') @ s"

text \<open>\<open>{}\<close> of an unsigned integer, \<open>{:02x}\<close> of a byte, \<open>{:#010x}\<close> of a \<open>u32\<close>, \<open>{:02x?}\<close> of a byte array.\<close>

definition fmt_dec :: "nat \<Rightarrow> string" where
  "fmt_dec n = map digit_char (digits_in 10 n)"

definition fmt_hex :: "nat \<Rightarrow> string" where
  "fmt_hex n = map digit_char (digits_in 16 n)"

definition fmt_02x :: "u8 \<Rightarrow> string" where
  "fmt_02x b = pad_zero 2 (fmt_hex (unat b))"

definition fmt_010x :: "u32 \<Rightarrow> string" where
  "fmt_010x v = ''0x'' @ pad_zero 8 (fmt_hex (unat v))"

fun join_strings :: "string \<Rightarrow> string list \<Rightarrow> string" where
  "join_strings sep [] = []"
| "join_strings sep [s] = s"
| "join_strings sep (s # t # ss) = s @ sep @ join_strings sep (t # ss)"

definition fmt_bytes :: "bytes \<Rightarrow> string" where
  "fmt_bytes bs = ''['' @ join_strings '', '' (map fmt_02x bs) @ '']''"

definition fmt_endian :: "endian \<Rightarrow> string" where
  "fmt_endian e = (case e of Little \<Rightarrow> ''Little'' | Big \<Rightarrow> ''Big'')"

text \<open>What the digits mean: the value is recovered from them, so a message names its value.\<close>

definition digits_value :: "nat \<Rightarrow> nat list \<Rightarrow> nat" where
  "digits_value b ds = fold (\<lambda>d v. b * v + d) ds 0"

lemma digits_value_digits_in: "2 \<le> b \<Longrightarrow> digits_value b (digits_in b n) = n"
proof (induction b n rule: digits_in.induct)
  case (1 b n)
  then show ?case
    by (subst digits_in.simps) (auto simp: digits_value_def)
qed

lemma digits_in_bound: "2 \<le> b \<Longrightarrow> d \<in> set (digits_in b n) \<Longrightarrow> d < b"
proof (induction b n rule: digits_in.induct)
  case (1 b n)
  show ?case
  proof (cases "n < b \<or> b < 2")
    case True
    then have "digits_in b n = [n]"
      by (simp only: digits_in.simps [of b n] if_True)
    with True "1.prems" show ?thesis by auto
  next
    case False
    have "digits_in b n = digits_in b (n div b) @ [n mod b]"
      using False by (simp only: digits_in.simps [of b n] if_False)
    with "1.prems"(2) consider (high) "d \<in> set (digits_in b (n div b))" | (low) "d = n mod b"
      by auto
    then show ?thesis
    proof cases
      case high
      then show ?thesis using "1.IH" [OF False] "1.prems"(1) by simp
    next
      case low
      then show ?thesis using "1.prems"(1) by simp
    qed
  qed
qed

lemma digit_char_inj: "d < 16 \<Longrightarrow> d' < 16 \<Longrightarrow> digit_char d = digit_char d' \<Longrightarrow> d = d'"
proof -
  have v: "of_char (digit_char d) = (if d < 10 then 48 + d else 87 + d)" if "d < 16" for d :: nat
    using that by (simp add: digit_char_def)
  assume d: "d < 16" and d': "d' < 16" and eq: "digit_char d = digit_char d'"
  have "(of_char (digit_char d) :: nat) = of_char (digit_char d')" by (simp only: eq)
  then have "(if d < 10 then 48 + d else 87 + d) = (if d' < 10 then 48 + d' else 87 + d')"
    by (simp only: v [OF d] v [OF d'])
  then show "d = d'" by (simp split: if_splits)
qed

lemma fmt_dec_inj: "fmt_dec n = fmt_dec m \<Longrightarrow> n = m"
proof -
  assume "fmt_dec n = fmt_dec m"
  then have eq: "map digit_char (digits_in 10 n) = map digit_char (digits_in 10 m)"
    by (simp add: fmt_dec_def)
  have inj: "inj_on digit_char (set (digits_in 10 n) \<union> set (digits_in 10 m))"
  proof (rule inj_onI)
    have b: "d < 16" if "d \<in> set (digits_in 10 n) \<union> set (digits_in 10 m)" for d
      using that digits_in_bound [of 10 d n] digits_in_bound [of 10 d m] by auto
    show "d = d'" if "d \<in> set (digits_in 10 n) \<union> set (digits_in 10 m)"
      "d' \<in> set (digits_in 10 n) \<union> set (digits_in 10 m)" "digit_char d = digit_char d'" for d d'
      by (rule digit_char_inj [OF b [OF that(1)] b [OF that(2)] that(3)])
  qed
  have "digits_in 10 n = digits_in 10 m"
    by (rule inj_on_map_eq_map [THEN iffD1, OF inj eq])
  then have "digits_value 10 (digits_in 10 n) = digits_value 10 (digits_in 10 m)" by (rule arg_cong)
  then show "n = m" by (simp add: digits_value_digits_in)
qed

section \<open>The errors of the reader\<close>

datatype ufs_error =
  ErrTruncated string usize usize
  | ErrBadMagic usize bytes u32 u32
  | ErrBadCgMagic u32 endian
  | ErrImpossibleGeometry string u64 u64
  | ErrInodeOutOfRange u64 u64

fun error_to_string :: "ufs_error \<Rightarrow> string" where
  "error_to_string (ErrTruncated structure need avail) =
     ''buffer too small for '' @ structure @ '': need '' @ fmt_dec need @ '' bytes, have '' @ fmt_dec avail"
| "error_to_string (ErrBadMagic offset bs le be) =
     ''bad UFS superblock magic at offset '' @ fmt_dec offset @ '': bytes '' @ fmt_bytes bs
     @ '' (LE '' @ fmt_010x le @ '', BE '' @ fmt_010x be
     @ ''); expected UFS1 0x00011954 or UFS2 0x19540119''"
| "error_to_string (ErrBadCgMagic found e) =
     ''bad cylinder-group magic: found '' @ fmt_010x found @ '' (endian '' @ fmt_endian e
     @ ''), expected 0x00090255''"
| "error_to_string (ErrImpossibleGeometry field value limit) =
     ''impossible geometry: '' @ field @ '' = '' @ fmt_dec (unat value) @ '' exceeds bound ''
     @ fmt_dec (unat limit)"
| "error_to_string (ErrInodeOutOfRange ino count) =
     ''inode '' @ fmt_dec (unat ino) @ '' out of range: filesystem has '' @ fmt_dec (unat count)
     @ '' inodes (0..'' @ fmt_dec (unat count) @ '')''"

end
