(* ===== verification/UfsSuperblock.thy ===== *)
theory UfsSuperblock
  imports UfsError
begin

text \<open>
  \<open>core/src/superblock.rs\<close>: version and byte-order detection from the magic, the decoding of the
  geometry, its validation, and the derived accessors. \<open>sb_write\<close> is the on-disk layout as a
  writer: the same fields at the same offsets. The lemmas show that \<open>sb_parse\<close> accepts exactly the
  buffers that are such a layout of a valid superblock, and which error the others give.
\<close>

section \<open>Constants and types\<close>

definition FS_UFS1_MAGIC :: u32 where [sb_consts]: "FS_UFS1_MAGIC = 0x00011954"
definition FS_UFS2_MAGIC :: u32 where [sb_consts]: "FS_UFS2_MAGIC = 0x19540119"
definition SBLOCK_UFS1 :: usize where [sb_consts]: "SBLOCK_UFS1 = 8192"
definition SBLOCK_UFS2 :: usize where [sb_consts]: "SBLOCK_UFS2 = 65536"
definition UFS_ROOTINO :: u64 where [sb_consts]: "UFS_ROOTINO = 2"
definition FS_MAGIC_OFF :: usize where [sb_consts]: "FS_MAGIC_OFF = 1372"
definition SB_MIN_LEN :: usize where [sb_consts]: "SB_MIN_LEN = 1376"

definition OFF_SBLKNO :: usize where [sb_consts]: "OFF_SBLKNO = 8"
definition OFF_CBLKNO :: usize where [sb_consts]: "OFF_CBLKNO = 12"
definition OFF_IBLKNO :: usize where [sb_consts]: "OFF_IBLKNO = 16"
definition OFF_DBLKNO :: usize where [sb_consts]: "OFF_DBLKNO = 20"
definition OFF_OLD_SIZE :: usize where [sb_consts]: "OFF_OLD_SIZE = 36"
definition OFF_OLD_DSIZE :: usize where [sb_consts]: "OFF_OLD_DSIZE = 40"
definition OFF_NCG :: usize where [sb_consts]: "OFF_NCG = 44"
definition OFF_BSIZE :: usize where [sb_consts]: "OFF_BSIZE = 48"
definition OFF_FSIZE :: usize where [sb_consts]: "OFF_FSIZE = 52"
definition OFF_FRAG :: usize where [sb_consts]: "OFF_FRAG = 56"
definition OFF_BSHIFT :: usize where [sb_consts]: "OFF_BSHIFT = 80"
definition OFF_FSHIFT :: usize where [sb_consts]: "OFF_FSHIFT = 84"
definition OFF_FRAGSHIFT :: usize where [sb_consts]: "OFF_FRAGSHIFT = 96"
definition OFF_FSBTODB :: usize where [sb_consts]: "OFF_FSBTODB = 100"
definition OFF_SBSIZE :: usize where [sb_consts]: "OFF_SBSIZE = 104"
definition OFF_NINDIR :: usize where [sb_consts]: "OFF_NINDIR = 116"
definition OFF_INOPB :: usize where [sb_consts]: "OFF_INOPB = 120"
definition OFF_IPG :: usize where [sb_consts]: "OFF_IPG = 184"
definition OFF_FPG :: usize where [sb_consts]: "OFF_FPG = 188"
definition OFF_SIZE :: usize where [sb_consts]: "OFF_SIZE = 1080"
definition OFF_DSIZE :: usize where [sb_consts]: "OFF_DSIZE = 1088"
definition OFF_CSADDR :: usize where [sb_consts]: "OFF_CSADDR = 1096"
definition OFF_SBLOCKLOC :: usize where [sb_consts]: "OFF_SBLOCKLOC = 1000"
definition OFF_MAXSYMLINKLEN :: usize where [sb_consts]: "OFF_MAXSYMLINKLEN = 1320"

datatype ufs_version = Ufs1 | Ufs2

record superblock =
  sb_version :: ufs_version
  sb_endian :: endian
  sb_sblkno :: i32
  sb_cblkno :: i32
  sb_iblkno :: i32
  sb_dblkno :: i32
  sb_ncg :: u32
  sb_bsize :: i32
  sb_fsize :: i32
  sb_frag :: i32
  sb_bshift :: i32
  sb_fshift :: i32
  sb_fragshift :: i32
  sb_fsbtodb :: i32
  sb_sbsize :: i32
  sb_nindir :: i32
  sb_inopb :: u32
  sb_ipg :: i32
  sb_fpg :: i32
  sb_size :: i64
  sb_dsize :: i64
  sb_csaddr :: i64
  sb_sblockloc :: i64
  sb_maxsymlinklen :: i32

section \<open>Validation of the geometry\<close>

definition MAX_NCG :: u64 where [sb_consts]: "MAX_NCG = push_bit 24 1"

definition sb_validate_geometry :: "superblock \<Rightarrow> ufs_error + unit" where
  "sb_validate_geometry sb =
     (if sint (sb_bsize sb) \<le> 0 \<or> sint (sb_bsize sb) > 65536
      then Inl (ErrImpossibleGeometry ''fs_bsize'' (scast (sb_bsize sb)) 65536)
      else if sint (sb_fsize sb) \<le> 0 \<or> sint (sb_fsize sb) > sint (sb_bsize sb)
      then Inl (ErrImpossibleGeometry ''fs_fsize'' (scast (sb_fsize sb)) (scast (sb_bsize sb)))
      else if ucast (sb_ncg sb) > MAX_NCG
      then Inl (ErrImpossibleGeometry ''fs_ncg'' (ucast (sb_ncg sb)) MAX_NCG)
      else Inr ())"

section \<open>Parsing\<close>

text \<open>The match on \<open>(le, be)\<close>: both byte orders against both magics, in the order of the source.\<close>

definition sb_detect :: "u32 \<Rightarrow> u32 \<Rightarrow> (ufs_version \<times> endian) option" where
  "sb_detect le be =
     (if le = FS_UFS1_MAGIC then Some (Ufs1, Little)
      else if le = FS_UFS2_MAGIC then Some (Ufs2, Little)
      else if be = FS_UFS1_MAGIC then Some (Ufs1, Big)
      else if be = FS_UFS2_MAGIC then Some (Ufs2, Big)
      else None)"

definition sb_magic_bytes :: "bytes \<Rightarrow> bytes" where
  "sb_magic_bytes data =
     [u8_at data FS_MAGIC_OFF, u8_at data (FS_MAGIC_OFF + 1),
      u8_at data (FS_MAGIC_OFF + 2), u8_at data (FS_MAGIC_OFF + 3)]"

text \<open>The geometry in the resolved byte order.\<close>

definition sb_decode :: "bytes \<Rightarrow> ufs_version \<Rightarrow> endian \<Rightarrow> superblock" where
  "sb_decode data version e =
     \<lparr> sb_version = version,
       sb_endian = e,
       sb_sblkno = endian_i32 e data OFF_SBLKNO,
       sb_cblkno = endian_i32 e data OFF_CBLKNO,
       sb_iblkno = endian_i32 e data OFF_IBLKNO,
       sb_dblkno = endian_i32 e data OFF_DBLKNO,
       sb_ncg = endian_u32 e data OFF_NCG,
       sb_bsize = endian_i32 e data OFF_BSIZE,
       sb_fsize = endian_i32 e data OFF_FSIZE,
       sb_frag = endian_i32 e data OFF_FRAG,
       sb_bshift = endian_i32 e data OFF_BSHIFT,
       sb_fshift = endian_i32 e data OFF_FSHIFT,
       sb_fragshift = endian_i32 e data OFF_FRAGSHIFT,
       sb_fsbtodb = endian_i32 e data OFF_FSBTODB,
       sb_sbsize = endian_i32 e data OFF_SBSIZE,
       sb_nindir = endian_i32 e data OFF_NINDIR,
       sb_inopb = endian_u32 e data OFF_INOPB,
       sb_ipg = endian_i32 e data OFF_IPG,
       sb_fpg = endian_i32 e data OFF_FPG,
       sb_size = (case version of
           Ufs1 \<Rightarrow> scast (endian_i32 e data OFF_OLD_SIZE)
         | Ufs2 \<Rightarrow> endian_i64 e data OFF_SIZE),
       sb_dsize = (case version of
           Ufs1 \<Rightarrow> scast (endian_i32 e data OFF_OLD_DSIZE)
         | Ufs2 \<Rightarrow> endian_i64 e data OFF_DSIZE),
       sb_csaddr = endian_i64 e data OFF_CSADDR,
       sb_sblockloc = (case version of Ufs1 \<Rightarrow> 0 | Ufs2 \<Rightarrow> endian_i64 e data OFF_SBLOCKLOC),
       sb_maxsymlinklen = endian_i32 e data OFF_MAXSYMLINKLEN \<rparr>"

definition sb_parse :: "bytes \<Rightarrow> ufs_error + superblock" where
  "sb_parse data =
     (if length data < SB_MIN_LEN
      then Inl (ErrTruncated ''superblock'' SB_MIN_LEN (length data))
      else
        let bs = sb_magic_bytes data;
            le = from_le bs;
            be = from_be bs
        in case sb_detect le be of
             None \<Rightarrow> Inl (ErrBadMagic FS_MAGIC_OFF bs le be)
           | Some (version, e) \<Rightarrow>
               (let sb = sb_decode data version e
                in try_bind (sb_validate_geometry sb) (\<lambda>_. Inr sb)))"

section \<open>Derived accessors\<close>

definition sb_inode_size :: "superblock \<Rightarrow> u32" where
  "sb_inode_size sb = (case sb_version sb of Ufs1 \<Rightarrow> 128 | Ufs2 \<Rightarrow> 256)"

definition sb_primary_offset :: "superblock \<Rightarrow> usize" where
  "sb_primary_offset sb = (case sb_version sb of Ufs1 \<Rightarrow> SBLOCK_UFS1 | Ufs2 \<Rightarrow> SBLOCK_UFS2)"

section \<open>The on-disk layout\<close>

definition magic_of :: "ufs_version \<Rightarrow> u32" where
  "magic_of v = (case v of Ufs1 \<Rightarrow> FS_UFS1_MAGIC | Ufs2 \<Rightarrow> FS_UFS2_MAGIC)"

definition sb_common_fields :: "superblock \<Rightarrow> (nat \<times> bytes) list" where
  "sb_common_fields sb = (let e = sb_endian sb in
     [(OFF_NCG, endian_bytes e (sb_ncg sb)), (OFF_BSIZE, endian_bytes e (sb_bsize sb)),
      (OFF_FSIZE, endian_bytes e (sb_fsize sb)), (OFF_FRAG, endian_bytes e (sb_frag sb)),
      (OFF_BSHIFT, endian_bytes e (sb_bshift sb)), (OFF_FSHIFT, endian_bytes e (sb_fshift sb)),
      (OFF_FRAGSHIFT, endian_bytes e (sb_fragshift sb)),
      (OFF_FSBTODB, endian_bytes e (sb_fsbtodb sb)), (OFF_SBSIZE, endian_bytes e (sb_sbsize sb)),
      (OFF_NINDIR, endian_bytes e (sb_nindir sb)), (OFF_INOPB, endian_bytes e (sb_inopb sb)),
      (OFF_IPG, endian_bytes e (sb_ipg sb)), (OFF_FPG, endian_bytes e (sb_fpg sb))])"

definition sb_fields :: "superblock \<Rightarrow> (nat \<times> bytes) list" where
  "sb_fields sb = (let e = sb_endian sb in
     [(OFF_SBLKNO, endian_bytes e (sb_sblkno sb)), (OFF_CBLKNO, endian_bytes e (sb_cblkno sb)),
      (OFF_IBLKNO, endian_bytes e (sb_iblkno sb)), (OFF_DBLKNO, endian_bytes e (sb_dblkno sb))]
     @ (case sb_version sb of
          Ufs1 \<Rightarrow> [(OFF_OLD_SIZE, endian_bytes e (ucast (sb_size sb) :: i32)),
                  (OFF_OLD_DSIZE, endian_bytes e (ucast (sb_dsize sb) :: i32))]
        | Ufs2 \<Rightarrow> [])
     @ sb_common_fields sb
     @ (case sb_version sb of
          Ufs1 \<Rightarrow> []
        | Ufs2 \<Rightarrow> [(OFF_SBLOCKLOC, endian_bytes e (sb_sblockloc sb)),
                  (OFF_SIZE, endian_bytes e (sb_size sb)), (OFF_DSIZE, endian_bytes e (sb_dsize sb))])
     @ [(OFF_CSADDR, endian_bytes e (sb_csaddr sb)),
        (OFF_MAXSYMLINKLEN, endian_bytes e (sb_maxsymlinklen sb)),
        (FS_MAGIC_OFF, endian_bytes e (magic_of (sb_version sb)))])"

definition sb_write :: "superblock \<Rightarrow> bytes \<Rightarrow> bytes" where
  "sb_write sb d = patch d (sb_fields sb)"

text \<open>What a parsed superblock satisfies.\<close>

definition wf_geometry :: "superblock \<Rightarrow> bool" where
  "wf_geometry sb \<longleftrightarrow>
     0 < sint (sb_bsize sb) \<and> sint (sb_bsize sb) \<le> 65536 \<and>
     0 < sint (sb_fsize sb) \<and> sint (sb_fsize sb) \<le> sint (sb_bsize sb) \<and>
     unat (sb_ncg sb) \<le> 2 ^ 24"

definition wf_superblock :: "superblock \<Rightarrow> bool" where
  "wf_superblock sb \<longleftrightarrow> wf_geometry sb \<and>
     (case sb_version sb of
        Ufs1 \<Rightarrow> sb_sblockloc sb = 0 \<and>
                scast (ucast (sb_size sb) :: i32) = sb_size sb \<and>
                scast (ucast (sb_dsize sb) :: i32) = sb_dsize sb
      | Ufs2 \<Rightarrow> True)"

lemma validate_Inr: "sb_validate_geometry sb = Inr u \<longleftrightarrow> wf_geometry sb"
proof -
  have "ucast (sb_ncg sb) > MAX_NCG \<longleftrightarrow> unat (sb_ncg sb) > 2 ^ 24"
    by (simp add: word_less_nat_alt MAX_NCG_def)
  then show ?thesis
    by (auto simp: sb_validate_geometry_def wf_geometry_def)
qed

section \<open>Detection\<close>

lemma word4_cases: "length bs = 4 \<longleftrightarrow> (\<exists>a b c d. bs = [a, b, c, d])"
  by (auto simp: length_Suc_conv numeral_eq_Suc)

lemma magic_bytes [simp]:
  "endian_bytes Little FS_UFS1_MAGIC = [0x54, 0x19, 0x01, 0x00]"
  "endian_bytes Little FS_UFS2_MAGIC = [0x19, 0x01, 0x54, 0x19]"
  "endian_bytes Big FS_UFS1_MAGIC = [0x00, 0x01, 0x19, 0x54]"
  "endian_bytes Big FS_UFS2_MAGIC = [0x19, 0x54, 0x01, 0x19]"
  by (simp_all add: endian_bytes_def word_to_be_def word_to_le_def sb_consts)

text \<open>
  The four byte patterns of the magics are pairwise distinct, so at most one pair of version and
  byte order matches and the order of the tests does not matter.
\<close>

lemma from_le_eq_iff: "length bs = 4 \<Longrightarrow> from_le bs = (w :: u32) \<longleftrightarrow> bs = word_to_le w"
  using to_le_from_le [where 'a = 32, of bs] from_le_to_le [where 'a = 32 and n = 4, of w] by auto

lemma from_be_eq_iff: "length bs = 4 \<Longrightarrow> from_be bs = (w :: u32) \<longleftrightarrow> bs = word_to_be w"
  using to_be_from_be [where 'a = 32, of bs] from_be_to_be [where 'a = 32 and n = 4, of w] by auto

lemma sb_detect_iff:
  assumes "length bs = 4"
  shows "sb_detect (from_le bs) (from_be bs) = Some (v, e) \<longleftrightarrow> bs = endian_bytes e (magic_of v)"
proof -
  have m: "from_le bs = (w :: u32) \<longleftrightarrow> bs = endian_bytes Little w"
    "from_be bs = (w :: u32) \<longleftrightarrow> bs = endian_bytes Big w" for w
    using assms by (simp_all add: from_le_eq_iff from_be_eq_iff endian_bytes_def)
  show ?thesis
    by (cases v; cases e) (auto simp: sb_detect_def m magic_of_def)
qed

section \<open>Reading what the layout writes\<close>

lemmas sb_fields_defs = sb_fields_def sb_common_fields_def Let_def

lemma sb_fields_ordered: "ordered_fields (sb_fields sb)"
  by (cases "sb_version sb") (simp_all add: sb_fields_defs ordered_fields_def sb_consts)

lemma sb_fields_bounds: "(off, b) \<in> set (sb_fields sb) \<Longrightarrow> off + length b \<le> SB_MIN_LEN"
  by (cases "sb_version sb") (auto simp: sb_fields_defs sb_consts)

lemma length_sb_write [simp]: "length (sb_write sb d) = length d"
  by (simp add: sb_write_def)

interpretation sb_layout: record_layout sb_fields "\<lambda>_. SB_MIN_LEN"
  by unfold_locales (simp_all only: sb_fields_ordered sb_fields_bounds, simp add: sb_consts)

lemma sb_write_get:
  "SB_MIN_LEN \<le> length d \<Longrightarrow> (off, b) \<in> set (sb_fields sb) \<Longrightarrow> slice_get (sb_write sb d) off (off + length b) = Some b"
  unfolding sb_write_def by (rule sb_layout.get)

lemma sb_write_read:
  "SB_MIN_LEN \<le> length d \<Longrightarrow> (off, endian_bytes e w) \<in> set (sb_fields sb) \<Longrightarrow> endian_i32 e (sb_write sb d) off = w"
  unfolding sb_write_def by (rule sb_layout.reads(4))

lemma sb_write_read64:
  "SB_MIN_LEN \<le> length d \<Longrightarrow> (off, endian_bytes e w) \<in> set (sb_fields sb) \<Longrightarrow> endian_i64 e (sb_write sb d) off = w"
  unfolding sb_write_def by (rule sb_layout.reads(5))

lemma sb_magic_bytes_slice:
  assumes "SB_MIN_LEN \<le> length d"
  shows "slice_get d FS_MAGIC_OFF (FS_MAGIC_OFF + 4) = Some (sb_magic_bytes d)"
proof -
  have "FS_MAGIC_OFF + 4 \<le> length d" using assms by (simp add: sb_consts)
  from take4_drop [OF this] this show ?thesis
    by (simp add: slice_get_def sb_magic_bytes_def u8_at_def)
qed

lemma length_sb_magic_bytes [simp]: "length (sb_magic_bytes d) = 4"
  by (simp add: sb_magic_bytes_def)

lemma sb_detect_magic:
  "sb_detect (from_le (sb_magic_bytes d)) (from_be (sb_magic_bytes d)) = Some (v, e)
     \<longleftrightarrow> sb_magic_bytes d = endian_bytes e (magic_of v)"
  by (rule sb_detect_iff) simp

text \<open>The layout of a valid superblock parses back to it, whatever the buffer held before.\<close>

lemma sb_decode_fields:
  assumes "SB_MIN_LEN \<le> length d"
    and "sb_version sb = Ufs1 \<Longrightarrow> sb_sblockloc sb = 0 \<and>
      scast (ucast (sb_size sb) :: i32) = sb_size sb \<and> scast (ucast (sb_dsize sb) :: i32) = sb_dsize sb"
  shows "sb_decode (sb_write sb d) (sb_version sb) (sb_endian sb) = sb"
proof (cases "sb_version sb")
  case Ufs1
  with assms(2) have "sb_sblockloc sb = 0" "scast (ucast (sb_size sb) :: i32) = sb_size sb"
    "scast (ucast (sb_dsize sb) :: i32) = sb_dsize sb"
    by simp_all
  note uf = this
  have old: "endian_i32 (sb_endian sb) (sb_write sb d) OFF_OLD_SIZE = ucast (sb_size sb)"
    "endian_i32 (sb_endian sb) (sb_write sb d) OFF_OLD_DSIZE = ucast (sb_dsize sb)"
    by (rule sb_write_read [OF assms(1)], simp add: sb_fields_defs Ufs1)+
  show ?thesis using assms(1) Ufs1 uf
    by (intro superblock.equality)
      (simp_all add: sb_decode_def old sb_write_read sb_write_read64 sb_fields_defs
        flip: endian_i32_def)
next
  case Ufs2
  with assms(1) show ?thesis
    by (intro superblock.equality)
      (simp_all add: sb_decode_def sb_write_read sb_write_read64 sb_fields_defs
        flip: endian_i32_def)
qed

lemma sb_parse_fields:
  assumes "SB_MIN_LEN \<le> length d"
    and "sb_version sb = Ufs1 \<Longrightarrow> sb_sblockloc sb = 0 \<and>
      scast (ucast (sb_size sb) :: i32) = sb_size sb \<and> scast (ucast (sb_dsize sb) :: i32) = sb_dsize sb"
  shows "sb_parse (sb_write sb d) = try_bind (sb_validate_geometry sb) (\<lambda>_. Inr sb)"
proof -
  have "(FS_MAGIC_OFF, endian_bytes (sb_endian sb) (magic_of (sb_version sb))) \<in> set (sb_fields sb)"
    by (simp add: sb_fields_defs)
  from sb_write_get [OF assms(1) this] sb_magic_bytes_slice [of "sb_write sb d"] assms(1)
  have "sb_magic_bytes (sb_write sb d) = endian_bytes (sb_endian sb) (magic_of (sb_version sb))"
    by simp
  then have "sb_detect (from_le (sb_magic_bytes (sb_write sb d))) (from_be (sb_magic_bytes (sb_write sb d)))
      = Some (sb_version sb, sb_endian sb)"
    by (rule sb_detect_magic [THEN iffD2])
  then show ?thesis
    using assms by (simp add: sb_parse_def sb_decode_fields [OF assms] not_less)
qed

lemma sb_parse_write:
  assumes "SB_MIN_LEN \<le> length d" and "wf_superblock sb"
  shows "sb_parse (sb_write sb d) = Inr sb"
proof -
  have "sb_validate_geometry sb = Inr ()"
    using assms(2) by (simp add: validate_Inr wf_superblock_def)
  then show ?thesis
    using assms(2) by (subst sb_parse_fields [OF assms(1)]) (simp_all add: wf_superblock_def)
qed

section \<open>What is accepted\<close>

lemma sb_parse_InrD:
  assumes "sb_parse d = Inr sb"
  shows "SB_MIN_LEN \<le> length d"
    and "sb_magic_bytes d = endian_bytes (sb_endian sb) (magic_of (sb_version sb))"
    and "sb = sb_decode d (sb_version sb) (sb_endian sb)"
    and "wf_geometry sb"
proof -
  show len: "SB_MIN_LEN \<le> length d"
    using assms by (auto simp: sb_parse_def split: if_splits)
  then obtain v e where det: "sb_detect (from_le (sb_magic_bytes d)) (from_be (sb_magic_bytes d)) = Some (v, e)"
    and sb: "sb = sb_decode d v e" and ok: "sb_validate_geometry sb = Inr ()"
    using assms by (auto simp: sb_parse_def Let_def try_bind_Inr_iff split: if_splits option.splits)
  have "sb_version sb = v" "sb_endian sb = e" by (simp_all add: sb sb_decode_def)
  then show "sb = sb_decode d (sb_version sb) (sb_endian sb)"
    and "sb_magic_bytes d = endian_bytes (sb_endian sb) (magic_of (sb_version sb))"
    using sb det by (simp_all only: sb_detect_magic)
  show "wf_geometry sb" using ok by (simp add: validate_Inr)
qed

lemma ucast_scast_i32: "ucast (scast (w :: i32) :: i64) = w"
  by (rule bit_word_eqI) (simp add: bit_ucast_iff bit_word_scast_iff)

lemma sb_parse_wf:
  assumes "sb_parse d = Inr sb"
  shows "wf_superblock sb"
proof -
  obtain v e where "sb = sb_decode d v e" using sb_parse_InrD(3) [OF assms] by blast
  then show ?thesis using sb_parse_InrD(4) [OF assms]
    by (cases v) (simp_all add: wf_superblock_def sb_decode_def ucast_scast_i32)
qed

text \<open>A field of a buffer that is decoded and written back leaves the buffer as it was.\<close>

lemma sb_field_same:
  assumes "SB_MIN_LEN \<le> length d" and "off + 4 \<le> SB_MIN_LEN"
  shows "slice_get d off (off + 4) = Some (endian_bytes e (endian_i32 e d off))"
  using assms by (intro ei32.enc_rd_at) (simp_all add: sb_consts)

lemma sb_field_same64:
  assumes "SB_MIN_LEN \<le> length d" and "off + 8 \<le> SB_MIN_LEN"
  shows "slice_get d off (off + 8) = Some (endian_bytes e (endian_i64 e d off))"
  using assms by (intro ei64.enc_rd_at) (simp_all add: sb_consts)

lemma sb_offset_bounds:
  "OFF_SBLKNO + 4 \<le> SB_MIN_LEN" "OFF_CBLKNO + 4 \<le> SB_MIN_LEN" "OFF_IBLKNO + 4 \<le> SB_MIN_LEN"
  "OFF_DBLKNO + 4 \<le> SB_MIN_LEN" "OFF_OLD_SIZE + 4 \<le> SB_MIN_LEN" "OFF_OLD_DSIZE + 4 \<le> SB_MIN_LEN"
  "OFF_NCG + 4 \<le> SB_MIN_LEN" "OFF_BSIZE + 4 \<le> SB_MIN_LEN" "OFF_FSIZE + 4 \<le> SB_MIN_LEN"
  "OFF_FRAG + 4 \<le> SB_MIN_LEN" "OFF_BSHIFT + 4 \<le> SB_MIN_LEN" "OFF_FSHIFT + 4 \<le> SB_MIN_LEN"
  "OFF_FRAGSHIFT + 4 \<le> SB_MIN_LEN" "OFF_FSBTODB + 4 \<le> SB_MIN_LEN" "OFF_SBSIZE + 4 \<le> SB_MIN_LEN"
  "OFF_NINDIR + 4 \<le> SB_MIN_LEN" "OFF_INOPB + 4 \<le> SB_MIN_LEN" "OFF_IPG + 4 \<le> SB_MIN_LEN"
  "OFF_FPG + 4 \<le> SB_MIN_LEN" "OFF_MAXSYMLINKLEN + 4 \<le> SB_MIN_LEN"
  "OFF_SIZE + 8 \<le> SB_MIN_LEN" "OFF_DSIZE + 8 \<le> SB_MIN_LEN"
  "OFF_CSADDR + 8 \<le> SB_MIN_LEN" "OFF_SBLOCKLOC + 8 \<le> SB_MIN_LEN"
  by (simp_all add: sb_consts)

lemma sb_write_parse:
  assumes "sb_parse d = Inr sb"
  shows "sb_write sb d = d"
proof -
  note P = sb_parse_InrD [OF assms]
  obtain v e where sb: "sb = sb_decode d v e" using P(3) by blast
  have magic: "slice_get d FS_MAGIC_OFF (FS_MAGIC_OFF + 4) = Some (endian_bytes e (magic_of v))"
    using sb_magic_bytes_slice [OF P(1)] P(2) by (simp add: sb sb_decode_def)
  have "\<forall>(off, b) \<in> set (sb_fields sb). slice_get d off (off + length b) = Some b"
    using P(1) by (cases v) (simp_all add: sb sb_fields_defs sb_decode_def magic
      sb_field_same sb_field_same64 sb_offset_bounds ucast_scast_i32 flip: endian_i32_def)
  then show ?thesis unfolding sb_write_def by (rule patch_id)
qed

section \<open>Properties\<close>

text \<open>A small valid superblock, for the concrete instances of the properties.\<close>

definition tiny_sb :: superblock where
  "tiny_sb = \<lparr> sb_version = Ufs2, sb_endian = Little, sb_sblkno = 1, sb_cblkno = 2, sb_iblkno = 3,
     sb_dblkno = 4, sb_ncg = 1, sb_bsize = 16, sb_fsize = 8, sb_frag = 2, sb_bshift = 4, sb_fshift = 3,
     sb_fragshift = 1, sb_fsbtodb = 0, sb_sbsize = 1376, sb_nindir = 2, sb_inopb = 1, sb_ipg = 4,
     sb_fpg = 64, sb_size = 64, sb_dsize = 60, sb_csaddr = 0, sb_sblockloc = 65536,
     sb_maxsymlinklen = 120 \<rparr>"

lemma tiny_sb_wf: "wf_superblock tiny_sb"
  by (simp add: tiny_sb_def wf_superblock_def wf_geometry_def)

lemma tiny_sb_parse: "sb_parse (sb_write tiny_sb (replicate 1376 0)) = Inr tiny_sb"
  using tiny_sb_wf by (intro sb_parse_write) (simp_all add: sb_consts)

text \<open>
  C13. The superblock parser accepts exactly the on-disk layouts of valid superblocks: a buffer
  parses to \<open>sb\<close> if and only if it is long enough, \<open>sb\<close> is valid, and writing the fields of \<open>sb\<close>
  over the buffer changes nothing.
\<close>

theorem sb_parse_exact:
  "sb_parse d = Inr sb \<longleftrightarrow> SB_MIN_LEN \<le> length d \<and> wf_superblock sb \<and> sb_write sb d = d"
proof
  assume "sb_parse d = Inr sb"
  then show "SB_MIN_LEN \<le> length d \<and> wf_superblock sb \<and> sb_write sb d = d"
    using sb_parse_InrD(1) sb_parse_wf sb_write_parse by blast
next
  assume "SB_MIN_LEN \<le> length d \<and> wf_superblock sb \<and> sb_write sb d = d"
  then show "sb_parse d = Inr sb" using sb_parse_write [of d sb] by simp
qed

text \<open>
  C33. Every rejection has its reason: a short buffer is \<open>Truncated\<close>; a full one whose four magic
  bytes are none of the four patterns is \<open>BadMagic\<close> and carries those bytes; a full one with a magic
  is rejected only for a block size, fragment size or group count out of bounds, and the error names
  the first of them.
\<close>

theorem sb_parse_errors:
  "sb_parse d = Inl e \<longleftrightarrow>
     (if length d < SB_MIN_LEN then e = ErrTruncated ''superblock'' SB_MIN_LEN (length d)
      else let bs = take 4 (drop FS_MAGIC_OFF d) in
        (if \<nexists>v en. bs = endian_bytes en (magic_of v)
         then e = ErrBadMagic FS_MAGIC_OFF bs (from_le bs) (from_be bs)
         else \<exists>v en. bs = endian_bytes en (magic_of v) \<and>
           (let sb = sb_decode d v en in \<not> wf_geometry sb \<and>
             e = (if sint (sb_bsize sb) \<le> 0 \<or> 65536 < sint (sb_bsize sb)
                  then ErrImpossibleGeometry ''fs_bsize'' (scast (sb_bsize sb)) 65536
                  else if sint (sb_fsize sb) \<le> 0 \<or> sint (sb_bsize sb) < sint (sb_fsize sb)
                  then ErrImpossibleGeometry ''fs_fsize'' (scast (sb_fsize sb)) (scast (sb_bsize sb))
                  else ErrImpossibleGeometry ''fs_ncg'' (ucast (sb_ncg sb)) (2 ^ 24)))))"
proof (cases "length d < SB_MIN_LEN")
  case True
  then show ?thesis by (auto simp: sb_parse_def)
next
  case False
  let ?bs = "sb_magic_bytes d"
  have bs: "take 4 (drop FS_MAGIC_OFF d) = ?bs"
    using sb_magic_bytes_slice [of d] False by (simp add: slice_get_Some_iff)
  have mx: "MAX_NCG = 2 ^ 24" by (simp add: MAX_NCG_def)
  have val: "sb_validate_geometry sb = Inl e \<longleftrightarrow> \<not> wf_geometry sb \<and>
      e = (if sint (sb_bsize sb) \<le> 0 \<or> 65536 < sint (sb_bsize sb)
           then ErrImpossibleGeometry ''fs_bsize'' (scast (sb_bsize sb)) 65536
           else if sint (sb_fsize sb) \<le> 0 \<or> sint (sb_bsize sb) < sint (sb_fsize sb)
           then ErrImpossibleGeometry ''fs_fsize'' (scast (sb_fsize sb)) (scast (sb_bsize sb))
           else ErrImpossibleGeometry ''fs_ncg'' (ucast (sb_ncg sb)) (2 ^ 24))" for sb
    using validate_Inr [of sb] by (auto simp: sb_validate_geometry_def mx simp del: power_numeral)
  show ?thesis
  proof (cases "sb_detect (from_le ?bs) (from_be ?bs)")
    case None
    then have "\<nexists>v en. ?bs = endian_bytes en (magic_of v)" using sb_detect_magic [of d] by auto
    then show ?thesis using None False by (auto simp: sb_parse_def Let_def bs)
  next
    case (Some p)
    obtain v en where p: "p = (v, en)" by (cases p)
    have uniq: "?bs = endian_bytes en' (magic_of v') \<longleftrightarrow> v' = v \<and> en' = en" for v' en'
      using sb_detect_magic [of d v' en'] Some p by auto
    have "sb_parse d = Inl e \<longleftrightarrow> sb_validate_geometry (sb_decode d v en) = Inl e"
      using False Some p by (simp add: sb_parse_def Let_def try_bind_Inl_iff)
    then show ?thesis using False by (simp add: bs uniq Let_def val)
  qed
qed

text \<open>
  Detection is unambiguous: for any four magic bytes the detected version and byte order are those
  whose layout holds exactly these bytes, and no bytes are the layout of two different pairs, so the
  order of the tests does not matter.
\<close>

lemma sb_detect_unambiguous:
  assumes "length bs = 4"
  shows "(sb_detect (from_le bs) (from_be bs) = Some (v, e) \<longleftrightarrow> bs = endian_bytes e (magic_of v))
    \<and> (bs = endian_bytes e (magic_of v) \<and> bs = endian_bytes e' (magic_of v') \<longrightarrow> v = v' \<and> e = e')"
proof
  show "sb_detect (from_le bs) (from_be bs) = Some (v, e) \<longleftrightarrow> bs = endian_bytes e (magic_of v)"
    by (rule sb_detect_iff [OF assms])
  show "bs = endian_bytes e (magic_of v) \<and> bs = endian_bytes e' (magic_of v') \<longrightarrow> v = v' \<and> e = e'"
    by (cases v; cases e; cases v'; cases e') (simp_all add: magic_of_def)
qed

lemma sb_detect_unambiguous_witness:
  "sb_detect (from_le [0x00, 0x01, 0x19, 0x54]) (from_be [0x00, 0x01, 0x19, 0x54]) = Some (Ufs1, Big)"
  using sb_detect_unambiguous [of "[0x00, 0x01, 0x19, 0x54]" Ufs1 Big] by (simp add: magic_of_def)

end
