(* ===== verification/UfsCg.thy ===== *)
theory UfsCg
  imports UfsSuperblock
begin

text \<open>
  \<open>core/src/cg.rs\<close>: the cylinder-group header. As for the superblock, \<open>cg_write\<close> is the layout as a
  writer, and parsing accepts exactly the buffers that are such a layout in the given byte order.
\<close>

definition CG_MAGIC :: u32 where [sb_consts]: "CG_MAGIC = 0x00090255"
definition OFF_MAGIC :: usize where [sb_consts]: "OFF_MAGIC = 4"
definition OFF_CGX :: usize where [sb_consts]: "OFF_CGX = 12"
definition OFF_NDBLK :: usize where [sb_consts]: "OFF_NDBLK = 20"
definition OFF_IUSEDOFF :: usize where [sb_consts]: "OFF_IUSEDOFF = 92"
definition OFF_FREEOFF :: usize where [sb_consts]: "OFF_FREEOFF = 96"
definition OFF_CLUSTEROFF :: usize where [sb_consts]: "OFF_CLUSTEROFF = 108"
definition OFF_NIBLK :: usize where [sb_consts]: "OFF_NIBLK = 116"
definition OFF_INITEDIBLK :: usize where [sb_consts]: "OFF_INITEDIBLK = 120"
definition CG_MIN_LEN :: usize where [sb_consts]: "CG_MIN_LEN = 124"

record cylinder_group =
  cg_cgx :: u32
  cg_ndblk :: u32
  cg_niblk :: i32
  cg_initediblk :: u32
  cg_iusedoff :: u32
  cg_freeoff :: u32
  cg_clusteroff :: u32

definition cg_parse :: "bytes \<Rightarrow> endian \<Rightarrow> ufs_error + cylinder_group" where
  "cg_parse data e =
     (if length data < CG_MIN_LEN
      then Inl (ErrTruncated ''cylinder group'' CG_MIN_LEN (length data))
      else
        let magic = endian_u32 e data OFF_MAGIC
        in if magic \<noteq> CG_MAGIC then Inl (ErrBadCgMagic magic e)
           else Inr
             \<lparr> cg_cgx = endian_u32 e data OFF_CGX,
               cg_ndblk = endian_u32 e data OFF_NDBLK,
               cg_niblk = endian_i32 e data OFF_NIBLK,
               cg_initediblk = endian_u32 e data OFF_INITEDIBLK,
               cg_iusedoff = endian_u32 e data OFF_IUSEDOFF,
               cg_freeoff = endian_u32 e data OFF_FREEOFF,
               cg_clusteroff = endian_u32 e data OFF_CLUSTEROFF \<rparr>)"

text \<open>\<open>inosused_off\<close> and \<open>blksfree_off\<close>: the header fields \<open>as usize\<close>.\<close>

definition cg_inosused_off :: "cylinder_group \<Rightarrow> usize" where
  "cg_inosused_off cg = unat (cg_iusedoff cg)"

definition cg_blksfree_off :: "cylinder_group \<Rightarrow> usize" where
  "cg_blksfree_off cg = unat (cg_freeoff cg)"

section \<open>The layout\<close>

definition cg_fields :: "endian \<Rightarrow> cylinder_group \<Rightarrow> (nat \<times> bytes) list" where
  "cg_fields e cg =
     [(OFF_MAGIC, endian_bytes e CG_MAGIC), (OFF_CGX, endian_bytes e (cg_cgx cg)),
      (OFF_NDBLK, endian_bytes e (cg_ndblk cg)), (OFF_IUSEDOFF, endian_bytes e (cg_iusedoff cg)),
      (OFF_FREEOFF, endian_bytes e (cg_freeoff cg)),
      (OFF_CLUSTEROFF, endian_bytes e (cg_clusteroff cg)),
      (OFF_NIBLK, endian_bytes e (cg_niblk cg)),
      (OFF_INITEDIBLK, endian_bytes e (cg_initediblk cg))]"

definition cg_write :: "endian \<Rightarrow> cylinder_group \<Rightarrow> bytes \<Rightarrow> bytes" where
  "cg_write e cg d = patch d (cg_fields e cg)"

lemma cg_fields_ordered: "ordered_fields (cg_fields e cg)"
  by (simp add: cg_fields_def ordered_fields_def sb_consts)

lemma cg_fields_bounds: "(off, b) \<in> set (cg_fields e cg) \<Longrightarrow> off + length b \<le> CG_MIN_LEN"
  by (auto simp: cg_fields_def sb_consts)

lemma length_cg_write [simp]: "length (cg_write e cg d) = length d"
  by (simp add: cg_write_def)

interpretation cg_layout: record_layout "cg_fields e" "\<lambda>_. CG_MIN_LEN" for e
  by unfold_locales (simp_all only: cg_fields_ordered cg_fields_bounds, simp add: sb_consts)

lemma cg_write_read:
  "CG_MIN_LEN \<le> length d \<Longrightarrow> (off, endian_bytes e w) \<in> set (cg_fields e cg) \<Longrightarrow> endian_u32 e (cg_write e cg d) off = w"
  unfolding cg_write_def by (rule cg_layout.reads(2))

lemma cg_parse_write:
  assumes "CG_MIN_LEN \<le> length d"
  shows "cg_parse (cg_write e cg d) e = Inr cg"
proof -
  note w = cg_write_read [OF assms]
  have "endian_u32 e (cg_write e cg d) OFF_MAGIC = CG_MAGIC"
    by (rule w) (simp add: cg_fields_def)
  with assms show ?thesis
    by (simp add: cg_parse_def endian_i32_def) (simp add: w cg_fields_def)
qed

lemma cg_offset_bounds:
  "OFF_MAGIC + 4 \<le> CG_MIN_LEN" "OFF_CGX + 4 \<le> CG_MIN_LEN" "OFF_NDBLK + 4 \<le> CG_MIN_LEN"
  "OFF_IUSEDOFF + 4 \<le> CG_MIN_LEN" "OFF_FREEOFF + 4 \<le> CG_MIN_LEN" "OFF_CLUSTEROFF + 4 \<le> CG_MIN_LEN"
  "OFF_NIBLK + 4 \<le> CG_MIN_LEN" "OFF_INITEDIBLK + 4 \<le> CG_MIN_LEN"
  by (simp_all add: sb_consts)

lemma cg_field_same:
  assumes "CG_MIN_LEN \<le> length d" and "off + 4 \<le> CG_MIN_LEN"
  shows "slice_get d off (off + 4) = Some (endian_bytes e (endian_u32 e d off))"
  using assms by (intro eu32.enc_rd_at) (simp_all add: sb_consts)

lemma cg_write_parse:
  assumes "cg_parse d e = Inr cg"
  shows "CG_MIN_LEN \<le> length d" and "cg_write e cg d = d"
proof -
  show len: "CG_MIN_LEN \<le> length d"
    using assms by (auto simp: cg_parse_def split: if_splits)
  have "endian_u32 e d OFF_MAGIC = CG_MAGIC"
    using assms by (auto simp: cg_parse_def Let_def split: if_splits)
  then have "slice_get d OFF_MAGIC (OFF_MAGIC + 4) = Some (endian_bytes e CG_MAGIC)"
    using cg_field_same [OF len, of OFF_MAGIC e] by (simp add: cg_offset_bounds)
  then have "\<forall>(off, b) \<in> set (cg_fields e cg). slice_get d off (off + length b) = Some b"
    using assms len
    by (auto simp: cg_parse_def Let_def cg_fields_def endian_i32_def cg_field_same cg_offset_bounds
        split: if_splits)
  then show "cg_write e cg d = d" unfolding cg_write_def by (rule patch_id)
qed

lemma cg_magic_bytes:
  assumes "CG_MIN_LEN \<le> length d"
  shows "endian_u32 e d OFF_MAGIC = CG_MAGIC
    \<longleftrightarrow> take 4 (drop OFF_MAGIC d) = endian_bytes e CG_MAGIC"
proof
  assume "endian_u32 e d OFF_MAGIC = CG_MAGIC"
  then show "take 4 (drop OFF_MAGIC d) = endian_bytes e CG_MAGIC"
    using cg_field_same [OF assms, of OFF_MAGIC e] by (simp add: cg_offset_bounds slice_get_Some_iff)
next
  assume "take 4 (drop OFF_MAGIC d) = endian_bytes e CG_MAGIC"
  then show "endian_u32 e d OFF_MAGIC = CG_MAGIC"
    using assms by (intro eu32.rd_at) (auto simp: slice_get_def sb_consts)
qed

section \<open>Properties\<close>

text \<open>
  C34. The cylinder-group parser accepts exactly the header layouts in the byte order it is given,
  and rejects every other buffer: a short one as \<open>Truncated\<close>, a full one with the value it found in
  place of the magic.
\<close>

theorem cg_parse_exact:
  "(cg_parse d e = Inr cg \<longleftrightarrow> CG_MIN_LEN \<le> length d \<and> cg_write e cg d = d)
   \<and> cg_parse (cg_write e cg (replicate CG_MIN_LEN 0)) e = Inr cg
   \<and> (cg_parse d e = Inl err \<longleftrightarrow>
        (if length d < CG_MIN_LEN then err = ErrTruncated ''cylinder group'' CG_MIN_LEN (length d)
         else take 4 (drop OFF_MAGIC d) \<noteq> endian_bytes e CG_MAGIC
           \<and> err = ErrBadCgMagic (endian_u32 e d OFF_MAGIC) e))"
proof (intro conjI)
  show "cg_parse d e = Inr cg \<longleftrightarrow> CG_MIN_LEN \<le> length d \<and> cg_write e cg d = d"
    using cg_write_parse cg_parse_write [of d e cg] by metis
  show "cg_parse (cg_write e cg (replicate CG_MIN_LEN 0)) e = Inr cg"
    by (rule cg_parse_write) simp
  show "cg_parse d e = Inl err \<longleftrightarrow>
      (if length d < CG_MIN_LEN then err = ErrTruncated ''cylinder group'' CG_MIN_LEN (length d)
       else take 4 (drop OFF_MAGIC d) \<noteq> endian_bytes e CG_MAGIC
         \<and> err = ErrBadCgMagic (endian_u32 e d OFF_MAGIC) e)"
    using cg_magic_bytes [of d e] by (auto simp: cg_parse_def Let_def)
qed

text \<open>
  A header that parses in one byte order never parses in the other: the magic is not its own
  byte reversal, so reading a header in the wrong order is an error and never a silent misreading.
\<close>

lemma cg_parse_one_order:
  assumes "cg_parse d e = Inr cg" and "e' \<noteq> e"
  shows "cg_parse d e' = Inl (ErrBadCgMagic (endian_u32 e' d OFF_MAGIC) e')"
proof -
  have len: "CG_MIN_LEN \<le> length d" using cg_write_parse(1) [OF assms(1)] .
  have "endian_u32 e d OFF_MAGIC = CG_MAGIC"
    using assms(1) by (auto simp: cg_parse_def Let_def split: if_splits)
  then have "take 4 (drop OFF_MAGIC d) = endian_bytes e CG_MAGIC" using cg_magic_bytes [OF len] by blast
  moreover have "endian_bytes e CG_MAGIC \<noteq> endian_bytes e' CG_MAGIC"
    using assms(2) by (cases e; cases e') (simp_all add: endian_bytes_def word_to_be_def word_to_le_def sb_consts)
  ultimately have "endian_u32 e' d OFF_MAGIC \<noteq> CG_MAGIC" using cg_magic_bytes [OF len, of e'] by metis
  then show ?thesis using len by (simp add: cg_parse_def Let_def)
qed

definition tiny_cg :: cylinder_group where
  "tiny_cg = \<lparr> cg_cgx = 0, cg_ndblk = 60, cg_niblk = 4, cg_initediblk = 4, cg_iusedoff = 124,
     cg_freeoff = 125, cg_clusteroff = 0 \<rparr>"

lemma cg_parse_one_order_instance:
  "cg_parse (cg_write Little tiny_cg (replicate CG_MIN_LEN 0)) Big =
     Inl (ErrBadCgMagic (endian_u32 Big (cg_write Little tiny_cg (replicate CG_MIN_LEN 0)) OFF_MAGIC) Big)"
  by (rule cg_parse_one_order [of _ Little tiny_cg]) (simp_all add: cg_parse_write)

end
