(* ===== verification/UfsInode.thy ===== *)
theory UfsInode
  imports UfsSuperblock
begin

unbundle bit_operations_syntax

text \<open>
  \<open>core/src/inode.rs\<close>: the decoding of a dinode (UFS1 and UFS2 layouts), the classification of its
  mode, the inline symlink, and the arithmetic that maps an inode number to a byte offset.
\<close>

section \<open>Constants and types\<close>

definition UFS_NDADDR :: usize where [sb_consts]: "UFS_NDADDR = 12"
definition UFS_NIADDR :: usize where [sb_consts]: "UFS_NIADDR = 3"
definition UFS2_DINODE_SIZE :: usize where [sb_consts]: "UFS2_DINODE_SIZE = 256"
definition UFS1_DINODE_SIZE :: usize where [sb_consts]: "UFS1_DINODE_SIZE = 128"
definition U2_MODE :: usize where [sb_consts]: "U2_MODE = 0"
definition U2_NLINK :: usize where [sb_consts]: "U2_NLINK = 2"
definition U2_UID :: usize where [sb_consts]: "U2_UID = 4"
definition U2_GID :: usize where [sb_consts]: "U2_GID = 8"
definition U2_SIZE :: usize where [sb_consts]: "U2_SIZE = 16"
definition U2_BLOCKS :: usize where [sb_consts]: "U2_BLOCKS = 24"
definition U2_ATIME :: usize where [sb_consts]: "U2_ATIME = 32"
definition U2_MTIME :: usize where [sb_consts]: "U2_MTIME = 40"
definition U2_CTIME :: usize where [sb_consts]: "U2_CTIME = 48"
definition U2_BIRTHTIME :: usize where [sb_consts]: "U2_BIRTHTIME = 56"
definition U2_MTIMENSEC :: usize where [sb_consts]: "U2_MTIMENSEC = 64"
definition U2_ATIMENSEC :: usize where [sb_consts]: "U2_ATIMENSEC = 68"
definition U2_CTIMENSEC :: usize where [sb_consts]: "U2_CTIMENSEC = 72"
definition U2_BIRTHNSEC :: usize where [sb_consts]: "U2_BIRTHNSEC = 76"
definition U2_DB :: usize where [sb_consts]: "U2_DB = 112"
definition U2_IB :: usize where [sb_consts]: "U2_IB = 208"
definition U1_MODE :: usize where [sb_consts]: "U1_MODE = 0"
definition U1_NLINK :: usize where [sb_consts]: "U1_NLINK = 2"
definition U1_SIZE :: usize where [sb_consts]: "U1_SIZE = 8"
definition U1_ATIME :: usize where [sb_consts]: "U1_ATIME = 16"
definition U1_ATIMENSEC :: usize where [sb_consts]: "U1_ATIMENSEC = 20"
definition U1_MTIME :: usize where [sb_consts]: "U1_MTIME = 24"
definition U1_MTIMENSEC :: usize where [sb_consts]: "U1_MTIMENSEC = 28"
definition U1_CTIME :: usize where [sb_consts]: "U1_CTIME = 32"
definition U1_CTIMENSEC :: usize where [sb_consts]: "U1_CTIMENSEC = 36"
definition U1_DB :: usize where [sb_consts]: "U1_DB = 40"
definition U1_IB :: usize where [sb_consts]: "U1_IB = 88"
definition U1_BLOCKS :: usize where [sb_consts]: "U1_BLOCKS = 104"
definition U1_UID :: usize where [sb_consts]: "U1_UID = 112"
definition U1_GID :: usize where [sb_consts]: "U1_GID = 116"
definition IFMT :: u16 where [sb_consts]: "IFMT = 0xF000"

record timespec =
  ts_sec :: i64
  ts_nsec :: i32

datatype file_type =
  FtFifo | FtCharDevice | FtDirectory | FtBlockDevice | FtRegular | FtSymlink | FtSocket
  | FtWhiteout | FtOther u16

text \<open>\<open>FileType::from_mode\<close>; the octal literals of the source are written in hexadecimal.\<close>

definition file_type_from_mode :: "u16 \<Rightarrow> file_type" where
  "file_type_from_mode mode =
     (let m = mode AND IFMT in
      if m = 0x1000 then FtFifo
      else if m = 0x2000 then FtCharDevice
      else if m = 0x4000 then FtDirectory
      else if m = 0x6000 then FtBlockDevice
      else if m = 0x8000 then FtRegular
      else if m = 0xA000 then FtSymlink
      else if m = 0xC000 then FtSocket
      else if m = 0xE000 then FtWhiteout
      else FtOther m)"

record inode =
  i_version :: ufs_version
  i_mode :: u16
  i_file_type :: file_type
  i_nlink :: u16
  i_uid :: u32
  i_gid :: u32
  i_size :: u64
  i_blocks :: u64
  i_atime :: timespec
  i_mtime :: timespec
  i_ctime :: timespec
  i_birthtime :: "timespec option"
  i_direct :: "u64 list"
  i_indirect :: "u64 list"
  i_fast_symlink :: "bytes option"

section \<open>Decoding a dinode\<close>

definition inode_ptr_size :: "ufs_version \<Rightarrow> usize" where
  "inode_ptr_size v = (case v of Ufs1 \<Rightarrow> 4 | Ufs2 \<Rightarrow> 8)"

definition read_ptr :: "ufs_version \<Rightarrow> endian \<Rightarrow> bytes \<Rightarrow> usize \<Rightarrow> u64" where
  "read_ptr v e data off =
     (case v of Ufs1 \<Rightarrow> ucast (endian_u32 e data off) | Ufs2 \<Rightarrow> endian_u64 e data off)"

definition inode_db_off :: "ufs_version \<Rightarrow> usize" where
  "inode_db_off v = (case v of Ufs1 \<Rightarrow> U1_DB | Ufs2 \<Rightarrow> U2_DB)"

definition inode_ib_off :: "ufs_version \<Rightarrow> usize" where
  "inode_ib_off v = (case v of Ufs1 \<Rightarrow> U1_IB | Ufs2 \<Rightarrow> U2_IB)"

definition dinode_size :: "ufs_version \<Rightarrow> usize" where
  "dinode_size v = (case v of Ufs1 \<Rightarrow> UFS1_DINODE_SIZE | Ufs2 \<Rightarrow> UFS2_DINODE_SIZE)"

definition read_ptrs :: "ufs_version \<Rightarrow> endian \<Rightarrow> bytes \<Rightarrow> usize \<Rightarrow> nat \<Rightarrow> u64 list" where
  "read_ptrs v e data base n = map (\<lambda>i. read_ptr v e data (base + i * inode_ptr_size v)) [0..<n]"

text \<open>
  The inline symlink: a symlink whose size is at most a positive \<open>maxsymlinklen\<close> keeps its target
  in the pointer region.
\<close>

definition inode_fast_symlink :: "bytes \<Rightarrow> ufs_version \<Rightarrow> file_type \<Rightarrow> u64 \<Rightarrow> i32 \<Rightarrow> bytes option" where
  "inode_fast_symlink data v ft sz maxsymlinklen =
     (if ft = FtSymlink \<and> 0 < sint maxsymlinklen \<and> sz \<le> scast maxsymlinklen
      then (let region_len = (UFS_NDADDR + UFS_NIADDR) * inode_ptr_size v;
                n = min (unat sz) region_len;
                db_off = inode_db_off v
            in slice_get data db_off (db_off + n))
      else None)"

definition inode_decode :: "bytes \<Rightarrow> ufs_version \<Rightarrow> endian \<Rightarrow> i32 \<Rightarrow> inode" where
  "inode_decode data v e maxsymlinklen =
     (let mode = (case v of Ufs2 \<Rightarrow> endian_u16 e data U2_MODE | Ufs1 \<Rightarrow> endian_u16 e data U1_MODE);
          sz = (case v of Ufs2 \<Rightarrow> endian_u64 e data U2_SIZE | Ufs1 \<Rightarrow> endian_u64 e data U1_SIZE);
          ft = file_type_from_mode mode
      in \<lparr> i_version = v,
           i_mode = mode,
           i_file_type = ft,
           i_nlink = (case v of Ufs2 \<Rightarrow> endian_u16 e data U2_NLINK | Ufs1 \<Rightarrow> endian_u16 e data U1_NLINK),
           i_uid = (case v of Ufs2 \<Rightarrow> endian_u32 e data U2_UID | Ufs1 \<Rightarrow> endian_u32 e data U1_UID),
           i_gid = (case v of Ufs2 \<Rightarrow> endian_u32 e data U2_GID | Ufs1 \<Rightarrow> endian_u32 e data U1_GID),
           i_size = sz,
           i_blocks = (case v of
               Ufs2 \<Rightarrow> endian_u64 e data U2_BLOCKS
             | Ufs1 \<Rightarrow> ucast (endian_u32 e data U1_BLOCKS)),
           i_atime = (case v of
               Ufs2 \<Rightarrow> \<lparr> ts_sec = endian_i64 e data U2_ATIME, ts_nsec = endian_i32 e data U2_ATIMENSEC \<rparr>
             | Ufs1 \<Rightarrow> \<lparr> ts_sec = scast (endian_i32 e data U1_ATIME), ts_nsec = endian_i32 e data U1_ATIMENSEC \<rparr>),
           i_mtime = (case v of
               Ufs2 \<Rightarrow> \<lparr> ts_sec = endian_i64 e data U2_MTIME, ts_nsec = endian_i32 e data U2_MTIMENSEC \<rparr>
             | Ufs1 \<Rightarrow> \<lparr> ts_sec = scast (endian_i32 e data U1_MTIME), ts_nsec = endian_i32 e data U1_MTIMENSEC \<rparr>),
           i_ctime = (case v of
               Ufs2 \<Rightarrow> \<lparr> ts_sec = endian_i64 e data U2_CTIME, ts_nsec = endian_i32 e data U2_CTIMENSEC \<rparr>
             | Ufs1 \<Rightarrow> \<lparr> ts_sec = scast (endian_i32 e data U1_CTIME), ts_nsec = endian_i32 e data U1_CTIMENSEC \<rparr>),
           i_birthtime = (case v of
               Ufs2 \<Rightarrow> Some \<lparr> ts_sec = endian_i64 e data U2_BIRTHTIME, ts_nsec = endian_i32 e data U2_BIRTHNSEC \<rparr>
             | Ufs1 \<Rightarrow> None),
           i_direct = read_ptrs v e data (inode_db_off v) UFS_NDADDR,
           i_indirect = read_ptrs v e data (inode_ib_off v) UFS_NIADDR,
           i_fast_symlink = inode_fast_symlink data v ft sz maxsymlinklen \<rparr>)"

definition inode_parse_with_maxsymlink ::
  "bytes \<Rightarrow> ufs_version \<Rightarrow> endian \<Rightarrow> i32 \<Rightarrow> ufs_error + inode" where
  "inode_parse_with_maxsymlink data v e maxsymlinklen =
     (let need = dinode_size v
      in if length data < need then Inl (ErrTruncated ''dinode'' need (length data))
         else Inr (inode_decode data v e maxsymlinklen))"

definition DEFAULT_MAXSYMLINKLEN :: i32 where [sb_consts]:
  "DEFAULT_MAXSYMLINKLEN = of_nat ((UFS_NDADDR + UFS_NIADDR) * 8)"

definition inode_parse :: "bytes \<Rightarrow> ufs_version \<Rightarrow> endian \<Rightarrow> ufs_error + inode" where
  "inode_parse data v e = inode_parse_with_maxsymlink data v e DEFAULT_MAXSYMLINKLEN"

definition inode_is_dir :: "inode \<Rightarrow> bool" where
  "inode_is_dir i \<longleftrightarrow> i_file_type i = FtDirectory"

definition inode_is_regular :: "inode \<Rightarrow> bool" where
  "inode_is_regular i \<longleftrightarrow> i_file_type i = FtRegular"

definition inode_is_symlink :: "inode \<Rightarrow> bool" where
  "inode_is_symlink i \<longleftrightarrow> i_file_type i = FtSymlink"

definition inode_symlink_target :: "inode \<Rightarrow> bytes option" where
  "inode_symlink_target i = i_fast_symlink i"

section \<open>Locating an inode\<close>

definition I64_MAX :: u64 where [sb_consts]: "I64_MAX = 9223372036854775807"

text \<open>The byte offset of an inode, with the saturating arithmetic of the source.\<close>

definition inode_byte :: "superblock \<Rightarrow> u64 \<Rightarrow> u64" where
  "inode_byte sb ino =
     (let ipg = scast (sb_ipg sb); fpg = scast (sb_fpg sb); fsize = scast (sb_fsize sb);
          iblkno = scast (sb_iblkno sb); inode_size = ucast (sb_inode_size sb);
          cg = ino div ipg;
          within = ino mod ipg;
          cgimin = sat_add (sat_mul cg fpg) iblkno
      in sat_add (sat_mul cgimin fsize) (sat_mul within inode_size))"

definition read_inode :: "bytes \<Rightarrow> superblock \<Rightarrow> u64 \<Rightarrow> ufs_error + inode" where
  "read_inode part sb ino =
     (if sint (sb_ipg sb) \<le> 0
      then Inl (ErrImpossibleGeometry ''fs_ipg'' (scast (sb_ipg sb)) I64_MAX)
      else if sint (sb_fpg sb) \<le> 0
      then Inl (ErrImpossibleGeometry ''fs_fpg'' (scast (sb_fpg sb)) I64_MAX)
      else if sint (sb_fsize sb) \<le> 0
      then Inl (ErrImpossibleGeometry ''fs_fsize'' (scast (sb_fsize sb)) I64_MAX)
      else if sint (sb_iblkno sb) < 0
      then Inl (ErrImpossibleGeometry ''fs_iblkno'' (scast (sb_iblkno sb)) I64_MAX)
      else
        let count = sat_mul (scast (sb_ipg sb)) (ucast (sb_ncg sb))
        in if ino \<ge> count then Inl (ErrInodeOutOfRange ino count)
           else
             let start = unat (inode_byte sb ino);
                 stop = usize_sat_add start (unat (sb_inode_size sb))
             in case slice_get part start stop of
                  None \<Rightarrow> Inl (ErrTruncated ''dinode (located)'' stop (length part))
                | Some rec \<Rightarrow>
                    inode_parse_with_maxsymlink rec (sb_version sb) (sb_endian sb) (sb_maxsymlinklen sb))"

section \<open>The location in exact arithmetic\<close>

definition inode_geometry_ok :: "superblock \<Rightarrow> bool" where
  "inode_geometry_ok sb \<longleftrightarrow>
     0 < sint (sb_ipg sb) \<and> 0 < sint (sb_fpg sb) \<and> 0 < sint (sb_fsize sb) \<and> 0 \<le> sint (sb_iblkno sb)"

definition nat_i32 :: "i32 \<Rightarrow> nat" where
  "nat_i32 w = nat (sint w)"

text \<open>
  The dinode area: cylinder group \<open>c\<close> keeps its table at fragment \<open>c * fpg + iblkno\<close>, and the
  record of inode \<open>ino\<close> is the \<open>(ino mod ipg)\<close>-th of group \<open>ino div ipg\<close>.
\<close>

definition inode_offset :: "superblock \<Rightarrow> nat \<Rightarrow> nat" where
  "inode_offset sb ino =
     (ino div nat_i32 (sb_ipg sb) * nat_i32 (sb_fpg sb) + nat_i32 (sb_iblkno sb)) * nat_i32 (sb_fsize sb)
     + ino mod nat_i32 (sb_ipg sb) * dinode_size (sb_version sb)"

definition inode_count :: "superblock \<Rightarrow> nat" where
  "inode_count sb = nat_i32 (sb_ipg sb) * unat (sb_ncg sb)"

lemma unat_sb_inode_size: "unat (sb_inode_size sb) = dinode_size (sb_version sb)"
  by (simp add: sb_inode_size_def dinode_size_def sb_consts split: ufs_version.split)

lemma dinode_size_pos: "0 < dinode_size v" "dinode_size v \<le> 256"
  by (simp_all add: dinode_size_def sb_consts split: ufs_version.split)

lemma unat_inode_byte:
  assumes "inode_geometry_ok sb"
  shows "unat (inode_byte sb ino) = min (inode_offset sb (unat ino)) usize_max"
proof -
  have s: "unat (scast (sb_ipg sb) :: u64) = nat_i32 (sb_ipg sb)"
    "unat (scast (sb_fpg sb) :: u64) = nat_i32 (sb_fpg sb)"
    "unat (scast (sb_fsize sb) :: u64) = nat_i32 (sb_fsize sb)"
    "unat (scast (sb_iblkno sb) :: u64) = nat_i32 (sb_iblkno sb)"
    using assms by (simp_all add: inode_geometry_ok_def unat_scast_i32 nat_i32_def)
  have "0 < nat_i32 (sb_fsize sb)" using assms by (simp add: inode_geometry_ok_def nat_i32_def)
  then show ?thesis
    by (simp add: inode_byte_def Let_def sat_simps s unat_div unat_mod unat_sb_inode_size
        inode_offset_def min_add_min min_mult_min)
qed

lemma unat_inode_count:
  assumes "0 \<le> sint (sb_ipg sb)"
  shows "unat (sat_mul (scast (sb_ipg sb)) (ucast (sb_ncg sb)) :: u64) = inode_count sb"
proof -
  have "nat_i32 (sb_ipg sb) < 2 ^ 31"
    using sint_le_i32 [of "sb_ipg sb"] assms by (simp add: nat_i32_def)
  moreover have "unat (sb_ncg sb) < 2 ^ 32" using unat_lt [of "sb_ncg sb"] by simp
  ultimately have "inode_count sb \<le> 2 ^ 31 * 2 ^ 32"
    unfolding inode_count_def by (intro mult_le_mono) simp_all
  then show ?thesis
    using assms by (simp add: sat_simps unat_scast_i32 nat_i32_def inode_count_def)
qed

lemma read_inode_refines:
  assumes "valid_slice part" and "inode_geometry_ok sb"
  shows "read_inode part sb ino =
    (let off = inode_offset sb (unat ino); n = dinode_size (sb_version sb)
     in if inode_count sb \<le> unat ino
        then Inl (ErrInodeOutOfRange ino (of_nat (inode_count sb)))
        else if length part < off + n
        then Inl (ErrTruncated ''dinode (located)'' (min (off + n) usize_max) (length part))
        else Inr (inode_decode (take n (drop off part))
                   (sb_version sb) (sb_endian sb) (sb_maxsymlinklen sb)))"
proof -
  let ?off = "inode_offset sb (unat ino)" and ?n = "dinode_size (sb_version sb)"
  have ipg: "0 \<le> sint (sb_ipg sb)" using assms(2) by (simp add: inode_geometry_ok_def)
  have cnt: "sat_mul (scast (sb_ipg sb)) (ucast (sb_ncg sb)) = (of_nat (inode_count sb) :: u64)"
    by (subst unat_inode_count [OF ipg, symmetric]) simp
  have le: "(of_nat (inode_count sb) :: u64) \<le> ino \<longleftrightarrow> inode_count sb \<le> unat ino"
    using unat_inode_count [OF ipg] cnt by (simp add: word_le_nat_alt)
  have stop: "usize_sat_add (min ?off usize_max) ?n = min (?off + ?n) usize_max"
    by (simp add: usize_sat_add_def min_add_min)
  have get: "slice_get part (min ?off usize_max) (min (?off + ?n) usize_max) =
      (if length part < ?off + ?n then None else Some (take ?n (drop ?off part)))"
    using assms(1) by (auto simp: slice_get_def valid_slice_def min_def)
  show ?thesis
    using assms(2)
    by (simp add: read_inode_def inode_geometry_ok_def Let_def cnt le unat_inode_byte [OF assms(2)]
        unat_sb_inode_size stop get inode_parse_with_maxsymlink_def)
qed

section \<open>Records do not overlap\<close>

text \<open>The table of a group fits in the group.\<close>

definition inode_table_fits :: "superblock \<Rightarrow> bool" where
  "inode_table_fits sb \<longleftrightarrow>
     nat_i32 (sb_ipg sb) * dinode_size (sb_version sb) \<le> nat_i32 (sb_fpg sb) * nat_i32 (sb_fsize sb)"

lemma inode_offset_less:
  assumes "inode_table_fits sb" and "0 < nat_i32 (sb_ipg sb)" and "a < b"
  shows "inode_offset sb a + dinode_size (sb_version sb) \<le> inode_offset sb b"
proof -
  let ?ipg = "nat_i32 (sb_ipg sb)" and ?n = "dinode_size (sb_version sb)"
  let ?g = "nat_i32 (sb_fpg sb) * nat_i32 (sb_fsize sb)" and ?t = "nat_i32 (sb_iblkno sb) * nat_i32 (sb_fsize sb)"
  have off: "inode_offset sb i = i div ?ipg * ?g + ?t + i mod ?ipg * ?n" for i
    by (simp add: inode_offset_def algebra_simps)
  have dv: "a div ?ipg \<le> b div ?ipg" using assms(3) by (simp add: div_le_mono)
  show ?thesis
  proof (cases "a div ?ipg = b div ?ipg")
    case True
    have "a mod ?ipg < b mod ?ipg"
      using assms(3) True by (metis add_less_cancel_left mult_div_mod_eq)
    then have "(a mod ?ipg + 1) * ?n \<le> b mod ?ipg * ?n" by (intro mult_le_mono1) simp
    then show ?thesis using True by (simp add: off)
  next
    case False
    then have "(a div ?ipg + 1) * ?g \<le> b div ?ipg * ?g" using dv by (intro mult_le_mono1) simp
    moreover have "(a mod ?ipg + 1) * ?n \<le> ?ipg * ?n"
      using mod_less_divisor [OF assms(2), of a] by (intro mult_le_mono1) simp
    ultimately show ?thesis using assms(1) by (simp add: off inode_table_fits_def)
  qed
qed

lemma inode_records_disjoint:
  assumes "inode_table_fits sb" and "0 < nat_i32 (sb_ipg sb)" and "a \<noteq> b"
  shows "inode_offset sb a + dinode_size (sb_version sb) \<le> inode_offset sb b
    \<or> inode_offset sb b + dinode_size (sb_version sb) \<le> inode_offset sb a"
  using inode_offset_less [OF assms(1,2), of a b] inode_offset_less [OF assms(1,2), of b a] assms(3)
  by (cases "a < b") auto

section \<open>The layout of a dinode\<close>

definition ptr_enc :: "ufs_version \<Rightarrow> endian \<Rightarrow> u64 \<Rightarrow> bytes" where
  "ptr_enc v e p = (case v of Ufs1 \<Rightarrow> endian_bytes e (ucast p :: u32) | Ufs2 \<Rightarrow> endian_bytes e p)"

definition ptr_fields :: "ufs_version \<Rightarrow> endian \<Rightarrow> nat \<Rightarrow> nat \<Rightarrow> u64 list \<Rightarrow> (nat \<times> bytes) list" where
  "ptr_fields v e base n ps = map (\<lambda>k. (base + k * inode_ptr_size v, ptr_enc v e (ps ! k))) [0..<n]"

definition birth :: "inode \<Rightarrow> timespec" where
  "birth i = (case i_birthtime i of Some t \<Rightarrow> t | None \<Rightarrow> \<lparr> ts_sec = 0, ts_nsec = 0 \<rparr>)"

definition inode_fields :: "endian \<Rightarrow> inode \<Rightarrow> (nat \<times> bytes) list" where
  "inode_fields e i =
     (case i_version i of
        Ufs2 \<Rightarrow>
          [(U2_MODE, endian_bytes e (i_mode i)), (U2_NLINK, endian_bytes e (i_nlink i)),
           (U2_UID, endian_bytes e (i_uid i)), (U2_GID, endian_bytes e (i_gid i)),
           (U2_SIZE, endian_bytes e (i_size i)), (U2_BLOCKS, endian_bytes e (i_blocks i)),
           (U2_ATIME, endian_bytes e (ts_sec (i_atime i))), (U2_MTIME, endian_bytes e (ts_sec (i_mtime i))),
           (U2_CTIME, endian_bytes e (ts_sec (i_ctime i))), (U2_BIRTHTIME, endian_bytes e (ts_sec (birth i))),
           (U2_MTIMENSEC, endian_bytes e (ts_nsec (i_mtime i))), (U2_ATIMENSEC, endian_bytes e (ts_nsec (i_atime i))),
           (U2_CTIMENSEC, endian_bytes e (ts_nsec (i_ctime i))), (U2_BIRTHNSEC, endian_bytes e (ts_nsec (birth i)))]
          @ ptr_fields Ufs2 e U2_DB UFS_NDADDR (i_direct i) @ ptr_fields Ufs2 e U2_IB UFS_NIADDR (i_indirect i)
      | Ufs1 \<Rightarrow>
          [(U1_MODE, endian_bytes e (i_mode i)), (U1_NLINK, endian_bytes e (i_nlink i)),
           (U1_SIZE, endian_bytes e (i_size i)),
           (U1_ATIME, endian_bytes e (ucast (ts_sec (i_atime i)) :: i32)), (U1_ATIMENSEC, endian_bytes e (ts_nsec (i_atime i))),
           (U1_MTIME, endian_bytes e (ucast (ts_sec (i_mtime i)) :: i32)), (U1_MTIMENSEC, endian_bytes e (ts_nsec (i_mtime i))),
           (U1_CTIME, endian_bytes e (ucast (ts_sec (i_ctime i)) :: i32)), (U1_CTIMENSEC, endian_bytes e (ts_nsec (i_ctime i)))]
          @ ptr_fields Ufs1 e U1_DB UFS_NDADDR (i_direct i) @ ptr_fields Ufs1 e U1_IB UFS_NIADDR (i_indirect i)
          @ [(U1_BLOCKS, endian_bytes e (ucast (i_blocks i) :: u32)),
             (U1_UID, endian_bytes e (i_uid i)), (U1_GID, endian_bytes e (i_gid i))])"

definition inode_write :: "endian \<Rightarrow> inode \<Rightarrow> bytes \<Rightarrow> bytes" where
  "inode_write e i d = patch d (inode_fields e i)"

text \<open>What a decoded dinode satisfies: the narrow fields of UFS1 fit their width.\<close>

definition narrow32 :: "u64 \<Rightarrow> bool" where
  "narrow32 w \<longleftrightarrow> ucast (ucast w :: u32) = w"

definition snarrow32 :: "i64 \<Rightarrow> bool" where
  "snarrow32 w \<longleftrightarrow> scast (ucast w :: i32) = w"

definition wf_inode :: "inode \<Rightarrow> bool" where
  "wf_inode i \<longleftrightarrow>
     length (i_direct i) = UFS_NDADDR \<and> length (i_indirect i) = UFS_NIADDR
     \<and> i_file_type i = file_type_from_mode (i_mode i)
     \<and> (case i_version i of
          Ufs2 \<Rightarrow> i_birthtime i \<noteq> None
        | Ufs1 \<Rightarrow> i_birthtime i = None \<and> narrow32 (i_blocks i)
            \<and> snarrow32 (ts_sec (i_atime i)) \<and> snarrow32 (ts_sec (i_mtime i)) \<and> snarrow32 (ts_sec (i_ctime i))
            \<and> (\<forall>p \<in> set (i_direct i @ i_indirect i). narrow32 p))"

lemma length_ptr_enc [simp]: "length (ptr_enc v e p) = inode_ptr_size v"
  by (cases v) (simp_all add: ptr_enc_def inode_ptr_size_def)

lemma inode_ptr_size_simps [simp]: "inode_ptr_size Ufs1 = 4" "inode_ptr_size Ufs2 = 8"
  by (simp_all add: inode_ptr_size_def)

lemma ptr_fields_ordered: "ordered_fields (ptr_fields v e base n ps)"
proof -
  have "i * s + s \<le> j * s" if "i < j" for i j s :: nat
    using mult_le_mono1 [of "Suc i" j s] that by simp
  then show ?thesis
    by (simp add: ordered_fields_def ptr_fields_def sorted_wrt_map sorted_wrt_iff_nth_less add.assoc)
qed

lemma ptr_fields_bounds:
  "(off, b) \<in> set (ptr_fields v e base n ps) \<Longrightarrow> base \<le> off \<and> off + length b \<le> base + n * inode_ptr_size v"
proof -
  assume "(off, b) \<in> set (ptr_fields v e base n ps)"
  then obtain k where k: "k < n" "off = base + k * inode_ptr_size v" "length b = inode_ptr_size v"
    by (auto simp: ptr_fields_def)
  have "Suc k * inode_ptr_size v \<le> n * inode_ptr_size v" using k(1) by (intro mult_le_mono1) simp
  then show ?thesis using k by simp
qed

lemma ordered_fields_append:
  "ordered_fields (xs @ ys) \<longleftrightarrow> ordered_fields xs \<and> ordered_fields ys
     \<and> (\<forall>(o1, b1) \<in> set xs. \<forall>(o2, b2) \<in> set ys. o1 + length b1 \<le> o2)"
  by (auto simp: ordered_fields_def sorted_wrt_append)

lemma ordered_fields_Cons:
  "ordered_fields [] " "ordered_fields ((off, b) # ys) \<longleftrightarrow> (\<forall>(o2, b2) \<in> set ys. off + length b \<le> o2) \<and> ordered_fields ys"
  by (auto simp: ordered_fields_def)

lemma inode_fields_ordered: "ordered_fields (inode_fields e i)"
  by (cases "i_version i")
    (auto simp: inode_fields_def ordered_fields_append ordered_fields_Cons ptr_fields_ordered sb_consts
      dest!: ptr_fields_bounds)

lemma inode_fields_bounds:
  "(off, b) \<in> set (inode_fields e i) \<Longrightarrow> off + length b \<le> dinode_size (i_version i)"
  by (cases "i_version i")
    (auto simp: inode_fields_def dinode_size_def sb_consts dest!: ptr_fields_bounds)

lemma length_inode_write [simp]: "length (inode_write e i d) = length d"
  by (simp add: inode_write_def)

text \<open>A field of the layout is read back; a field of a decoded buffer is the buffer's.\<close>

interpretation inode_layout: record_layout "inode_fields e" "\<lambda>i. dinode_size (i_version i)" for e
proof unfold_locales
  show "dinode_size (i_version i) \<le> usize_max" for i
    by (cases "i_version i") (simp_all add: dinode_size_def sb_consts)
qed (simp_all only: inode_fields_ordered inode_fields_bounds)

lemma inode_write_get:
  "dinode_size (i_version i) \<le> length d \<Longrightarrow> (off, b) \<in> set (inode_fields e i)
    \<Longrightarrow> slice_get (inode_write e i d) off (off + length b) = Some b"
  unfolding inode_write_def by (rule inode_layout.get)

lemma inode_write_read:
  assumes "dinode_size (i_version i) \<le> length d"
  shows "(off, endian_bytes e (a :: u16)) \<in> set (inode_fields e i) \<Longrightarrow> endian_u16 e (inode_write e i d) off = a"
    and "(off, endian_bytes e (b :: u32)) \<in> set (inode_fields e i) \<Longrightarrow> endian_u32 e (inode_write e i d) off = b"
    and "(off, endian_bytes e (c :: u64)) \<in> set (inode_fields e i) \<Longrightarrow> endian_u64 e (inode_write e i d) off = c"
  unfolding inode_write_def using inode_layout.reads(1-3) [OF assms] by blast+

lemma inode_write_ptrs:
  assumes len: "dinode_size (i_version i) \<le> length d"
    and sub: "\<And>f. f \<in> set (ptr_fields (i_version i) e base n ps) \<Longrightarrow> f \<in> set (inode_fields e i)"
    and narrow: "i_version i = Ufs1 \<Longrightarrow> \<forall>p \<in> set ps. narrow32 p" and n: "length ps = n"
  shows "read_ptrs (i_version i) e (inode_write e i d) base n = ps"
proof (rule nth_equalityI)
  fix k assume "k < length (read_ptrs (i_version i) e (inode_write e i d) base n)"
  then have k: "k < n" by (simp add: read_ptrs_def)
  then have f: "(base + k * inode_ptr_size (i_version i), ptr_enc (i_version i) e (ps ! k)) \<in> set (inode_fields e i)"
    by (intro sub) (auto simp: ptr_fields_def)
  have "read_ptr (i_version i) e (inode_write e i d) (base + k * inode_ptr_size (i_version i)) = ps ! k"
  proof (cases "i_version i")
    case Ufs1
    then have "narrow32 (ps ! k)" using narrow k n by simp
    then show ?thesis
      using inode_write_read(2) [OF len, of "base + k * 4" e "ucast (ps ! k)"] f Ufs1
      by (simp add: read_ptr_def ptr_enc_def narrow32_def)
  next
    case Ufs2
    then show ?thesis
      using inode_write_read(3) [OF len, of "base + k * 8" e "ps ! k"] f
      by (simp add: read_ptr_def ptr_enc_def)
  qed
  then show "read_ptrs (i_version i) e (inode_write e i d) base n ! k = ps ! k"
    using k by (simp add: read_ptrs_def)
qed (simp add: read_ptrs_def n)

lemma inode_fields_ptrs:
  "f \<in> set (ptr_fields (i_version i) e (inode_db_off (i_version i)) UFS_NDADDR (i_direct i)) \<Longrightarrow> f \<in> set (inode_fields e i)"
  "f \<in> set (ptr_fields (i_version i) e (inode_ib_off (i_version i)) UFS_NIADDR (i_indirect i)) \<Longrightarrow> f \<in> set (inode_fields e i)"
  by (cases "i_version i"; simp add: inode_fields_def inode_db_off_def inode_ib_off_def)+

lemma inode_write_all_ptrs:
  assumes len: "dinode_size (i_version i) \<le> length d" and wf: "wf_inode i"
  shows "read_ptrs (i_version i) e (inode_write e i d) (inode_db_off (i_version i)) UFS_NDADDR = i_direct i"
    and "read_ptrs (i_version i) e (inode_write e i d) (inode_ib_off (i_version i)) UFS_NIADDR = i_indirect i"
proof -
  have n: "\<forall>p \<in> set (i_direct i) \<union> set (i_indirect i). narrow32 p" if "i_version i = Ufs1"
    using wf that by (simp add: wf_inode_def)
  show "read_ptrs (i_version i) e (inode_write e i d) (inode_db_off (i_version i)) UFS_NDADDR = i_direct i"
    by (rule inode_write_ptrs [OF len inode_fields_ptrs(1)]) (use wf n in \<open>auto simp: wf_inode_def\<close>)
  show "read_ptrs (i_version i) e (inode_write e i d) (inode_ib_off (i_version i)) UFS_NIADDR = i_indirect i"
    by (rule inode_write_ptrs [OF len inode_fields_ptrs(2)]) (use wf n in \<open>auto simp: wf_inode_def\<close>)
qed

lemma inode_decode_write:
  assumes len: "dinode_size (i_version i) \<le> length d" and wf: "wf_inode i"
  shows "inode_decode (inode_write e i d) (i_version i) e m =
    i\<lparr> i_fast_symlink := inode_fast_symlink (inode_write e i d) (i_version i) (i_file_type i) (i_size i) m \<rparr>"
proof (cases "i_version i")
  case Ufs1
  note p = inode_write_all_ptrs [OF len wf, of e, unfolded Ufs1]
  have w: "endian_u16 e (inode_write e i d) U1_MODE = i_mode i" "endian_u16 e (inode_write e i d) U1_NLINK = i_nlink i"
    "endian_u64 e (inode_write e i d) U1_SIZE = i_size i" "endian_u32 e (inode_write e i d) U1_UID = i_uid i"
    "endian_u32 e (inode_write e i d) U1_GID = i_gid i"
    "endian_u32 e (inode_write e i d) U1_BLOCKS = ucast (i_blocks i)"
    "endian_u32 e (inode_write e i d) U1_ATIME = ucast (ts_sec (i_atime i))"
    "endian_u32 e (inode_write e i d) U1_ATIMENSEC = ts_nsec (i_atime i)"
    "endian_u32 e (inode_write e i d) U1_MTIME = ucast (ts_sec (i_mtime i))"
    "endian_u32 e (inode_write e i d) U1_MTIMENSEC = ts_nsec (i_mtime i)"
    "endian_u32 e (inode_write e i d) U1_CTIME = ucast (ts_sec (i_ctime i))"
    "endian_u32 e (inode_write e i d) U1_CTIMENSEC = ts_nsec (i_ctime i)"
    by (rule inode_write_read [OF len], simp add: inode_fields_def Ufs1)+
  show ?thesis
    using wf Ufs1
    by (intro inode.equality)
      (simp_all add: inode_decode_def Let_def w p endian_i32_def wf_inode_def narrow32_def snarrow32_def)
next
  case Ufs2
  note p = inode_write_all_ptrs [OF len wf, of e, unfolded Ufs2]
  obtain b where b: "i_birthtime i = Some b" using wf Ufs2 by (auto simp: wf_inode_def)
  have w: "endian_u16 e (inode_write e i d) U2_MODE = i_mode i" "endian_u16 e (inode_write e i d) U2_NLINK = i_nlink i"
    "endian_u64 e (inode_write e i d) U2_SIZE = i_size i" "endian_u32 e (inode_write e i d) U2_UID = i_uid i"
    "endian_u32 e (inode_write e i d) U2_GID = i_gid i" "endian_u64 e (inode_write e i d) U2_BLOCKS = i_blocks i"
    "endian_u64 e (inode_write e i d) U2_ATIME = ts_sec (i_atime i)"
    "endian_u32 e (inode_write e i d) U2_ATIMENSEC = ts_nsec (i_atime i)"
    "endian_u64 e (inode_write e i d) U2_MTIME = ts_sec (i_mtime i)"
    "endian_u32 e (inode_write e i d) U2_MTIMENSEC = ts_nsec (i_mtime i)"
    "endian_u64 e (inode_write e i d) U2_CTIME = ts_sec (i_ctime i)"
    "endian_u32 e (inode_write e i d) U2_CTIMENSEC = ts_nsec (i_ctime i)"
    "endian_u64 e (inode_write e i d) U2_BIRTHTIME = ts_sec b"
    "endian_u32 e (inode_write e i d) U2_BIRTHNSEC = ts_nsec b"
    by (rule inode_write_read [OF len], simp add: inode_fields_def Ufs2 birth_def b)+
  show ?thesis
    using wf Ufs2
    by (intro inode.equality)
      (simp_all add: inode_decode_def Let_def w p b endian_i32_def endian_i64_def wf_inode_def)
qed

lemma ucast_ucast_id: "ucast (ucast (w :: u32) :: u64) = w"
  by (rule bit_word_eqI) (simp add: bit_ucast_iff)

lemma narrow_facts: "narrow32 (ucast (w :: u32))" "snarrow32 (scast (w :: i32))"
  by (simp_all add: narrow32_def snarrow32_def ucast_scast_i32 ucast_ucast_id)

lemma inode_decode_wf: "wf_inode (inode_decode d v e m)"
  by (cases v) (auto simp: inode_decode_def Let_def wf_inode_def narrow_facts read_ptrs_def read_ptr_def)

lemma inode_field_same:
  assumes "n \<le> length d" and "n \<le> 256"
  shows "off + 2 \<le> n \<Longrightarrow> slice_get d off (off + 2) = Some (endian_bytes e (endian_u16 e d off))"
    "off + 4 \<le> n \<Longrightarrow> slice_get d off (off + 4) = Some (endian_bytes e (endian_u32 e d off))"
    "off + 8 \<le> n \<Longrightarrow> slice_get d off (off + 8) = Some (endian_bytes e (endian_u64 e d off))"
  using assms eu16.enc_rd_at [of off d e] eu32.enc_rd_at [of off d e] eu64.enc_rd_at [of off d e] by simp_all

lemma ptr_fields_same:
  assumes "base + n * inode_ptr_size v \<le> length d" and "base + n * inode_ptr_size v \<le> 256"
    and "(off, b) \<in> set (ptr_fields v e base n (read_ptrs v e d base n))"
  shows "slice_get d off (off + length b) = Some b"
proof -
  from assms(3) obtain k where k: "k < n" "off = base + k * inode_ptr_size v"
    "b = ptr_enc v e (read_ptr v e d off)"
    by (auto simp: ptr_fields_def read_ptrs_def)
  have "Suc k * inode_ptr_size v \<le> n * inode_ptr_size v" using k(1) by (intro mult_le_mono1) simp
  then have "off + inode_ptr_size v \<le> base + n * inode_ptr_size v" using k(2) by simp
  then show ?thesis
    using inode_field_same [OF assms(1,2), of off e] k(3)
    by (cases v) (simp_all add: ptr_enc_def read_ptr_def ucast_ucast_id)
qed

lemma inode_field_same_len:
  assumes "n \<le> length d" and "n \<le> 256"
  shows "off + 2 \<le> n \<Longrightarrow> slice_get d off (off + length (endian_bytes e (endian_u16 e d off))) = Some (endian_bytes e (endian_u16 e d off))"
    "off + 4 \<le> n \<Longrightarrow> slice_get d off (off + length (endian_bytes e (endian_u32 e d off))) = Some (endian_bytes e (endian_u32 e d off))"
    "off + 8 \<le> n \<Longrightarrow> slice_get d off (off + length (endian_bytes e (endian_u64 e d off))) = Some (endian_bytes e (endian_u64 e d off))"
  using inode_field_same [OF assms, of off e] by simp_all

lemma inode_write_decode:
  assumes len: "dinode_size v \<le> length d"
  shows "inode_write e (inode_decode d v e m) d = d"
proof -
  have "slice_get d off (off + length b) = Some b" if f: "(off, b) \<in> set (inode_fields e (inode_decode d v e m))" for off b
  proof (cases v)
    case Ufs1
    have l: "128 \<le> length d" using len Ufs1 by (simp add: dinode_size_def sb_consts)
    note same = inode_field_same_len [OF l]
    have ptrs: "slice_get d off (off + length b) = Some b"
      if "(off, b) \<in> set (ptr_fields Ufs1 e base n (read_ptrs Ufs1 e d base n))" "base + n * 4 \<le> 128" for base n
      using ptr_fields_same [of base n Ufs1 d off b e] that l by simp
    have "(off, b) \<in> set (ptr_fields Ufs1 e U1_DB UFS_NDADDR (read_ptrs Ufs1 e d U1_DB UFS_NDADDR))
      \<or> (off, b) \<in> set (ptr_fields Ufs1 e U1_IB UFS_NIADDR (read_ptrs Ufs1 e d U1_IB UFS_NIADDR))
      \<or> (off, b) \<in> set [(U1_MODE, endian_bytes e (endian_u16 e d U1_MODE)), (U1_NLINK, endian_bytes e (endian_u16 e d U1_NLINK))]
      \<or> (off, b) \<in> set (map (\<lambda>k. (k, endian_bytes e (endian_u32 e d k))) [U1_ATIME, U1_ATIMENSEC, U1_MTIME, U1_MTIMENSEC,
           U1_CTIME, U1_CTIMENSEC, U1_BLOCKS, U1_UID, U1_GID])
      \<or> (off, b) = (U1_SIZE, endian_bytes e (endian_u64 e d U1_SIZE))"
      using f by (auto simp: Ufs1 inode_fields_def inode_decode_def Let_def inode_db_off_def inode_ib_off_def
          ucast_scast_i32 ucast_ucast_id endian_i32_def)
    then show ?thesis
    proof (elim disjE)
      assume "(off, b) \<in> set (ptr_fields Ufs1 e U1_DB UFS_NDADDR (read_ptrs Ufs1 e d U1_DB UFS_NDADDR))"
      then show ?thesis by (rule ptrs) (simp add: sb_consts)
    next
      assume "(off, b) \<in> set (ptr_fields Ufs1 e U1_IB UFS_NIADDR (read_ptrs Ufs1 e d U1_IB UFS_NIADDR))"
      then show ?thesis by (rule ptrs) (simp add: sb_consts)
    qed (auto simp del: length_endian_bytes intro!: same, simp_all add: sb_consts)
  next
    case Ufs2
    have l: "256 \<le> length d" using len Ufs2 by (simp add: dinode_size_def sb_consts)
    note same = inode_field_same_len [OF l]
    have ptrs: "slice_get d off (off + length b) = Some b"
      if "(off, b) \<in> set (ptr_fields Ufs2 e base n (read_ptrs Ufs2 e d base n))" "base + n * 8 \<le> 256" for base n
      using ptr_fields_same [of base n Ufs2 d off b e] that l by simp
    have "(off, b) \<in> set (ptr_fields Ufs2 e U2_DB UFS_NDADDR (read_ptrs Ufs2 e d U2_DB UFS_NDADDR))
      \<or> (off, b) \<in> set (ptr_fields Ufs2 e U2_IB UFS_NIADDR (read_ptrs Ufs2 e d U2_IB UFS_NIADDR))
      \<or> (off, b) \<in> set [(U2_MODE, endian_bytes e (endian_u16 e d U2_MODE)), (U2_NLINK, endian_bytes e (endian_u16 e d U2_NLINK))]
      \<or> (off, b) \<in> set (map (\<lambda>k. (k, endian_bytes e (endian_u32 e d k))) [U2_UID, U2_GID, U2_MTIMENSEC, U2_ATIMENSEC,
           U2_CTIMENSEC, U2_BIRTHNSEC])
      \<or> (off, b) \<in> set (map (\<lambda>k. (k, endian_bytes e (endian_u64 e d k))) [U2_SIZE, U2_BLOCKS, U2_ATIME, U2_MTIME,
           U2_CTIME, U2_BIRTHTIME])"
      using f by (auto simp: Ufs2 inode_fields_def inode_decode_def Let_def inode_db_off_def inode_ib_off_def
          birth_def endian_i32_def endian_i64_def)
    then show ?thesis
    proof (elim disjE)
      assume "(off, b) \<in> set (ptr_fields Ufs2 e U2_DB UFS_NDADDR (read_ptrs Ufs2 e d U2_DB UFS_NDADDR))"
      then show ?thesis by (rule ptrs) (simp add: sb_consts)
    next
      assume "(off, b) \<in> set (ptr_fields Ufs2 e U2_IB UFS_NIADDR (read_ptrs Ufs2 e d U2_IB UFS_NIADDR))"
      then show ?thesis by (rule ptrs) (simp add: sb_consts)
    qed (auto simp del: length_endian_bytes intro!: same, simp_all add: sb_consts)
  qed
  then have "\<forall>(off, b) \<in> set (inode_fields e (inode_decode d v e m)). slice_get d off (off + length b) = Some b"
    by auto
  then show ?thesis unfolding inode_write_def by (rule patch_id)
qed

section \<open>Properties\<close>

text \<open>A small regular file of 20 bytes: its first block at fragment 1, its second a hole.\<close>

definition tiny_inode :: inode where
  "tiny_inode = \<lparr> i_version = Ufs2, i_mode = 0x81A4, i_file_type = FtRegular, i_nlink = 1, i_uid = 0,
     i_gid = 0, i_size = 20, i_blocks = 2, i_atime = \<lparr> ts_sec = 1, ts_nsec = 2 \<rparr>,
     i_mtime = \<lparr> ts_sec = 3, ts_nsec = 4 \<rparr>, i_ctime = \<lparr> ts_sec = 5, ts_nsec = 6 \<rparr>,
     i_birthtime = Some \<lparr> ts_sec = 7, ts_nsec = 8 \<rparr>,
     i_direct = 1 # replicate 11 0, i_indirect = [0, 0, 0], i_fast_symlink = None \<rparr>"

text \<open>
  C14. The dinode parser accepts exactly the records that are the layout of the inode it returns, for
  both versions and byte orders: the record is long enough, every field of the inode written at its
  offset leaves the record as it is, the narrow UFS1 fields fit, the type is that of the mode, and the
  inline target is the one of the record. A shorter record is \<open>Truncated\<close>.
\<close>

theorem inode_parse_exact:
  "(inode_parse_with_maxsymlink d v e m = Inr i \<longleftrightarrow>
      dinode_size v \<le> length d \<and> i_version i = v \<and> wf_inode i \<and> inode_write e i d = d
      \<and> i_fast_symlink i = inode_fast_symlink d v (i_file_type i) (i_size i) m)
   \<and> (inode_parse_with_maxsymlink d v e m = Inl err \<longleftrightarrow>
      length d < dinode_size v \<and> err = ErrTruncated ''dinode'' (dinode_size v) (length d))"
proof
  show "inode_parse_with_maxsymlink d v e m = Inr i \<longleftrightarrow>
      dinode_size v \<le> length d \<and> i_version i = v \<and> wf_inode i \<and> inode_write e i d = d
      \<and> i_fast_symlink i = inode_fast_symlink d v (i_file_type i) (i_size i) m"
  proof
    assume "inode_parse_with_maxsymlink d v e m = Inr i"
    then have len: "dinode_size v \<le> length d" and i: "i = inode_decode d v e m"
      by (auto simp: inode_parse_with_maxsymlink_def Let_def split: if_splits)
    show "dinode_size v \<le> length d \<and> i_version i = v \<and> wf_inode i \<and> inode_write e i d = d
      \<and> i_fast_symlink i = inode_fast_symlink d v (i_file_type i) (i_size i) m"
      using len inode_decode_wf inode_write_decode [OF len] by (simp add: i) (simp add: inode_decode_def Let_def)
  next
    assume a: "dinode_size v \<le> length d \<and> i_version i = v \<and> wf_inode i \<and> inode_write e i d = d
      \<and> i_fast_symlink i = inode_fast_symlink d v (i_file_type i) (i_size i) m"
    then have "inode_decode d v e m = i" using inode_decode_write [of i d e m] by simp
    then show "inode_parse_with_maxsymlink d v e m = Inr i"
      using a by (simp add: inode_parse_with_maxsymlink_def Let_def)
  qed
  show "inode_parse_with_maxsymlink d v e m = Inl err \<longleftrightarrow>
      length d < dinode_size v \<and> err = ErrTruncated ''dinode'' (dinode_size v) (length d)"
    by (auto simp: inode_parse_with_maxsymlink_def Let_def)
qed

text \<open>
  C3. Loading an inode by number, on every input: a degenerate geometry is an error naming the field,
  a number past the table is \<open>InodeOutOfRange\<close> with the exact inode count, a record that does not lie
  inside the image is \<open>Truncated\<close>, and any other number yields the decoding of exactly its record, at
  the group's table plus the index within the group. None of the saturating steps changes the result.
\<close>

theorem read_inode_exact:
  assumes "valid_slice part"
  shows "read_inode part sb ino =
    (if sint (sb_ipg sb) \<le> 0 then Inl (ErrImpossibleGeometry ''fs_ipg'' (scast (sb_ipg sb)) I64_MAX)
     else if sint (sb_fpg sb) \<le> 0 then Inl (ErrImpossibleGeometry ''fs_fpg'' (scast (sb_fpg sb)) I64_MAX)
     else if sint (sb_fsize sb) \<le> 0 then Inl (ErrImpossibleGeometry ''fs_fsize'' (scast (sb_fsize sb)) I64_MAX)
     else if sint (sb_iblkno sb) < 0 then Inl (ErrImpossibleGeometry ''fs_iblkno'' (scast (sb_iblkno sb)) I64_MAX)
     else let off = inode_offset sb (unat ino); n = dinode_size (sb_version sb) in
       if inode_count sb \<le> unat ino then Inl (ErrInodeOutOfRange ino (of_nat (inode_count sb)))
       else if length part < off + n
       then Inl (ErrTruncated ''dinode (located)'' (min (off + n) usize_max) (length part))
       else Inr (inode_decode (take n (drop off part)) (sb_version sb) (sb_endian sb) (sb_maxsymlinklen sb)))"
proof (cases "inode_geometry_ok sb")
  case True
  then show ?thesis
    using read_inode_refines [OF assms True] by (simp add: inode_geometry_ok_def)
next
  case False
  then show ?thesis by (auto simp: inode_geometry_ok_def read_inode_def)
qed

theorem read_inode_exact_witness:
  "read_inode (replicate 2000 0) tiny_sb 2 =
     Inr (inode_decode (take 256 (drop 536 (replicate 2000 0))) Ufs2 Little 120)"
  using read_inode_exact [of "replicate 2000 0" tiny_sb 2]
  by (simp add: valid_slice_def tiny_sb_def Let_def inode_offset_def inode_count_def nat_i32_def
      dinode_size_def sb_consts)

text \<open>
  C39. Inodes are isolated from each other: when the table of a group fits in the group, overwriting
  the record of one inode changes what no other inode number loads.
\<close>

theorem inode_isolation:
  assumes "valid_slice part" "inode_geometry_ok sb" "inode_table_fits sb" "a \<noteq> b"
    and "length bs \<le> dinode_size (sb_version sb)"
  shows "read_inode (slice_put part (inode_offset sb (unat a)) bs) sb b = read_inode part sb b"
proof -
  let ?n = "dinode_size (sb_version sb)" and ?o = "inode_offset sb (unat b)"
  let ?p = "slice_put part (inode_offset sb (unat a)) bs"
  have ipg: "0 < nat_i32 (sb_ipg sb)"
    using assms(2) by (simp add: inode_geometry_ok_def nat_i32_def)
  have "unat a \<noteq> unat b" using assms(4) by (simp add: word_unat_eq_iff)
  from inode_records_disjoint [OF assms(3) ipg this] assms(5)
  have "?o + ?n \<le> inode_offset sb (unat a) \<or> inode_offset sb (unat a) + length bs \<le> ?o" by auto
  then have "slice_get ?p ?o (?o + ?n) = slice_get part ?o (?o + ?n)"
    by (rule slice_get_put_other) simp
  then have "take ?n (drop ?o ?p) = take ?n (drop ?o part)" if "?o + ?n \<le> length part"
    using that by (simp add: slice_get_def)
  moreover have "valid_slice ?p" using assms(1) by (simp add: valid_slice_def)
  ultimately show ?thesis
    using assms(1,2) by (auto simp: read_inode_refines Let_def)
qed

theorem inode_isolation_witness:
  "read_inode (slice_put (replicate 2000 0) 280 (replicate 256 1)) (tiny_sb\<lparr> sb_fpg := 128 \<rparr>) 3
   = read_inode (replicate 2000 0) (tiny_sb\<lparr> sb_fpg := 128 \<rparr>) 3"
  using inode_isolation [of "replicate 2000 0" "tiny_sb\<lparr> sb_fpg := 128 \<rparr>" 1 3 "replicate 256 1"]
  by (simp add: valid_slice_def tiny_sb_def inode_geometry_ok_def inode_table_fits_def inode_offset_def
      nat_i32_def dinode_size_def sb_consts)

text \<open>The inline target, from the size and the limit of the superblock.\<close>

lemma inline_target:
  assumes "inode_parse_with_maxsymlink d v e m = Inr i"
  shows "inode_symlink_target i =
      (if inode_is_symlink i \<and> 0 < sint m \<and> int (unat (i_size i)) \<le> sint m
       then Some (take (min (unat (i_size i)) (15 * inode_ptr_size v)) (drop (inode_db_off v) d)) else None)"
    and "inode_db_off v + 15 * inode_ptr_size v \<le> length d"
proof -
  from assms have len: "dinode_size v \<le> length d" and i: "i = inode_decode d v e m"
    by (auto simp: inode_parse_with_maxsymlink_def Let_def split: if_splits)
  have sz: "i_size i \<le> scast m \<longleftrightarrow> int (unat (i_size i)) \<le> sint m" if "0 < sint m"
    using that by (simp add: word_le_nat_alt unat_scast_i32 le_nat_iff)
  show reg: "inode_db_off v + 15 * inode_ptr_size v \<le> length d"
    using len by (cases v) (simp_all add: inode_db_off_def dinode_size_def sb_consts)
  have "i_fast_symlink i = inode_fast_symlink d v (i_file_type i) (i_size i) m"
    by (simp add: i inode_decode_def Let_def)
  then show "inode_symlink_target i =
      (if inode_is_symlink i \<and> 0 < sint m \<and> int (unat (i_size i)) \<le> sint m
       then Some (take (min (unat (i_size i)) (15 * inode_ptr_size v)) (drop (inode_db_off v) d)) else None)"
    using sz reg by (auto simp: inode_symlink_target_def inode_fast_symlink_def inode_is_symlink_def Let_def
        slice_get_def sb_consts)
qed

lemma inline_target_length:
  assumes "inode_parse_with_maxsymlink d v e m = Inr i" and "inode_symlink_target i = Some t"
  shows "length t = min (unat (i_size i)) (case v of Ufs1 \<Rightarrow> 60 | Ufs2 \<Rightarrow> 120)"
  using inline_target [OF assms(1)] assms(2) by (cases v) (auto split: if_splits)

text \<open>
  C35. An inline target exists exactly for a symbolic link whose size is at most a positive
  \<open>maxsymlinklen\<close>; it is the first bytes of the pointer region, its length is the file's size cut to
  that region, so it is the whole target if and only if the size is at most 60 bytes on UFS1 and 120
  on UFS2.
\<close>

theorem fast_symlink_exact:
  assumes "inode_parse_with_maxsymlink d v e m = Inr i"
  shows "inode_symlink_target i =
      (if inode_is_symlink i \<and> 0 < sint m \<and> int (unat (i_size i)) \<le> sint m
       then Some (take (min (unat (i_size i)) (15 * inode_ptr_size v)) (drop (inode_db_off v) d)) else None)
    \<and> (\<forall>t. inode_symlink_target i = Some t \<longrightarrow>
         (length t = unat (i_size i) \<longleftrightarrow> unat (i_size i) \<le> (case v of Ufs1 \<Rightarrow> 60 | Ufs2 \<Rightarrow> 120)))"
proof -
  have "length t = unat (i_size i) \<longleftrightarrow> unat (i_size i) \<le> (case v of Ufs1 \<Rightarrow> 60 | Ufs2 \<Rightarrow> 120)"
    if "inode_symlink_target i = Some t" for t
    using inline_target_length [OF assms that] by (cases v) auto
  then show ?thesis using inline_target(1) [OF assms] by blast
qed

theorem fast_symlink_exact_witness:
  "inode_symlink_target (inode_decode (slice_put (slice_put (replicate 128 0) 0 [0xED, 0xA1]) 8 [100]) Ufs1 Little 120)
   = Some (replicate 60 0)"
proof -
  let ?d = "slice_put (slice_put (replicate 128 0) 0 [0xED, 0xA1]) 8 [100] :: bytes"
  have p: "inode_parse_with_maxsymlink ?d Ufs1 Little 120 = Inr (inode_decode ?d Ufs1 Little 120)"
    by (simp add: inode_parse_with_maxsymlink_def dinode_size_def sb_consts)
  have m: "endian_u16 Little ?d U1_MODE = 0xA1ED" "endian_u64 Little ?d U1_SIZE = 100"
    by (simp_all add: reader_defs read_array_def slice_get_def slice_put_def from_le_def sb_consts
        take_replicate drop_replicate)
  show ?thesis
    using fast_symlink_exact [OF p] m
    by (simp add: inode_decode_def Let_def inode_is_symlink_def file_type_from_mode_def sb_consts slice_put_def
        inode_db_off_def)
qed

end
