(* ===== verification/UfsDir.thy ===== *)
theory UfsDir
  imports UfsInode
begin

text \<open>
  \<open>core/src/dir.rs\<close>: reading a block by its fragment address, the walk over the \<open>struct direct\<close>
  records of a directory block, the entries of a directory inode, and path resolution. A path is
  the list of its UTF-8 bytes, so \<open>split('/')\<close> splits at the byte \<open>0x2F\<close>.

  Positions inside a block are below \<open>isize::MAX + 65535\<close>, so the \<open>saturating_add\<close> that advances
  the walk never saturates (lemma \<open>walk_advance_exact\<close>) and is written as an addition.
\<close>

section \<open>Constants and types\<close>

definition DIRBLKSIZ :: usize where [sb_consts]: "DIRBLKSIZ = 512"
definition DIR_ROUNDUP :: usize where [sb_consts]: "DIR_ROUNDUP = 4"
definition DIRECT_HEAD :: usize where [sb_consts]: "DIRECT_HEAD = 8"
definition OFF_INO :: usize where [sb_consts]: "OFF_INO = 0"
definition OFF_RECLEN :: usize where [sb_consts]: "OFF_RECLEN = 4"
definition OFF_TYPE :: usize where [sb_consts]: "OFF_TYPE = 6"
definition OFF_NAMLEN :: usize where [sb_consts]: "OFF_NAMLEN = 7"
definition OFF_NAME :: usize where [sb_consts]: "OFF_NAME = 8"

datatype dir_entry_type =
  DtUnknown | DtFifo | DtCharDevice | DtDirectory | DtBlockDevice | DtRegular | DtSymlink
  | DtSocket | DtWhiteout | DtOther u8

definition from_d_type :: "u8 \<Rightarrow> dir_entry_type" where
  "from_d_type d_type =
     (if d_type = 0 then DtUnknown
      else if d_type = 1 then DtFifo
      else if d_type = 2 then DtCharDevice
      else if d_type = 4 then DtDirectory
      else if d_type = 6 then DtBlockDevice
      else if d_type = 8 then DtRegular
      else if d_type = 10 then DtSymlink
      else if d_type = 12 then DtSocket
      else if d_type = 14 then DtWhiteout
      else DtOther d_type)"

record dir_entry =
  de_name :: bytes
  de_ino :: u64
  de_file_type :: dir_entry_type
  de_deleted :: bool

section \<open>Reading a block\<close>

definition read_block :: "bytes \<Rightarrow> superblock \<Rightarrow> u64 \<Rightarrow> usize \<Rightarrow> ufs_error + bytes" where
  "read_block part sb addr len =
     (if sint (sb_fsize sb) \<le> 0
      then Inl (ErrImpossibleGeometry ''fs_fsize'' (scast (sb_fsize sb)) I64_MAX)
      else
        let fsize = scast (sb_fsize sb);
            start = unat (sat_mul addr fsize);
            stop = min (usize_sat_add start len) (length part)
        in Inr (case slice_get part start (max stop start) of Some s \<Rightarrow> s | None \<Rightarrow> []))"

section \<open>Walking a directory block\<close>

text \<open>The record at \<open>off\<close>: its entry and its length, or \<open>None\<close> when the length cannot hold the head.\<close>

definition dirent_at :: "bytes \<Rightarrow> endian \<Rightarrow> usize \<Rightarrow> (dir_entry \<times> usize) option" where
  "dirent_at block e off =
     (let ino = (ucast (endian_u32 e block (off + OFF_INO)) :: u64);
          reclen = unat (endian_u16 e block (off + OFF_RECLEN));
          d_type = u8_at block (off + OFF_TYPE);
          namlen = unat (u8_at block (off + OFF_NAMLEN))
      in if reclen < DIRECT_HEAD then None
         else
           let name_start = off + OFF_NAME;
               name_cap = reclen - OFF_NAME;
               tk = min namlen name_cap;
               name_end = min (usize_sat_add name_start tk) (length block);
               name = (case slice_get block name_start name_end of Some s \<Rightarrow> s | None \<Rightarrow> [])
           in Some (\<lparr> de_name = name, de_ino = ino, de_file_type = from_d_type d_type,
                      de_deleted = (ino = 0) \<rparr>, reclen))"

lemma dirent_at_reclen: "dirent_at block e off = Some (en, reclen) \<Longrightarrow> 8 \<le> reclen"
  by (auto simp: dirent_at_def Let_def sb_consts split: if_splits)

function walk_loop :: "bytes \<Rightarrow> endian \<Rightarrow> usize \<Rightarrow> dir_entry list \<Rightarrow> dir_entry list" where
  "walk_loop block e off out =
     (if off + DIRECT_HEAD \<le> length block
      then (case dirent_at block e off of
              None \<Rightarrow> out
            | Some (en, reclen) \<Rightarrow> walk_loop block e (off + reclen) (out @ [en]))
      else out)"
  by pat_completeness auto
termination
  by (relation "measure (\<lambda>(block, e, off, out). length block - off)")
    (auto simp: sb_consts dest!: dirent_at_reclen)

declare walk_loop.simps [simp del]

definition walk_block :: "bytes \<Rightarrow> endian \<Rightarrow> dir_entry list \<Rightarrow> dir_entry list" where
  "walk_block block e out = walk_loop block e 0 out"

section \<open>The entries of a directory inode\<close>

text \<open>The loop over the direct pointers, with its \<open>break\<close> and \<open>continue\<close>.\<close>

fun list_dir_loop ::
  "bytes \<Rightarrow> superblock \<Rightarrow> u64 \<Rightarrow> u64 list \<Rightarrow> u64 \<Rightarrow> dir_entry list \<Rightarrow> dir_entry list" where
  "list_dir_loop part sb bsize [] remaining entries = entries"
| "list_dir_loop part sb bsize (addr # addrs) remaining entries =
     (if remaining = 0 then entries
      else if addr = 0
      then list_dir_loop part sb bsize addrs (sat_sub remaining bsize) entries
      else
        let want = unat (min remaining bsize)
        in case read_block part sb addr want of
             Inl _ \<Rightarrow> entries
           | Inr block \<Rightarrow>
               list_dir_loop part sb bsize addrs (sat_sub remaining bsize)
                 (walk_block block (sb_endian sb) entries))"

definition list_dir_entries :: "bytes \<Rightarrow> superblock \<Rightarrow> inode \<Rightarrow> dir_entry list" where
  "list_dir_entries part sb i =
     (if sint (sb_fsize sb) \<le> 0 then []
      else
        let bsize = (if sint (sb_bsize sb) > 0 then scast (sb_bsize sb) else of_nat DIRBLKSIZ)
        in list_dir_loop part sb bsize (i_direct i) (i_size i) [])"

definition list_dir_all :: "bytes \<Rightarrow> superblock \<Rightarrow> u64 \<Rightarrow> ufs_error + dir_entry list" where
  "list_dir_all part sb dir_ino =
     try_bind (read_inode part sb dir_ino) (\<lambda>i. Inr (list_dir_entries part sb i))"

definition list_dir :: "bytes \<Rightarrow> superblock \<Rightarrow> u64 \<Rightarrow> ufs_error + dir_entry list" where
  "list_dir part sb dir_ino =
     try_bind (list_dir_all part sb dir_ino) (\<lambda>es. Inr (filter (\<lambda>e. \<not> de_deleted e) es))"

section \<open>Path resolution\<close>

text \<open>\<open>str::split\<close> at one character: always at least one piece.\<close>

fun split_on :: "'a \<Rightarrow> 'a list \<Rightarrow> 'a list list" where
  "split_on c [] = [[]]"
| "split_on c (x # xs) =
     (if x = c then [] # split_on c xs
      else (case split_on c xs of [] \<Rightarrow> [[x]] | p # ps \<Rightarrow> (x # p) # ps))"

abbreviation slash :: u8 where
  "slash \<equiv> 0x2F"

fun path_loop ::
  "bytes \<Rightarrow> superblock \<Rightarrow> bytes list \<Rightarrow> u64 \<Rightarrow> inode \<Rightarrow> ufs_error + (u64 \<times> inode) option" where
  "path_loop part sb [] cur_ino cur = Inr (Some (cur_ino, cur))"
| "path_loop part sb (piece # pieces) cur_ino cur =
     (if piece = [] then path_loop part sb pieces cur_ino cur
      else if \<not> inode_is_dir cur then Inr None
      else
        (case find (\<lambda>e. \<not> de_deleted e \<and> de_name e = piece) (list_dir_entries part sb cur) of
           None \<Rightarrow> Inr None
         | Some hit \<Rightarrow>
             try_bind (read_inode part sb (de_ino hit))
               (\<lambda>i. path_loop part sb pieces (de_ino hit) i)))"

definition read_by_path :: "bytes \<Rightarrow> superblock \<Rightarrow> bytes \<Rightarrow> ufs_error + (u64 \<times> inode) option" where
  "read_by_path part sb path =
     try_bind (read_inode part sb UFS_ROOTINO)
       (\<lambda>root. path_loop part sb (split_on slash path) UFS_ROOTINO root)"

section \<open>Blocks in exact arithmetic\<close>

lemma read_block_refines:
  assumes "valid_slice part" and "0 < sint (sb_fsize sb)"
  shows "read_block part sb addr len = Inr (take len (drop (unat addr * nat_i32 (sb_fsize sb)) part))"
proof -
  have start: "unat (sat_mul addr (scast (sb_fsize sb)) :: u64)
      = min (unat addr * nat_i32 (sb_fsize sb)) usize_max"
    using assms(2) by (simp add: sat_simps unat_scast_i32 nat_i32_def)
  show ?thesis
    using assms(2) slice_get_clamped [OF assms(1)]
    by (simp only: read_block_def Let_def start) simp
qed

lemma read_block_Inr: "0 < sint (sb_fsize sb) \<Longrightarrow> \<exists>b. read_block part sb addr len = Inr b"
  by (simp add: read_block_def Let_def)

lemma walk_advance_exact:
  assumes "valid_slice block" "off + DIRECT_HEAD \<le> length block" "dirent_at block e off = Some (en, reclen)"
  shows "usize_sat_add off reclen = off + reclen"
proof -
  have "reclen = unat (endian_u16 e block (off + OFF_RECLEN))"
    using assms(3) by (auto simp: dirent_at_def Let_def split: if_splits)
  then have "reclen < 65536" using unat_lt [of "endian_u16 e block (off + OFF_RECLEN)"] by simp
  then show ?thesis using assms(1,2) by (simp add: valid_slice_def)
qed

section \<open>One record\<close>

text \<open>Inside a slice the name is a plain segment of the block: no clamp of the source loses a byte of it.\<close>

lemma dirent_at_exact:
  assumes "valid_slice block" and "off + DIRECT_HEAD \<le> length block"
  shows "dirent_at block e off =
    (let ino = (ucast (endian_u32 e block off) :: u64); reclen = unat (endian_u16 e block (off + 4));
         namlen = unat (block ! (off + 7))
     in if reclen < 8 then None
        else Some (\<lparr> de_name = take (min namlen (reclen - 8)) (drop (off + 8) block), de_ino = ino,
                     de_file_type = from_d_type (block ! (off + 6)), de_deleted = (ino = 0) \<rparr>, reclen))"
proof -
  have len: "length block \<le> isize_max" using assms(1) by (simp add: valid_slice_def)
  have o8: "off + 8 \<le> length block" using assms(2) by (simp add: sb_consts)
  have name: "(case slice_get block (off + 8) (min (usize_sat_add (off + 8) n) (length block)) of
      Some s \<Rightarrow> s | None \<Rightarrow> []) = take n (drop (off + 8) block)" for n
  proof -
    have "min (off + 8) usize_max = off + 8" using o8 len by simp
    moreover have "max (min (usize_sat_add (off + 8) n) (length block)) (off + 8)
        = min (usize_sat_add (off + 8) n) (length block)"
      using o8 len by (auto simp: usize_sat_add_def max_def min_def)
    ultimately show ?thesis using slice_get_clamped [OF assms(1), of "off + 8" n] by simp
  qed
  show ?thesis
    using o8 by (simp add: dirent_at_def Let_def sb_consts name u8_at_def add.commute)
qed

lemma dirent_at_entry:
  assumes "valid_slice block" "off + DIRECT_HEAD \<le> length block" "dirent_at block e off = Some (en, reclen)"
  shows "de_deleted en \<longleftrightarrow> de_ino en = 0" "length (de_name en) \<le> 255" "unat (de_ino en) < 2 ^ 32"
    "8 \<le> reclen" "8 + length (de_name en) \<le> reclen"
proof -
  have "unat (block ! (off + 7)) < 256" using unat_lt [of "block ! (off + 7)"] by simp
  moreover have "unat (endian_u32 e block off) < 2 ^ 32" using unat_lt [of "endian_u32 e block off"] by simp
  ultimately show "de_deleted en \<longleftrightarrow> de_ino en = 0" "length (de_name en) \<le> 255" "unat (de_ino en) < 2 ^ 32"
    "8 \<le> reclen" "8 + length (de_name en) \<le> reclen"
    using assms(3) by (auto simp: dirent_at_exact [OF assms(1,2)] Let_def split: if_splits)
qed

section \<open>The walk\<close>

lemma walk_loop_stop: "length block < off + DIRECT_HEAD \<Longrightarrow> walk_loop block e off out = out"
  by (simp add: walk_loop.simps [of block])

lemma walk_loop_step:
  assumes "off + DIRECT_HEAD \<le> length block"
  shows "walk_loop block e off out = (case dirent_at block e off of None \<Rightarrow> out
    | Some (en, reclen) \<Rightarrow> walk_loop block e (off + reclen) (out @ [en]))"
  using assms by (simp only: walk_loop.simps [of block e off out] if_True)

text \<open>Induction along the walk: past the last head, at a broken record, at a good record.\<close>

lemma walk_induct [case_names stop broken step]:
  assumes "\<And>off. length block < off + DIRECT_HEAD \<Longrightarrow> P off"
    and "\<And>off. off + DIRECT_HEAD \<le> length block \<Longrightarrow> dirent_at block e off = None \<Longrightarrow> P off"
    and "\<And>off en reclen. off + DIRECT_HEAD \<le> length block \<Longrightarrow> dirent_at block e off = Some (en, reclen)
          \<Longrightarrow> P (off + reclen) \<Longrightarrow> P off"
  shows "P off"
proof (induction "length block - off" arbitrary: off rule: less_induct)
  case less
  show ?case
  proof (cases "off + DIRECT_HEAD \<le> length block")
    case True
    show ?thesis
    proof (cases "dirent_at block e off")
      case None
      with True show ?thesis by (rule assms(2))
    next
      case (Some p)
      obtain en reclen where p: "dirent_at block e off = Some (en, reclen)" using Some by (cases p) auto
      then have "length block - (off + reclen) < length block - off"
        using True dirent_at_reclen [OF p] by (simp add: sb_consts)
      then have "P (off + reclen)" by (rule less)
      with True p show ?thesis by (rule assms(3))
    qed
  next
    case False
    then show ?thesis by (intro assms(1)) simp
  qed
qed

lemma walk_loop_append: "walk_loop block e off out = out @ walk_loop block e off []"
proof (induction off arbitrary: out rule: walk_induct [where block = block and e = e])
  case (step off en reclen)
  from step(1,2) have "walk_loop block e off x = x @ [en] @ walk_loop block e (off + reclen) []" for x
    by (simp add: walk_loop_step) (subst step.IH, simp)
  then show ?case by simp
qed (simp_all add: walk_loop_stop walk_loop_step)

definition walk_entries :: "bytes \<Rightarrow> endian \<Rightarrow> dir_entry list" where
  "walk_entries block e = walk_block block e []"

lemma walk_block_append: "walk_block block e out = out @ walk_entries block e"
  unfolding walk_block_def walk_entries_def by (rule walk_loop_append)

text \<open>The positions the walk stands at, as a step relation.\<close>

inductive walk_at :: "bytes \<Rightarrow> endian \<Rightarrow> usize \<Rightarrow> bool" for block e where
  start: "walk_at block e 0"
| advance: "walk_at block e off \<Longrightarrow> off + DIRECT_HEAD \<le> length block
    \<Longrightarrow> dirent_at block e off = Some (en, reclen) \<Longrightarrow> walk_at block e (off + reclen)"

inductive_cases walk_at_elim: "walk_at block e off"

text \<open>The same relation from any position, to follow the loop.\<close>

inductive walk_from :: "bytes \<Rightarrow> endian \<Rightarrow> usize \<Rightarrow> usize \<Rightarrow> bool" for block e where
  here: "walk_from block e off off"
| more: "off + DIRECT_HEAD \<le> length block \<Longrightarrow> dirent_at block e off = Some (en, reclen)
    \<Longrightarrow> walk_from block e (off + reclen) off' \<Longrightarrow> walk_from block e off off'"

lemma walk_from_trans_at: "walk_from block e off off' \<Longrightarrow> walk_at block e off \<Longrightarrow> walk_at block e off'"
  by (induction rule: walk_from.induct) (auto intro: walk_at.advance)

lemma walk_from_snoc:
  "walk_from block e off off' \<Longrightarrow> off' + DIRECT_HEAD \<le> length block
    \<Longrightarrow> dirent_at block e off' = Some (en, reclen) \<Longrightarrow> walk_from block e off (off' + reclen)"
  by (induction rule: walk_from.induct) (auto intro: walk_from.intros)

lemma walk_at_from: "walk_at block e off \<longleftrightarrow> walk_from block e 0 off"
proof
  show "walk_at block e off \<Longrightarrow> walk_from block e 0 off"
    by (induction rule: walk_at.induct) (auto intro: walk_from.here walk_from_snoc)
qed (auto intro: walk_from_trans_at walk_at.start)

lemma walk_from_stop: "length block < off + DIRECT_HEAD \<Longrightarrow> walk_from block e off off' \<longleftrightarrow> off' = off"
  by (auto intro: walk_from.here elim: walk_from.cases)

lemma walk_from_broken: "dirent_at block e off = None \<Longrightarrow> walk_from block e off off' \<longleftrightarrow> off' = off"
  by (auto intro: walk_from.here elim: walk_from.cases)

lemma walk_from_step:
  "off + DIRECT_HEAD \<le> length block \<Longrightarrow> dirent_at block e off = Some (en, reclen)
    \<Longrightarrow> walk_from block e off off' \<longleftrightarrow> off' = off \<or> walk_from block e (off + reclen) off'"
  by (auto intro: walk_from.intros elim: walk_from.cases)

lemma set_walk_loop:
  "en \<in> set (walk_loop block e off []) \<longleftrightarrow>
     (\<exists>off' reclen. walk_from block e off off' \<and> off' + DIRECT_HEAD \<le> length block
        \<and> dirent_at block e off' = Some (en, reclen))"
proof (induction off rule: walk_induct [where block = block and e = e])
  case (stop off)
  then show ?case by (auto simp: walk_loop_stop walk_from_stop)
next
  case (broken off)
  then show ?case by (auto simp: walk_loop_step walk_from_broken)
next
  case (step off en' reclen)
  have "walk_loop block e off [] = en' # walk_loop block e (off + reclen) []"
    using step(1,2) by (simp add: walk_loop_step) (subst walk_loop_append, simp)
  then show ?case using step by (auto simp: walk_from_step)
qed

lemma set_walk_entries:
  "en \<in> set (walk_entries block e) \<longleftrightarrow>
     (\<exists>off reclen. walk_at block e off \<and> off + DIRECT_HEAD \<le> length block
        \<and> dirent_at block e off = Some (en, reclen))"
  unfolding walk_entries_def walk_block_def walk_at_from by (rule set_walk_loop)

lemma length_walk_loop: "8 * length (walk_loop block e off []) \<le> length block - off"
proof (induction off rule: walk_induct [where block = block and e = e])
  case (step off en reclen)
  have "walk_loop block e off [] = en # walk_loop block e (off + reclen) []"
    using step(1,2) by (simp add: walk_loop_step) (subst walk_loop_append, simp)
  moreover have "8 \<le> reclen" "off + 8 \<le> length block"
    using step(1,2) by (auto simp: sb_consts dest: dirent_at_reclen)
  ultimately show ?case using step.IH by simp
qed (simp_all add: walk_loop_stop walk_loop_step)

lemma length_walk_entries: "8 * length (walk_entries block e) \<le> length block"
  using length_walk_loop [of block e 0] by (simp add: walk_entries_def walk_block_def)

lemma walk_entries_entry:
  assumes "valid_slice block" "en \<in> set (walk_entries block e)"
  shows "de_deleted en \<longleftrightarrow> de_ino en = 0" "length (de_name en) \<le> 255" "unat (de_ino en) < 2 ^ 32"
  using assms dirent_at_entry [OF assms(1)] by (auto simp: set_walk_entries)

section \<open>The layout of a directory block\<close>

text \<open>
  A record as a writer lays it out: the four head fields, the name, and the padding up to
  \<open>d_reclen\<close>. A block is a sequence of records and a rest the walk stops at.
\<close>

record raw_dirent =
  rd_ino :: u32
  rd_type :: u8
  rd_name :: bytes
  rd_pad :: bytes

definition raw_reclen :: "raw_dirent \<Rightarrow> nat" where
  "raw_reclen r = 8 + length (rd_name r) + length (rd_pad r)"

definition raw_ok :: "raw_dirent \<Rightarrow> bool" where
  "raw_ok r \<longleftrightarrow> length (rd_name r) \<le> 255 \<and> raw_reclen r < 65536"

definition raw_bytes :: "endian \<Rightarrow> raw_dirent \<Rightarrow> bytes" where
  "raw_bytes e r =
     endian_bytes e (rd_ino r) @ endian_bytes e (of_nat (raw_reclen r) :: u16)
     @ [rd_type r, of_nat (length (rd_name r))] @ rd_name r @ rd_pad r"

definition raw_entry :: "raw_dirent \<Rightarrow> dir_entry" where
  "raw_entry r = \<lparr> de_name = rd_name r, de_ino = ucast (rd_ino r),
     de_file_type = from_d_type (rd_type r), de_deleted = (rd_ino r = 0) \<rparr>"

definition walk_ends :: "endian \<Rightarrow> bytes \<Rightarrow> bool" where
  "walk_ends e rest \<longleftrightarrow> length rest < 8 \<or> unat (endian_u16 e rest 4) < 8"

lemma length_raw_bytes [simp]: "length (raw_bytes e r) = raw_reclen r"
  by (simp add: raw_bytes_def raw_reclen_def)

lemma ucast_32_64_eq_0: "(ucast (w :: u32) :: u64) = 0 \<longleftrightarrow> w = 0"
  by (metis unat_ucast_32_64 unat_eq_zero unsigned_0)

lemma dirent_at_raw:
  assumes "valid_slice (pre @ raw_bytes e r @ rest)" and "raw_ok r"
  shows "dirent_at (pre @ raw_bytes e r @ rest) e (length pre) = Some (raw_entry r, raw_reclen r)"
proof -
  let ?b = "pre @ raw_bytes e r @ rest" and ?o = "length pre"
  have len: "?o + 8 \<le> length ?b" and small: "?o + 8 \<le> usize_max"
    using assms(1) by (simp_all add: valid_slice_def raw_reclen_def)
  have ino: "endian_u32 e ?b ?o = rd_ino r"
    using small by (intro eu32.rd_at) (simp_all add: slice_get_def raw_bytes_def)
  have rl: "endian_u16 e ?b (?o + 4) = of_nat (raw_reclen r)"
    using small by (intro eu16.rd_at) (simp_all add: slice_get_def raw_bytes_def)
  have url: "unat (of_nat (raw_reclen r) :: u16) = raw_reclen r"
    using assms(2) by (simp add: raw_ok_def unat_of_nat)
  have ty: "(raw_bytes e r @ rest) ! 6 = rd_type r"
    and nl: "(raw_bytes e r @ rest) ! 7 = of_nat (length (rd_name r))"
    by (simp_all add: raw_bytes_def nth_append)
  have unl: "unat (of_nat (length (rd_name r)) :: u8) = length (rd_name r)"
    using assms(2) by (simp add: raw_ok_def unat_of_nat)
  have nm: "take (length (rd_name r)) (drop 8 (raw_bytes e r)) = rd_name r"
    by (simp add: raw_bytes_def)
  have "length (rd_name r) \<le> raw_reclen r - 8" "\<not> raw_reclen r < 8" by (simp_all add: raw_reclen_def)
  then show ?thesis
    using len by (simp add: dirent_at_exact [OF assms(1)] Let_def ino rl url ty nl unl nm
        raw_entry_def sb_consts min_absorb1 ucast_32_64_eq_0)
qed

lemma walk_loop_rest:
  assumes "valid_slice (pre @ rest)" and "walk_ends e rest"
  shows "walk_loop (pre @ rest) e (length pre) out = out"
proof (cases "length pre + DIRECT_HEAD \<le> length (pre @ rest)")
  case True
  then have "unat (endian_u16 e rest 4) < 8"
    using assms(2) by (simp add: walk_ends_def sb_consts)
  moreover have "endian_u16 e (pre @ rest) (length pre + 4) = endian_u16 e rest 4"
    using eu16.rd_drop [of "length pre" 4 "pre @ rest" e] assms(1) True
    by (simp add: valid_slice_def sb_consts)
  ultimately have "dirent_at (pre @ rest) e (length pre) = None"
    by (simp add: dirent_at_exact [OF assms(1) True] Let_def)
  then show ?thesis using True by (simp add: walk_loop_step)
next
  case False
  then show ?thesis by (simp add: walk_loop_stop)
qed

lemma walk_loop_layout:
  assumes "valid_slice (pre @ concat (map (raw_bytes e) rs) @ rest)"
    and "\<forall>r \<in> set rs. raw_ok r" and "walk_ends e rest"
  shows "walk_loop (pre @ concat (map (raw_bytes e) rs) @ rest) e (length pre) out = out @ map raw_entry rs"
  using assms(1,2)
proof (induction rs arbitrary: pre out)
  case Nil
  then show ?case using walk_loop_rest assms(3) by simp
next
  case (Cons r rs)
  let ?tail = "concat (map (raw_bytes e) rs) @ rest"
  have v: "valid_slice (pre @ raw_bytes e r @ ?tail)" using Cons.prems(1) by simp
  have d: "dirent_at (pre @ raw_bytes e r @ ?tail) e (length pre) = Some (raw_entry r, raw_reclen r)"
    using v Cons.prems(2) by (intro dirent_at_raw) simp_all
  have "length pre + DIRECT_HEAD \<le> length (pre @ raw_bytes e r @ ?tail)"
    by (simp add: sb_consts raw_reclen_def)
  then have "walk_loop (pre @ raw_bytes e r @ ?tail) e (length pre) out
      = walk_loop (pre @ raw_bytes e r @ ?tail) e (length pre + raw_reclen r) (out @ [raw_entry r])"
    using d by (simp add: walk_loop_step)
  also have "\<dots> = (out @ [raw_entry r]) @ map raw_entry rs"
    using Cons.IH [of "pre @ raw_bytes e r" "out @ [raw_entry r]"] Cons.prems v by simp
  finally show ?case by simp
qed

lemma walk_entries_layout:
  assumes "valid_slice (concat (map (raw_bytes e) rs) @ rest)"
    and "\<forall>r \<in> set rs. raw_ok r" and "walk_ends e rest"
  shows "walk_entries (concat (map (raw_bytes e) rs) @ rest) e = map raw_entry rs"
  using walk_loop_layout [of "[]"] assms by (simp add: walk_entries_def walk_block_def)

section \<open>The entries of a directory, block by block\<close>

text \<open>The bytes of the \<open>k\<close>-th direct block that lie within the directory's size.\<close>

definition dir_block :: "bytes \<Rightarrow> superblock \<Rightarrow> inode \<Rightarrow> nat \<Rightarrow> bytes" where
  "dir_block part sb i k =
     (let bsize = nat_i32 (sb_bsize sb); addr = i_direct i ! k in
      if addr = 0 then []
      else take (min (unat (i_size i) - k * bsize) bsize)
             (drop (unat addr * nat_i32 (sb_fsize sb)) part))"

lemma walk_entries_short: "length block < 8 \<Longrightarrow> walk_entries block e = []"
  by (simp add: walk_entries_def walk_block_def walk_loop_stop sb_consts)

lemma list_dir_loop_exact:
  assumes "valid_slice part" "0 < sint (sb_fsize sb)"
  shows "list_dir_loop part sb bs addrs remaining es =
    es @ concat (map (\<lambda>k. if addrs ! k = 0 then [] else walk_entries
        (take (min (unat remaining - k * unat bs) (unat bs))
          (drop (unat (addrs ! k) * nat_i32 (sb_fsize sb)) part)) (sb_endian sb)) [0..<length addrs])"
proof (induction addrs arbitrary: remaining es)
  case Nil
  then show ?case by simp
next
  case (Cons addr addrs)
  let ?blk = "\<lambda>rem a. if a = 0 then [] else walk_entries (take (min rem (unat bs))
          (drop (unat a * nat_i32 (sb_fsize sb)) part)) (sb_endian sb)"
  have shift: "unat (sat_sub remaining bs) - k * unat bs = unat remaining - Suc k * unat bs" for k
    by (simp add: sat_simps)
  have split: "concat (map (\<lambda>k. ?blk (unat remaining - k * unat bs) ((addr # addrs) ! k)) [0..<length (addr # addrs)])
      = ?blk (unat remaining) addr
        @ concat (map (\<lambda>k. ?blk (unat remaining - Suc k * unat bs) (addrs ! k)) [0..<length addrs])"
    by (simp add: upt_conv_Cons map_Suc_upt [symmetric] comp_def del: upt_Suc cong: if_cong)
  show ?case
  proof (cases "remaining = 0")
    case True
    then have "concat (map (\<lambda>k. ?blk (unat remaining - k * unat bs) ((addr # addrs) ! k)) [0..<length (addr # addrs)]) = []"
      by (auto simp: walk_entries_short)
    then show ?thesis using True by simp
  next
    case False
    have mn: "unat (min remaining bs) = min (unat remaining) (unat bs)"
      by (simp add: min_def word_le_nat_alt)
    show ?thesis unfolding split
      using False Cons.IH [of "sat_sub remaining bs"] read_block_refines [OF assms]
      by (simp add: shift mn walk_block_append cong: if_cong)
  qed
qed

lemma list_dir_entries_exact:
  assumes "valid_slice part" "0 < sint (sb_fsize sb)" "0 < sint (sb_bsize sb)"
  shows "list_dir_entries part sb i =
    concat (map (\<lambda>k. walk_entries (dir_block part sb i k) (sb_endian sb)) [0..<length (i_direct i)])"
proof -
  have "unat (scast (sb_bsize sb) :: u64) = nat_i32 (sb_bsize sb)"
    using assms(3) by (simp add: unat_scast_i32 nat_i32_def)
  moreover have "walk_entries [] e = []" for e by (simp add: walk_entries_short)
  ultimately show ?thesis
    using assms by (simp add: list_dir_entries_def Let_def list_dir_loop_exact dir_block_def
        if_distrib [of "\<lambda>b. walk_entries b _"] cong: if_cong)
qed

section \<open>Paths\<close>

definition path_pieces :: "bytes \<Rightarrow> bytes list" where
  "path_pieces path = filter (\<lambda>p. p \<noteq> []) (split_on slash path)"

definition dir_lookup :: "bytes \<Rightarrow> superblock \<Rightarrow> inode \<Rightarrow> bytes \<Rightarrow> dir_entry option" where
  "dir_lookup part sb i name =
     find (\<lambda>e. \<not> de_deleted e \<and> de_name e = name) (list_dir_entries part sb i)"

text \<open>
  Path resolution as a relation: every step leaves a directory through its first live entry of
  that name and loads the inode the entry points at.
\<close>

inductive resolves :: "bytes \<Rightarrow> superblock \<Rightarrow> u64 \<Rightarrow> inode \<Rightarrow> bytes list \<Rightarrow> u64 \<Rightarrow> inode \<Rightarrow> bool"
  for part sb where
  arrive: "resolves part sb n i [] n i"
| enter: "inode_is_dir i \<Longrightarrow> dir_lookup part sb i p = Some hit \<Longrightarrow> read_inode part sb (de_ino hit) = Inr j
    \<Longrightarrow> resolves part sb (de_ino hit) j ps n' i' \<Longrightarrow> resolves part sb n i (p # ps) n' i'"

inductive_simps resolves_Nil [simp]: "resolves part sb n i [] n' i'"
inductive_simps resolves_Cons: "resolves part sb n i (p # ps) n' i'"

lemma split_on_nonempty: "split_on c xs \<noteq> []"
  by (induction xs) (auto split: list.splits)

lemma split_on_append: "split_on c (xs @ c # ys) = split_on c xs @ split_on c ys"
proof (induction xs)
  case (Cons x xs)
  then show ?case using split_on_nonempty [of c xs] by (auto split: list.splits)
qed simp

lemma split_on_no_sep: "c \<notin> set xs \<Longrightarrow> split_on c xs = [xs]"
  by (induction xs) auto

lemma split_on_pieces: "p \<in> set (split_on c xs) \<Longrightarrow> c \<notin> set p"
  by (induction xs arbitrary: p) (auto split: if_splits list.splits)

lemma path_loop_skip: "path_loop part sb ps n i = path_loop part sb (filter (\<lambda>p. p \<noteq> []) ps) n i"
proof (induction ps arbitrary: n i)
  case (Cons p ps)
  then show ?case by (auto split: option.splits simp: try_bind_def split: sum.splits)
qed simp

lemma path_loop_append:
  "path_loop part sb (ps @ qs) n i =
     try_bind (path_loop part sb ps n i)
       (\<lambda>r. case r of None \<Rightarrow> Inr None | Some (m, j) \<Rightarrow> path_loop part sb qs m j)"
proof (induction ps arbitrary: n i)
  case (Cons p ps)
  then show ?case by (auto split: option.splits simp: try_bind_def split: sum.splits)
qed simp

lemma path_loop_resolves:
  "path_loop part sb ps n i = Inr (Some (n', i')) \<longleftrightarrow> resolves part sb n i (filter (\<lambda>p. p \<noteq> []) ps) n' i'"
proof (induction ps arbitrary: n i)
  case (Cons p ps)
  then show ?case
    by (auto simp: resolves_Cons dir_lookup_def try_bind_Inr_iff split: option.splits)
qed auto

lemma read_by_path_resolves:
  "read_by_path part sb path = Inr (Some (n, i)) \<longleftrightarrow>
     (\<exists>root. read_inode part sb UFS_ROOTINO = Inr root \<and>
        resolves part sb UFS_ROOTINO root (path_pieces path) n i)"
  by (simp add: read_by_path_def try_bind_Inr_iff path_loop_resolves path_pieces_def)

lemma read_by_path_append:
  "read_by_path part sb (p @ slash # q) =
     try_bind (read_by_path part sb p)
       (\<lambda>r. case r of None \<Rightarrow> Inr None | Some (n, i) \<Rightarrow> path_loop part sb (split_on slash q) n i)"
  by (cases "read_inode part sb UFS_ROOTINO")
    (simp_all add: read_by_path_def split_on_append path_loop_append)

lemma resolves_number:
  "resolves part sb n i ps n' i' \<Longrightarrow> read_inode part sb n = Inr i \<Longrightarrow> read_inode part sb n' = Inr i'"
  by (induction rule: resolves.induct) auto

section \<open>Properties\<close>

text \<open>
  Reading a block gives exactly the bytes of the image from \<open>addr * fs_fsize\<close> on, at most \<open>len\<close>
  of them and fewer at the end of the image, for every address; with a degenerate fragment size it is
  the error that names it.
\<close>

lemma read_block_exact:
  assumes "valid_slice part"
  shows "read_block part sb addr len =
    (if sint (sb_fsize sb) \<le> 0 then Inl (ErrImpossibleGeometry ''fs_fsize'' (scast (sb_fsize sb)) I64_MAX)
     else Inr (take len (drop (unat addr * nat_i32 (sb_fsize sb)) part)))"
  using read_block_refines [OF assms] by (auto simp: read_block_def)

lemma read_block_exact_witness:
  "read_block [0, 1, 2, 3, 4, 5, 6, 7, 8, 9, 10] tiny_sb 1 16 = Inr [8, 9, 10]
   \<and> read_block [0, 1, 2] tiny_sb 0xFFFFFFFFFFFFFFFF 16 = Inr []"
  using read_block_exact [of "[0, 1, 2, 3, 4, 5, 6, 7, 8, 9, 10]" tiny_sb 1 16]
    read_block_exact [of "[0, 1, 2]" tiny_sb "0xFFFFFFFFFFFFFFFF" 16]
  by (simp add: valid_slice_def tiny_sb_def nat_i32_def)

text \<open>
  C15. Round trip of a directory block: the walk over a sequence of records, followed by a rest too
  short for a head or with a record length that cannot hold one, returns exactly the entries that were
  laid out, deleted slots included, in their order, in either byte order.
\<close>

theorem walk_block_roundtrip:
  assumes "valid_slice (concat (map (raw_bytes e) rs) @ rest)"
    and "\<forall>r \<in> set rs. raw_ok r" and "walk_ends e rest"
  shows "walk_block (concat (map (raw_bytes e) rs) @ rest) e out = out @ map raw_entry rs"
  using walk_entries_layout [OF assms] by (simp add: walk_block_append)

definition tiny_dirents :: "raw_dirent list" where
  "tiny_dirents =
     [\<lparr> rd_ino = 2, rd_type = 4, rd_name = [0x2E], rd_pad = [0, 0, 0] \<rparr>,
      \<lparr> rd_ino = 0, rd_type = 8, rd_name = [0x61, 0x62], rd_pad = [0, 0] \<rparr>,
      \<lparr> rd_ino = 7, rd_type = 8, rd_name = [0x63], rd_pad = [0, 0, 0] \<rparr>]"

theorem walk_block_roundtrip_witness:
  "walk_block (concat (map (raw_bytes Big) tiny_dirents) @ [0, 0]) Big [] =
     [\<lparr> de_name = [0x2E], de_ino = 2, de_file_type = DtDirectory, de_deleted = False \<rparr>,
      \<lparr> de_name = [0x61, 0x62], de_ino = 0, de_file_type = DtRegular, de_deleted = True \<rparr>,
      \<lparr> de_name = [0x63], de_ino = 7, de_file_type = DtRegular, de_deleted = False \<rparr>]"
proof -
  have "walk_block (concat (map (raw_bytes Big) tiny_dirents) @ [0, 0]) Big [] = [] @ map raw_entry tiny_dirents"
    by (rule walk_block_roundtrip)
      (simp_all add: valid_slice_def tiny_dirents_def raw_ok_def raw_reclen_def walk_ends_def raw_bytes_def)
  then show ?thesis by (simp add: tiny_dirents_def raw_entry_def from_d_type_def)
qed

text \<open>
  C16. Whatever the bytes of a directory block are, the walk ends and reports exactly the records at the
  positions it reaches by whole record lengths from the start; there are at most an eighth as many as
  bytes, each name is a segment of the block of at most 255 bytes, each inode number is below \<open>2^32\<close>,
  and an entry is flagged deleted exactly when its number is zero.
\<close>

theorem walk_block_sound:
  assumes "valid_slice block"
  shows "8 * length (walk_block block e []) \<le> length block
    \<and> (\<forall>en. en \<in> set (walk_block block e []) \<longleftrightarrow>
         (\<exists>off reclen. walk_at block e off \<and> off + 8 \<le> length block \<and> dirent_at block e off = Some (en, reclen)))
    \<and> (\<forall>en \<in> set (walk_block block e []). (de_deleted en \<longleftrightarrow> de_ino en = 0) \<and> length (de_name en) \<le> 255
         \<and> unat (de_ino en) < 2 ^ 32 \<and> (\<exists>off. de_name en = take (length (de_name en)) (drop off block)))"
proof (intro conjI)
  have w: "walk_block block e [] = walk_entries block e" by (simp add: walk_entries_def)
  show "8 * length (walk_block block e []) \<le> length block" unfolding w by (rule length_walk_entries)
  show "\<forall>en. en \<in> set (walk_block block e []) \<longleftrightarrow>
      (\<exists>off reclen. walk_at block e off \<and> off + 8 \<le> length block \<and> dirent_at block e off = Some (en, reclen))"
    unfolding w set_walk_entries by (simp add: DIRECT_HEAD_def)
  show "\<forall>en \<in> set (walk_block block e []). (de_deleted en \<longleftrightarrow> de_ino en = 0) \<and> length (de_name en) \<le> 255
      \<and> unat (de_ino en) < 2 ^ 32 \<and> (\<exists>off. de_name en = take (length (de_name en)) (drop off block))"
  proof
    fix en assume en: "en \<in> set (walk_block block e [])"
    then obtain off reclen where o: "off + DIRECT_HEAD \<le> length block" "dirent_at block e off = Some (en, reclen)"
      unfolding w set_walk_entries by blast
    then obtain n where n: "de_name en = take n (drop (off + 8) block)"
      by (auto simp: dirent_at_exact [OF assms] Let_def split: if_splits)
    have "take (length (take n xs)) xs = take n xs" for xs :: bytes by (simp add: min_def)
    from this [of "drop (off + 8) block"]
    have "de_name en = take (length (de_name en)) (drop (off + 8) block)" by (simp only: n)
    then have "\<exists>off. de_name en = take (length (de_name en)) (drop off block)" ..
    then show "(de_deleted en \<longleftrightarrow> de_ino en = 0) \<and> length (de_name en) \<le> 255
      \<and> unat (de_ino en) < 2 ^ 32 \<and> (\<exists>off. de_name en = take (length (de_name en)) (drop off block))"
      using walk_entries_entry [OF assms en [unfolded w]] by blast
  qed
qed

theorem walk_block_sound_witness:
  "8 * length (walk_block [1, 2, 3, 4, 5, 6, 7, 8, 9, 10] Little []) \<le> 10"
  using walk_block_sound [of "[1, 2, 3, 4, 5, 6, 7, 8, 9, 10]" Little] by (simp add: valid_slice_def)

text \<open>
  C17. The entries of a directory are the walks of its twelve direct blocks one after the other, each
  cut to what the directory's size leaves for it, holes skipped; listing keeps exactly the entries that
  are not deleted, in order, and fails only with the error of loading the inode.
\<close>

theorem list_dir_exact:
  assumes "valid_slice part" "0 < sint (sb_fsize sb)" "0 < sint (sb_bsize sb)"
  shows "list_dir part sb ino =
    (case read_inode part sb ino of
       Inl e \<Rightarrow> Inl e
     | Inr i \<Rightarrow> Inr (filter (\<lambda>e. \<not> de_deleted e)
         (concat (map (\<lambda>k. walk_block (dir_block part sb i k) (sb_endian sb) []) [0..<12]))))"
proof (cases "read_inode part sb ino")
  case (Inr i)
  then have "length (i_direct i) = 12"
    by (auto simp: read_inode_def Let_def inode_parse_with_maxsymlink_def inode_decode_def read_ptrs_def
        sb_consts split: if_splits option.splits)
  then show ?thesis
    using Inr list_dir_entries_exact [OF assms, of i]
    by (simp add: list_dir_def list_dir_all_def walk_entries_def)
qed (simp add: list_dir_def list_dir_all_def)

text \<open>
  Where a path ends without an inode: at something that is not a directory, or at a directory that
  has no live entry of the next name.
\<close>

inductive missing :: "bytes \<Rightarrow> superblock \<Rightarrow> inode \<Rightarrow> bytes list \<Rightarrow> bool" for part sb where
  not_dir: "\<not> inode_is_dir i \<Longrightarrow> missing part sb i (p # ps)"
| no_entry: "inode_is_dir i \<Longrightarrow> dir_lookup part sb i p = None \<Longrightarrow> missing part sb i (p # ps)"
| deeper: "inode_is_dir i \<Longrightarrow> dir_lookup part sb i p = Some hit \<Longrightarrow> read_inode part sb (de_ino hit) = Inr j
    \<Longrightarrow> missing part sb j ps \<Longrightarrow> missing part sb i (p # ps)"

inductive_simps missing_Nil [simp]: "missing part sb i []"
inductive_simps missing_Cons: "missing part sb i (p # ps)"

lemma path_loop_missing:
  "path_loop part sb ps n i = Inr None \<longleftrightarrow> missing part sb i (filter (\<lambda>p. p \<noteq> []) ps)"
proof (induction ps arbitrary: n i)
  case (Cons p ps)
  show ?case
    by (auto simp: missing_Cons dir_lookup_def try_bind_Inr_iff Cons.IH split: option.splits)
qed simp

text \<open>
  C18. Path resolution: a path yields inode \<open>n\<close> exactly when, from the root, each non-empty component
  in turn names the first live entry of that name in a directory and the entry's inode loads; it yields
  nothing exactly when some component meets a non-directory or is not an entry. Repeated, leading and
  trailing slashes do not matter, and the empty path is the root.
\<close>

theorem read_by_path_exact:
  "(read_by_path part sb path = Inr (Some (n, i)) \<longleftrightarrow>
      (\<exists>root. read_inode part sb UFS_ROOTINO = Inr root
         \<and> resolves part sb UFS_ROOTINO root (path_pieces path) n i))
   \<and> (read_by_path part sb path = Inr None \<longleftrightarrow>
      (\<exists>root. read_inode part sb UFS_ROOTINO = Inr root \<and> missing part sb root (path_pieces path)))
   \<and> path_pieces (slash # path) = path_pieces path \<and> path_pieces (path @ [slash]) = path_pieces path
   \<and> path_pieces [] = []"
proof (intro conjI)
  show "read_by_path part sb path = Inr None \<longleftrightarrow>
      (\<exists>root. read_inode part sb UFS_ROOTINO = Inr root \<and> missing part sb root (path_pieces path))"
    by (simp add: read_by_path_def try_bind_Inr_iff path_loop_missing path_pieces_def)
  show "path_pieces (path @ [slash]) = path_pieces path"
    using split_on_append [of slash path "[]"] by (simp add: path_pieces_def)
qed (simp_all add: read_by_path_resolves, simp_all add: path_pieces_def)

text \<open>
  Resolution composes: resolving \<open>p/q\<close> is resolving \<open>p\<close> and, where that yields an inode, resolving
  \<open>q\<close> from it; an error or a missing component of \<open>p\<close> is the result of the whole.
\<close>

lemma read_by_path_compose:
  "read_by_path part sb (p @ slash # q) =
     (case read_by_path part sb p of
        Inl e \<Rightarrow> Inl e
      | Inr None \<Rightarrow> Inr None
      | Inr (Some (n, i)) \<Rightarrow> path_loop part sb (split_on slash q) n i)"
  by (simp add: read_by_path_append try_bind_def split: sum.split option.split)

end
