(* ===== verification/UfsFile.thy ===== *)
theory UfsFile
  imports UfsDir
begin

text \<open>
  \<open>core/src/file.rs\<close>: the block map (direct, single, double and triple indirect pointers), the
  assembly of a file's bytes, and symbolic-link targets. The specification side is \<open>block_path\<close>,
  the place of a logical block in the pointer tree, and \<open>file_byte\<close>, the byte of the partition a
  file offset stands for.
\<close>

section \<open>The code\<close>

definition indirect_ptr :: "bytes \<Rightarrow> superblock \<Rightarrow> u64 \<Rightarrow> u64 \<Rightarrow> u64" where
  "indirect_ptr part sb ind_addr idx =
     (if ind_addr = 0 then 0
      else
        let bsize = (if sint (sb_bsize sb) > 0 then unat (scast (sb_bsize sb) :: u64) else 0)
        in case read_block part sb ind_addr bsize of
             Inl _ \<Rightarrow> 0
           | Inr block \<Rightarrow>
               (let ptr_size = (case sb_version sb of Ufs2 \<Rightarrow> 8 | Ufs1 \<Rightarrow> 4) :: u64;
                    off = unat (sat_mul idx ptr_size)
                in case sb_version sb of
                     Ufs2 \<Rightarrow> endian_u64 (sb_endian sb) block off
                   | Ufs1 \<Rightarrow> ucast (endian_u32 (sb_endian sb) block off)))"

definition resolve_block :: "bytes \<Rightarrow> superblock \<Rightarrow> inode \<Rightarrow> u64 \<Rightarrow> u64 \<Rightarrow> u64" where
  "resolve_block part sb inode bi nindir =
     (let ndaddr = of_nat UFS_NDADDR in
      if bi < ndaddr then i_direct inode ! unat bi
      else if nindir = 0 then 0
      else
        let i = bi - ndaddr in
        if i < nindir then indirect_ptr part sb (i_indirect inode ! 0) i
        else
          let i = i - nindir;
              nindir2 = sat_mul nindir nindir in
          if i < nindir2
          then (let sib = indirect_ptr part sb (i_indirect inode ! 1) (i div nindir)
                in indirect_ptr part sb sib (i mod nindir))
          else
            let i = i - nindir2;
                nindir3 = sat_mul nindir2 nindir in
            if i \<ge> nindir3 then 0
            else
              let dib = indirect_ptr part sb (i_indirect inode ! 2) (i div nindir2);
                  rem = i mod nindir2;
                  sib = indirect_ptr part sb dib (rem div nindir)
              in indirect_ptr part sb sib (rem mod nindir))"

text \<open>One iteration: the bytes of one logical block copied into the output, a hole left zero.\<close>

definition copy_block ::
  "bytes \<Rightarrow> superblock \<Rightarrow> u64 \<Rightarrow> usize \<Rightarrow> usize \<Rightarrow> bytes \<Rightarrow> ufs_error + bytes" where
  "copy_block part sb addr this_len written out =
     (if addr \<noteq> 0
      then try_bind (read_block part sb addr this_len)
             (\<lambda>block. let n = min (length block) this_len
                      in Inr (slice_put out written (take n block)))
      else Inr out)"

lemma unat_Suc_less: "bi < n \<Longrightarrow> unat (bi + 1) = Suc (unat bi)" for bi n :: "'a::len word"
proof -
  assume "bi < n"
  then have "unat bi < unat n" by (simp add: word_less_nat_alt)
  then have "unat bi + 1 < 2 ^ LENGTH('a)" using unat_lt [of n] by linarith
  then show ?thesis by (simp add: unat_word_ariths)
qed

function read_file_loop ::
  "bytes \<Rightarrow> superblock \<Rightarrow> inode \<Rightarrow> u64 \<Rightarrow> u64 \<Rightarrow> u64 \<Rightarrow> u64 \<Rightarrow> u64 \<Rightarrow> usize \<Rightarrow> bytes \<Rightarrow> ufs_error + bytes"
  where
  "read_file_loop part sb inode nindir bsize n_blocks bi remaining written out =
     (if bi < n_blocks
      then
        let this_len = unat (min remaining bsize);
            addr = resolve_block part sb inode bi nindir
        in case copy_block part sb addr this_len written out of
             Inl e \<Rightarrow> Inl e
           | Inr out' \<Rightarrow>
               read_file_loop part sb inode nindir bsize n_blocks (bi + 1)
                 (sat_sub remaining bsize) (usize_sat_add written this_len) out'
      else Inr out)"
  by pat_completeness auto
termination
  by (relation "measure (\<lambda>(part, sb, inode, nindir, bsize, n_blocks, bi, remaining, written, out).
      unat n_blocks - unat bi)") (auto simp: unat_Suc_less word_less_nat_alt)

declare read_file_loop.simps [simp del]

definition read_inode_file :: "bytes \<Rightarrow> superblock \<Rightarrow> inode \<Rightarrow> ufs_error + bytes" where
  "read_inode_file part sb inode =
     (if sint (sb_bsize sb) \<le> 0
      then Inl (ErrImpossibleGeometry ''fs_bsize'' (scast (sb_bsize sb)) I64_MAX)
      else if sint (sb_fsize sb) \<le> 0
      then Inl (ErrImpossibleGeometry ''fs_fsize'' (scast (sb_fsize sb)) I64_MAX)
      else
        let sz = i_size inode;
            part_len = of_nat (length part) :: u64
        in if sz > part_len then Inl (ErrImpossibleGeometry ''di_size'' sz part_len)
           else
             let bsize = scast (sb_bsize sb);
                 out = replicate (unat sz) 0
             in if sz = 0 then Inr out
                else
                  let n_blocks = div_ceil sz bsize;
                      nindir = (if sint (sb_nindir sb) > 0 then scast (sb_nindir sb) else 0)
                  in read_file_loop part sb inode nindir bsize n_blocks 0 sz 0 out)"

definition read_file :: "bytes \<Rightarrow> superblock \<Rightarrow> u64 \<Rightarrow> ufs_error + bytes" where
  "read_file part sb ino = try_bind (read_inode part sb ino) (\<lambda>i. read_inode_file part sb i)"

definition read_symlink_target :: "bytes \<Rightarrow> superblock \<Rightarrow> inode \<Rightarrow> ufs_error + bytes" where
  "read_symlink_target part sb inode =
     (case inode_symlink_target inode of
        Some inline \<Rightarrow> Inr inline
      | None \<Rightarrow> read_inode_file part sb inode)"

definition read_path_content :: "bytes \<Rightarrow> superblock \<Rightarrow> bytes \<Rightarrow> ufs_error + bytes option" where
  "read_path_content part sb path =
     try_bind (read_by_path part sb path)
       (\<lambda>r. case r of
              None \<Rightarrow> Inr None
            | Some (ino, inode) \<Rightarrow> try_bind (read_inode_file part sb inode) (\<lambda>c. Inr (Some c)))"

section \<open>The place of a logical block in the pointer tree\<close>

datatype block_place = InDirect nat | InTree nat "nat list" | OutOfReach

definition block_path :: "nat \<Rightarrow> nat \<Rightarrow> block_place" where
  "block_path n k =
     (if k < 12 then InDirect k
      else if k - 12 < n then InTree 0 [k - 12]
      else if k - 12 - n < n ^ 2
      then (let i = k - 12 - n in InTree 1 [i div n, i mod n])
      else if k - 12 - n - n ^ 2 < n ^ 3
      then (let i = k - 12 - n - n ^ 2 in InTree 2 [i div n ^ 2, i mod n ^ 2 div n, i mod n])
      else OutOfReach)"

text \<open>The inverse: the logical block of a place.\<close>

fun block_index :: "nat \<Rightarrow> block_place \<Rightarrow> nat option" where
  "block_index n (InDirect k) = Some k"
| "block_index n (InTree l ds) =
     (if length ds = Suc l
      then Some (12 + (\<Sum>j<l. n ^ Suc j) + fold (\<lambda>d a. a * n + d) ds 0)
      else None)"
| "block_index n OutOfReach = None"

definition follow :: "bytes \<Rightarrow> superblock \<Rightarrow> u64 \<Rightarrow> nat list \<Rightarrow> u64" where
  "follow part sb root ds = fold (\<lambda>d a. indirect_ptr part sb a (of_nat d)) ds root"

definition place_addr :: "bytes \<Rightarrow> superblock \<Rightarrow> inode \<Rightarrow> block_place \<Rightarrow> u64" where
  "place_addr part sb inode place =
     (case place of
        InDirect k \<Rightarrow> i_direct inode ! k
      | InTree l ds \<Rightarrow> follow part sb (i_indirect inode ! l) ds
      | OutOfReach \<Rightarrow> 0)"

lemma block_path_index:
  assumes "block_path n k \<noteq> OutOfReach"
  shows "block_index n (block_path n k) = Some k"
proof -
  have s: "(\<Sum>j<1. n ^ Suc j) = n" "(\<Sum>j<2. n ^ Suc j) = n + n ^ 2"
    by (simp_all add: numeral_2_eq_2 power2_eq_square)
  have two: "(i div n) * n + i mod n = i" for i :: nat by simp
  have three: "(i div n ^ 2 * n + i mod n ^ 2 div n) * n + i mod n = i" for i :: nat
  proof -
    have "(i mod n ^ 2) mod n = i mod n"
      by (simp add: mod_mod_cancel power2_eq_square)
    then have "(i mod n ^ 2 div n) * n + i mod n = i mod n ^ 2"
      using div_mult_mod_eq [of "i mod n ^ 2" n] by simp
    then have "(i div n ^ 2 * n + i mod n ^ 2 div n) * n + i mod n = i div n ^ 2 * n ^ 2 + i mod n ^ 2"
      by (simp add: algebra_simps power2_eq_square)
    then show ?thesis by (simp only: div_mult_mod_eq)
  qed
  show ?thesis
  proof (cases "n = 0")
    case True
    then show ?thesis using assms by (auto simp: block_path_def split: if_splits)
  next
    case False
    then show ?thesis
      using assms s two three by (auto simp: block_path_def Let_def split: if_splits)
  qed
qed

lemma block_path_inj:
  "block_path n a = block_path n b \<Longrightarrow> block_path n a \<noteq> OutOfReach \<Longrightarrow> a = b"
  by (metis block_path_index option.inject)

lemma block_path_reach: "block_path n k = OutOfReach \<longleftrightarrow> 12 + n + n ^ 2 + n ^ 3 \<le> k"
  by (auto simp: block_path_def Let_def)

lemma block_path_digits:
  "block_path n k = InTree l ds \<Longrightarrow> l < 3 \<and> length ds = Suc l \<and> (\<forall>d \<in> set ds. d < n)"
proof -
  assume a: "block_path n k = InTree l ds"
  then have n: "0 < n" by (cases n) (auto simp: block_path_def Let_def split: if_splits)
  have "i div n ^ 2 < n" if "i < n ^ 3" for i
    using that n by (simp add: div_less_iff_less_mult power2_eq_square power3_eq_cube algebra_simps)
  moreover have "i mod n ^ 2 div n < n" for i
    using n by (simp add: div_less_iff_less_mult power2_eq_square)
  moreover have "i div n < n" if "i < n ^ 2" for i
    using that n by (simp add: div_less_iff_less_mult power2_eq_square)
  ultimately show ?thesis
    using a n by (auto simp: block_path_def Let_def split: if_splits)
qed

section \<open>Resolution follows the tree\<close>

lemma of_nat_unat_div: "of_nat (unat x div unat y) = x div (y :: 'a::len word)"
  by (simp flip: unat_div)

lemma of_nat_unat_mod: "of_nat (unat x mod unat y) = x mod (y :: 'a::len word)"
  by (simp flip: unat_mod)

lemma of_nat_unat_word: "of_nat (unat x) = (x :: 'a::len word)"
  by simp

text \<open>The chain of word computations of the source, for a \<open>nindir\<close> that is an \<open>i32\<close>.\<close>

lemma resolve_words:
  fixes bi nindir :: u64
  assumes "unat nindir < 2 ^ 31" and "12 \<le> unat bi"
  defines "i1 \<equiv> bi - of_nat UFS_NDADDR" and "n2 \<equiv> sat_mul nindir nindir"
  shows "unat i1 = unat bi - 12"
    and "unat n2 = unat nindir ^ 2"
    and "unat nindir \<le> unat bi - 12 \<Longrightarrow> unat (i1 - nindir) = unat bi - 12 - unat nindir"
    and "unat nindir + unat nindir ^ 2 \<le> unat bi - 12
      \<Longrightarrow> unat (i1 - nindir - n2) = unat bi - 12 - unat nindir - unat nindir ^ 2"
    and "unat nindir + unat nindir ^ 2 \<le> unat bi - 12
      \<Longrightarrow> i1 - nindir - n2 \<ge> sat_mul n2 nindir
        \<longleftrightarrow> unat nindir ^ 3 \<le> unat bi - 12 - unat nindir - unat nindir ^ 2"
proof -
  let ?n = "unat nindir" and ?k = "unat bi"
  show u1: "unat i1 = ?k - 12"
    using assms(2) by (simp add: i1_def unat_sub word_le_nat_alt sb_consts)
  have "?n * ?n < 2 ^ 31 * 2 ^ 31" using assms(1) by (intro mult_strict_mono) simp_all
  then show u2: "unat n2 = ?n ^ 2"
    by (simp add: n2_def sat_simps power2_eq_square)
  show u3: "unat (i1 - nindir) = ?k - 12 - ?n" if "?n \<le> ?k - 12"
    using that by (simp add: unat_sub word_le_nat_alt u1)
  show u4: "unat (i1 - nindir - n2) = ?k - 12 - ?n - ?n ^ 2" if "?n + ?n ^ 2 \<le> ?k - 12"
    using that by (simp add: unat_sub word_le_nat_alt u2 u3)
  have "unat (sat_mul n2 nindir) = min (?n ^ 3) usize_max"
    using unat_sat_mul [of n2 nindir] by (simp add: u2 power3_eq_cube power2_eq_square)
  moreover have "?k - 12 - ?n - ?n ^ 2 < usize_max"
    using unat_u64_le [of bi] assms(2) by simp
  ultimately show "i1 - nindir - n2 \<ge> sat_mul n2 nindir \<longleftrightarrow> ?n ^ 3 \<le> ?k - 12 - ?n - ?n ^ 2"
    if "?n + ?n ^ 2 \<le> ?k - 12"
    using that by (auto simp: word_le_nat_alt u4)
qed

lemma resolve_block_place:
  assumes "unat nindir < 2 ^ 31"
  shows "resolve_block part sb inode bi nindir = place_addr part sb inode (block_path (unat nindir) (unat bi))"
proof (cases "unat bi < 12")
  case True
  then have "bi < of_nat UFS_NDADDR" by (simp add: word_less_nat_alt sb_consts)
  then show ?thesis using True by (simp add: resolve_block_def block_path_def place_addr_def)
next
  case ge: False
  let ?n = "unat nindir" and ?k = "unat bi"
  define i1 where "i1 = bi - of_nat UFS_NDADDR"
  define n2 where "n2 = sat_mul nindir nindir"
  note w = resolve_words [OF assms, of bi, folded i1_def n2_def]
  have k: "12 \<le> ?k" and d: "\<not> bi < of_nat UFS_NDADDR"
    using ge by (simp_all add: word_less_nat_alt sb_consts)
  note u = w(1,2) [OF k]
  have code: "resolve_block part sb inode bi nindir =
      (if nindir = 0 then 0
       else if i1 < nindir then indirect_ptr part sb (i_indirect inode ! 0) i1
       else if i1 - nindir < n2
       then indirect_ptr part sb (indirect_ptr part sb (i_indirect inode ! 1) ((i1 - nindir) div nindir))
              ((i1 - nindir) mod nindir)
       else if i1 - nindir - n2 \<ge> sat_mul n2 nindir then 0
       else indirect_ptr part sb
              (indirect_ptr part sb (indirect_ptr part sb (i_indirect inode ! 2) ((i1 - nindir - n2) div n2))
                ((i1 - nindir - n2) mod n2 div nindir))
              ((i1 - nindir - n2) mod n2 mod nindir))"
    using d by (simp add: resolve_block_def Let_def i1_def n2_def)
  have l1: "i1 < nindir \<longleftrightarrow> ?k - 12 < ?n" by (simp add: word_less_nat_alt u)
  consider "nindir = 0" | "nindir \<noteq> 0" "?k - 12 < ?n"
    | "nindir \<noteq> 0" "?n \<le> ?k - 12" "?k - 12 - ?n < ?n ^ 2"
    | "nindir \<noteq> 0" "?n + ?n ^ 2 \<le> ?k - 12" by linarith
  then show ?thesis
  proof cases
    case 1
    then have "resolve_block part sb inode bi nindir = 0" using d by (simp add: resolve_block_def)
    moreover have "block_path ?n ?k = OutOfReach" using 1 ge by (simp add: block_path_def)
    ultimately show ?thesis by (simp add: place_addr_def)
  next
    case 2
    have "of_nat (?k - 12) = i1" using of_nat_unat_word [of i1] by (simp only: u)
    then show ?thesis
      using 2 ge by (simp add: code l1 block_path_def place_addr_def follow_def)
  next
    case 3
    have u3: "unat (i1 - nindir) = ?k - 12 - ?n" using w(3) [OF k] 3 by simp
    have "i1 - nindir < n2" using 3 by (simp add: word_less_nat_alt u u3)
    moreover have "of_nat ((?k - 12 - ?n) div ?n) = (i1 - nindir) div nindir"
      "of_nat ((?k - 12 - ?n) mod ?n) = (i1 - nindir) mod nindir"
      unfolding u3 [symmetric] by (rule of_nat_unat_div of_nat_unat_mod)+
    ultimately show ?thesis
      using 3 ge by (simp add: code l1 block_path_def place_addr_def follow_def Let_def)
  next
    case 4
    let ?i = "?k - 12 - ?n - ?n ^ 2"
    have u3: "unat (i1 - nindir) = ?k - 12 - ?n" using w(3) [OF k] 4 by simp
    have l2: "\<not> i1 - nindir < n2" using 4 by (simp add: word_less_nat_alt u u3)
    have u4: "unat (i1 - nindir - n2) = ?i" using w(4) [OF k] 4 by simp
    have l3: "i1 - nindir - n2 \<ge> sat_mul n2 nindir \<longleftrightarrow> ?n ^ 3 \<le> ?i" using w(5) [OF k] 4 by simp
    have "of_nat (?i div ?n ^ 2) = (i1 - nindir - n2) div n2"
      using of_nat_unat_div [of "i1 - nindir - n2" n2] by (simp only: u4 u)
    moreover have "of_nat (?i mod ?n ^ 2 div ?n) = (i1 - nindir - n2) mod n2 div nindir"
      using of_nat_unat_div [of "(i1 - nindir - n2) mod n2" nindir] by (simp only: unat_mod u4 u)
    moreover have "?i mod ?n = ?i mod ?n ^ 2 mod ?n"
      by (simp add: mod_mod_cancel power2_eq_square)
    then have "of_nat (?i mod ?n) = (i1 - nindir - n2) mod n2 mod nindir"
      using of_nat_unat_mod [of "(i1 - nindir - n2) mod n2" nindir] by (simp only: unat_mod u4 u)
    moreover have nl: "\<not> ?k - 12 < ?n" "\<not> ?k - 12 - ?n < ?n ^ 2" using 4 \<open>nindir \<noteq> 0\<close>
      by (auto simp: not_less intro: le_trans [of _ "?n + ?n ^ 2"])
    then have "block_path ?n ?k = (if ?n ^ 3 \<le> ?i then OutOfReach
        else InTree 2 [?i div ?n ^ 2, ?i mod ?n ^ 2 div ?n, ?i mod ?n])"
      using ge by (simp add: block_path_def Let_def)
    ultimately show ?thesis
      using 4(1) nl by (simp add: code l1 l2 l3 place_addr_def follow_def)
  qed
qed

section \<open>The bytes of a file\<close>

text \<open>The number of pointers per indirect block as the assembly uses it.\<close>

definition sb_nindir_nat :: "superblock \<Rightarrow> nat" where
  "sb_nindir_nat sb = nat_i32 (sb_nindir sb)"

definition block_addr :: "bytes \<Rightarrow> superblock \<Rightarrow> inode \<Rightarrow> nat \<Rightarrow> u64" where
  "block_addr part sb inode k = place_addr part sb inode (block_path (sb_nindir_nat sb) k)"

text \<open>
  The byte of the partition that file offset \<open>k\<close> stands for: zero in a hole and past the end of
  the image.
\<close>

definition file_byte :: "bytes \<Rightarrow> superblock \<Rightarrow> inode \<Rightarrow> nat \<Rightarrow> u8" where
  "file_byte part sb inode k =
     (let bsize = nat_i32 (sb_bsize sb);
          addr = block_addr part sb inode (k div bsize);
          pos = unat addr * nat_i32 (sb_fsize sb) + k mod bsize
      in if addr = 0 then 0 else if pos < length part then part ! pos else 0)"

lemma copy_block_Inr:
  assumes "valid_slice part" "0 < sint (sb_fsize sb)"
  shows "copy_block part sb addr n written out =
    Inr (if addr = 0 then out
         else slice_put out written (take n (drop (unat addr * nat_i32 (sb_fsize sb)) part)))"
proof -
  have m: "take (min (length (take n xs)) n) (take n xs) = take n xs" for xs :: bytes
    by (simp add: min_def)
  then show ?thesis
    unfolding copy_block_def read_block_refines [OF assms] try_bind_simps Let_def
    using m [of "drop (unat addr * nat_i32 (sb_fsize sb)) part"] by simp
qed

text \<open>One iteration fills the next stretch of the output with the bytes the file stands for.\<close>

lemma copy_block_fills:
  assumes part: "valid_slice part" "0 < sint (sb_fsize sb)" "0 < nat_i32 (sb_bsize sb)"
    and addr: "addr = block_addr part sb inode b"
    and lo: "w = b * nat_i32 (sb_bsize sb)" and n: "n \<le> nat_i32 (sb_bsize sb)" "w + n \<le> length out"
    and done': "\<forall>k < w. out ! k = file_byte part sb inode k"
    and zero: "\<forall>k < length out. w \<le> k \<longrightarrow> out ! k = 0"
    and out': "copy_block part sb addr n w out = Inr out'"
  shows "length out' = length out"
    and "\<forall>k < w + n. out' ! k = file_byte part sb inode k"
    and "\<forall>k < length out. w + n \<le> k \<longrightarrow> out' ! k = 0"
proof -
  let ?bs = "nat_i32 (sb_bsize sb)" and ?p = "unat addr * nat_i32 (sb_fsize sb)"
  let ?blk = "take n (drop ?p part)"
  have o: "out' = (if addr = 0 then out else slice_put out w ?blk)"
    using out' copy_block_Inr [OF part(1,2)] by simp
  show "length out' = length out" by (simp add: o)
  have fits: "w + length ?blk \<le> length out" using n(2) by simp
  have nth: "out' ! k = (if addr \<noteq> 0 \<and> w \<le> k \<and> k < w + length ?blk then ?blk ! (k - w) else out ! k)"
    if "k < length out" for k
    using that fits by (simp add: o slice_put_nth)
  have "length ?blk \<le> n" by simp
  then have "\<not> k < w + length ?blk" if "w + n \<le> k" for k using that by linarith
  then show "\<forall>k < length out. w + n \<le> k \<longrightarrow> out' ! k = 0"
    using nth zero by (simp del: length_take length_drop)
  show "\<forall>k < w + n. out' ! k = file_byte part sb inode k"
  proof (intro allI impI)
    fix k assume k: "k < w + n"
    show "out' ! k = file_byte part sb inode k"
    proof (cases "k < w")
      case True
      then show ?thesis using nth [of k] done' n(2) by simp
    next
      case False
      then have kw: "k = k - w + b * ?bs" "k - w < ?bs" using k n(1) lo by simp_all
      have dm1: "k div ?bs = b" using part(3) by (subst kw(1)) (simp add: kw(2) del: diff_is_0_eq)
      have dm2: "k mod ?bs = k - w" using part(3) by (subst kw(1)) (simp add: kw(2) del: diff_is_0_eq)
      note dm = dm1 dm2
      show ?thesis
        using False k n(2) nth [of k] zero by (auto simp: file_byte_def Let_def dm simp flip: addr)
    qed
  qed
qed

lemma below_ceil_iff: "b < (n + q - 1) div q \<longleftrightarrow> b * q < n" if "0 < q" for b n q :: nat
proof -
  have "b < (n + q - 1) div q \<longleftrightarrow> Suc b \<le> (n + q - 1) div q" by (simp add: Suc_le_eq)
  also have "\<dots> \<longleftrightarrow> Suc b * q \<le> n + q - 1" using that by (rule less_eq_div_iff_mult_less_eq)
  also have "\<dots> \<longleftrightarrow> b * q < n" using that by auto
  finally show ?thesis .
qed

definition file_geometry_ok :: "superblock \<Rightarrow> bool" where
  "file_geometry_ok sb \<longleftrightarrow> 0 < sint (sb_bsize sb) \<and> 0 < sint (sb_fsize sb)"

text \<open>The multiplier of the loop: \<open>nindir\<close> as the assembly passes it.\<close>

definition loop_nindir :: "superblock \<Rightarrow> u64" where
  "loop_nindir sb = (if sint (sb_nindir sb) > 0 then scast (sb_nindir sb) else 0)"

lemma unat_loop_nindir: "unat (loop_nindir sb) = sb_nindir_nat sb"
  by (simp add: loop_nindir_def sb_nindir_nat_def nat_i32_def unat_scast_i32)

lemma loop_nindir_small: "unat (loop_nindir sb) < 2 ^ 31"
  using sint_le_i32 [of "sb_nindir sb"] by (simp add: unat_loop_nindir sb_nindir_nat_def nat_i32_def)

lemma resolve_block_addr:
  "resolve_block part sb inode bi (loop_nindir sb) = block_addr part sb inode (unat bi)"
  using resolve_block_place [OF loop_nindir_small] by (simp add: block_addr_def unat_loop_nindir)

text \<open>
  The loop from block \<open>bi\<close> on: \<open>remaining\<close> and \<open>written\<close> are what is left of and what is done of the
  file, the output agrees with the file below \<open>written\<close> and is still zero above.
\<close>

lemma read_file_loop_exact:
  fixes part sb inode
  defines "bs \<equiv> nat_i32 (sb_bsize sb)" and "sz \<equiv> unat (i_size inode)"
  assumes part: "valid_slice part" and geo: "file_geometry_ok sb" and sz: "sz \<le> isize_max"
    and blocks: "unat n_blocks = (sz + bs - 1) div bs"
    and rem: "unat remaining = sz - unat bi * bs" and wr: "written = min (unat bi * bs) sz"
    and len: "length out = sz"
    and lo: "\<forall>k < written. out ! k = file_byte part sb inode k"
    and hi: "\<forall>k < sz. written \<le> k \<longrightarrow> out ! k = 0"
  shows "read_file_loop part sb inode (loop_nindir sb) (scast (sb_bsize sb)) n_blocks bi remaining written out
    = Inr (map (file_byte part sb inode) [0..<sz])"
  using rem wr len lo hi
proof (induction "unat n_blocks - unat bi" arbitrary: bi remaining written out rule: less_induct)
  case less
  have bs: "0 < bs" and fs: "0 < sint (sb_fsize sb)"
    using geo by (simp_all add: file_geometry_ok_def bs_def nat_i32_def)
  have ubs: "unat (scast (sb_bsize sb) :: u64) = bs"
    using geo by (simp add: file_geometry_ok_def bs_def nat_i32_def unat_scast_i32)
  show ?case
  proof (cases "bi < n_blocks")
    case True
    then have lt: "unat bi * bs < sz"
      using blocks below_ceil_iff [OF bs] by (simp add: word_less_nat_alt)
    let ?n = "unat (min remaining (scast (sb_bsize sb)) :: u64)"
    let ?addr = "resolve_block part sb inode bi (loop_nindir sb)"
    have n: "?n = min (sz - unat bi * bs) bs"
      using less.prems(1) ubs by (simp add: min_def word_le_nat_alt)
    have w: "written = unat bi * bs" using less.prems(2) lt by simp
    obtain out' where out': "copy_block part sb ?addr ?n written out = Inr out'"
      using copy_block_Inr [OF part fs] by blast
    have "?n \<le> nat_i32 (sb_bsize sb)" using n by (simp add: bs_def)
    moreover have "written + ?n \<le> length out" using n lt w less.prems(3) by simp
    moreover have "\<forall>k < length out. written \<le> k \<longrightarrow> out ! k = 0" using less.prems(3,5) by simp
    ultimately have f: "length out' = length out" "\<forall>k < written + ?n. out' ! k = file_byte part sb inode k"
      "\<forall>k < length out. written + ?n \<le> k \<longrightarrow> out' ! k = 0"
      using copy_block_fills [OF part fs bs [unfolded bs_def] resolve_block_addr w [unfolded bs_def] _ _ less.prems(4) _ out']
      by blast+
    have next_w: "usize_sat_add written ?n = min (unat (bi + 1) * bs) sz"
      using n lt w sz by (auto simp: unat_Suc_less [OF True] min_def)
    have "written + ?n = min (unat (bi + 1) * bs) sz"
      using n lt w by (auto simp: unat_Suc_less [OF True] min_def)
    then have "read_file_loop part sb inode (loop_nindir sb) (scast (sb_bsize sb)) n_blocks (bi + 1)
        (sat_sub remaining (scast (sb_bsize sb))) (usize_sat_add written ?n) out'
      = Inr (map (file_byte part sb inode) [0..<sz])"
      using f less.prems(1,3) True next_w
      by (intro less.hyps) (auto simp: unat_Suc_less [OF True] word_less_nat_alt sat_simps ubs)
    then show ?thesis
      using True out' by (simp add: read_file_loop.simps [of _ _ _ _ _ _ bi] Let_def)
  next
    case False
    then have "sz \<le> unat bi * bs"
      using blocks below_ceil_iff [OF bs, of "unat bi" sz] by (simp add: word_less_nat_alt not_less)
    then have "written = sz" using less.prems(2) by simp
    then have "out = map (file_byte part sb inode) [0..<sz]"
      using less.prems(3,4) by (intro nth_equalityI) auto
    then show ?thesis using False by (simp add: read_file_loop.simps [of _ _ _ _ _ _ bi])
  qed
qed

lemma read_inode_file_exact:
  assumes part: "valid_slice part" and geo: "file_geometry_ok sb"
  shows "read_inode_file part sb inode =
    (if length part < unat (i_size inode)
     then Inl (ErrImpossibleGeometry ''di_size'' (i_size inode) (of_nat (length part)))
     else Inr (map (file_byte part sb inode) [0..<unat (i_size inode)]))"
proof -
  have len: "length part \<le> isize_max" using part by (simp add: valid_slice_def)
  then have ul: "unat (of_nat (length part) :: u64) = length part" by (simp add: unat_of_nat)
  have bs: "unat (scast (sb_bsize sb) :: u64) = nat_i32 (sb_bsize sb)" "0 < nat_i32 (sb_bsize sb)"
    using geo by (simp_all add: file_geometry_ok_def nat_i32_def unat_scast_i32)
  show ?thesis
  proof (cases "length part < unat (i_size inode)")
    case True
    then show ?thesis
      using geo by (simp add: read_inode_file_def file_geometry_ok_def Let_def word_less_nat_alt ul)
  next
    case False
    then have sz: "unat (i_size inode) \<le> isize_max" using len by simp
    have "read_file_loop part sb inode (loop_nindir sb) (scast (sb_bsize sb))
        (div_ceil (i_size inode) (scast (sb_bsize sb))) 0 (i_size inode) 0
        (replicate (unat (i_size inode)) 0)
      = Inr (map (file_byte part sb inode) [0..<unat (i_size inode)])"
      by (rule read_file_loop_exact [OF part geo sz]) (simp_all add: unat_div_ceil bs)
    then show ?thesis
      using False geo
      by (simp add: read_inode_file_def file_geometry_ok_def Let_def word_less_nat_alt ul loop_nindir_def)
  qed
qed

lemma read_inode_file_bad_geometry:
  "\<not> file_geometry_ok sb \<Longrightarrow> read_inode_file part sb inode =
     (if sint (sb_bsize sb) \<le> 0
      then Inl (ErrImpossibleGeometry ''fs_bsize'' (scast (sb_bsize sb)) I64_MAX)
      else Inl (ErrImpossibleGeometry ''fs_fsize'' (scast (sb_fsize sb)) I64_MAX))"
  by (auto simp: read_inode_file_def file_geometry_ok_def)

lemma read_inode_file_length:
  assumes "valid_slice part" and "read_inode_file part sb inode = Inr c"
  shows "length c = unat (i_size inode)" "unat (i_size inode) \<le> length part" "file_geometry_ok sb"
proof -
  show geo: "file_geometry_ok sb"
    using assms(2) by (auto simp: read_inode_file_def file_geometry_ok_def split: if_splits)
  show "length c = unat (i_size inode)" "unat (i_size inode) \<le> length part"
    using assms(2) by (auto simp: read_inode_file_exact [OF assms(1) geo] split: if_splits)
qed

section \<open>Pointers inside an indirect block\<close>

definition ptr_bytes :: "superblock \<Rightarrow> nat" where
  "ptr_bytes sb = inode_ptr_size (sb_version sb)"

text \<open>A pointer that lies inside its block and inside the image is read from its place.\<close>

lemma indirect_ptr_exact:
  assumes part: "valid_slice part" and geo: "file_geometry_ok sb"
    and a: "a \<noteq> 0" and inblk: "(d + 1) * ptr_bytes sb \<le> nat_i32 (sb_bsize sb)"
    and inimg: "unat a * nat_i32 (sb_fsize sb) + (d + 1) * ptr_bytes sb \<le> length part"
  shows "indirect_ptr part sb a (of_nat d) =
    read_ptr (sb_version sb) (sb_endian sb) part (unat a * nat_i32 (sb_fsize sb) + d * ptr_bytes sb)"
proof -
  let ?pos = "unat a * nat_i32 (sb_fsize sb)" and ?bs = "nat_i32 (sb_bsize sb)"
  have geo': "0 < sint (sb_bsize sb)" "0 < sint (sb_fsize sb)"
    using geo by (simp_all add: file_geometry_ok_def)
  have ubs: "unat (scast (sb_bsize sb) :: u64) = ?bs"
    using geo' by (simp add: nat_i32_def unat_scast_i32)
  have bsmall: "?bs < 2 ^ 31" using sint_le_i32 [of "sb_bsize sb"] geo' by (simp add: nat_i32_def)
  have ps: "4 \<le> ptr_bytes sb" by (simp add: ptr_bytes_def inode_ptr_size_def split: ufs_version.split)
  have "(d + 1) * 1 \<le> (d + 1) * ptr_bytes sb" using ps by (intro mult_le_mono2) linarith
  from le_less_trans [OF le_trans [OF this inblk] bsmall] have "d < 2 ^ 31" by simp
  then have ud: "unat (of_nat d :: u64) = d" by (simp add: unat_of_nat)
  have off: "unat (sat_mul (of_nat d) (case sb_version sb of Ufs2 \<Rightarrow> 8 | Ufs1 \<Rightarrow> 4) :: u64) = d * ptr_bytes sb"
    using \<open>d < 2 ^ 31\<close>
    by (simp add: sat_simps ud ptr_bytes_def inode_ptr_size_def split: ufs_version.split)
  have blk: "read_block part sb a ?bs = Inr (take ?bs (drop ?pos part))"
    by (rule read_block_refines [OF part geo'(2)])
  have len: "length part \<le> isize_max" using part by (simp add: valid_slice_def)
  show ?thesis
  proof (cases "sb_version sb")
    case Ufs1
    have "endian_u32 (sb_endian sb) (take ?bs (drop ?pos part)) (d * 4)
        = endian_u32 (sb_endian sb) part (?pos + d * 4)"
      using inblk inimg len Ufs1 by (intro eu32.rd_window) (simp_all add: ptr_bytes_def inode_ptr_size_def)
    then show ?thesis
      using a geo' Ufs1 off
      by (simp add: indirect_ptr_def Let_def ubs blk read_ptr_def ptr_bytes_def inode_ptr_size_def)
  next
    case Ufs2
    have "endian_u64 (sb_endian sb) (take ?bs (drop ?pos part)) (d * 8)
        = endian_u64 (sb_endian sb) part (?pos + d * 8)"
      using inblk inimg len Ufs2 by (intro eu64.rd_window) (simp_all add: ptr_bytes_def inode_ptr_size_def)
    then show ?thesis
      using a geo' Ufs2 off
      by (simp add: indirect_ptr_def Let_def ubs blk read_ptr_def ptr_bytes_def inode_ptr_size_def)
  qed
qed

lemma indirect_ptr_hole [simp]: "indirect_ptr part sb 0 d = 0"
  by (simp add: indirect_ptr_def)

lemma follow_hole [simp]: "follow part sb 0 ds = 0"
  by (induction ds) (simp_all add: follow_def)

section \<open>Properties\<close>

text \<open>
  C2. The block map: for every inode and logical block, resolution yields the pointer found by walking
  the block's place in the pointer tree, where the places of different blocks differ, the place
  determines the block, every index of a place is below \<open>nindir\<close>, and exactly the blocks from
  \<open>12 + n + n^2 + n^3\<close> on have no place and resolve to 0. No intermediate \<open>u64\<close> step wraps or saturates.
\<close>

theorem resolve_block_exact:
  assumes "unat nindir < 2 ^ 31"
  defines "n \<equiv> unat nindir" and "place \<equiv> block_path (unat nindir)"
  shows "resolve_block part sb inode bi nindir = place_addr part sb inode (place (unat bi))
    \<and> (place k = OutOfReach \<longleftrightarrow> 12 + n + n ^ 2 + n ^ 3 \<le> k)
    \<and> (place k \<noteq> OutOfReach \<longrightarrow> block_index n (place k) = Some k \<and> (place k = place k' \<longrightarrow> k = k'))
    \<and> (place k = InTree l ds \<longrightarrow> l < 3 \<and> length ds = l + 1 \<and> (\<forall>d \<in> set ds. d < n))"
  using resolve_block_place [OF assms(1), of part sb inode bi] block_path_reach [of n k]
    block_path_index [of n k] block_path_inj [of n k k'] block_path_digits [of n k l ds]
  unfolding n_def place_def by auto

theorem resolve_block_exact_witness:
  "resolve_block [] tiny_sb tiny_inode 30 2 = 0 \<and> block_path 2 17 = InTree 1 [1, 1]"
proof -
  have "resolve_block [] tiny_sb tiny_inode 30 2 = place_addr [] tiny_sb tiny_inode (block_path 2 30)"
    using resolve_block_exact [of 2 "[]" tiny_sb tiny_inode 30 0 0 0 "[]"] by simp
  then show ?thesis by (simp add: block_path_def place_addr_def)
qed

text \<open>
  C1. A file's content, on every image and inode: a degenerate geometry or a size beyond the image is
  the error that names it, before anything is allocated; otherwise the result has exactly the file's
  size, and each byte is the byte of the image its block address points at, zero in a hole, past the
  end of the image, or beyond the reach of the pointer tree.
\<close>

theorem read_inode_file_correct:
  assumes "valid_slice part"
  shows "read_inode_file part sb inode =
    (if sint (sb_bsize sb) \<le> 0 then Inl (ErrImpossibleGeometry ''fs_bsize'' (scast (sb_bsize sb)) I64_MAX)
     else if sint (sb_fsize sb) \<le> 0 then Inl (ErrImpossibleGeometry ''fs_fsize'' (scast (sb_fsize sb)) I64_MAX)
     else if length part < unat (i_size inode)
     then Inl (ErrImpossibleGeometry ''di_size'' (i_size inode) (of_nat (length part)))
     else Inr (map (file_byte part sb inode) [0..<unat (i_size inode)]))"
proof (cases "file_geometry_ok sb")
  case True
  then show ?thesis
    using read_inode_file_exact [OF assms True, of inode] by (simp add: file_geometry_ok_def)
next
  case False
  then show ?thesis using read_inode_file_bad_geometry [OF False] by (auto simp: file_geometry_ok_def)
qed

theorem read_inode_file_correct_witness:
  "read_inode_file (map of_nat [0..<40]) tiny_sb tiny_inode = Inr (map of_nat [8..<24] @ [0, 0, 0, 0])"
proof -
  have "map (file_byte (map of_nat [0..<40]) tiny_sb tiny_inode) [0..<20] = map of_nat [8..<24] @ [0, 0, 0, 0]"
    by (simp add: upt_rec file_byte_def block_addr_def block_path_def place_addr_def nat_i32_def
        tiny_sb_def tiny_inode_def)
  then show ?thesis
    using read_inode_file_correct [of "map of_nat [0..<40]" tiny_sb tiny_inode]
    by (simp add: valid_slice_def tiny_sb_def tiny_inode_def)
qed

text \<open>
  A pointer of an indirect block is the little- or big-endian integer of the version's width at its
  place in the image, when that place lies in the block and in the image; a null indirect pointer leads
  to null at every depth, so a hole of the tree is a hole of the file.
\<close>

lemma indirect_ptr_correct:
  assumes "valid_slice part" and "file_geometry_ok sb" and "a \<noteq> 0"
    and "(d + 1) * ptr_bytes sb \<le> nat_i32 (sb_bsize sb)"
    and "unat a * nat_i32 (sb_fsize sb) + (d + 1) * ptr_bytes sb \<le> length part"
  shows "indirect_ptr part sb a (of_nat d) =
      read_ptr (sb_version sb) (sb_endian sb) part (unat a * nat_i32 (sb_fsize sb) + d * ptr_bytes sb)
    \<and> follow part sb 0 ds = 0"
  using indirect_ptr_exact [OF assms] by simp

lemma indirect_ptr_correct_witness:
  "indirect_ptr (replicate 8 9 @ [0, 0, 0, 0, 0, 0, 0, 0, 7, 1, 0, 0, 0, 0, 0, 0]) tiny_sb 1 1 = 263"
proof -
  let ?p = "replicate 8 9 @ [0, 0, 0, 0, 0, 0, 0, 0, 7, 1, 0, 0, 0, 0, 0, 0] :: bytes"
  have "indirect_ptr ?p tiny_sb 1 (of_nat 1) = read_ptr Ufs2 Little ?p 16"
    using indirect_ptr_correct [of ?p tiny_sb 1 1 "[]"]
    by (simp add: valid_slice_def file_geometry_ok_def ptr_bytes_def nat_i32_def tiny_sb_def)
  then show ?thesis by (simp add: read_ptr_def reader_defs read_array_def slice_get_def from_le_def)
qed

text \<open>
  Content by path is content by inode: reading a path gives the file of the inode the path resolves
  to, nothing when it does not resolve, and otherwise the first error; and a symbolic link's target is
  its inline bytes where it has them and its file content where it has not.
\<close>

lemma read_path_content_correct:
  "read_path_content part sb path =
     (case read_by_path part sb path of
        Inl e \<Rightarrow> Inl e
      | Inr None \<Rightarrow> Inr None
      | Inr (Some (n, i)) \<Rightarrow> (case read_file part sb n of Inl e \<Rightarrow> Inl e | Inr c \<Rightarrow> Inr (Some c)))"
proof -
  have "read_file part sb n = read_inode_file part sb i" if p: "read_by_path part sb path = Inr (Some (n, i))" for n i
  proof -
    obtain root where "read_inode part sb UFS_ROOTINO = Inr root"
      "resolves part sb UFS_ROOTINO root (path_pieces path) n i"
      using p by (auto simp: read_by_path_resolves)
    then have "read_inode part sb n = Inr i" using resolves_number by blast
    then show ?thesis by (simp add: read_file_def)
  qed
  then show ?thesis
    by (auto simp: read_path_content_def try_bind_def split: sum.split option.split)
qed

end
