(* ===== verification/UfsVfs.thy ===== *)
theory UfsVfs
  imports UfsFile
begin

text \<open>
  \<open>core/src/vfs.rs\<close>: the adapter of the reader to the \<open>FileSystem\<close> contract. The types of the
  contract's crate are given by the constructors this adapter uses; every other constructor of
  \<open>FileId\<close>, \<open>StreamId\<close> and \<open>VfsError\<close> is carried as a value of a type parameter. Code of that
  crate is an argument: the debug rendering \<open>dbg\<close>, the byte source (\<open>len\<close> and \<open>read_at\<close>) and the
  sniff window's \<open>has_magic\<close>.
\<close>

section \<open>Types\<close>

datatype 'x file_id = FileIdOpaque u64 | FileIdOther 'x

datatype 'x stream_id = StreamDefault | StreamOther 'x

datatype 'e vfs_error =
  VfsOutOfRange string u64 u64 u64
  | VfsDecode string u64 string bytes
  | VfsUnsupported string string
  | VfsOther 'e

datatype confidence = ConfYes string | ConfNo

datatype node_kind = NodeFile | NodeDir | NodeSymlink | NodeDevice | NodeOther

datatype residency = Resident u32 | NonResident

datatype fs_kind = KindUFS

datatype time_source = InodeTable

datatype time_resolution = Nanos

datatype zone_policy = ZoneUtc

datatype run_alloc = RunAllocated

datatype byte_run_flags = FlagsDefault

datatype allocation = AllocAllocated

text \<open>\<open>unix_nanos\<close> is an \<open>i128\<close>; lemma \<open>to_ts_fits\<close> shows that its arithmetic stays in range.\<close>

record time_stamp =
  unix_nanos :: int
  ts_source :: time_source
  ts_resolution :: time_resolution

record macb_times =
  t_modified :: "time_stamp option"
  t_accessed :: "time_stamp option"
  t_changed :: "time_stamp option"
  t_born :: "time_stamp option"

record sector_sizes =
  ss_logical :: u32
  ss_physical :: u32
  ss_cluster_or_block :: u32

record fs_meta =
  m_ino :: u64
  m_kind :: node_kind
  m_allocated :: allocation
  m_size :: u64
  m_nlink :: u32
  m_uid :: "u32 option"
  m_gid :: "u32 option"
  m_mode :: "u32 option"
  m_times :: macb_times
  m_streams :: "unit list"
  m_residency :: residency
  m_link_target :: "bytes option"

record run_info =
  run_offset :: u64
  run_len :: u64
  run_flags :: byte_run_flags
  run_state :: run_alloc

record vfs_dir_entry =
  ve_name :: bytes
  ve_ino :: u64
  ve_kind :: node_kind

record ufs_fs =
  fs_image :: bytes
  fs_sb :: superblock

section \<open>Probe and open\<close>

definition UFS1_MAGIC_LE :: bytes where "UFS1_MAGIC_LE = [0x54, 0x19, 0x01, 0x00]"
definition UFS1_MAGIC_BE :: bytes where "UFS1_MAGIC_BE = [0x00, 0x01, 0x19, 0x54]"
definition UFS1_MAGIC_OFF :: usize where [sb_consts]: "UFS1_MAGIC_OFF = SBLOCK_UFS1 + 1372"
definition UFS2_MAGIC_LE :: bytes where "UFS2_MAGIC_LE = [0x19, 0x01, 0x54, 0x19]"
definition UFS2_MAGIC_BE :: bytes where "UFS2_MAGIC_BE = [0x19, 0x54, 0x01, 0x19]"
definition UFS2_MAGIC_OFF :: usize where [sb_consts]: "UFS2_MAGIC_OFF = SBLOCK_UFS2 + 1372"

definition ufs_probe :: "(usize \<Rightarrow> bytes \<Rightarrow> bool) \<Rightarrow> confidence" where
  "ufs_probe has_magic =
     (if has_magic UFS2_MAGIC_OFF UFS2_MAGIC_LE \<or> has_magic UFS2_MAGIC_OFF UFS2_MAGIC_BE
      then ConfYes ''UFS2 fs_magic 0x19540119 at offset 66908''
      else if has_magic UFS1_MAGIC_OFF UFS1_MAGIC_LE \<or> has_magic UFS1_MAGIC_OFF UFS1_MAGIC_BE
      then ConfYes ''UFS1 fs_magic 0x00011954 at offset 9564''
      else ConfNo)"

definition map_err :: "ufs_error \<Rightarrow> 'e vfs_error" where
  "map_err e =
     (case e of
        ErrTruncated _ need avail \<Rightarrow> VfsOutOfRange ''ufs image slice'' (of_nat need) 1 (of_nat avail)
      | other \<Rightarrow> VfsDecode ''ufs'' 0 (error_to_string other) [])"

definition vfs_result :: "ufs_error + 'a \<Rightarrow> 'e vfs_error + 'a" where
  "vfs_result r = (case r of Inl e \<Rightarrow> Inl (map_err e) | Inr x \<Rightarrow> Inr x)"

definition parse_primary :: "bytes \<Rightarrow> usize \<Rightarrow> ufs_error + superblock" where
  "parse_primary img off =
     (case slice_from img off of
        None \<Rightarrow> Inl (ErrTruncated ''superblock (primary offset)'' off (length img))
      | Some s \<Rightarrow> sb_parse s)"

text \<open>
  \<open>open\<close>: the source is read once into a zeroed buffer of its length (\<open>read_at\<close> returns the count
  and the filled buffer), the buffer is cut to what was read, and UFS2 is tried before UFS1.
\<close>

definition ufs_open ::
  "u64 \<Rightarrow> (u64 \<Rightarrow> bytes \<Rightarrow> 'e vfs_error + (usize \<times> bytes)) \<Rightarrow> 'e vfs_error + ufs_fs" where
  "ufs_open len read_at =
     try_bind (read_at 0 (replicate (unat len) 0))
       (\<lambda>(n, buf).
          let img = take n buf in
          try_bind
            (vfs_result
              (case parse_primary img SBLOCK_UFS2 of
                 Inr sb \<Rightarrow> Inr sb
               | Inl _ \<Rightarrow> parse_primary img SBLOCK_UFS1))
            (\<lambda>sb. Inr \<lparr> fs_image = img, fs_sb = sb \<rparr>))"

section \<open>Identities, kinds, times\<close>

definition ino_of :: "('x \<Rightarrow> string) \<Rightarrow> 'x file_id \<Rightarrow> 'e vfs_error + u64" where
  "ino_of dbg fid =
     (case fid of
        FileIdOpaque ino \<Rightarrow> Inr ino
      | FileIdOther other \<Rightarrow> Inl (VfsUnsupported ''ufs file-id'' (dbg other)))"

definition require_default_stream :: "('s \<Rightarrow> string) \<Rightarrow> 's stream_id \<Rightarrow> 'e vfs_error + unit" where
  "require_default_stream dbg st =
     (case st of
        StreamDefault \<Rightarrow> Inr ()
      | StreamOther other \<Rightarrow> Inl (VfsUnsupported ''ufs stream'' (dbg other)))"

definition node_kind_of :: "file_type \<Rightarrow> node_kind" where
  "node_kind_of ft =
     (case ft of
        FtRegular \<Rightarrow> NodeFile
      | FtDirectory \<Rightarrow> NodeDir
      | FtSymlink \<Rightarrow> NodeSymlink
      | FtCharDevice \<Rightarrow> NodeDevice
      | FtBlockDevice \<Rightarrow> NodeDevice
      | FtFifo \<Rightarrow> NodeOther
      | FtSocket \<Rightarrow> NodeOther
      | FtWhiteout \<Rightarrow> NodeOther
      | FtOther _ \<Rightarrow> NodeOther)"

definition to_ts :: "timespec \<Rightarrow> time_stamp" where
  "to_ts ts = \<lparr> unix_nanos = sint (ts_sec ts) * 1000000000 + sint (ts_nsec ts),
                ts_source = InodeTable, ts_resolution = Nanos \<rparr>"

definition fs_inode :: "('x \<Rightarrow> string) \<Rightarrow> ufs_fs \<Rightarrow> 'x file_id \<Rightarrow> 'e vfs_error + inode" where
  "fs_inode dbg fs fid =
     try_bind (ino_of dbg fid) (\<lambda>ino. vfs_result (read_inode (fs_image fs) (fs_sb fs) ino))"

section \<open>The \<open>FileSystem\<close> operations\<close>

definition vfs_kind :: "ufs_fs \<Rightarrow> fs_kind" where
  "vfs_kind fs = KindUFS"

definition vfs_root :: "ufs_fs \<Rightarrow> 'x file_id" where
  "vfs_root fs = FileIdOpaque UFS_ROOTINO"

definition vfs_sector_sizes :: "ufs_fs \<Rightarrow> sector_sizes" where
  "vfs_sector_sizes fs =
     \<lparr> ss_logical = 512, ss_physical = 512,
       ss_cluster_or_block = (if sint (sb_bsize (fs_sb fs)) > 0 then sb_bsize (fs_sb fs) else 0) \<rparr>"

definition vfs_timestamp_zone :: "ufs_fs \<Rightarrow> zone_policy" where
  "vfs_timestamp_zone fs = ZoneUtc"

definition vfs_entry_kind :: "ufs_fs \<Rightarrow> u64 \<Rightarrow> node_kind" where
  "vfs_entry_kind fs ino =
     (case read_inode (fs_image fs) (fs_sb fs) ino of
        Inl _ \<Rightarrow> NodeOther
      | Inr i \<Rightarrow> node_kind_of (i_file_type i))"

definition vfs_read_dir :: "('x \<Rightarrow> string) \<Rightarrow> ufs_fs \<Rightarrow> 'x file_id \<Rightarrow> 'e vfs_error + vfs_dir_entry list" where
  "vfs_read_dir dbg fs fid =
     try_bind (ino_of dbg fid) (\<lambda>dir_ino.
       try_bind (vfs_result (list_dir (fs_image fs) (fs_sb fs) dir_ino)) (\<lambda>entries.
         Inr (map (\<lambda>e. \<lparr> ve_name = de_name e, ve_ino = de_ino e, ve_kind = vfs_entry_kind fs (de_ino e) \<rparr>)
                entries)))"

text \<open>\<open>i32::max(0) as u64\<close> and \<open>u64::max(1)\<close>.\<close>

definition i32_max0 :: "i32 \<Rightarrow> u64" where
  "i32_max0 w = (if sint w < 0 then 0 else scast w)"

fun extents_loop :: "u64 \<Rightarrow> u64 \<Rightarrow> u64 list \<Rightarrow> u64 \<Rightarrow> run_info list" where
  "extents_loop fsize bsize [] remaining = []"
| "extents_loop fsize bsize (addr # addrs) remaining =
     (if remaining = 0 then []
      else
        let this = min remaining (max bsize 1);
            rest = extents_loop fsize bsize addrs (sat_sub remaining (max bsize 1))
        in if addr \<noteq> 0
           then \<lparr> run_offset = sat_mul addr fsize, run_len = this, run_flags = FlagsDefault, run_state = RunAllocated \<rparr> # rest
           else rest)"

definition vfs_extents ::
  "('x \<Rightarrow> string) \<Rightarrow> ('s \<Rightarrow> string) \<Rightarrow> ufs_fs \<Rightarrow> 'x file_id \<Rightarrow> 's stream_id \<Rightarrow> 'e vfs_error + run_info list" where
  "vfs_extents dbg sdbg fs fid st =
     try_bind (require_default_stream sdbg st) (\<lambda>_.
       try_bind (fs_inode dbg fs fid) (\<lambda>i.
         Inr (extents_loop (i32_max0 (sb_fsize (fs_sb fs))) (i32_max0 (sb_bsize (fs_sb fs)))
                (take UFS_NDADDR (i_direct i)) (i_size i))))"

definition vfs_lookup :: "('x \<Rightarrow> string) \<Rightarrow> ufs_fs \<Rightarrow> 'x file_id \<Rightarrow> bytes \<Rightarrow> 'e vfs_error + 'x file_id option" where
  "vfs_lookup dbg fs parent name =
     try_bind (ino_of dbg parent) (\<lambda>dir_ino.
       try_bind (vfs_result (list_dir (fs_image fs) (fs_sb fs) dir_ino)) (\<lambda>entries.
         Inr (map_option (\<lambda>e. FileIdOpaque (de_ino e)) (find (\<lambda>e. de_name e = name) entries))))"

definition vfs_meta :: "('x \<Rightarrow> string) \<Rightarrow> ufs_fs \<Rightarrow> 'x file_id \<Rightarrow> 'e vfs_error + fs_meta" where
  "vfs_meta dbg fs fid =
     try_bind (ino_of dbg fid) (\<lambda>ino.
       try_bind (vfs_result (read_inode (fs_image fs) (fs_sb fs) ino)) (\<lambda>i.
         Inr \<lparr> m_ino = ino,
               m_kind = node_kind_of (i_file_type i),
               m_allocated = AllocAllocated,
               m_size = i_size i,
               m_nlink = ucast (i_nlink i),
               m_uid = Some (i_uid i),
               m_gid = Some (i_gid i),
               m_mode = Some (ucast (i_mode i)),
               m_times = \<lparr> t_modified = Some (to_ts (i_mtime i)), t_accessed = Some (to_ts (i_atime i)),
                           t_changed = Some (to_ts (i_ctime i)), t_born = map_option to_ts (i_birthtime i) \<rparr>,
               m_streams = [],
               m_residency = (case inode_symlink_target i of
                   Some t \<Rightarrow> Resident (if length t < 2 ^ 32 then of_nat (length t) else - 1)
                 | None \<Rightarrow> NonResident),
               m_link_target = None \<rparr>))"

text \<open>\<open>read_at\<close>: the count and the caller's buffer afterwards.\<close>

definition vfs_read_at ::
  "('x \<Rightarrow> string) \<Rightarrow> ('s \<Rightarrow> string) \<Rightarrow> ufs_fs \<Rightarrow> 'x file_id \<Rightarrow> 's stream_id \<Rightarrow> u64 \<Rightarrow> bytes
     \<Rightarrow> 'e vfs_error + (usize \<times> bytes)" where
  "vfs_read_at dbg sdbg fs fid st off buf =
     try_bind (require_default_stream sdbg st) (\<lambda>_.
       try_bind (ino_of dbg fid) (\<lambda>ino.
         try_bind (vfs_result (read_file (fs_image fs) (fs_sb fs) ino)) (\<lambda>file.
           case slice_from file (unat off) of
             None \<Rightarrow> Inr (0, buf)
           | Some s \<Rightarrow> (let n = min (length s) (length buf) in Inr (n, take n s @ drop n buf)))))"

definition vfs_read_link :: "('x \<Rightarrow> string) \<Rightarrow> ufs_fs \<Rightarrow> 'x file_id \<Rightarrow> usize \<Rightarrow> 'e vfs_error + bytes" where
  "vfs_read_link dbg fs fid cap =
     try_bind (fs_inode dbg fs fid) (\<lambda>i.
       if i_file_type i \<noteq> FtSymlink then Inr []
       else try_bind (vfs_result (read_symlink_target (fs_image fs) (fs_sb fs) i))
              (\<lambda>target. Inr (take cap target)))"

definition vfs_deleted :: "ufs_fs \<Rightarrow> 'e vfs_error + unit list" where
  "vfs_deleted fs = Inr []"

definition vfs_unallocated :: "ufs_fs \<Rightarrow> 'e vfs_error + run_info list" where
  "vfs_unallocated fs = Inr []"

section \<open>Time stamps stay in range\<close>

lemma to_ts_fits: "- (2 ^ 127) \<le> unix_nanos (to_ts ts)" "unix_nanos (to_ts ts) < 2 ^ 127"
  using sint_lt [of "ts_sec ts"] sint_ge [of "ts_sec ts"] sint_lt [of "ts_nsec ts"] sint_ge [of "ts_nsec ts"]
  by (simp_all add: to_ts_def)

section \<open>Probing and opening\<close>

text \<open>The documented meaning of the sniff window: the bytes of the source at that offset.\<close>

definition window_of :: "bytes \<Rightarrow> usize \<Rightarrow> bytes \<Rightarrow> bool" where
  "window_of w off m \<longleftrightarrow> slice_get w off (off + length m) = Some m"

lemma sb_magic_window:
  assumes "SB_MIN_LEN \<le> length (drop off img)"
  shows "sb_magic_bytes (drop off img) = m \<and> length m = 4
    \<longleftrightarrow> window_of img (off + FS_MAGIC_OFF) m \<and> length m = 4"
proof -
  have "off \<le> length img" using assms by (simp add: sb_consts)
  then have "slice_get (drop off img) FS_MAGIC_OFF (FS_MAGIC_OFF + 4)
      = slice_get img (off + FS_MAGIC_OFF) (off + FS_MAGIC_OFF + 4)"
    by (auto simp: slice_get_def add.commute)
  then show ?thesis
    using sb_magic_bytes_slice [OF assms] by (auto simp: window_of_def)
qed

lemma parse_primary_Inr:
  "parse_primary img off = Inr sb \<longleftrightarrow> off \<le> length img \<and> sb_parse (drop off img) = Inr sb"
  by (simp add: parse_primary_def slice_from_def)

lemma ufs_open_Inr:
  assumes "read_at 0 (replicate (unat len) 0) = Inr (n, buf)"
  shows "ufs_open len read_at = Inr fs \<longleftrightarrow>
    fs_image fs = take n buf \<and>
    (parse_primary (take n buf) SBLOCK_UFS2 = Inr (fs_sb fs)
     \<or> (\<exists>e. parse_primary (take n buf) SBLOCK_UFS2 = Inl e)
        \<and> parse_primary (take n buf) SBLOCK_UFS1 = Inr (fs_sb fs))"
  using assms
  by (cases fs) (auto simp: ufs_open_def Let_def try_bind_Inr_iff vfs_result_def split: sum.splits)

section \<open>Extents\<close>

lemma i32_max0_unat: "unat (i32_max0 w) = nat_i32 w"
  by (auto simp: i32_max0_def nat_i32_def unat_scast_i32)

definition extent_of :: "superblock \<Rightarrow> nat \<Rightarrow> nat \<Rightarrow> u64 \<Rightarrow> run_info list" where
  "extent_of sb sz k addr =
     (let bs = nat_i32 (sb_bsize sb) in
      if addr = 0 \<or> sz \<le> k * bs then []
      else [\<lparr> run_offset = sat_mul addr (i32_max0 (sb_fsize sb)),
              run_len = of_nat (min (sz - k * bs) bs), run_flags = FlagsDefault, run_state = RunAllocated \<rparr>])"

lemma extents_loop_exact:
  assumes "unat bsz = bs" "0 < bs"
  shows "extents_loop fsz bsz addrs rem = concat (map (\<lambda>k.
     if addrs ! k = 0 \<or> unat rem \<le> k * bs then []
     else [\<lparr> run_offset = sat_mul (addrs ! k) fsz, run_len = of_nat (min (unat rem - k * bs) bs),
             run_flags = FlagsDefault, run_state = RunAllocated \<rparr>]) [0..<length addrs])"
proof (induction addrs arbitrary: rem)
  case Nil
  then show ?case by simp
next
  case (Cons a addrs)
  have "1 \<le> bsz" using assms by (simp add: word_le_nat_alt)
  then have mx: "max bsz 1 = bsz" by (rule max_absorb1)
  have mn: "min rem bsz = of_nat (min (unat rem) bs)"
    using assms(1) by (auto simp: min_def word_le_nat_alt)
  have sub: "unat (sat_sub rem bsz) = unat rem - bs" by (simp add: sat_simps assms(1))
  have e1: "unat rem - bs \<le> k * bs \<longleftrightarrow> unat rem \<le> Suc k * bs" for k by auto
  have e2: "unat rem - (bs + k * bs) = unat rem - Suc k * bs" for k by simp
  have upt: "[0..<length (a # addrs)] = 0 # map Suc [0..<length addrs]"
    by (simp add: upt_conv_Cons map_Suc_upt del: upt_Suc)
  show ?case
  proof (cases "rem = 0")
    case True
    then show ?thesis by simp
  next
    case False
    then have "0 < unat rem" by (simp add: unat_gt_0)
    then show ?thesis
      unfolding upt
      using False by (simp add: mx mn Cons.IH sub e1 e2 comp_def Let_def del: mult_Suc cong: if_cong)
  qed
qed

lemma vfs_extents_exact:
  assumes "file_geometry_ok sb" "length (i_direct i) = 12"
  shows "extents_loop (i32_max0 (sb_fsize sb)) (i32_max0 (sb_bsize sb)) (take UFS_NDADDR (i_direct i)) (i_size i)
    = concat (map (\<lambda>k. extent_of sb (unat (i_size i)) k (i_direct i ! k)) [0..<12])"
proof -
  have bs: "0 < nat_i32 (sb_bsize sb)" using assms(1) by (simp add: file_geometry_ok_def nat_i32_def)
  have "take UFS_NDADDR (i_direct i) = i_direct i" using assms(2) by (simp add: sb_consts)
  then show ?thesis
    using extents_loop_exact [OF i32_max0_unat bs] by (simp add: assms(2) extent_of_def Let_def)
qed

lemma length_inode_direct: "read_inode part sb ino = Inr i \<Longrightarrow> length (i_direct i) = 12"
  by (auto simp: read_inode_def Let_def inode_parse_with_maxsymlink_def inode_decode_def read_ptrs_def
      sb_consts split: if_splits option.splits)

lemma extent_of_content:
  assumes geo: "file_geometry_ok sb" and k: "k < 12"
    and r: "r \<in> set (extent_of sb (unat (i_size i)) k (i_direct i ! k))"
    and img: "unat (run_offset r) + unat (run_len r) \<le> length part" and part: "valid_slice part"
    and c: "c = map (file_byte part sb i) [0..<unat (i_size i)]"
  shows "take (unat (run_len r)) (drop (k * nat_i32 (sb_bsize sb)) c)
    = take (unat (run_len r)) (drop (unat (run_offset r)) part)"
    and "k * nat_i32 (sb_bsize sb) + unat (run_len r) \<le> length c" "0 < unat (run_len r)"
proof -
  let ?bs = "nat_i32 (sb_bsize sb)" and ?sz = "unat (i_size i)" and ?a = "i_direct i ! k"
  have bs: "0 < ?bs" and fs: "0 < sint (sb_fsize sb)"
    using geo by (simp_all add: file_geometry_ok_def nat_i32_def)
  have a: "?a \<noteq> 0" "k * ?bs < ?sz" and ro: "run_offset r = sat_mul ?a (i32_max0 (sb_fsize sb))"
    and rl: "run_len r = of_nat (min (?sz - k * ?bs) ?bs)"
    using r by (auto simp: extent_of_def Let_def split: if_splits)
  have "min (?sz - k * ?bs) ?bs \<le> unat (i_size i)" by simp
  then have n: "unat (run_len r) = min (?sz - k * ?bs) ?bs"
    using unat_u64_le [of "i_size i"] by (simp add: rl unat_of_nat del: min.cobounded1 min_le_iff_disj)
  show le: "k * ?bs + unat (run_len r) \<le> length c" and pos: "0 < unat (run_len r)"
    using a bs by (simp_all add: n c)
  have "unat (run_offset r) < usize_max" using img pos part by (simp add: valid_slice_def)
  then have o: "unat (run_offset r) = unat ?a * nat_i32 (sb_fsize sb)"
    by (simp add: ro sat_simps i32_max0_unat min_def split: if_splits)
  show "take (unat (run_len r)) (drop (k * ?bs) c) = take (unat (run_len r)) (drop (unat (run_offset r)) part)"
  proof (rule nth_equalityI)
    fix j assume "j < length (take (unat (run_len r)) (drop (k * ?bs) c))"
    then have j: "j < unat (run_len r)" by simp
    then have j1: "j < ?bs" and j2: "j < ?sz - k * ?bs" using n by simp_all
    from j2 have "k * ?bs + j < ?sz" by linarith
    note jb = j1 this
    have "(k * ?bs + j) div ?bs = k" "(k * ?bs + j) mod ?bs = j"
      using jb(1) by simp_all
    then have "file_byte part sb i (k * ?bs + j) = part ! (unat ?a * nat_i32 (sb_fsize sb) + j)"
      using k a(1) img o j by (simp add: file_byte_def block_addr_def block_path_def place_addr_def)
    then show "take (unat (run_len r)) (drop (k * ?bs) c) ! j
        = take (unat (run_len r)) (drop (unat (run_offset r)) part) ! j"
      using j jb img le by (simp add: c o)
  qed (use img le in simp)
qed

section \<open>Reading and looking up\<close>

lemma vfs_result_Inr [simp]: "vfs_result r = Inr x \<longleftrightarrow> r = Inr x"
  by (cases r) (simp_all add: vfs_result_def)

lemma vfs_result_simps [simp]: "vfs_result (Inr x) = Inr x" "vfs_result (Inl e) = Inl (map_err e)"
  by (simp_all add: vfs_result_def)

lemma find_filter: "find P (filter Q xs) = find (\<lambda>x. Q x \<and> P x) xs"
  by (induction xs) auto

end
