(* ===== verification/ForensicAnomaly.thy ===== *)
theory ForensicAnomaly
  imports UfsVfs
begin

text \<open>
  \<open>forensic/src/lib.rs\<close>, the anomaly vocabulary: the kinds with their evidence, the severity, code,
  note and evidence derived from a kind, and the \<open>Observation\<close> view of an anomaly. The report types
  of the \<open>forensicnomicon\<close> crate appear with the constructors and fields this code builds; its
  conversion \<open>to_finding\<close> is an argument. Strings are lists of their UTF-8 bytes as characters.
\<close>

section \<open>Report types\<close>

datatype severity = SevHigh | SevMedium

datatype location = LocByteOffset u64 | LocOther string u64

record evidence =
  ev_field :: string
  ev_value :: string
  ev_location :: "location option"

record report_source =
  src_analyzer :: string
  src_scope :: string
  src_version :: "string option"

text \<open>What the \<open>Observation\<close> trait exposes of an anomaly.\<close>

record observation =
  obs_severity :: "severity option"
  obs_code :: string
  obs_note :: string
  obs_evidence :: "evidence list"

section \<open>Anomaly kinds\<close>

datatype anomaly_kind =
  SuperblockMagicInvalid (smi_offset: u64) (smi_bytes: bytes)
  | BackupSuperblockDivergence u32 string u64 u64 u64
  | CgMagicInvalid u32 u32 u64
  | OrphanedInode u64 u16
  | ImpossibleGeometry string u64 u64

fun kind_severity :: "anomaly_kind \<Rightarrow> severity" where
  "kind_severity (SuperblockMagicInvalid _ _) = SevHigh"
| "kind_severity (BackupSuperblockDivergence _ _ _ _ _) = SevHigh"
| "kind_severity (CgMagicInvalid _ _ _) = SevHigh"
| "kind_severity (ImpossibleGeometry _ _ _) = SevHigh"
| "kind_severity (OrphanedInode _ _) = SevMedium"

fun kind_code :: "anomaly_kind \<Rightarrow> string" where
  "kind_code (SuperblockMagicInvalid _ _) = ''UFS-SUPERBLOCK-MAGIC-INVALID''"
| "kind_code (BackupSuperblockDivergence _ _ _ _ _) = ''UFS-BACKUP-SUPERBLOCK-DIVERGENCE''"
| "kind_code (CgMagicInvalid _ _ _) = ''UFS-CG-MAGIC-INVALID''"
| "kind_code (OrphanedInode _ _) = ''UFS-ORPHANED-INODE''"
| "kind_code (ImpossibleGeometry _ _ _) = ''UFS-IMPOSSIBLE-GEOMETRY''"

abbreviation em_dash :: string where
  "em_dash \<equiv> [CHR 0xE2, CHR 0x80, CHR 0x94]"

abbreviation fmt_word :: "'a::len word \<Rightarrow> string" where
  "fmt_word w \<equiv> fmt_dec (unat w)"

fun kind_note :: "anomaly_kind \<Rightarrow> string" where
  "kind_note (SuperblockMagicInvalid offset bs) =
     ''superblock at byte '' @ fmt_word offset @ '': fs_magic bytes '' @ fmt_bytes bs
     @ '' match neither UFS1 (0x00011954) nor UFS2 (0x19540119) in either byte order '' @ em_dash
     @ '' consistent with corruption or an overwritten superblock''"
| "kind_note (BackupSuperblockDivergence cg field primary backup _) =
     ''cylinder group '' @ fmt_word cg @ '' backup superblock: '' @ field @ '' = '' @ fmt_word backup
     @ '' differs from the primary '' @ fmt_word primary @ '' '' @ em_dash
     @ '' consistent with a spliced or edited image''"
| "kind_note (CgMagicInvalid cg found _) =
     ''cylinder group '' @ fmt_word cg @ '' header: cg_magic = '' @ fmt_010x found
     @ '' is not 0x00090255 '' @ em_dash @ '' consistent with corruption or a tampered allocation map''"
| "kind_note (OrphanedInode ino nlink) =
     ''inode '' @ fmt_word ino @ '' is allocated (di_nlink '' @ fmt_word nlink
     @ '') yet reachable by no directory entry from root '' @ em_dash
     @ '' an inode unlinked while still open, or a corruption lead''"
| "kind_note (ImpossibleGeometry field value limit) =
     ''geometry field '' @ field @ '' = '' @ fmt_word value @ '' exceeds the sane bound ''
     @ fmt_word limit @ '' for this image '' @ em_dash
     @ '' consistent with corruption or an allocation-bomb''"

fun kind_evidence :: "anomaly_kind \<Rightarrow> evidence list" where
  "kind_evidence (SuperblockMagicInvalid offset bs) =
     [\<lparr> ev_field = ''fs_magic'', ev_value = fmt_bytes bs, ev_location = Some (LocByteOffset offset) \<rparr>]"
| "kind_evidence (BackupSuperblockDivergence cg field primary backup offset) =
     [\<lparr> ev_field = field,
        ev_value = ''cg'' @ fmt_word cg @ '' backup='' @ fmt_word backup @ '' vs primary='' @ fmt_word primary,
        ev_location = Some (LocByteOffset offset) \<rparr>]"
| "kind_evidence (CgMagicInvalid cg found offset) =
     [\<lparr> ev_field = ''cg_magic'', ev_value = ''cg'' @ fmt_word cg @ '': '' @ fmt_010x found,
        ev_location = Some (LocByteOffset offset) \<rparr>]"
| "kind_evidence (OrphanedInode ino nlink) =
     [\<lparr> ev_field = ''di_nlink'',
        ev_value = ''inode '' @ fmt_word ino @ '' nlink '' @ fmt_word nlink @ '', unreferenced'',
        ev_location = Some (LocOther ''ufs:inode'' ino) \<rparr>]"
| "kind_evidence (ImpossibleGeometry field value limit) =
     [\<lparr> ev_field = field, ev_value = fmt_word value @ '' (limit '' @ fmt_word limit @ '')'',
        ev_location = None \<rparr>]"

section \<open>Anomalies\<close>

record anomaly =
  an_severity :: severity
  an_code :: string
  an_kind :: anomaly_kind
  an_note :: string

definition anomaly_new :: "anomaly_kind \<Rightarrow> anomaly" where
  "anomaly_new kind =
     \<lparr> an_severity = kind_severity kind, an_code = kind_code kind, an_kind = kind, an_note = kind_note kind \<rparr>"

definition anomaly_observation :: "anomaly \<Rightarrow> observation" where
  "anomaly_observation a =
     \<lparr> obs_severity = Some (an_severity a), obs_code = an_code a, obs_note = an_note a,
       obs_evidence = kind_evidence (an_kind a) \<rparr>"

lemma anomaly_new_sel [simp]:
  "an_severity (anomaly_new k) = kind_severity k" "an_code (anomaly_new k) = kind_code k"
  "an_kind (anomaly_new k) = k" "an_note (anomaly_new k) = kind_note k"
  by (simp_all add: anomaly_new_def)

lemma anomaly_new_eq [simp]: "anomaly_new k = anomaly_new k' \<longleftrightarrow> k = k'"
  by (metis anomaly_new_sel(3))

text \<open>The code tells the kinds apart.\<close>

fun same_kind :: "anomaly_kind \<Rightarrow> anomaly_kind \<Rightarrow> bool" where
  "same_kind (SuperblockMagicInvalid _ _) (SuperblockMagicInvalid _ _) = True"
| "same_kind (BackupSuperblockDivergence _ _ _ _ _) (BackupSuperblockDivergence _ _ _ _ _) = True"
| "same_kind (CgMagicInvalid _ _ _) (CgMagicInvalid _ _ _) = True"
| "same_kind (OrphanedInode _ _) (OrphanedInode _ _) = True"
| "same_kind (ImpossibleGeometry _ _ _) (ImpossibleGeometry _ _ _) = True"
| "same_kind _ _ = False"

lemma kind_code_same: "kind_code a = kind_code b \<longleftrightarrow> same_kind a b"
  by (cases a; cases b) simp_all

end
