(* ===== verification/ForensicLoops.thy ===== *)
theory ForensicLoops
  imports UfsPrelude
begin

text \<open>
  The two loop shapes of the analyzer as interfaces. \<open>push_loop\<close>: a \<open>for\<close> loop that only pushes to
  an output vector. \<open>stack_walk\<close>: the \<open>while let Some(d) = queue.pop()\<close> walk with a budget, and its
  two extensions, a walk that marks what it pushes (\<open>marking_walk\<close>) and a walk that skips what it
  has visited (\<open>visiting_walk\<close>). The clients' lemmas (what is reached, each thing once, enough
  budget) are proved here and instantiated on the loops of the code.
\<close>

section \<open>Pushing loops\<close>

locale push_loop =
  fixes step :: "'x \<Rightarrow> 'o list \<Rightarrow> 'o list" and emit :: "'x \<Rightarrow> 'o list"
  assumes push: "step x out = out @ emit x"
begin

lemma fold_push: "fold step xs out = out @ concat (map emit xs)"
  by (induction xs arbitrary: out) (simp_all add: push)

lemma fold_push_prefix: "\<exists>new. fold step xs out = out @ new"
  by (simp add: fold_push)

end

section \<open>Sweeps over groups\<close>

text \<open>
  A nested loop over \<open>k\<close> groups of \<open>m\<close> items each: the items are swept in the order of their
  absolute numbers, each once.
\<close>

lemma concat_groups:
  "concat (map (\<lambda>c. concat (map (\<lambda>w. f (c * m + w)) [0..<m])) [0..<k]) = concat (map f [0..<m * k])"
proof (induction k)
  case (Suc k)
  have "[0..<m * k + m] = [0..<m * k] @ [m * k..<m * k + m]"
    by (rule upt_add_eq_append) simp
  moreover have "[m * k..<m * k + m] = map (\<lambda>w. k * m + w) [0..<m]"
    by (rule nth_equalityI) (simp_all add: mult.commute)
  ultimately have "[0..<m * Suc k] = [0..<m * k] @ map (\<lambda>w. k * m + w) [0..<m]"
    by (simp add: add.commute)
  then show ?case using Suc by (simp add: comp_def)
qed simp

locale group_sweep =
  fixes group_step :: "nat \<Rightarrow> 'o list \<Rightarrow> 'o list" and emit :: "nat \<Rightarrow> 'o list" and m k :: nat
  assumes group_push: "c < k \<Longrightarrow> group_step c out = out @ concat (map (\<lambda>w. emit (c * m + w)) [0..<m])"
begin

lemma fold_groups: "fold group_step [0..<k] out = out @ concat (map emit [0..<m * k])"
proof -
  have "fold group_step [0..<j] out = out @ concat (map (\<lambda>c. concat (map (\<lambda>w. emit (c * m + w)) [0..<m])) [0..<j])"
    if "j \<le> k" for j
    using that by (induction j) (simp_all add: group_push)
  then show ?thesis by (simp add: concat_groups)
qed

lemma in_fold_groups: "x \<in> set (fold group_step [0..<k] []) \<longleftrightarrow> (\<exists>n < m * k. x \<in> set (emit n))"
  by (auto simp: fold_groups)

end

section \<open>Stack walks\<close>

locale stack_walk =
  fixes run :: "nat \<Rightarrow> 'n list \<Rightarrow> 'acc \<Rightarrow> 'acc"
    and visit :: "'n \<Rightarrow> 'n list \<Rightarrow> 'acc \<Rightarrow> 'n list \<times> 'acc"
  assumes run_eq: "run b q acc =
    (case vec_pop q of
       None \<Rightarrow> acc
     | Some (d, q') \<Rightarrow> if b = 0 then acc else (case visit d q' acc of (q'', acc') \<Rightarrow> run (b - 1) q'' acc'))"
begin

lemma run_invariant:
  assumes init: "I b q acc"
    and step: "\<And>b d q acc. I (Suc b) (q @ [d]) acc \<Longrightarrow> I b (fst (visit d q acc)) (snd (visit d q acc))"
    and out_of_budget: "\<And>d q acc. I 0 (q @ [d]) acc \<Longrightarrow> Q acc"
    and finished: "\<And>b acc. I b [] acc \<Longrightarrow> Q acc"
  shows "Q (run b q acc)"
  using init
proof (induction b arbitrary: q acc)
  case 0
  then show ?case
    by (cases q rule: rev_cases) (auto simp: run_eq [of 0] intro: finished out_of_budget)
next
  case (Suc b)
  show ?case
  proof (cases q rule: rev_cases)
    case Nil
    then show ?thesis using Suc.prems finished by (simp add: run_eq [of "Suc b"])
  next
    case (snoc ys d)
    have "I b (fst (visit d ys acc)) (snd (visit d ys acc))" using Suc.prems snoc step by simp
    then have "Q (run b (fst (visit d ys acc)) (snd (visit d ys acc)))" by (rule Suc.IH)
    then show ?thesis by (simp add: run_eq [of "Suc b"] snoc split_beta)
  qed
qed

end

section \<open>Marking walks\<close>

text \<open>
  A directed graph whose edges say whether their target is a directory. The scan of one node marks
  every unmarked target and pushes it when the edge is a directory edge.
\<close>

fun scan_edges :: "('n \<times> bool) list \<Rightarrow> 'n list \<Rightarrow> 'n list \<Rightarrow> 'n list \<times> 'n list" where
  "scan_edges [] q r = (q, r)"
| "scan_edges ((n, isdir) # es) q r =
     (if n \<in> set r then scan_edges es q r
      else scan_edges es (if isdir then q @ [n] else q) (r @ [n]))"

definition dir_edge :: "('n \<Rightarrow> ('n \<times> bool) list) \<Rightarrow> 'n \<Rightarrow> 'n \<Rightarrow> bool" where
  "dir_edge edges a b \<longleftrightarrow> (b, True) \<in> set (edges a)"

text \<open>The directories of the graph from a root, and everything they link to.\<close>

definition dir_closure :: "('n \<Rightarrow> ('n \<times> bool) list) \<Rightarrow> 'n \<Rightarrow> 'n set" where
  "dir_closure edges root = {d. (dir_edge edges)\<^sup>*\<^sup>* root d}"

definition link_closure :: "('n \<Rightarrow> ('n \<times> bool) list) \<Rightarrow> 'n \<Rightarrow> 'n set" where
  "link_closure edges root = insert root {n. \<exists>d \<in> dir_closure edges root. \<exists>x. (n, x) \<in> set (edges d)}"

text \<open>All directory edges of the closure agree with the other edges to the same target.\<close>

definition types_agree :: "('n \<Rightarrow> ('n \<times> bool) list) \<Rightarrow> 'n \<Rightarrow> bool" where
  "types_agree edges root \<longleftrightarrow>
     (\<forall>d \<in> dir_closure edges root. \<forall>d' \<in> dir_closure edges root. \<forall>n x y.
        (n, x) \<in> set (edges d) \<and> (n, y) \<in> set (edges d') \<longrightarrow> x = y)"

lemma dir_closure_root: "root \<in> dir_closure edges root"
  by (simp add: dir_closure_def)

lemma dir_closure_step:
  "d \<in> dir_closure edges root \<Longrightarrow> (n, True) \<in> set (edges d) \<Longrightarrow> n \<in> dir_closure edges root"
  by (auto simp: dir_closure_def dir_edge_def intro: rtranclp.rtrancl_into_rtrancl)

lemma dir_closure_least:
  assumes "root \<in> S" and "\<And>d n. d \<in> S \<Longrightarrow> (n, True) \<in> set (edges d) \<Longrightarrow> n \<in> S"
  shows "dir_closure edges root \<subseteq> S"
proof
  fix d assume "d \<in> dir_closure edges root"
  then have "(dir_edge edges)\<^sup>*\<^sup>* root d" by (simp add: dir_closure_def)
  then show "d \<in> S"
    by (induction rule: rtranclp_induct) (auto simp: dir_edge_def intro: assms)
qed

lemma link_closureI: "d \<in> dir_closure edges root \<Longrightarrow> (n, x) \<in> set (edges d) \<Longrightarrow> n \<in> link_closure edges root"
  by (auto simp: link_closure_def)

text \<open>What a scan leaves: the marks grow by the targets, the stack by new directory targets.\<close>

lemma scan_edges_marks: "set (snd (scan_edges es q r)) = set r \<union> fst ` set es"
  by (induction es q r rule: scan_edges.induct) auto

lemma scan_edges_distinct: "distinct r \<Longrightarrow> distinct (snd (scan_edges es q r))"
  by (induction es q r rule: scan_edges.induct) auto

lemma scan_edges_stack_sub:
  "set (fst (scan_edges es q r)) \<subseteq> set q \<union> ({n. (n, True) \<in> set es} - set r)"
  by (induction es q r rule: scan_edges.induct) (auto split: if_splits)

lemma scan_edges_stack_mono: "set q \<subseteq> set (fst (scan_edges es q r))"
  by (induction es q r rule: scan_edges.induct) (auto split: if_splits)

lemma scan_edges_stack_distinct:
  "distinct q \<Longrightarrow> set q \<subseteq> set r \<Longrightarrow> distinct (fst (scan_edges es q r))"
  by (induction es q r rule: scan_edges.induct) (auto simp: subset_iff, blast)

lemma scan_edges_stack_new:
  assumes "\<forall>x. (n, x) \<in> set es \<longrightarrow> x" and "(n, True) \<in> set es" and "n \<notin> set r"
  shows "n \<in> set (fst (scan_edges es q r))"
  using assms
proof (induction es q r rule: scan_edges.induct)
  case (2 m isdir es q r)
  show ?case
  proof (cases "m = n")
    case True
    then have "isdir" "m \<notin> set r" using "2.prems"(1,3) by auto
    then show ?thesis
      using True scan_edges_stack_mono [of "q @ [n]" es "r @ [n]"] by auto
  next
    case False
    then have "\<forall>x. (n, x) \<in> set es \<longrightarrow> x" "(n, True) \<in> set es" using "2.prems"(1,2) by auto
    then show ?thesis
      using "2.IH" "2.prems"(3) False by (cases "m \<in> set r") (simp_all del: if_split split del: if_split)
  qed
qed simp

locale marking_walk = stack_walk run visit
  for run :: "nat \<Rightarrow> 'n list \<Rightarrow> 'n list \<Rightarrow> 'n list" and visit +
  fixes edges :: "'n \<Rightarrow> ('n \<times> bool) list"
  assumes visit_scan: "visit d q r = scan_edges (edges d) q r"
begin

lemma marks_sound:
  "distinct (run b [root] [root]) \<and> root \<in> set (run b [root] [root])
     \<and> set (run b [root] [root]) \<subseteq> link_closure edges root"
proof (rule run_invariant [where I = "\<lambda>b q r. set q \<subseteq> dir_closure edges root \<and> distinct r
    \<and> root \<in> set r \<and> set r \<subseteq> link_closure edges root"])
  show "set [root] \<subseteq> dir_closure edges root \<and> distinct [root] \<and> root \<in> set [root]
      \<and> set [root] \<subseteq> link_closure edges root"
    by (simp add: dir_closure_root link_closure_def)
next
  fix d q r
  assume a: "set (q @ [d]) \<subseteq> dir_closure edges root \<and> distinct r \<and> root \<in> set r
    \<and> set r \<subseteq> link_closure edges root"
  then have d: "d \<in> dir_closure edges root" by simp
  have "set (fst (scan_edges (edges d) q r)) \<subseteq> dir_closure edges root"
    using a scan_edges_stack_sub [of "edges d" q r] dir_closure_step [OF d] by auto
  moreover have "set (snd (scan_edges (edges d) q r)) \<subseteq> link_closure edges root"
    using a by (auto simp: scan_edges_marks intro: link_closureI [OF d])
  ultimately show "set (fst (visit d q r)) \<subseteq> dir_closure edges root \<and> distinct (snd (visit d q r))
      \<and> root \<in> set (snd (visit d q r)) \<and> set (snd (visit d q r)) \<subseteq> link_closure edges root"
    using a by (simp add: visit_scan scan_edges_distinct scan_edges_marks)
qed auto

text \<open>
  The invariant behind completeness: \<open>P\<close> are the nodes popped so far, and the budget covers the
  directories that are not among them.
\<close>

definition mark_inv :: "'n \<Rightarrow> nat \<Rightarrow> 'n list \<Rightarrow> 'n list \<Rightarrow> bool" where
  "mark_inv root b q r \<longleftrightarrow> (\<exists>P.
     distinct q \<and> P \<inter> set q = {} \<and> P \<union> set q \<subseteq> dir_closure edges root \<and> P \<union> set q \<subseteq> set r
     \<and> root \<in> P \<union> set q
     \<and> card (dir_closure edges root - P) \<le> b
     \<and> (\<forall>d \<in> P. \<forall>n x. (n, x) \<in> set (edges d) \<longrightarrow> n \<in> set r)
     \<and> (\<forall>d \<in> dir_closure edges root. \<forall>n. (n, True) \<in> set (edges d) \<and> n \<in> set r \<longrightarrow> n \<in> P \<union> set q))"

lemma mark_inv_step:
  assumes agree: "types_agree edges root" and fin: "finite (dir_closure edges root)"
    and inv: "mark_inv root (Suc b) (q @ [d]) r"
  shows "mark_inv root b (fst (scan_edges (edges d) q r)) (snd (scan_edges (edges d) q r))"
proof -
  let ?D = "dir_closure edges root" and ?q = "fst (scan_edges (edges d) q r)"
    and ?r = "snd (scan_edges (edges d) q r)"
  from inv obtain P where dq: "distinct (q @ [d])" and disj: "P \<inter> set (q @ [d]) = {}"
    and PD: "P \<union> set (q @ [d]) \<subseteq> ?D" and Pr: "P \<union> set (q @ [d]) \<subseteq> set r"
    and rt: "root \<in> P \<union> set (q @ [d])" and card: "card (?D - P) \<le> Suc b"
    and marked: "\<forall>d \<in> P. \<forall>n x. (n, x) \<in> set (edges d) \<longrightarrow> n \<in> set r"
    and pushed: "\<forall>c \<in> ?D. \<forall>n. (n, True) \<in> set (edges c) \<and> n \<in> set r \<longrightarrow> n \<in> P \<union> set (q @ [d])"
    unfolding mark_inv_def by (elim exE conjE) (rule that)
  have d: "d \<in> ?D" "d \<notin> P" "d \<notin> set q" "d \<in> set r" using PD disj dq Pr by auto
  have sub: "set ?q \<subseteq> set q \<union> ({n. (n, True) \<in> set (edges d)} - set r)" by (rule scan_edges_stack_sub)
  have mono: "set q \<subseteq> set ?q" by (rule scan_edges_stack_mono)
  have marks: "set ?r = set r \<union> fst ` set (edges d)" by (rule scan_edges_marks)
  have c: "card (?D - insert d P) \<le> b"
  proof -
    have "?D - insert d P = (?D - P) - {d}" by auto
    then show ?thesis using card d fin by simp
  qed
  have new: "n \<in> insert d P \<union> set ?q"
    if e: "d' \<in> ?D" "(n, True) \<in> set (edges d')" "n \<in> set ?r" for d' n
  proof (cases "n \<in> set r")
    case True
    then show ?thesis using pushed e mono by auto
  next
    case False
    then obtain y where "(n, y) \<in> set (edges d)" using e(3) by (auto simp: marks)
    have x: "\<forall>x. (n, x) \<in> set (edges d) \<longrightarrow> x"
      using agree e(1,2) d(1) unfolding types_agree_def by blast
    then have "(n, True) \<in> set (edges d)" using \<open>(n, y) \<in> set (edges d)\<close> by (cases y) auto
    then show ?thesis using scan_edges_stack_new [OF x] False by auto
  qed
  have i1: "distinct ?q" using dq Pr by (intro scan_edges_stack_distinct) auto
  have i2: "insert d P \<inter> set ?q = {}" using sub disj d Pr by auto
  have i3: "insert d P \<union> set ?q \<subseteq> ?D" using sub PD dir_closure_step [OF d(1)] by auto
  have i4: "insert d P \<union> set ?q \<subseteq> set ?r" using sub Pr by (force simp: marks)
  have i5: "root \<in> insert d P \<union> set ?q" using rt mono by auto
  have i6: "\<forall>d \<in> insert d P. \<forall>n x. (n, x) \<in> set (edges d) \<longrightarrow> n \<in> set ?r"
    using marked by (force simp: marks)
  have i7: "\<forall>d' \<in> ?D. \<forall>n. (n, True) \<in> set (edges d') \<and> n \<in> set ?r \<longrightarrow> n \<in> insert d P \<union> set ?q"
    using new by blast
  show ?thesis unfolding mark_inv_def
    by (intro exI [of _ "insert d P"] conjI) (rule i1 i2 i3 i4 i5 c i6 i7)+
qed

lemma marks_complete:
  assumes agree: "types_agree edges root" and fin: "finite (dir_closure edges root)"
    and budget: "card (dir_closure edges root) \<le> b"
  shows "set (run b [root] [root]) = link_closure edges root"
proof -
  have "link_closure edges root \<subseteq> set (run b [root] [root])"
  proof (rule run_invariant [where I = "mark_inv root"])
    show "mark_inv root b [root] [root]"
      unfolding mark_inv_def using budget dir_closure_root [of root edges]
      by (intro exI [of _ "{}"]) auto
  next
    show "mark_inv root b (fst (visit d q r)) (snd (visit d q r))"
      if "mark_inv root (Suc b) (q @ [d]) r" for b d q r
      unfolding visit_scan by (rule mark_inv_step [OF agree fin that])
  next
    fix d q r assume "mark_inv root 0 (q @ [d]) r"
    then obtain P where "P \<inter> set (q @ [d]) = {}" "d \<in> dir_closure edges root"
      "card (dir_closure edges root - P) = 0" unfolding mark_inv_def by auto
    then have False using fin by auto
    then show "link_closure edges root \<subseteq> set r" ..
  next
    fix b r assume "mark_inv root b [] r"
    then obtain P where P: "P \<subseteq> set r" "root \<in> P" "P \<subseteq> dir_closure edges root"
      and m: "\<forall>d \<in> P. \<forall>n x. (n, x) \<in> set (edges d) \<longrightarrow> n \<in> set r"
      and p: "\<forall>d \<in> dir_closure edges root. \<forall>n. (n, True) \<in> set (edges d) \<and> n \<in> set r \<longrightarrow> n \<in> P"
      unfolding mark_inv_def by auto
    have "dir_closure edges root \<subseteq> P"
      by (rule dir_closure_least) (use P m p in blast)+
    then show "link_closure edges root \<subseteq> set r" using P m by (auto simp: link_closure_def)
  qed
  then show ?thesis using marks_sound [of b root] by blast
qed

end

section \<open>Visiting walks\<close>

text \<open>The stack may hold a node several times; a node already visited is dropped when it is popped.\<close>

locale visiting_walk = stack_walk run visit
  for run :: "nat \<Rightarrow> 'n list \<Rightarrow> 'n list \<times> 'd list \<Rightarrow> 'n list \<times> 'd list" and visit +
  fixes dirs :: "'n \<Rightarrow> 'n list" and slots :: "'n \<Rightarrow> 'd list"
  assumes visit_fresh: "d \<notin> set vis \<Longrightarrow> visit d q (vis, del) = (q @ dirs d, (vis @ [d], del @ slots d))"
    and visit_again: "d \<in> set vis \<Longrightarrow> visit d q (vis, del) = (q, (vis, del))"
begin

abbreviation "dir_graph \<equiv> \<lambda>d. map (\<lambda>n. (n, True)) (dirs d)"

lemma visits_sound:
  assumes "run b [root] ([], []) = (vis, del)"
  shows "distinct vis" "set vis \<subseteq> dir_closure dir_graph root" "del = concat (map slots vis)"
proof -
  let ?D = "dir_closure dir_graph root"
  have "(\<lambda>(vis, del). distinct vis \<and> set vis \<subseteq> ?D \<and> del = concat (map slots vis)) (run b [root] ([], []))"
  proof (rule run_invariant [where I = "\<lambda>b q (vis, del). set q \<subseteq> ?D \<and> distinct vis \<and> set vis \<subseteq> ?D
      \<and> del = concat (map slots vis)"])
    fix b d q and acc :: "'n list \<times> 'd list"
    assume a: "case acc of (vis, del) \<Rightarrow> set (q @ [d]) \<subseteq> ?D \<and> distinct vis \<and> set vis \<subseteq> ?D
        \<and> del = concat (map slots vis)"
    obtain vis del where acc: "acc = (vis, del)" by (cases acc)
    have d: "d \<in> ?D" using a acc by simp
    have ds: "set (dirs d) \<subseteq> ?D" using dir_closure_step [OF d] by auto
    show "case snd (visit d q acc) of (vis, del) \<Rightarrow> set (fst (visit d q acc)) \<subseteq> ?D \<and> distinct vis
        \<and> set vis \<subseteq> ?D \<and> del = concat (map slots vis)"
      using a acc ds by (cases "d \<in> set vis") (simp_all add: visit_fresh visit_again)
  qed (auto simp: dir_closure_root)
  then show "distinct vis" "set vis \<subseteq> ?D" "del = concat (map slots vis)"
    using assms by simp_all
qed

lemma visits_complete:
  assumes fin: "finite (dir_closure dir_graph root)"
    and budget: "1 + (\<Sum>d \<in> dir_closure dir_graph root. length (dirs d)) \<le> b"
    and run: "run b [root] ([], []) = (vis, del)"
  shows "set vis = dir_closure dir_graph root"
proof -
  let ?D = "dir_closure dir_graph root"
  have "?D \<subseteq> set (fst (run b [root] ([], [])))"
  proof (rule run_invariant [where I = "\<lambda>b q (vis, del). set vis \<subseteq> ?D \<and> set q \<subseteq> ?D \<and> root \<in> set vis \<union> set q
      \<and> (\<forall>d \<in> set vis. set (dirs d) \<subseteq> set vis \<union> set q)
      \<and> length q + (\<Sum>d \<in> ?D - set vis. length (dirs d)) \<le> b"])
    show "case ([], []) of (vis, del) \<Rightarrow> set vis \<subseteq> ?D \<and> set [root] \<subseteq> ?D \<and> root \<in> set vis \<union> set [root]
      \<and> (\<forall>d \<in> set vis. set (dirs d) \<subseteq> set vis \<union> set [root])
      \<and> length [root] + (\<Sum>d \<in> ?D - set vis. length (dirs d)) \<le> b"
      using budget by (simp add: dir_closure_root)
  next
    fix b d q and acc :: "'n list \<times> 'd list"
    assume a: "case acc of (vis, del) \<Rightarrow> set vis \<subseteq> ?D \<and> set (q @ [d]) \<subseteq> ?D \<and> root \<in> set vis \<union> set (q @ [d])
      \<and> (\<forall>d' \<in> set vis. set (dirs d') \<subseteq> set vis \<union> set (q @ [d]))
      \<and> length (q @ [d]) + (\<Sum>d \<in> ?D - set vis. length (dirs d)) \<le> Suc b"
    obtain vis del where acc: "acc = (vis, del)" by (cases acc)
    have d: "d \<in> ?D" using a acc by simp
    have ds: "set (dirs d) \<subseteq> ?D" using dir_closure_step [OF d] by auto
    have sum: "(\<Sum>d' \<in> ?D - set vis. length (dirs d')) = length (dirs d) + (\<Sum>d' \<in> ?D - set (vis @ [d]). length (dirs d'))"
      if "d \<notin> set vis"
    proof -
      have "?D - set (vis @ [d]) = (?D - set vis) - {d}" by auto
      then show ?thesis using sum.remove [of "?D - set vis" d "\<lambda>d. length (dirs d)"] fin d that by simp
    qed
    show "case snd (visit d q acc) of (vis, del) \<Rightarrow> set vis \<subseteq> ?D \<and> set (fst (visit d q acc)) \<subseteq> ?D
      \<and> root \<in> set vis \<union> set (fst (visit d q acc))
      \<and> (\<forall>d' \<in> set vis. set (dirs d') \<subseteq> set vis \<union> set (fst (visit d q acc)))
      \<and> length (fst (visit d q acc)) + (\<Sum>d \<in> ?D - set vis. length (dirs d)) \<le> b"
    proof (cases "d \<in> set vis")
      case True
      then show ?thesis using a acc by (auto simp: visit_again)
    next
      case False
      then show ?thesis using a acc ds sum by (auto simp: visit_fresh)
    qed
  next
    fix b and acc :: "'n list \<times> 'd list"
    assume a: "case acc of (vis, del) \<Rightarrow> set vis \<subseteq> ?D \<and> set [] \<subseteq> ?D \<and> root \<in> set vis \<union> set []
      \<and> (\<forall>d \<in> set vis. set (dirs d) \<subseteq> set vis \<union> set [])
      \<and> length [] + (\<Sum>d \<in> ?D - set vis. length (dirs d)) \<le> b"
    then show "?D \<subseteq> set (fst acc)" by (intro dir_closure_least) (auto split: prod.splits)
  qed (auto split: prod.splits)
  then show ?thesis using visits_sound [OF run] run by auto
qed

end

end
