(* ===== verification/ForensicAudit.thy ===== *)
theory ForensicAudit
  imports UfsCg ForensicAnomaly ForensicLoops
begin

text \<open>
  \<open>forensic/src/lib.rs\<close>, the image auditor: the search for the primary superblock, the geometry
  guard, the checks of every cylinder group, and the diff of the allocated against the reachable
  inodes. \<open>partition\<close> is \<open>img\<close>; an output vector is passed through as \<open>out\<close>; \<open>0..n\<close> over \<open>u64\<close> is
  \<open>map of_nat [0..<unat n]\<close>.
\<close>

section \<open>Raw readers\<close>

definition read_u32_le :: "bytes \<Rightarrow> usize \<Rightarrow> u32" where
  "read_u32_le d off =
     (case slice_get d off (usize_sat_add off 4) of
        None \<Rightarrow> 0
      | Some b \<Rightarrow> if length b = 4 then from_le b else 0)"

definition read_u32_be :: "bytes \<Rightarrow> usize \<Rightarrow> u32" where
  "read_u32_be d off =
     (case slice_get d off (usize_sat_add off 4) of
        None \<Rightarrow> 0
      | Some b \<Rightarrow> if length b = 4 then from_be b else 0)"

definition CG_MAGIC_OFF :: usize where [sb_consts]: "CG_MAGIC_OFF = 4"

section \<open>The primary superblock\<close>

datatype sb_error = SbMagicInvalid u64 bytes | SbNotUfs

fun parse_primary_from :: "bytes \<Rightarrow> usize list \<Rightarrow> sb_error + superblock" where
  "parse_primary_from img [] = Inl SbNotUfs"
| "parse_primary_from img (off # offs) =
     (case slice_from img off of
        None \<Rightarrow> parse_primary_from img offs
      | Some s \<Rightarrow>
          (case sb_parse s of
             Inr sb \<Rightarrow> Inr sb
           | Inl (ErrBadMagic _ bs _ _) \<Rightarrow> Inl (SbMagicInvalid (of_nat (off + FS_MAGIC_OFF)) bs)
           | Inl _ \<Rightarrow> parse_primary_from img offs))"

definition parse_primary_sb :: "bytes \<Rightarrow> sb_error + superblock" where
  "parse_primary_sb img = parse_primary_from img [SBLOCK_UFS2, SBLOCK_UFS1]"

section \<open>Geometry\<close>

definition check_impossible_geometry ::
  "anomaly list \<Rightarrow> u64 \<Rightarrow> u64 \<Rightarrow> u64 \<Rightarrow> u64 \<Rightarrow> bool \<times> anomaly list" where
  "check_impossible_geometry out fsize fpg ncg part_len =
     (if fsize = 0 \<or> fpg = 0 \<or> ncg = 0 then (False, out)
      else
        let cg_bytes = sat_mul fpg fsize;
            last_base = sat_mul (sat_sub ncg 1) cg_bytes
        in if last_base < part_len then (False, out)
           else (True, out @ [anomaly_new (ImpossibleGeometry ''fs_ncg'' ncg
                   (if cg_bytes = 0 then 1 else part_len div cg_bytes + 1))]))"

section \<open>Cylinder groups\<close>

text \<open>\<open>as u64\<close> of a signed field is \<^const>\<open>scast\<close>.\<close>

definition backup_checks :: "superblock \<Rightarrow> superblock \<Rightarrow> (string \<times> u64 \<times> u64) list" where
  "backup_checks primary backup =
     [(''fs_ipg'', scast (sb_ipg primary), scast (sb_ipg backup)),
      (''fs_fpg'', scast (sb_fpg primary), scast (sb_fpg backup)),
      (''fs_bsize'', scast (sb_bsize primary), scast (sb_bsize backup)),
      (''fs_ncg'', ucast (sb_ncg primary), ucast (sb_ncg backup))]"

definition push_divergence :: "u32 \<Rightarrow> u64 \<Rightarrow> string \<times> u64 \<times> u64 \<Rightarrow> anomaly list \<Rightarrow> anomaly list" where
  "push_divergence cg offset chk out =
     (case chk of (field, p, b) \<Rightarrow>
        if p \<noteq> b then out @ [anomaly_new (BackupSuperblockDivergence cg field p b offset)] else out)"

definition check_backup_sb ::
  "anomaly list \<Rightarrow> bytes \<Rightarrow> superblock \<Rightarrow> u32 \<Rightarrow> u64 \<Rightarrow> anomaly list" where
  "check_backup_sb out img primary cg offset =
     (case slice_from img (unat offset) of
        None \<Rightarrow> out
      | Some s \<Rightarrow>
          (case sb_parse s of
             Inl _ \<Rightarrow> out
           | Inr backup \<Rightarrow> fold (push_divergence cg offset) (backup_checks primary backup) out))"

definition check_cg_magic :: "anomaly list \<Rightarrow> bytes \<Rightarrow> u32 \<Rightarrow> u64 \<Rightarrow> anomaly list" where
  "check_cg_magic out img cg offset =
     (case slice_from img (unat offset) of
        None \<Rightarrow> out
      | Some s \<Rightarrow>
          if length s < CG_MAGIC_OFF + 4 then out
          else
            let le = read_u32_le s CG_MAGIC_OFF;
                be = read_u32_be s CG_MAGIC_OFF
            in if le \<noteq> CG_MAGIC \<and> be \<noteq> CG_MAGIC
               then out @ [anomaly_new (CgMagicInvalid cg le offset)] else out)"

definition check_one_cg ::
  "bytes \<Rightarrow> superblock \<Rightarrow> u64 \<Rightarrow> u64 \<Rightarrow> u64 \<Rightarrow> u64 \<Rightarrow> u64 \<Rightarrow> anomaly list \<Rightarrow> anomaly list" where
  "check_one_cg img sb fsize fpg sblkno cblkno cg out =
     (let cg_base_frag = sat_mul cg fpg;
          out1 = (if cg \<ge> 1 \<and> sblkno > 0
                  then check_backup_sb out img sb (ucast cg) (sat_mul (sat_add cg_base_frag sblkno) fsize)
                  else out)
      in if cblkno > 0
         then check_cg_magic out1 img (ucast cg) (sat_mul (sat_add cg_base_frag cblkno) fsize)
         else out1)"

definition check_all_cgs ::
  "anomaly list \<Rightarrow> bytes \<Rightarrow> superblock \<Rightarrow> u64 \<Rightarrow> u64 \<Rightarrow> u64 \<Rightarrow> u64 \<Rightarrow> u64 \<Rightarrow> anomaly list" where
  "check_all_cgs out img sb fsize fpg sblkno cblkno ncg =
     (if fsize = 0 \<or> fpg = 0 then out
      else fold (check_one_cg img sb fsize fpg sblkno cblkno) (map of_nat [0..<unat ncg]) out)"

section \<open>The inode bitmap\<close>

definition cg_inode_bitmap :: "bytes \<Rightarrow> superblock \<Rightarrow> u64 \<Rightarrow> bytes option" where
  "cg_inode_bitmap img sb cg =
     (if sint (sb_fsize sb) \<le> 0 \<or> sint (sb_fpg sb) \<le> 0 \<or> sint (sb_cblkno sb) < 0 \<or> sint (sb_ipg sb) \<le> 0
      then None
      else
        let fsize = scast (sb_fsize sb); fpg = scast (sb_fpg sb); cblkno = scast (sb_cblkno sb);
            cg_off = sat_mul (sat_add (sat_mul cg fpg) cblkno) fsize
        in case slice_from img (unat cg_off) of
             None \<Rightarrow> None
           | Some header \<Rightarrow>
               (case cg_parse header (sb_endian sb) of
                  Inl _ \<Rightarrow> None
                | Inr cgh \<Rightarrow>
                    (let bmp_start = cg_inosused_off cgh;
                         nbytes = unat (div_ceil (scast (sb_ipg sb) :: u64) 8)
                     in slice_get header bmp_start (usize_sat_add bmp_start nbytes))))"

definition bitmap_bit :: "bytes \<Rightarrow> usize \<Rightarrow> bool" where
  "bitmap_bit bitmap idx =
     (let byte = idx div 8; bt = idx mod 8
      in if byte < length bitmap then drop_bit bt (bitmap ! byte) AND 1 = 1 else False)"

section \<open>The reachable inodes\<close>

abbreviation dot :: bytes where "dot \<equiv> [0x2E]"
abbreviation dotdot :: bytes where "dotdot \<equiv> [0x2E, 0x2E]"

definition is_dir_entry :: "dir_entry \<Rightarrow> bool" where
  "is_dir_entry e \<longleftrightarrow> de_file_type e = DtDirectory"

fun reach_entries :: "dir_entry list \<Rightarrow> u64 list \<Rightarrow> u64 list \<Rightarrow> u64 list \<times> u64 list" where
  "reach_entries [] queue reachable = (queue, reachable)"
| "reach_entries (e # es) queue reachable =
     (if de_deleted e \<or> de_name e = dot \<or> de_name e = dotdot then reach_entries es queue reachable
      else if de_ino e \<notin> set reachable
      then reach_entries es (if is_dir_entry e then queue @ [de_ino e] else queue) (reachable @ [de_ino e])
      else reach_entries es queue reachable)"

fun reach_loop :: "bytes \<Rightarrow> superblock \<Rightarrow> nat \<Rightarrow> u64 list \<Rightarrow> u64 list \<Rightarrow> u64 list" where
  "reach_loop img sb budget queue reachable =
     (case vec_pop queue of
        None \<Rightarrow> reachable
      | Some (dir_ino, queue') \<Rightarrow>
          if budget = 0 then reachable
          else
            (case list_dir_all img sb dir_ino of
               Inl _ \<Rightarrow> reach_loop img sb (budget - 1) queue' reachable
             | Inr entries \<Rightarrow>
                 (case reach_entries entries queue' reachable of
                    (queue'', reachable') \<Rightarrow> reach_loop img sb (budget - 1) queue'' reachable')))"

declare reach_loop.simps [simp del]

definition WALK_BUDGET :: nat where
  "WALK_BUDGET = 2 ^ 20"

definition reachable_inodes :: "bytes \<Rightarrow> superblock \<Rightarrow> u64 list" where
  "reachable_inodes img sb = reach_loop img sb WALK_BUDGET [UFS_ROOTINO] [UFS_ROOTINO]"

section \<open>Orphaned inodes\<close>

definition orphan_step ::
  "bytes \<Rightarrow> superblock \<Rightarrow> u64 list \<Rightarrow> u64 \<Rightarrow> u64 \<Rightarrow> u64 \<Rightarrow> bytes \<Rightarrow> u64 \<Rightarrow> anomaly list \<Rightarrow> anomaly list" where
  "orphan_step img sb reachable ipg ntotal cg used within out =
     (let ino = sat_add (sat_mul cg ipg) within in
      if ino < UFS_ROOTINO + 1 \<or> ino \<ge> ntotal then out
      else if \<not> bitmap_bit used (unat within) then out
      else if ino \<in> set reachable then out
      else
        (case read_inode img sb ino of
           Inl _ \<Rightarrow> out
         | Inr i \<Rightarrow>
             if i_nlink i = 0 then out
             else out @ [anomaly_new (OrphanedInode ino (i_nlink i))]))"

definition orphan_cg ::
  "bytes \<Rightarrow> superblock \<Rightarrow> u64 list \<Rightarrow> u64 \<Rightarrow> u64 \<Rightarrow> u64 \<Rightarrow> anomaly list \<Rightarrow> anomaly list" where
  "orphan_cg img sb reachable ipg ntotal cg out =
     (case cg_inode_bitmap img sb cg of
        None \<Rightarrow> out
      | Some used \<Rightarrow>
          fold (orphan_step img sb reachable ipg ntotal cg used) (map of_nat [0..<unat ipg]) out)"

definition check_orphaned_inodes :: "anomaly list \<Rightarrow> bytes \<Rightarrow> superblock \<Rightarrow> anomaly list" where
  "check_orphaned_inodes out img sb =
     (let reachable = reachable_inodes img sb in
      if sint (sb_ipg sb) > 0
      then
        let ipg = scast (sb_ipg sb);
            ncg = ucast (sb_ncg sb);
            ntotal = sat_mul ipg ncg
        in fold (orphan_cg img sb reachable ipg ntotal) (map of_nat [0..<unat ncg]) out
      else out)"

section \<open>The audit\<close>

definition audit_image :: "bytes \<Rightarrow> anomaly list" where
  "audit_image img =
     (case parse_primary_sb img of
        Inl (SbMagicInvalid offset bs) \<Rightarrow> [anomaly_new (SuperblockMagicInvalid offset bs)]
      | Inl SbNotUfs \<Rightarrow> []
      | Inr sb \<Rightarrow>
          (let fsize = (if sint (sb_fsize sb) > 0 then scast (sb_fsize sb) else 0);
               fpg = (if sint (sb_fpg sb) > 0 then scast (sb_fpg sb) else 0);
               sblkno = (if sint (sb_sblkno sb) \<ge> 0 then scast (sb_sblkno sb) else 0);
               cblkno = (if sint (sb_cblkno sb) \<ge> 0 then scast (sb_cblkno sb) else 0);
               ncg = ucast (sb_ncg sb);
               part_len = of_nat (length img)
           in case check_impossible_geometry [] fsize fpg ncg part_len of
                (True, out) \<Rightarrow> out
              | (False, out) \<Rightarrow>
                  check_orphaned_inodes (check_all_cgs out img sb fsize fpg sblkno cblkno ncg) img sb))"

definition audit_findings ::
  "(observation \<Rightarrow> report_source \<Rightarrow> 'f) \<Rightarrow> bytes \<Rightarrow> string \<Rightarrow> 'f list" where
  "audit_findings to_finding img scope =
     (let source = \<lparr> src_analyzer = ''ufs-forensic'', src_scope = scope, src_version = None \<rparr>
      in map (\<lambda>a. to_finding (anomaly_observation a) source) (audit_image img))"

section \<open>Raw readers and slices\<close>

lemma read_u32_raw:
  assumes "off + 4 \<le> usize_max"
  shows "read_u32_le d off = le_u32 d off" "read_u32_be d off = be_u32 d off"
  using assms
  by (simp_all add: read_u32_le_def read_u32_be_def le_u32_def be_u32_def read_array_def slice_get_def)

lemma slice_from_clamped:
  "valid_slice xs \<Longrightarrow> slice_from xs (min n usize_max) = slice_from xs n"
  by (auto simp: slice_from_def valid_slice_def min_def)

section \<open>The primary superblock\<close>

definition not_bad_magic :: "ufs_error + superblock \<Rightarrow> bool" where
  "not_bad_magic r \<longleftrightarrow> (case r of Inl (ErrBadMagic _ _ _ _) \<Rightarrow> False | Inl _ \<Rightarrow> True | Inr _ \<Rightarrow> False)"

text \<open>The second offset is tried only when the first has no region, or one rejected for another reason.\<close>

lemma parse_primary_from_Cons:
  "parse_primary_from img (off # offs) =
     (if length img < off then parse_primary_from img offs
      else case sb_parse (drop off img) of
          Inr sb \<Rightarrow> Inr sb
        | Inl e \<Rightarrow>
            if not_bad_magic (Inl e) then parse_primary_from img offs
            else Inl (SbMagicInvalid (of_nat (off + FS_MAGIC_OFF)) (sb_magic_bytes (drop off img))))"
proof -
  have "bs = sb_magic_bytes (drop off img)" if "sb_parse (drop off img) = Inl (ErrBadMagic o' bs le be)"
    for o' bs le be
    using that
    by (auto simp: sb_parse_def Let_def try_bind_Inl_iff sb_validate_geometry_def
        split: if_splits option.splits)
  then show ?thesis
    by (auto simp: slice_from_def not_bad_magic_def split: sum.split ufs_error.split)
qed

lemma parse_primary_sb_Inr:
  "parse_primary_sb img = Inr sb \<longleftrightarrow>
     SBLOCK_UFS2 \<le> length img \<and> sb_parse (drop SBLOCK_UFS2 img) = Inr sb
     \<or> (length img < SBLOCK_UFS2 \<or> not_bad_magic (sb_parse (drop SBLOCK_UFS2 img)))
       \<and> SBLOCK_UFS1 \<le> length img \<and> sb_parse (drop SBLOCK_UFS1 img) = Inr sb"
  unfolding parse_primary_sb_def parse_primary_from_Cons
  by (auto simp: not_bad_magic_def split: sum.splits ufs_error.splits)

lemma parse_primary_sb_wf: "parse_primary_sb img = Inr sb \<Longrightarrow> wf_superblock sb"
  by (auto simp: parse_primary_sb_Inr intro: sb_parse_wf)

lemma sb_parse_bad_magic_iff:
  "(\<exists>o' bs le be. sb_parse d = Inl (ErrBadMagic o' bs le be)) \<longleftrightarrow>
     SB_MIN_LEN \<le> length d \<and> (\<forall>e v. sb_magic_bytes d \<noteq> endian_bytes e (magic_of v))"
proof -
  have "sb_detect (from_le (sb_magic_bytes d)) (from_be (sb_magic_bytes d)) = None
      \<longleftrightarrow> (\<forall>e v. sb_magic_bytes d \<noteq> endian_bytes e (magic_of v))"
    using sb_detect_magic [of d] by (metis not_None_eq surj_pair)
  then show ?thesis
    by (auto simp: sb_parse_def Let_def try_bind_Inl_iff sb_validate_geometry_def
        split: if_splits option.splits)
qed

section \<open>Geometry in exact arithmetic\<close>

text \<open>The byte of fragment \<open>blk\<close> of group \<open>c\<close>, and what the geometry guard demands.\<close>

definition cg_bytes :: "superblock \<Rightarrow> nat" where
  "cg_bytes sb = nat_i32 (sb_fpg sb) * nat_i32 (sb_fsize sb)"

definition frag_off :: "superblock \<Rightarrow> nat \<Rightarrow> i32 \<Rightarrow> nat" where
  "frag_off sb c blk = (c * nat_i32 (sb_fpg sb) + nat_i32 blk) * nat_i32 (sb_fsize sb)"

definition geometry_beyond :: "bytes \<Rightarrow> superblock \<Rightarrow> bool" where
  "geometry_beyond img sb \<longleftrightarrow> 0 < cg_bytes sb \<and> 0 < unat (sb_ncg sb)
     \<and> length img \<le> (unat (sb_ncg sb) - 1) * cg_bytes sb"

lemma nat_i32_less: "nat_i32 w < 2 ^ 31"
  using sint_le_i32 [of w] by (simp add: nat_i32_def)

lemma i32_max0_alt:
  "(if sint w > 0 then scast w else 0) = i32_max0 w" "(if sint w \<ge> 0 then scast w else 0) = i32_max0 w"
proof -
  have "(scast w :: u64) = 0" if "sint w = 0"
    using that unfolding scast_eq by simp
  then show "(if sint w > 0 then scast w else 0) = i32_max0 w"
    by (auto simp: i32_max0_def)
  show "(if sint w \<ge> 0 then scast w else 0) = i32_max0 w" by (auto simp: i32_max0_def)
qed

lemma i32_max0_0: "i32_max0 w = 0 \<longleftrightarrow> nat_i32 w = 0"
  by (metis i32_max0_unat unat_eq_zero)

lemma cg_bytes_less: "cg_bytes sb < 2 ^ 62"
proof -
  have "cg_bytes sb \<le> (2 ^ 31 - 1) * (2 ^ 31 - 1)"
    unfolding cg_bytes_def using nat_i32_less [of "sb_fpg sb"] nat_i32_less [of "sb_fsize sb"]
    by (intro mult_le_mono) simp_all
  then show ?thesis by simp
qed

lemma unat_cg_bytes: "unat (sat_mul (i32_max0 (sb_fpg sb)) (i32_max0 (sb_fsize sb))) = cg_bytes sb"
  using cg_bytes_less [of sb] by (simp add: sat_simps i32_max0_unat cg_bytes_def)

lemma check_impossible_geometry_exact:
  assumes "valid_slice img"
  shows "check_impossible_geometry [] (i32_max0 (sb_fsize sb)) (i32_max0 (sb_fpg sb))
      (ucast (sb_ncg sb)) (of_nat (length img)) =
    (if geometry_beyond img sb
     then (True, [anomaly_new (ImpossibleGeometry ''fs_ncg'' (ucast (sb_ncg sb))
                    (of_nat (length img div cg_bytes sb + 1)))])
     else (False, []))"
proof -
  let ?fs = "i32_max0 (sb_fsize sb)" and ?fp = "i32_max0 (sb_fpg sb)" and ?n = "ucast (sb_ncg sb) :: u64"
  let ?len = "of_nat (length img) :: u64"
  have ul: "unat ?len = length img" using assms by (simp add: valid_slice_def unat_of_nat)
  have z: "?fs = 0 \<or> ?fp = 0 \<or> ?n = 0 \<longleftrightarrow> cg_bytes sb = 0 \<or> unat (sb_ncg sb) = 0"
    by (auto simp: i32_max0_0 cg_bytes_def ucast_32_64_eq_0 unat_eq_zero)
  have last: "unat (sat_mul (sat_sub ?n 1) (sat_mul ?fp ?fs)) = min ((unat (sb_ncg sb) - 1) * cg_bytes sb) usize_max"
    unfolding unat_sat_mul [of "sat_sub ?n 1"] unat_cg_bytes by (simp add: unat_sat_sub)
  have lt: "sat_mul (sat_sub ?n 1) (sat_mul ?fp ?fs) < ?len
      \<longleftrightarrow> (unat (sb_ncg sb) - 1) * cg_bytes sb < length img"
    using assms by (auto simp: word_less_nat_alt last ul valid_slice_def min_def)
  have lim: "?len div sat_mul ?fp ?fs + 1 = of_nat (length img div cg_bytes sb + 1)"
    using of_nat_unat_div [of ?len "sat_mul ?fp ?fs"] by (simp only: ul unat_cg_bytes of_nat_add of_nat_1)
  have nz: "sat_mul ?fp ?fs = 0 \<longleftrightarrow> cg_bytes sb = 0"
    by (simp only: unat_cg_bytes flip: unat_eq_zero)
  show ?thesis
    unfolding check_impossible_geometry_def Let_def
    using z by (auto simp: geometry_beyond_def lt lim nz not_less)
qed

section \<open>The checks of a cylinder group\<close>

definition divergences :: "bytes \<Rightarrow> superblock \<Rightarrow> nat \<Rightarrow> anomaly list" where
  "divergences img sb c =
     (let off = frag_off sb c (sb_sblkno sb) in
      if 1 \<le> c \<and> 0 < sint (sb_sblkno sb) \<and> off \<le> length img
      then (case sb_parse (drop off img) of
              Inl _ \<Rightarrow> []
            | Inr backup \<Rightarrow>
                [anomaly_new (BackupSuperblockDivergence (of_nat c) f p b (of_nat off)).
                   (f, p, b) \<leftarrow> backup_checks sb backup, p \<noteq> b])
      else [])"

definition bad_cg_magic :: "bytes \<Rightarrow> superblock \<Rightarrow> nat \<Rightarrow> anomaly list" where
  "bad_cg_magic img sb c =
     (let off = frag_off sb c (sb_cblkno sb) in
      if 0 < sint (sb_cblkno sb) \<and> off + 8 \<le> length img
         \<and> take 4 (drop (off + 4) img) \<noteq> endian_bytes Little CG_MAGIC
         \<and> take 4 (drop (off + 4) img) \<noteq> endian_bytes Big CG_MAGIC
      then [anomaly_new (CgMagicInvalid (of_nat c) (le_u32 img (off + 4)) (of_nat off))]
      else [])"

interpretation diverge: push_loop "push_divergence cg off"
  "\<lambda>(f, p, b). if p \<noteq> b then [anomaly_new (BackupSuperblockDivergence cg f p b off)] else []" for cg off
  by unfold_locales (simp add: push_divergence_def split: prod.split)

lemma check_backup_sb_push:
  "check_backup_sb out img sb cg off =
     out @ (case slice_from img (unat off) of
        None \<Rightarrow> []
      | Some s \<Rightarrow> (case sb_parse s of Inl _ \<Rightarrow> []
          | Inr backup \<Rightarrow> [anomaly_new (BackupSuperblockDivergence cg f p b off).
                            (f, p, b) \<leftarrow> backup_checks sb backup, p \<noteq> b]))"
  by (simp add: check_backup_sb_def diverge.fold_push split_beta' cong: if_cong
      split: option.split sum.split)

lemma cg_magic_le_be:
  assumes "8 \<le> length s"
  shows "read_u32_le s CG_MAGIC_OFF = CG_MAGIC \<longleftrightarrow> take 4 (drop 4 s) = endian_bytes Little CG_MAGIC"
    and "read_u32_be s CG_MAGIC_OFF = CG_MAGIC \<longleftrightarrow> take 4 (drop 4 s) = endian_bytes Big CG_MAGIC"
  using assms from_le_eq_iff [of "take 4 (drop 4 s)" CG_MAGIC] from_be_eq_iff [of "take 4 (drop 4 s)" CG_MAGIC]
  by (simp_all add: read_u32_raw le_u32_def be_u32_def read_array_in CG_MAGIC_OFF_def endian_bytes_def)

lemma check_cg_magic_push:
  "check_cg_magic out img cg off =
     out @ (case slice_from img (unat off) of
        None \<Rightarrow> []
      | Some s \<Rightarrow>
          if 8 \<le> length s \<and> take 4 (drop 4 s) \<noteq> endian_bytes Little CG_MAGIC
             \<and> take 4 (drop 4 s) \<noteq> endian_bytes Big CG_MAGIC
          then [anomaly_new (CgMagicInvalid cg (le_u32 s 4) off)] else [])"
proof (cases "slice_from img (unat off)")
  case (Some s)
  have le: "read_u32_le s CG_MAGIC_OFF = le_u32 s 4" by (simp add: read_u32_raw CG_MAGIC_OFF_def)
  show ?thesis
  proof (cases "8 \<le> length s")
    case True
    show ?thesis
      using Some True cg_magic_le_be [OF True] le
      by (simp add: check_cg_magic_def Let_def) (simp add: CG_MAGIC_OFF_def)
  next
    case False
    then show ?thesis using Some by (simp add: check_cg_magic_def CG_MAGIC_OFF_def)
  qed
qed (simp add: check_cg_magic_def)

lemma unat_cg_word:
  assumes "0 < nat_i32 (sb_fsize sb)" and "c < 2 ^ 64"
  shows "unat (sat_mul (sat_add (sat_mul (of_nat c) (i32_max0 (sb_fpg sb))) (i32_max0 blk)) (i32_max0 (sb_fsize sb)))
    = min (frag_off sb c blk) usize_max"
proof -
  have "unat (of_nat c :: u64) = c" using assms(2) by (simp add: unat_of_nat)
  then show ?thesis
    using assms(1) by (simp add: sat_simps i32_max0_unat frag_off_def min_add_min min_mult_min)
qed

text \<open>A group's findings in exact arithmetic: no offset that is used was saturated.\<close>

lemma check_one_cg_exact:
  assumes part: "valid_slice img" and fs: "0 < nat_i32 (sb_fsize sb)" and c: "c < 2 ^ 32"
  shows "check_one_cg img sb (i32_max0 (sb_fsize sb)) (i32_max0 (sb_fpg sb)) (i32_max0 (sb_sblkno sb))
      (i32_max0 (sb_cblkno sb)) (of_nat c) out = out @ divergences img sb c @ bad_cg_magic img sb c"
proof -
  let ?w = "\<lambda>blk. sat_mul (sat_add (sat_mul (of_nat c) (i32_max0 (sb_fpg sb))) (i32_max0 blk)) (i32_max0 (sb_fsize sb))"
  have len: "length img \<le> isize_max" using part by (simp add: valid_slice_def)
  have u: "unat (?w blk) = min (frag_off sb c blk) usize_max" for blk
    using c by (intro unat_cg_word fs) simp
  have sf: "slice_from img (unat (?w blk)) = slice_from img (frag_off sb c blk)" for blk
    unfolding u by (rule slice_from_clamped [OF part])
  have w: "?w blk = of_nat (frag_off sb c blk)" if "frag_off sb c blk \<le> length img" for blk
  proof -
    have "unat (?w blk) = frag_off sb c blk" using that len by (simp add: u)
    then show ?thesis by (metis of_nat_unat_word)
  qed
  have "unat (ucast (of_nat c :: u64) :: u32) = c"
    using c by (simp add: unsigned_ucast_eq unat_of_nat take_bit_nat_eq_self)
  then have cw: "ucast (of_nat c :: u64) = (of_nat c :: u32)" by (metis of_nat_unat_word)
  have c1: "(of_nat c :: u64) \<ge> 1 \<longleftrightarrow> 1 \<le> c"
    using c by (simp add: word_le_nat_alt unat_of_nat)
  have pos: "i32_max0 x > 0 \<longleftrightarrow> 0 < sint x" for x
    by (simp add: word_less_nat_alt i32_max0_unat nat_i32_def)
  have win: "le_u32 (drop off img) 4 = le_u32 img (off + 4)" if "off \<le> length img" for off
    using that len by (intro le32.rd_drop) simp_all
  have get: "slice_from img (unat (?w blk)) =
      (if frag_off sb c blk \<le> length img then Some (drop (frag_off sb c blk) img) else None)" for blk
    unfolding sf by (simp add: slice_from_def)
  have A: "(if (of_nat c :: u64) \<ge> 1 \<and> i32_max0 (sb_sblkno sb) > 0
      then check_backup_sb out img sb (ucast (of_nat c :: u64)) (?w (sb_sblkno sb)) else out)
    = out @ divergences img sb c"
  proof (cases "frag_off sb c (sb_sblkno sb) \<le> length img")
    case True
    show ?thesis
      unfolding check_backup_sb_push get c1 pos cw divergences_def Let_def
      unfolding w [OF True] using True by simp
  next
    case False
    then show ?thesis
      unfolding check_backup_sb_push get c1 pos cw divergences_def Let_def by simp
  qed
  have B: "(if i32_max0 (sb_cblkno sb) > 0
      then check_cg_magic o' img (ucast (of_nat c :: u64)) (?w (sb_cblkno sb)) else o')
    = o' @ bad_cg_magic img sb c" for o'
    unfolding check_cg_magic_push get pos cw bad_cg_magic_def Let_def
    by (cases "frag_off sb c (sb_cblkno sb) \<le> length img")
      (auto simp add: w win add.commute [of _ 4] le_diff_conv2)
  show ?thesis unfolding check_one_cg_def Let_def A B by simp
qed

lemma check_all_cgs_exact:
  assumes "valid_slice img" and "0 < nat_i32 (sb_fsize sb)"
  shows "check_all_cgs out img sb (i32_max0 (sb_fsize sb)) (i32_max0 (sb_fpg sb)) (i32_max0 (sb_sblkno sb))
      (i32_max0 (sb_cblkno sb)) (ucast (sb_ncg sb)) =
    out @ (if sint (sb_fpg sb) \<le> 0 then []
           else concat (map (\<lambda>c. divergences img sb c @ bad_cg_magic img sb c) [0..<unat (sb_ncg sb)]))"
proof -
  let ?step = "\<lambda>c. check_one_cg img sb (i32_max0 (sb_fsize sb)) (i32_max0 (sb_fpg sb))
      (i32_max0 (sb_sblkno sb)) (i32_max0 (sb_cblkno sb)) (of_nat c)"
  have "fold ?step [0..<n] out = out @ concat (map (\<lambda>c. divergences img sb c @ bad_cg_magic img sb c) [0..<n])"
    if "n \<le> unat (sb_ncg sb)" for n
    using that
  proof (induction n)
    case (Suc n)
    then have "n < 2 ^ 32" using unat_lt [of "sb_ncg sb"] by simp
    from check_one_cg_exact [OF assms this] Suc show ?case by simp
  qed simp
  from this [of "unat (sb_ncg sb)"] show ?thesis
    using assms(2) by (simp add: check_all_cgs_def i32_max0_0 nat_i32_def fold_map comp_def)
qed

section \<open>The inode bitmap\<close>

lemma bitmap_bit_iff: "bitmap_bit bm i \<longleftrightarrow> i < 8 * length bm \<and> bit (bm ! (i div 8)) (i mod 8)"
proof -
  have "i div 8 < length bm \<longleftrightarrow> i < 8 * length bm" by auto
  moreover have "drop_bit k w AND 1 = (1 :: u8) \<longleftrightarrow> bit w k" for k and w :: u8
    by (simp add: and_one_eq mod_2_eq_odd bit_iff_odd_drop_bit)
  ultimately show ?thesis by (simp add: bitmap_bit_def Let_def)
qed

lemma cg_inode_bitmap_Some:
  assumes "valid_slice img" and "cg_inode_bitmap img sb cg = Some used"
  shows "length used = (nat_i32 (sb_ipg sb) + 7) div 8" "inode_geometry_ok sb \<or> sint (sb_iblkno sb) < 0"
proof -
  have ipg: "0 < sint (sb_ipg sb)" "0 < sint (sb_fpg sb)" "0 < sint (sb_fsize sb)"
    using assms(2) by (auto simp: cg_inode_bitmap_def split: if_splits)
  have "unat (div_ceil (scast (sb_ipg sb) :: u64) 8) = (unat (scast (sb_ipg sb) :: u64) + unat (8 :: u64) - 1) div unat (8 :: u64)"
    by (rule unat_div_ceil) simp
  also have "\<dots> = (nat_i32 (sb_ipg sb) + 7) div 8"
    using ipg(1) by (simp add: unat_scast_i32 nat_i32_def)
  finally have n: "unat (div_ceil (scast (sb_ipg sb) :: u64) 8) = (nat_i32 (sb_ipg sb) + 7) div 8" .
  obtain header cgh where
    got: "slice_get header (cg_inosused_off cgh) (usize_sat_add (cg_inosused_off cgh) ((nat_i32 (sb_ipg sb) + 7) div 8)) = Some used"
    using assms(2) by (auto simp: cg_inode_bitmap_def Let_def n split: if_splits option.splits sum.splits)
  have "cg_inosused_off cgh < 2 ^ 32" using unat_lt [of "cg_iusedoff cgh"] by (simp add: cg_inosused_off_def)
  moreover have "(nat_i32 (sb_ipg sb) + 7) div 8 < 2 ^ 31" using nat_i32_less [of "sb_ipg sb"] by simp
  ultimately show "length used = (nat_i32 (sb_ipg sb) + 7) div 8"
    using slice_get_length [OF got] by simp
  show "inode_geometry_ok sb \<or> sint (sb_iblkno sb) < 0"
    using ipg by (auto simp: inode_geometry_ok_def)
qed

section \<open>The reachable inodes\<close>

definition live_link :: "dir_entry \<Rightarrow> bool" where
  "live_link e \<longleftrightarrow> \<not> de_deleted e \<and> de_name e \<noteq> dot \<and> de_name e \<noteq> dotdot"

text \<open>The directory graph of an image: the live entries of a directory, the dot entries left out.\<close>

definition image_edges :: "bytes \<Rightarrow> superblock \<Rightarrow> u64 \<Rightarrow> (u64 \<times> bool) list" where
  "image_edges img sb d =
     (case list_dir_all img sb d of
        Inl _ \<Rightarrow> []
      | Inr es \<Rightarrow> map (\<lambda>e. (de_ino e, is_dir_entry e)) (filter live_link es))"

lemma reach_entries_scan:
  "reach_entries es q r = scan_edges (map (\<lambda>e. (de_ino e, is_dir_entry e)) (filter live_link es)) q r"
  by (induction es q r rule: reach_entries.induct) (auto simp: live_link_def)

interpretation reach: marking_walk "reach_loop img sb" "\<lambda>d q r. scan_edges (image_edges img sb d) q r"
  "image_edges img sb" for img sb
proof unfold_locales
  show "reach_loop img sb b q acc = (case vec_pop q of None \<Rightarrow> acc
    | Some (d, q') \<Rightarrow> if b = 0 then acc
        else case scan_edges (image_edges img sb d) q' acc of (q'', acc') \<Rightarrow> reach_loop img sb (b - 1) q'' acc')"
    for b q acc
    by (subst reach_loop.simps)
      (auto simp: image_edges_def reach_entries_scan split: option.split sum.split)
qed simp

text \<open>What the tree of an image links to, and when the walk finds all of it.\<close>

definition image_dirs :: "bytes \<Rightarrow> superblock \<Rightarrow> u64 set" where
  "image_dirs img sb = dir_closure (image_edges img sb) UFS_ROOTINO"

definition image_links :: "bytes \<Rightarrow> superblock \<Rightarrow> u64 set" where
  "image_links img sb = link_closure (image_edges img sb) UFS_ROOTINO"

lemma reachable_inodes_sound:
  "distinct (reachable_inodes img sb)" "UFS_ROOTINO \<in> set (reachable_inodes img sb)"
  "set (reachable_inodes img sb) \<subseteq> image_links img sb"
  using reach.marks_sound [of img sb WALK_BUDGET UFS_ROOTINO]
  by (auto simp: reachable_inodes_def image_links_def)

lemma reachable_inodes_complete:
  assumes "types_agree (image_edges img sb) UFS_ROOTINO" and "card (image_dirs img sb) \<le> WALK_BUDGET"
  shows "set (reachable_inodes img sb) = image_links img sb"
  unfolding reachable_inodes_def image_links_def
  using assms by (intro reach.marks_complete) (simp_all add: image_dirs_def)

section \<open>Orphaned inodes\<close>

definition inode_allocated :: "bytes \<Rightarrow> superblock \<Rightarrow> nat \<Rightarrow> bool" where
  "inode_allocated img sb n \<longleftrightarrow>
     (case cg_inode_bitmap img sb (of_nat (n div nat_i32 (sb_ipg sb))) of
        None \<Rightarrow> False
      | Some used \<Rightarrow> bitmap_bit used (n mod nat_i32 (sb_ipg sb)))"

definition orphan_emit :: "bytes \<Rightarrow> superblock \<Rightarrow> nat \<Rightarrow> anomaly list" where
  "orphan_emit img sb n =
     (if 3 \<le> n \<and> inode_allocated img sb n \<and> of_nat n \<notin> set (reachable_inodes img sb)
      then (case read_inode img sb (of_nat n) of
              Inl _ \<Rightarrow> []
            | Inr i \<Rightarrow> if i_nlink i = 0 then [] else [anomaly_new (OrphanedInode (of_nat n) (i_nlink i))])
      else [])"

text \<open>The absolute inode number of a slot, computed without saturation.\<close>

lemma slot_number:
  assumes "c < unat (ncg :: u32)" and "w < nat_i32 ipg"
  shows "sat_add (sat_mul (of_nat c) (i32_max0 ipg)) (of_nat w) = (of_nat (c * nat_i32 ipg + w) :: u64)"
    and "c * nat_i32 ipg + w < 2 ^ 63"
proof -
  have "(c + 1) * nat_i32 ipg \<le> 2 ^ 32 * 2 ^ 31"
    using assms(1) unat_lt [of ncg] nat_i32_less [of ipg] by (intro mult_le_mono) simp_all
  then show lt: "c * nat_i32 ipg + w < 2 ^ 63" using assms(2) by simp
  have cw: "unat (of_nat c :: u64) = c" "unat (of_nat w :: u64) = w"
    using assms unat_lt [of ncg] nat_i32_less [of ipg] by (simp_all add: unat_of_nat)
  have "unat (sat_add (sat_mul (of_nat c) (i32_max0 ipg)) (of_nat w) :: u64) = c * nat_i32 ipg + w"
    using lt by (simp add: sat_simps cw i32_max0_unat)
  then show "sat_add (sat_mul (of_nat c) (i32_max0 ipg)) (of_nat w) = (of_nat (c * nat_i32 ipg + w) :: u64)"
    by (metis of_nat_unat_word)
qed

lemma slot_in_range:
  assumes "c < unat (sb_ncg sb)" and "w < nat_i32 (sb_ipg sb)"
  shows "c * nat_i32 (sb_ipg sb) + w < inode_count sb"
proof -
  have "c * nat_i32 (sb_ipg sb) + w < (c + 1) * nat_i32 (sb_ipg sb)" using assms(2) by simp
  also have "\<dots> \<le> inode_count sb"
    unfolding inode_count_def mult.commute [of "nat_i32 _"] using assms(1) by (intro mult_le_mono1) simp
  finally show ?thesis .
qed

lemma slot_guard:
  assumes "n < inode_count sb"
  shows "(of_nat n :: u64) < UFS_ROOTINO + 1 \<or> (of_nat n :: u64) \<ge> sat_mul (i32_max0 (sb_ipg sb)) (ucast (sb_ncg sb))
    \<longleftrightarrow> n < 3"
proof -
  have "inode_count sb \<le> 2 ^ 31 * 2 ^ 32"
    unfolding inode_count_def using nat_i32_less [of "sb_ipg sb"] unat_lt [of "sb_ncg sb"]
    by (intro mult_le_mono) simp_all
  then have "unat (of_nat n :: u64) = n" "unat (sat_mul (i32_max0 (sb_ipg sb)) (ucast (sb_ncg sb)) :: u64) = inode_count sb"
    using assms by (simp_all add: unat_of_nat sat_simps i32_max0_unat inode_count_def)
  then show ?thesis using assms by (simp add: word_less_nat_alt word_le_nat_alt UFS_ROOTINO_def)
qed

lemma orphan_step_push:
  "orphan_step img sb r ipg ntotal cg used within out = out @ orphan_step img sb r ipg ntotal cg used within []"
  by (auto simp: orphan_step_def Let_def split: sum.split)

interpretation orphan_slot: push_loop "orphan_step img sb r ipg ntotal cg used"
  "\<lambda>within. orphan_step img sb r ipg ntotal cg used within []" for img sb r ipg ntotal cg used
  by unfold_locales (rule orphan_step_push)

lemma orphan_step_emit:
  assumes "c < unat (sb_ncg sb)" and "w < nat_i32 (sb_ipg sb)"
    and "cg_inode_bitmap img sb (of_nat c) = Some used"
  shows "orphan_step img sb (reachable_inodes img sb) (i32_max0 (sb_ipg sb))
      (sat_mul (i32_max0 (sb_ipg sb)) (ucast (sb_ncg sb))) (of_nat c) used (of_nat w) []
    = orphan_emit img sb (c * nat_i32 (sb_ipg sb) + w)"
proof -
  let ?n = "c * nat_i32 (sb_ipg sb) + w"
  have ino: "sat_add (sat_mul (of_nat c) (i32_max0 (sb_ipg sb))) (of_nat w) = (of_nat ?n :: u64)"
    by (rule slot_number [OF assms(1,2)])
  have n: "?n < inode_count sb" by (rule slot_in_range [OF assms(1,2)])
  have w: "unat (of_nat w :: u64) = w" using assms(2) nat_i32_less [of "sb_ipg sb"] by (simp add: unat_of_nat)
  have dm: "?n div nat_i32 (sb_ipg sb) = c" "?n mod nat_i32 (sb_ipg sb) = w" using assms(2) by simp_all
  have al: "inode_allocated img sb ?n \<longleftrightarrow> bitmap_bit used w"
    unfolding inode_allocated_def dm by (simp add: assms(3))
  show ?thesis
    unfolding orphan_step_def Let_def ino slot_guard [OF n] w orphan_emit_def al
    by (auto split: sum.split)
qed

interpretation orphans: group_sweep
  "\<lambda>c. orphan_cg img sb (reachable_inodes img sb) (i32_max0 (sb_ipg sb))
     (sat_mul (i32_max0 (sb_ipg sb)) (ucast (sb_ncg sb))) (of_nat c)"
  "orphan_emit img sb" "nat_i32 (sb_ipg sb)" "unat (sb_ncg sb)" for img sb
proof unfold_locales
  fix c and out :: "anomaly list"
  assume c: "c < unat (sb_ncg sb)"
  show "orphan_cg img sb (reachable_inodes img sb) (i32_max0 (sb_ipg sb))
      (sat_mul (i32_max0 (sb_ipg sb)) (ucast (sb_ncg sb))) (of_nat c) out
    = out @ concat (map (\<lambda>w. orphan_emit img sb (c * nat_i32 (sb_ipg sb) + w)) [0..<nat_i32 (sb_ipg sb)])"
  proof (cases "cg_inode_bitmap img sb (of_nat c)")
    case None
    have "orphan_emit img sb (c * nat_i32 (sb_ipg sb) + w) = []" if "w < nat_i32 (sb_ipg sb)" for w
    proof -
      have "(c * nat_i32 (sb_ipg sb) + w) div nat_i32 (sb_ipg sb) = c" using that by simp
      then show ?thesis using None by (simp add: orphan_emit_def inode_allocated_def)
    qed
    then show ?thesis using None by (simp add: orphan_cg_def)
  next
    case (Some used)
    have "map (\<lambda>w. orphan_step img sb (reachable_inodes img sb) (i32_max0 (sb_ipg sb))
        (sat_mul (i32_max0 (sb_ipg sb)) (ucast (sb_ncg sb))) (of_nat c) used (of_nat w) []) [0..<nat_i32 (sb_ipg sb)]
      = map (\<lambda>w. orphan_emit img sb (c * nat_i32 (sb_ipg sb) + w)) [0..<nat_i32 (sb_ipg sb)]"
      by (rule map_cong) (simp_all add: orphan_step_emit [OF c _ Some])
    from arg_cong [OF this, of concat] show ?thesis
      using Some by (simp add: orphan_cg_def orphan_slot.fold_push i32_max0_unat comp_def)
  qed
qed

lemma check_orphaned_inodes_exact:
  "check_orphaned_inodes out img sb = out @ concat (map (orphan_emit img sb) [0..<inode_count sb])"
proof (cases "sint (sb_ipg sb) > 0")
  case True
  then have "scast (sb_ipg sb) = i32_max0 (sb_ipg sb)" by (simp add: i32_max0_def)
  then show ?thesis
    using True orphans.fold_groups [of img sb out]
    by (simp add: check_orphaned_inodes_def Let_def fold_map comp_def inode_count_def)
next
  case False
  then have "inode_count sb = 0" by (simp add: inode_count_def nat_i32_def)
  then show ?thesis using False by (simp add: check_orphaned_inodes_def)
qed

section \<open>The audit in exact arithmetic\<close>

lemma audit_image_exact:
  assumes "valid_slice img" and "parse_primary_sb img = Inr sb"
  shows "audit_image img =
    (if geometry_beyond img sb
     then [anomaly_new (ImpossibleGeometry ''fs_ncg'' (ucast (sb_ncg sb))
             (of_nat (length img div cg_bytes sb + 1)))]
     else (if sint (sb_fpg sb) \<le> 0 then []
           else concat (map (\<lambda>c. divergences img sb c @ bad_cg_magic img sb c) [0..<unat (sb_ncg sb)]))
          @ concat (map (orphan_emit img sb) [0..<inode_count sb]))"
proof -
  have "0 < nat_i32 (sb_fsize sb)"
    using parse_primary_sb_wf [OF assms(2)] by (simp add: wf_superblock_def wf_geometry_def nat_i32_def)
  then show ?thesis
    using assms(2) check_impossible_geometry_exact [OF assms(1), of sb] check_all_cgs_exact [OF assms(1), of sb]
    by (simp add: audit_image_def i32_max0_alt Let_def check_orphaned_inodes_exact)
qed

end
