(* ===== verification/Utf8.thy ===== *)
theory Utf8
  imports UfsBytes
begin

text \<open>
  Names as the analyzer shows them: the standard library's lossy decoding of bytes to UTF-8, with one
  replacement character for each maximal ill-formed prefix, and what well-formed text is: the
  encodings of a sequence of Unicode scalar values.
\<close>

unbundle bit_operations_syntax

section \<open>Lossy decoding\<close>

definition is_cont :: "u8 \<Rightarrow> bool" where
  "is_cont b \<longleftrightarrow> b AND 0xC0 = 0x80"

definition in_range :: "u8 \<Rightarrow> u8 \<Rightarrow> u8 \<Rightarrow> bool" where
  "in_range b lo hi \<longleftrightarrow> lo \<le> b \<and> b \<le> hi"

definition second_of_3 :: "u8 \<Rightarrow> u8 \<Rightarrow> bool" where
  "second_of_3 a b \<longleftrightarrow>
     a = 0xE0 \<and> in_range b 0xA0 0xBF \<or> in_range a 0xE1 0xEC \<and> in_range b 0x80 0xBF
     \<or> a = 0xED \<and> in_range b 0x80 0x9F \<or> in_range a 0xEE 0xEF \<and> in_range b 0x80 0xBF"

definition second_of_4 :: "u8 \<Rightarrow> u8 \<Rightarrow> bool" where
  "second_of_4 a b \<longleftrightarrow>
     a = 0xF0 \<and> in_range b 0x90 0xBF \<or> in_range a 0xF1 0xF3 \<and> in_range b 0x80 0xBF
     \<or> a = 0xF4 \<and> in_range b 0x80 0x8F"

text \<open>
  One step of the UTF-8 scan: whether a scalar value is encoded at the start, and how many bytes it
  or the ill-formed prefix takes. Bytes past the end read as \<open>0\<close>.
\<close>

definition utf8_step :: "bytes \<Rightarrow> bool \<times> nat" where
  "utf8_step bs =
     (let a = u8_at bs 0; b = u8_at bs 1; c = u8_at bs 2; d = u8_at bs 3 in
      if a < 0x80 then (True, 1)
      else if in_range a 0xC2 0xDF then (if is_cont b then (True, 2) else (False, 1))
      else if in_range a 0xE0 0xEF
      then (if \<not> second_of_3 a b then (False, 1) else if \<not> is_cont c then (False, 2) else (True, 3))
      else if in_range a 0xF0 0xF4
      then (if \<not> second_of_4 a b then (False, 1) else if \<not> is_cont c then (False, 2)
            else if \<not> is_cont d then (False, 3) else (True, 4))
      else (False, 1))"

abbreviation replacement_char :: bytes where
  "replacement_char \<equiv> [0xEF, 0xBF, 0xBD]"

lemma utf8_step_pos: "0 < snd (utf8_step bs)"
  by (simp add: utf8_step_def Let_def)

function from_utf8_lossy :: "bytes \<Rightarrow> bytes" where
  "from_utf8_lossy bs =
     (if bs = [] then []
      else (case utf8_step bs of
              (ok, n) \<Rightarrow> (if ok then take n bs else replacement_char) @ from_utf8_lossy (drop n bs)))"
  by pat_completeness auto
termination
  by (relation "measure length") (auto dest: arg_cong [where f = snd] simp: utf8_step_pos)

declare from_utf8_lossy.simps [simp del]

section \<open>Well-formed text\<close>

function utf8_valid :: "bytes \<Rightarrow> bool" where
  "utf8_valid bs \<longleftrightarrow>
     (if bs = [] then True else fst (utf8_step bs) \<and> utf8_valid (drop (snd (utf8_step bs)) bs))"
  by pat_completeness auto
termination
  by (relation "measure length") (auto simp: utf8_step_pos)

declare utf8_valid.simps [simp del]

lemma lossy_Nil [simp]: "from_utf8_lossy [] = []"
  by (simp add: from_utf8_lossy.simps)

lemma utf8_valid_Nil [simp]: "utf8_valid []"
  by (simp add: utf8_valid.simps)

text \<open>A complete encoding lies within the buffer, and is recognised whatever follows it.\<close>

lemma utf8_step_ok:
  assumes "utf8_step bs = (True, n)" and "bs \<noteq> []"
  shows "n \<le> length bs" "utf8_step (take n bs @ rest) = (True, n)"
proof -
  have z: "\<not> is_cont 0" "\<not> second_of_3 x 0" "\<not> second_of_4 x 0" for x
    by (simp_all add: is_cont_def second_of_3_def second_of_4_def in_range_def)
  have l: "u8_at bs k \<noteq> 0 \<Longrightarrow> k < length bs" for k by (auto simp: u8_at_def split: if_splits)
  have c: "is_cont (u8_at bs k) \<Longrightarrow> k < length bs" "second_of_3 x (u8_at bs k) \<Longrightarrow> k < length bs"
    "second_of_4 x (u8_at bs k) \<Longrightarrow> k < length bs" for k x
    using l [of k] z by metis+
  show n: "n \<le> length bs"
    using assms c(1) [of 1] c(1) [of 2] c(1) [of 3]
    by (auto simp: utf8_step_def Let_def Suc_le_eq split: if_splits)
  have same: "u8_at (take n bs @ rest) k = u8_at bs k" if "k < n" for k
    using that n by (simp add: u8_at_def nth_append)
  show "utf8_step (take n bs @ rest) = (True, n)"
    using assms(1) same [of 0] same [of 1] same [of 2] same [of 3]
    by (auto simp: utf8_step_def Let_def split: if_splits)
qed

lemma utf8_valid_append_step:
  "utf8_step bs = (True, n) \<Longrightarrow> bs \<noteq> [] \<Longrightarrow> utf8_valid rest \<Longrightarrow> utf8_valid (take n bs @ rest)"
  using utf8_step_ok [of bs n] by (subst utf8_valid.simps) simp

lemma lossy_valid: "utf8_valid (from_utf8_lossy bs)"
proof (induction bs rule: from_utf8_lossy.induct)
  case (1 bs)
  have rep: "utf8_step (replacement_char @ rest) = (True, 3)" for rest
    by (simp add: utf8_step_def u8_at_def Let_def in_range_def second_of_3_def is_cont_def)
  show ?case
  proof (cases "bs = []")
    case False
    obtain ok n where st: "utf8_step bs = (ok, n)" by (cases "utf8_step bs")
    have "utf8_valid (from_utf8_lossy (drop n bs))" using 1 [OF False] st by simp
    moreover have "utf8_valid (replacement_char @ r)" if "utf8_valid r" for r
      using that rep [of r] by (subst utf8_valid.simps) simp
    ultimately show ?thesis
      using False st utf8_valid_append_step [of bs n]
      by (simp add: from_utf8_lossy.simps [of bs])
  qed simp
qed

lemma lossy_id: "utf8_valid bs \<Longrightarrow> from_utf8_lossy bs = bs"
proof (induction bs rule: from_utf8_lossy.induct)
  case (1 bs)
  show ?case
  proof (cases "bs = []")
    case False
    obtain ok n where st: "utf8_step bs = (ok, n)" by (cases "utf8_step bs")
    have "ok" "utf8_valid (drop n bs)"
      using "1.prems" False st by (simp_all add: utf8_valid.simps [of bs])
    then show ?thesis using "1.IH" [OF False] st False by (simp add: from_utf8_lossy.simps [of bs])
  qed simp
qed

section \<open>Encodings of scalar values\<close>

definition utf8_scalar :: "nat \<Rightarrow> bool" where
  "utf8_scalar c \<longleftrightarrow> c < 0xD800 \<or> 0xE000 \<le> c \<and> c < 0x110000"

definition utf8_encode :: "nat \<Rightarrow> bytes" where
  "utf8_encode c =
     (if c < 0x80 then [of_nat c]
      else if c < 0x800 then [of_nat (0xC0 + c div 64), of_nat (0x80 + c mod 64)]
      else if c < 0x10000
      then [of_nat (0xE0 + c div 4096), of_nat (0x80 + c div 64 mod 64), of_nat (0x80 + c mod 64)]
      else [of_nat (0xF0 + c div 262144), of_nat (0x80 + c div 4096 mod 64),
            of_nat (0x80 + c div 64 mod 64), of_nat (0x80 + c mod 64)])"

lemma is_cont_unat: "is_cont b \<longleftrightarrow> 128 \<le> unat b \<and> unat b < 192"
proof -
  have "bit (unat b) 7 \<longleftrightarrow> bit b 7" "bit (unat b) 6 \<longleftrightarrow> bit b 6"
    by (simp_all add: bit_unsigned_iff)
  then have bits: "bit b 7 \<longleftrightarrow> odd (unat b div 128)" "bit b 6 \<longleftrightarrow> odd (unat b div 64)"
    by (simp_all add: bit_iff_odd [of "unat b"])
  have "b AND 0xC0 = 0x80 \<longleftrightarrow> bit b 7 \<and> \<not> bit b 6"
  proof
    assume eq: "b AND 0xC0 = 0x80"
    show "bit b 7 \<and> \<not> bit b 6"
      using arg_cong [OF eq, of "\<lambda>w. bit w 7"] arg_cong [OF eq, of "\<lambda>w. bit w 6"] by (simp add: bit_simps)
  next
    assume top: "bit b 7 \<and> \<not> bit b 6"
    show "b AND 0xC0 = 0x80"
    proof (rule bit_word_eqI)
      fix n assume "n < LENGTH(8)"
      then have "n \<in> {0, 1, 2, 3, 4, 5, 6, 7}" by auto
      then show "bit (b AND 0xC0) n = bit (0x80 :: u8) n" using top by (auto simp: bit_simps)
    qed
  qed
  moreover have "odd (unat b div 128) \<and> even (unat b div 64) \<longleftrightarrow> 128 \<le> unat b \<and> unat b < 192"
  proof -
    define q where "q = unat b div 64"
    have "q < 4" using unat_lt [of b] by (simp add: q_def div_less_iff_less_mult)
    then have "q \<in> {0, 1, 2, 3}" by auto
    then have "odd (q div 2) \<and> even q \<longleftrightarrow> 2 \<le> q \<and> q < 3" by auto
    moreover have "unat b div 128 = q div 2" by (simp add: q_def div_mult2_eq [symmetric])
    moreover have "128 \<le> unat b \<longleftrightarrow> 2 \<le> q" "unat b < 192 \<longleftrightarrow> q < 3"
      by (simp_all add: q_def div_less_iff_less_mult less_eq_div_iff_mult_less_eq)
    ultimately show ?thesis by (simp only: q_def)
  qed
  ultimately show ?thesis unfolding is_cont_def bits by simp
qed

lemma utf8_step_nat:
  "utf8_step bs =
     (let a = unat (u8_at bs 0); b = unat (u8_at bs 1); c = unat (u8_at bs 2); d = unat (u8_at bs 3);
          cont = (\<lambda>x. 128 \<le> x \<and> x < 192);
          s3 = (if a = 224 then 160 \<le> b \<and> b < 192 else if a = 237 then 128 \<le> b \<and> b < 160 else cont b);
          s4 = (if a = 240 then 144 \<le> b \<and> b < 192 else if a = 244 then 128 \<le> b \<and> b < 144 else cont b)
      in if a < 128 then (True, 1)
         else if 194 \<le> a \<and> a < 224 then (if cont b then (True, 2) else (False, 1))
         else if 224 \<le> a \<and> a < 240
         then (if \<not> s3 then (False, 1) else if \<not> cont c then (False, 2) else (True, 3))
         else if 240 \<le> a \<and> a < 245
         then (if \<not> s4 then (False, 1) else if \<not> cont c then (False, 2)
               else if \<not> cont d then (False, 3) else (True, 4))
         else (False, 1))"
proof -
  have u: "(w :: u8) = v \<longleftrightarrow> unat w = unat v" for w v by (simp add: word_unat_eq_iff)
  show ?thesis
    unfolding utf8_step_def Let_def is_cont_unat in_range_def second_of_3_def second_of_4_def
      u word_le_nat_alt word_less_nat_alt
    by (simp add: less_Suc_eq_le [symmetric] linorder_not_le)
qed

lemma unat_u8: "n < 256 \<Longrightarrow> unat (of_nat n :: u8) = n"
  by (simp add: unat_of_nat)

lemma u8_at_list:
  "u8_at (w # xs) 0 = w" "u8_at (w # x # xs) 1 = x" "u8_at (w # x # y # xs) 2 = y" "u8_at (w # x # y # z # xs) 3 = z"
  by (simp_all add: u8_at_def)

lemma utf8_step_encode:
  assumes "utf8_scalar c"
  shows "utf8_step (utf8_encode c @ rest) = (True, length (utf8_encode c))"
proof -
  consider "c < 0x80" | "0x80 \<le> c" "c < 0x800" | "0x800 \<le> c" "c < 0x10000" | "0x10000 \<le> c" "c < 0x110000"
    using assms unfolding utf8_scalar_def by linarith
  then show ?thesis
  proof cases
    case 1
    then show ?thesis by (simp add: utf8_encode_def utf8_step_nat u8_at_def unat_u8)
  next
    case 2
    have "c div 64 < 32" "2 \<le> c div 64" using 2
      by (simp_all add: div_less_iff_less_mult less_eq_div_iff_mult_less_eq)
    then show ?thesis using 2 unat_u8 [of "192 + c div 64"] unat_u8 [of "128 + c mod 64"]
      by (simp add: utf8_encode_def utf8_step_nat u8_at_def Let_def)
  next
    case 3
    have m: "c div 4096 = c div 64 div 64" by (simp add: div_mult2_eq [symmetric])
    have l: "c div 64 < 1024" "32 \<le> c div 64" "c div 64 < 864 \<or> 896 \<le> c div 64"
      using 3 assms by (auto simp: utf8_scalar_def div_less_iff_less_mult less_eq_div_iff_mult_less_eq)
    have q: "c div 4096 < 16" "c div 4096 = 0 \<Longrightarrow> 32 \<le> c div 64 mod 64"
      "c div 4096 = 13 \<Longrightarrow> c div 64 mod 64 < 32"
      unfolding m using l div_mult_mod_eq [of "c div 64" 64]
      by (simp add: div_less_iff_less_mult, linarith, linarith)
    have u: "unat (of_nat (224 + c div 4096) :: u8) = 224 + c div 4096"
      "unat (of_nat (128 + c div 64 mod 64) :: u8) = 128 + c div 64 mod 64"
      "unat (of_nat (128 + c mod 64) :: u8) = 128 + c mod 64"
      using q(1) by (simp_all only: unat_u8)
    have q0: "c div 4096 = 0 \<Longrightarrow> c div 64 < 64" unfolding m by (simp add: div_eq_0_iff)
    have "utf8_encode c = [of_nat (224 + c div 4096), of_nat (128 + c div 64 mod 64), of_nat (128 + c mod 64)]"
      using 3 by (simp add: utf8_encode_def)
    then show ?thesis using q q0 unfolding utf8_step_nat Let_def
      by (simp only: append_Cons append_Nil u8_at_list u list.size) simp
  next
    case 4
    have m: "c div 262144 = c div 4096 div 64" by (simp add: div_mult2_eq [symmetric])
    have l: "c div 4096 < 272" "16 \<le> c div 4096"
      using 4 by (simp_all add: div_less_iff_less_mult less_eq_div_iff_mult_less_eq)
    have q: "c div 262144 < 5" "c div 262144 = 0 \<Longrightarrow> 16 \<le> c div 4096 mod 64"
      "c div 262144 = 4 \<Longrightarrow> c div 4096 mod 64 < 16"
      unfolding m using l div_mult_mod_eq [of "c div 4096" 64]
      by (simp add: div_less_iff_less_mult, linarith, linarith)
    have u: "unat (of_nat (240 + c div 262144) :: u8) = 240 + c div 262144"
      "unat (of_nat (128 + c div 4096 mod 64) :: u8) = 128 + c div 4096 mod 64"
      "unat (of_nat (128 + c div 64 mod 64) :: u8) = 128 + c div 64 mod 64"
      "unat (of_nat (128 + c mod 64) :: u8) = 128 + c mod 64"
      using q(1) by (simp_all only: unat_u8)
    have q0: "c div 262144 = 0 \<Longrightarrow> c div 4096 < 64" unfolding m by (simp add: div_eq_0_iff)
    have "utf8_encode c = [of_nat (240 + c div 262144), of_nat (128 + c div 4096 mod 64),
        of_nat (128 + c div 64 mod 64), of_nat (128 + c mod 64)]"
      using 4 by (simp add: utf8_encode_def)
    then show ?thesis using q q0 unfolding utf8_step_nat Let_def
      by (simp only: append_Cons append_Nil u8_at_list u list.size) simp
  qed
qed

lemma u8_word: "n = unat w \<Longrightarrow> (of_nat n :: u8) = w"
  by simp

lemma utf8_step_decode:
  assumes "utf8_step bs = (True, n)" and "bs \<noteq> []"
  obtains c where "utf8_scalar c" "take n bs = utf8_encode c"
proof -
  have l: "u8_at bs k \<noteq> 0 \<Longrightarrow> k < length bs" for k by (auto simp: u8_at_def split: if_splits)
  have p: "128 \<le> unat (u8_at bs k) \<Longrightarrow> k < length bs" for k using l [of k] by (cases "u8_at bs k = 0") auto
  let ?a = "unat (u8_at bs 0)" and ?b = "unat (u8_at bs 1)" and ?c = "unat (u8_at bs 2)" and ?d = "unat (u8_at bs 3)"
  consider "n = 1" "?a < 128"
    | "n = 2" "194 \<le> ?a" "?a < 224" "128 \<le> ?b" "?b < 192"
    | "n = 3" "224 \<le> ?a" "?a < 240" "128 \<le> ?b" "?b < 192" "?a = 224 \<longrightarrow> 160 \<le> ?b" "?a = 237 \<longrightarrow> ?b < 160"
      "128 \<le> ?c" "?c < 192"
    | "n = 4" "240 \<le> ?a" "?a < 245" "128 \<le> ?b" "?b < 192" "?a = 240 \<longrightarrow> 144 \<le> ?b" "?a = 244 \<longrightarrow> ?b < 144"
      "128 \<le> ?c" "?c < 192" "128 \<le> ?d" "?d < 192"
    using assms(1) unfolding utf8_step_nat Let_def by (auto split: if_splits)
  then show thesis
  proof cases
    case 1
    have "take 1 bs = [u8_at bs 0]" using assms(2) by (cases bs) (simp_all add: u8_at_def)
    then show ?thesis
      using 1 by (intro that [of ?a]) (simp_all add: utf8_scalar_def utf8_encode_def)
  next
    case 2
    define v where "v = (?a - 192) * 64 + (?b - 128)"
    have "1 < length bs" using 2 p [of 1] by simp
    then have t: "take n bs = [u8_at bs 0, u8_at bs 1]"
      using 2(1) by (cases bs; cases "tl bs") (auto simp: u8_at_def)
    have r: "?b - 128 < 64" using 2 by simp
    have v: "v div 64 = ?a - 192" "v mod 64 = ?b - 128"
      using r by (simp_all only: v_def div_mult_self3 mod_mult_self3) simp_all
    have lim: "128 \<le> v" "v < 2048" using 2 r by (simp_all add: v_def)
    show ?thesis
      using 2 t lim by (intro that [of v]) (simp_all add: utf8_scalar_def utf8_encode_def v u8_word del: of_nat_add)
  next
    case 3
    define v where "v = ((?a - 224) * 64 + (?b - 128)) * 64 + (?c - 128)"
    have "2 < length bs" using 3 p [of 2] by simp
    then have t: "take n bs = [u8_at bs 0, u8_at bs 1, u8_at bs 2]"
      using 3(1) by (cases bs; cases "tl bs"; cases "tl (tl bs)") (auto simp: u8_at_def)
    have r: "?b - 128 < 64" "?c - 128 < 64" using 3 by simp_all
    have v: "v div 64 = (?a - 224) * 64 + (?b - 128)" "v mod 64 = ?c - 128"
      using r by (simp_all only: v_def div_mult_self3 mod_mult_self3) simp_all
    have w: "v div 4096 = ?a - 224" "v div 64 mod 64 = ?b - 128"
      using r div_mult2_eq [of v 64 64] by (simp_all only: v div_mult_self3 mod_mult_self3) simp_all
    have lim: "2048 \<le> v" "v < 65536" "v < 55296 \<or> 57344 \<le> v"
    proof -
      define x y z where "x = ?a - 224" and "y = ?b - 128" and "z = ?c - 128"
      have v': "v = x * 4096 + y * 64 + z" and l: "x < 16" "y < 64" "z < 64"
        using 3(2-9) by (simp_all add: v_def x_def y_def z_def)
      have s: "x = 0 \<longrightarrow> 32 \<le> y" "x = 13 \<longrightarrow> y < 32" using 3 by (auto simp: x_def y_def)
      show "v < 65536" unfolding v' using l by linarith
      show "2048 \<le> v" unfolding v' using s(1) by (cases "x = 0") auto
      consider "x < 13" | "x = 13" | "13 < x" by linarith
      then show "v < 55296 \<or> 57344 \<le> v"
        unfolding v' using l s(2) by cases auto
    qed
    have "utf8_encode v = [of_nat (0xE0 + v div 4096), of_nat (0x80 + v div 64 mod 64), of_nat (0x80 + v mod 64)]"
      using lim by (simp add: utf8_encode_def)
    then have "utf8_encode v = take n bs"
      unfolding w v(2) t using 3 by (simp add: u8_word del: of_nat_add)
    then show ?thesis using lim by (intro that [of v]) (simp_all add: utf8_scalar_def)
  next
    case 4
    define v where "v = (((?a - 240) * 64 + (?b - 128)) * 64 + (?c - 128)) * 64 + (?d - 128)"
    have "3 < length bs" using 4 p [of 3] by simp
    then have t: "take n bs = [u8_at bs 0, u8_at bs 1, u8_at bs 2, u8_at bs 3]"
      using 4(1) by (cases bs; cases "tl bs"; cases "tl (tl bs)"; cases "tl (tl (tl bs))") (auto simp: u8_at_def)
    have r: "?b - 128 < 64" "?c - 128 < 64" "?d - 128 < 64" using 4 by simp_all
    have v: "v div 64 = ((?a - 240) * 64 + (?b - 128)) * 64 + (?c - 128)" "v mod 64 = ?d - 128"
      using r by (simp_all only: v_def div_mult_self3 mod_mult_self3) simp_all
    have w: "v div 4096 = (?a - 240) * 64 + (?b - 128)" "v div 64 mod 64 = ?c - 128"
      using r div_mult2_eq [of v 64 64] by (simp_all only: v div_mult_self3 mod_mult_self3) simp_all
    have x: "v div 262144 = ?a - 240" "v div 4096 mod 64 = ?b - 128"
      using r div_mult2_eq [of v 4096 64] by (simp_all only: w div_mult_self3 mod_mult_self3) simp_all
    have lim: "65536 \<le> v" "v < 1114112"
    proof -
      show "65536 \<le> v" using 4 unfolding v_def by (cases "?a = 240") simp_all
      show "v < 1114112" using 4 r unfolding v_def by (cases "?a = 244") simp_all
    qed
    have "utf8_encode v = [of_nat (0xF0 + v div 262144), of_nat (0x80 + v div 4096 mod 64),
        of_nat (0x80 + v div 64 mod 64), of_nat (0x80 + v mod 64)]"
      using lim by (simp add: utf8_encode_def)
    then have "utf8_encode v = take n bs"
      unfolding x w(2) v(2) t using 4 by (simp add: u8_word del: of_nat_add)
    then show ?thesis using lim by (intro that [of v]) (simp_all add: utf8_scalar_def)
  qed
qed

lemma utf8_encode_nonempty: "utf8_encode c \<noteq> []"
  by (simp add: utf8_encode_def)

lemma utf8_valid_encodes:
  "utf8_valid bs \<longleftrightarrow> (\<exists>cs. (\<forall>c \<in> set cs. utf8_scalar c) \<and> bs = concat (map utf8_encode cs))"
proof
  show "utf8_valid bs \<Longrightarrow> \<exists>cs. (\<forall>c \<in> set cs. utf8_scalar c) \<and> bs = concat (map utf8_encode cs)"
  proof (induction bs rule: utf8_valid.induct)
    case (1 bs)
    show ?case
    proof (cases "bs = []")
      case False
      obtain n where st: "utf8_step bs = (True, n)" and rest: "utf8_valid (drop n bs)"
        using "1.prems" False by (cases "utf8_step bs") (simp add: utf8_valid.simps [of bs])
      then obtain cs where "\<forall>c \<in> set cs. utf8_scalar c" "drop n bs = concat (map utf8_encode cs)"
        using "1.IH" [OF False] by auto
      moreover obtain c where "utf8_scalar c" "take n bs = utf8_encode c"
        using utf8_step_decode [OF st False] .
      ultimately have "\<forall>c \<in> set (c # cs). utf8_scalar c" "bs = concat (map utf8_encode (c # cs))"
        using append_take_drop_id [of n bs] by simp_all
      then show ?thesis by blast
    qed (simp add: exI [of _ "[]"])
  qed
next
  assume "\<exists>cs. (\<forall>c \<in> set cs. utf8_scalar c) \<and> bs = concat (map utf8_encode cs)"
  then obtain cs where "\<forall>c \<in> set cs. utf8_scalar c" "bs = concat (map utf8_encode cs)" by blast
  then show "utf8_valid bs"
    by (induction cs arbitrary: bs)
      (simp_all add: utf8_valid.simps [of "_ @ _"] utf8_step_encode utf8_encode_nonempty)
qed

end
