(* ===== verification/ForensicCarve.thy ===== *)
theory ForensicCarve
  imports ForensicAudit Utf8
begin

text \<open>
  \<open>forensic/src/lib.rs\<close>, the recovery of deleted residue: the deleted directory entries of every
  directory the walk visits, and the free but intact dinodes of every cylinder group. A \<open>String\<close> is
  the list of its UTF-8 bytes; \<open>from_utf8_lossy\<close> is the standard library's, and the SHA-256 digest
  of the \<open>sha2\<close> crate is an argument.
\<close>

section \<open>Names\<close>

definition decode_name :: "bytes \<Rightarrow> bytes" where
  "decode_name name = from_utf8_lossy name"

definition sha256_hex :: "(bytes \<Rightarrow> bytes) \<Rightarrow> bytes \<Rightarrow> string" where
  "sha256_hex sha256 data = concat (map fmt_02x (sha256 data))"

section \<open>Recovered items\<close>

datatype recovered_item =
  DeletedFile "bytes option" u64 u64 bytes string
  | DeletedDirent bytes u64

section \<open>Deleted directory entries\<close>

fun collect_entries ::
  "dir_entry list \<Rightarrow> u64 list \<Rightarrow> (bytes \<times> u64) list \<Rightarrow> u64 list \<times> (bytes \<times> u64) list" where
  "collect_entries [] queue deleted = (queue, deleted)"
| "collect_entries (e # es) queue deleted =
     (if de_deleted e
      then (if de_name e \<noteq> [] \<and> de_name e \<noteq> dot \<and> de_name e \<noteq> dotdot
            then collect_entries es queue (deleted @ [(decode_name (de_name e), de_ino e)])
            else collect_entries es queue deleted)
      else if is_dir_entry e \<and> de_name e \<noteq> dot \<and> de_name e \<noteq> dotdot
      then collect_entries es (queue @ [de_ino e]) deleted
      else collect_entries es queue deleted)"

text \<open>The loop; its result carries the visited directories beside the collected names.\<close>

fun collect_loop ::
  "bytes \<Rightarrow> superblock \<Rightarrow> nat \<Rightarrow> u64 list \<Rightarrow> u64 list \<times> (bytes \<times> u64) list
     \<Rightarrow> u64 list \<times> (bytes \<times> u64) list" where
  "collect_loop img sb budget queue (visited, deleted) =
     (case vec_pop queue of
        None \<Rightarrow> (visited, deleted)
      | Some (dir_ino, queue') \<Rightarrow>
          if budget = 0 then (visited, deleted)
          else if dir_ino \<in> set visited then collect_loop img sb (budget - 1) queue' (visited, deleted)
          else
            (case list_dir_all img sb dir_ino of
               Inl _ \<Rightarrow> collect_loop img sb (budget - 1) queue' (visited @ [dir_ino], deleted)
             | Inr entries \<Rightarrow>
                 (case collect_entries entries queue' deleted of
                    (queue'', deleted') \<Rightarrow>
                      collect_loop img sb (budget - 1) queue'' (visited @ [dir_ino], deleted'))))"

declare collect_loop.simps [simp del]

definition collect_deleted_dirents :: "bytes \<Rightarrow> superblock \<Rightarrow> (bytes \<times> u64) list" where
  "collect_deleted_dirents img sb = snd (collect_loop img sb WALK_BUDGET [UFS_ROOTINO] ([], []))"

section \<open>Deleted inodes\<close>

definition carve_step ::
  "(bytes \<Rightarrow> bytes) \<Rightarrow> bytes \<Rightarrow> superblock \<Rightarrow> (bytes \<times> u64) list \<Rightarrow> u64 \<Rightarrow> u64 \<Rightarrow> u64 \<Rightarrow> bytes \<Rightarrow> u64
     \<Rightarrow> recovered_item list \<Rightarrow> recovered_item list" where
  "carve_step sha256 img sb deleted_names ipg ntotal cg used within out =
     (let ino = sat_add (sat_mul cg ipg) within in
      if ino < UFS_ROOTINO + 1 \<or> ino \<ge> ntotal then out
      else if bitmap_bit used (unat within) then out
      else
        (case read_inode img sb ino of
           Inl _ \<Rightarrow> out
         | Inr i \<Rightarrow>
             if \<not> inode_is_regular i \<or> i_size i = 0 \<or> i_direct i ! 0 = 0 then out
             else
               (case read_file img sb ino of
                  Inl _ \<Rightarrow> out
                | Inr content \<Rightarrow>
                    if content = [] then out
                    else
                      let content_sha256 = sha256_hex sha256 content;
                          name = map_option fst (find (\<lambda>(_, dino). dino = ino) deleted_names)
                      in out @ [DeletedFile name ino (i_size i) content content_sha256])))"

definition carve_cg ::
  "(bytes \<Rightarrow> bytes) \<Rightarrow> bytes \<Rightarrow> superblock \<Rightarrow> (bytes \<times> u64) list \<Rightarrow> u64 \<Rightarrow> u64 \<Rightarrow> u64
     \<Rightarrow> recovered_item list \<Rightarrow> recovered_item list" where
  "carve_cg sha256 img sb deleted_names ipg ntotal cg out =
     (case cg_inode_bitmap img sb cg of
        None \<Rightarrow> out
      | Some used \<Rightarrow>
          fold (carve_step sha256 img sb deleted_names ipg ntotal cg used) (map of_nat [0..<unat ipg]) out)"

definition carve_deleted_inodes ::
  "(bytes \<Rightarrow> bytes) \<Rightarrow> bytes \<Rightarrow> superblock \<Rightarrow> (bytes \<times> u64) list \<Rightarrow> recovered_item list
     \<Rightarrow> recovered_item list" where
  "carve_deleted_inodes sha256 img sb deleted_names out =
     (if sint (sb_ipg sb) > 0
      then
        let ipg = scast (sb_ipg sb);
            ncg = ucast (sb_ncg sb);
            ntotal = sat_mul ipg ncg
        in fold (carve_cg sha256 img sb deleted_names ipg ntotal) (map of_nat [0..<unat ncg]) out
      else out)"

definition recover_deleted :: "(bytes \<Rightarrow> bytes) \<Rightarrow> bytes \<Rightarrow> recovered_item list" where
  "recover_deleted sha256 img =
     (case parse_primary_sb img of
        Inl _ \<Rightarrow> []
      | Inr sb \<Rightarrow>
          (let deleted_names = collect_deleted_dirents img sb;
               out = map (\<lambda>(name, ino). DeletedDirent name ino) deleted_names
           in carve_deleted_inodes sha256 img sb deleted_names out))"

section \<open>What the directory walk collects\<close>

lemma list_dir_all_entry:
  assumes "valid_slice img" and "list_dir_all img sb d = Inr es" and "e \<in> set es"
  shows "de_deleted e \<longleftrightarrow> de_ino e = 0" "length (de_name e) \<le> 255" "unat (de_ino e) < 2 ^ 32"
proof -
  obtain i where i: "es = list_dir_entries img sb i"
    using assms(2) by (auto simp: list_dir_all_def try_bind_Inr_iff)
  then have fs: "0 < sint (sb_fsize sb)"
    using assms(3) by (auto simp: list_dir_entries_def split: if_splits)
  then obtain bs where es: "es = list_dir_loop img sb bs (i_direct i) (i_size i) []"
    using i by (auto simp: list_dir_entries_def Let_def)
  from assms(3) obtain off n where e: "e \<in> set (walk_entries (take n (drop off img)) (sb_endian sb))"
    unfolding es list_dir_loop_exact [OF assms(1) fs] by (auto split: if_splits)
  have "valid_slice (take n (drop off img))" using assms(1) by (simp add: valid_slice_def)
  from walk_entries_entry [OF this e]
  show "de_deleted e \<longleftrightarrow> de_ino e = 0" "length (de_name e) \<le> 255" "unat (de_ino e) < 2 ^ 32" .
qed

definition deleted_named :: "dir_entry \<Rightarrow> bool" where
  "deleted_named e \<longleftrightarrow> de_deleted e \<and> de_name e \<noteq> [] \<and> de_name e \<noteq> dot \<and> de_name e \<noteq> dotdot"

definition deleted_slots :: "bytes \<Rightarrow> superblock \<Rightarrow> u64 \<Rightarrow> (bytes \<times> u64) list" where
  "deleted_slots img sb d =
     (case list_dir_all img sb d of
        Inl _ \<Rightarrow> []
      | Inr es \<Rightarrow> map (\<lambda>e. (decode_name (de_name e), de_ino e)) (filter deleted_named es))"

definition live_subdirs :: "bytes \<Rightarrow> superblock \<Rightarrow> u64 \<Rightarrow> u64 list" where
  "live_subdirs img sb d =
     (case list_dir_all img sb d of
        Inl _ \<Rightarrow> []
      | Inr es \<Rightarrow> map de_ino (filter (\<lambda>e. live_link e \<and> is_dir_entry e) es))"

lemma collect_entries_exact:
  "collect_entries es q del =
     (q @ map de_ino (filter (\<lambda>e. live_link e \<and> is_dir_entry e) es),
      del @ map (\<lambda>e. (decode_name (de_name e), de_ino e)) (filter deleted_named es))"
  by (induction es q del rule: collect_entries.induct) (auto simp: live_link_def deleted_named_def)

definition collect_visit ::
  "bytes \<Rightarrow> superblock \<Rightarrow> u64 \<Rightarrow> u64 list \<Rightarrow> u64 list \<times> (bytes \<times> u64) list
     \<Rightarrow> u64 list \<times> u64 list \<times> (bytes \<times> u64) list" where
  "collect_visit img sb d q acc =
     (case acc of (vis, del) \<Rightarrow>
        if d \<in> set vis then (q, (vis, del))
        else (q @ live_subdirs img sb d, (vis @ [d], del @ deleted_slots img sb d)))"

interpretation collect: visiting_walk "collect_loop img sb" "collect_visit img sb"
  "live_subdirs img sb" "deleted_slots img sb" for img sb
proof unfold_locales
  show "collect_loop img sb b q acc = (case vec_pop q of None \<Rightarrow> acc
    | Some (d, q') \<Rightarrow> if b = 0 then acc
        else case collect_visit img sb d q' acc of (q'', acc') \<Rightarrow> collect_loop img sb (b - 1) q'' acc')"
    for b q acc
    by (cases acc, simp only:, subst collect_loop.simps)
      (auto simp: collect_visit_def live_subdirs_def deleted_slots_def collect_entries_exact
        split: option.split sum.split)
qed (simp_all add: collect_visit_def)

text \<open>The directories of this walk are those of the reachability walk.\<close>

lemma live_subdirs_edges:
  "(n, True) \<in> set (image_edges img sb d) \<longleftrightarrow> n \<in> set (live_subdirs img sb d)"
  by (auto simp: image_edges_def live_subdirs_def split: sum.split)

lemma subdir_closure:
  "dir_closure (\<lambda>d. map (\<lambda>n. (n, True)) (live_subdirs img sb d)) UFS_ROOTINO = image_dirs img sb"
proof -
  have "dir_edge (\<lambda>d. map (\<lambda>n. (n, True)) (live_subdirs img sb d)) = dir_edge (image_edges img sb)"
    by (intro ext) (auto simp: dir_edge_def live_subdirs_edges)
  then show ?thesis by (simp add: dir_closure_def image_dirs_def)
qed

lemma collect_deleted_sound:
  obtains vis where "distinct vis" "set vis \<subseteq> image_dirs img sb"
    "collect_deleted_dirents img sb = concat (map (deleted_slots img sb) vis)"
proof -
  obtain vis del where r: "collect_loop img sb WALK_BUDGET [UFS_ROOTINO] ([], []) = (vis, del)"
    by (cases "collect_loop img sb WALK_BUDGET [UFS_ROOTINO] ([], [])")
  from collect.visits_sound [OF r] show ?thesis
    by (intro that [of vis]) (simp_all add: subdir_closure collect_deleted_dirents_def r)
qed

lemma collect_deleted_complete:
  assumes "1 + (\<Sum>d \<in> image_dirs img sb. length (live_subdirs img sb d)) \<le> WALK_BUDGET"
  obtains vis where "distinct vis" "set vis = image_dirs img sb"
    "collect_deleted_dirents img sb = concat (map (deleted_slots img sb) vis)"
proof -
  obtain vis del where r: "collect_loop img sb WALK_BUDGET [UFS_ROOTINO] ([], []) = (vis, del)"
    by (cases "collect_loop img sb WALK_BUDGET [UFS_ROOTINO] ([], [])")
  have "set vis = image_dirs img sb"
    using collect.visits_complete [OF _ _ r] assms by (simp add: subdir_closure)
  with collect.visits_sound [OF r] show ?thesis
    by (intro that [of vis]) (simp_all add: collect_deleted_dirents_def r)
qed

lemma collect_deleted_entry:
  assumes "valid_slice img" and "(name, ino) \<in> set (collect_deleted_dirents img sb)"
  shows "ino = 0" "utf8_valid name"
    and "\<exists>d \<in> image_dirs img sb. \<exists>es e. list_dir_all img sb d = Inr es \<and> e \<in> set es \<and> deleted_named e
      \<and> name = decode_name (de_name e)"
proof -
  obtain vis where v: "set vis \<subseteq> image_dirs img sb"
    "collect_deleted_dirents img sb = concat (map (deleted_slots img sb) vis)"
    by (rule collect_deleted_sound)
  then obtain d where d: "d \<in> image_dirs img sb" "(name, ino) \<in> set (deleted_slots img sb d)"
    using assms(2) by auto
  then obtain es e where e: "list_dir_all img sb d = Inr es" "e \<in> set es" "deleted_named e"
    "name = decode_name (de_name e)" "ino = de_ino e"
    by (cases "list_dir_all img sb d") (auto simp: deleted_slots_def)
  show "ino = 0" using list_dir_all_entry(1) [OF assms(1) e(1,2)] e(3,5) by (simp add: deleted_named_def)
  show "utf8_valid name" by (simp add: e(4) decode_name_def lossy_valid)
  show "\<exists>d \<in> image_dirs img sb. \<exists>es e. list_dir_all img sb d = Inr es \<and> e \<in> set es \<and> deleted_named e
      \<and> name = decode_name (de_name e)"
    using d(1) e by blast
qed

section \<open>What the inode sweep carves\<close>

definition inode_free :: "bytes \<Rightarrow> superblock \<Rightarrow> nat \<Rightarrow> bool" where
  "inode_free img sb n \<longleftrightarrow>
     (case cg_inode_bitmap img sb (of_nat (n div nat_i32 (sb_ipg sb))) of
        None \<Rightarrow> False
      | Some used \<Rightarrow> \<not> bitmap_bit used (n mod nat_i32 (sb_ipg sb)))"

lemma free_not_allocated: "inode_free img sb n \<Longrightarrow> \<not> inode_allocated img sb n"
  by (auto simp: inode_free_def inode_allocated_def split: option.splits)

definition carvable :: "inode \<Rightarrow> bool" where
  "carvable i \<longleftrightarrow> inode_is_regular i \<and> i_size i \<noteq> 0 \<and> i_direct i ! 0 \<noteq> 0"

definition carve_emit ::
  "(bytes \<Rightarrow> bytes) \<Rightarrow> bytes \<Rightarrow> superblock \<Rightarrow> (bytes \<times> u64) list \<Rightarrow> nat \<Rightarrow> recovered_item list" where
  "carve_emit sha256 img sb names n =
     (if 3 \<le> n \<and> inode_free img sb n
      then (case read_inode img sb (of_nat n) of
              Inl _ \<Rightarrow> []
            | Inr i \<Rightarrow>
                if carvable i
                then (case read_inode_file img sb i of
                        Inl _ \<Rightarrow> []
                      | Inr content \<Rightarrow>
                          if content = [] then []
                          else [DeletedFile (map_option fst (find (\<lambda>(_, dino). dino = of_nat n) names))
                                  (of_nat n) (i_size i) content (sha256_hex sha256 content)])
                else [])
      else [])"

lemma carve_step_push:
  "carve_step sha256 img sb names ipg ntotal cg used within out =
     out @ carve_step sha256 img sb names ipg ntotal cg used within []"
  by (auto simp: carve_step_def Let_def split: sum.split)

interpretation carve_slot: push_loop "carve_step sha256 img sb names ipg ntotal cg used"
  "\<lambda>within. carve_step sha256 img sb names ipg ntotal cg used within []"
  for sha256 img sb names ipg ntotal cg used
  by unfold_locales (rule carve_step_push)

lemma carve_step_emit:
  assumes "c < unat (sb_ncg sb)" and "w < nat_i32 (sb_ipg sb)"
    and "cg_inode_bitmap img sb (of_nat c) = Some used"
  shows "carve_step sha256 img sb names (i32_max0 (sb_ipg sb))
      (sat_mul (i32_max0 (sb_ipg sb)) (ucast (sb_ncg sb))) (of_nat c) used (of_nat w) []
    = carve_emit sha256 img sb names (c * nat_i32 (sb_ipg sb) + w)"
proof -
  let ?n = "c * nat_i32 (sb_ipg sb) + w"
  have ino: "sat_add (sat_mul (of_nat c) (i32_max0 (sb_ipg sb))) (of_nat w) = (of_nat ?n :: u64)"
    by (rule slot_number [OF assms(1,2)])
  have n: "?n < inode_count sb" by (rule slot_in_range [OF assms(1,2)])
  have w: "unat (of_nat w :: u64) = w" using assms(2) nat_i32_less [of "sb_ipg sb"] by (simp add: unat_of_nat)
  have dm: "?n div nat_i32 (sb_ipg sb) = c" "?n mod nat_i32 (sb_ipg sb) = w" using assms(2) by simp_all
  have fr: "inode_free img sb ?n \<longleftrightarrow> \<not> bitmap_bit used w"
    unfolding inode_free_def dm by (simp add: assms(3))
  show ?thesis
    unfolding carve_step_def Let_def ino slot_guard [OF n] w carve_emit_def fr carvable_def read_file_def
    by (auto split: sum.split)
qed

interpretation carves: group_sweep
  "\<lambda>c. carve_cg sha256 img sb names (i32_max0 (sb_ipg sb))
     (sat_mul (i32_max0 (sb_ipg sb)) (ucast (sb_ncg sb))) (of_nat c)"
  "carve_emit sha256 img sb names" "nat_i32 (sb_ipg sb)" "unat (sb_ncg sb)" for sha256 img sb names
proof unfold_locales
  fix c and out :: "recovered_item list"
  assume c: "c < unat (sb_ncg sb)"
  show "carve_cg sha256 img sb names (i32_max0 (sb_ipg sb))
      (sat_mul (i32_max0 (sb_ipg sb)) (ucast (sb_ncg sb))) (of_nat c) out
    = out @ concat (map (\<lambda>w. carve_emit sha256 img sb names (c * nat_i32 (sb_ipg sb) + w)) [0..<nat_i32 (sb_ipg sb)])"
  proof (cases "cg_inode_bitmap img sb (of_nat c)")
    case None
    have "carve_emit sha256 img sb names (c * nat_i32 (sb_ipg sb) + w) = []" if "w < nat_i32 (sb_ipg sb)" for w
    proof -
      have "(c * nat_i32 (sb_ipg sb) + w) div nat_i32 (sb_ipg sb) = c" using that by simp
      then show ?thesis using None by (simp add: carve_emit_def inode_free_def)
    qed
    then show ?thesis using None by (simp add: carve_cg_def)
  next
    case (Some used)
    have "map (\<lambda>w. carve_step sha256 img sb names (i32_max0 (sb_ipg sb))
        (sat_mul (i32_max0 (sb_ipg sb)) (ucast (sb_ncg sb))) (of_nat c) used (of_nat w) []) [0..<nat_i32 (sb_ipg sb)]
      = map (\<lambda>w. carve_emit sha256 img sb names (c * nat_i32 (sb_ipg sb) + w)) [0..<nat_i32 (sb_ipg sb)]"
      by (rule map_cong) (simp_all add: carve_step_emit [OF c _ Some])
    from arg_cong [OF this, of concat] show ?thesis
      using Some by (simp add: carve_cg_def carve_slot.fold_push i32_max0_unat comp_def)
  qed
qed

lemma carve_deleted_inodes_exact:
  "carve_deleted_inodes sha256 img sb names out =
     out @ concat (map (carve_emit sha256 img sb names) [0..<inode_count sb])"
proof (cases "sint (sb_ipg sb) > 0")
  case True
  then have "scast (sb_ipg sb) = i32_max0 (sb_ipg sb)" by (simp add: i32_max0_def)
  then show ?thesis
    using True carves.fold_groups [of sha256 img sb names out]
    by (simp add: carve_deleted_inodes_def Let_def fold_map comp_def inode_count_def)
next
  case False
  then have "inode_count sb = 0" by (simp add: inode_count_def nat_i32_def)
  then show ?thesis using False by (simp add: carve_deleted_inodes_def)
qed

lemma recover_deleted_exact:
  assumes "parse_primary_sb img = Inr sb"
  shows "recover_deleted sha256 img =
    map (\<lambda>(name, ino). DeletedDirent name ino) (collect_deleted_dirents img sb)
    @ concat (map (carve_emit sha256 img sb (collect_deleted_dirents img sb)) [0..<inode_count sb])"
  using assms by (simp add: recover_deleted_def carve_deleted_inodes_exact Let_def)

end
