(* ===== verification/ReadFrame.thy ===== *)
theory ReadFrame
  imports ForensicCarve
begin

text \<open>
  What a read of the image depends on: two images of the same length that agree on a set of positions give the same
  superblock, bitmap, inode or file content when the set covers the bytes that structure occupies. The footprint of
  a file is the set of its data bytes and of the pointer blocks on the way to them.
\<close>

section \<open>Agreement\<close>

definition agree_on :: "nat set \<Rightarrow> bytes \<Rightarrow> bytes \<Rightarrow> bool" where
  "agree_on P a b \<longleftrightarrow> length a = length b \<and> (\<forall>p \<in> P. p < length a \<longrightarrow> a ! p = b ! p)"

lemma agree_length: "agree_on P a b \<Longrightarrow> length a = length b"
  by (simp add: agree_on_def)

lemma agree_valid: "agree_on P a b \<Longrightarrow> valid_slice a \<longleftrightarrow> valid_slice b"
  by (simp add: agree_on_def valid_slice_def)

lemma agree_mono: "agree_on Q a b \<Longrightarrow> P \<subseteq> Q \<Longrightarrow> agree_on P a b"
  by (auto simp: agree_on_def)

lemma agree_nth: "agree_on P a b \<Longrightarrow> p \<in> P \<Longrightarrow> p < length a \<Longrightarrow> a ! p = b ! p"
  by (simp add: agree_on_def)

lemma agree_window:
  assumes "agree_on {off..<off + n} a b"
  shows "take n (drop off a) = take n (drop off b)"
  using assms by (intro nth_equalityI) (auto simp: agree_on_def)

lemma agree_drop: "agree_on {off..<off + n} a b \<Longrightarrow> length (drop off a) = length (drop off b)"
  by (simp add: agree_on_def)

section \<open>Parsers read a prefix\<close>

lemma read_array_prefix:
  assumes "off + n \<le> k" "k \<le> length d" "k \<le> usize_max"
  shows "read_array n (take k d) off = read_array n d off"
  using assms by (simp add: read_array_in drop_take min_absorb1)

lemma readers_prefix:
  assumes "k \<le> length d" "k \<le> usize_max"
  shows "off + 4 \<le> k \<Longrightarrow> endian_u32 e (take k d) off = endian_u32 e d off"
    and "off + 4 \<le> k \<Longrightarrow> endian_i32 e (take k d) off = endian_i32 e d off"
    and "off + 8 \<le> k \<Longrightarrow> endian_i64 e (take k d) off = endian_i64 e d off"
    and "off + 1 \<le> k \<Longrightarrow> u8_at (take k d) off = u8_at d off"
  using assms
  by (cases e; simp add: reader_defs endian_i32_def endian_i64_def read_array_prefix u8_at_def)+

lemma sb_parse_prefix:
  assumes "SB_MIN_LEN \<le> length d"
  shows "sb_parse (take SB_MIN_LEN d) = sb_parse d"
proof -
  have d: "1376 \<le> length d" using assms by (simp add: sb_consts)
  note pre = readers_prefix [OF d]
  have m: "sb_magic_bytes (take 1376 d) = sb_magic_bytes d"
    by (simp add: sb_magic_bytes_def pre sb_consts)
  have "sb_decode (take 1376 d) v e = sb_decode d v e" for v e
    by (cases v) (simp_all add: sb_decode_def pre sb_consts)
  then show ?thesis using d by (simp add: sb_parse_def m sb_consts Let_def split: option.split)
qed

lemma cg_parse_prefix:
  assumes "CG_MIN_LEN \<le> length d"
  shows "cg_parse (take CG_MIN_LEN d) e = cg_parse d e"
proof -
  have d: "124 \<le> length d" using assms by (simp add: sb_consts)
  show ?thesis using d by (simp add: cg_parse_def readers_prefix [OF d] sb_consts Let_def)
qed

lemma sb_parse_agree:
  assumes "agree_on {off..<off + SB_MIN_LEN} a b"
  shows "sb_parse (drop off a) = sb_parse (drop off b)"
proof (cases "SB_MIN_LEN \<le> length (drop off a)")
  case True
  then show ?thesis
    using sb_parse_prefix [of "drop off a"] sb_parse_prefix [of "drop off b"] agree_window [OF assms]
      agree_length [OF assms] by simp
next
  case False
  then show ?thesis using agree_length [OF assms] by (simp add: sb_parse_def)
qed

lemma cg_parse_agree:
  assumes "agree_on {off..<off + CG_MIN_LEN} a b"
  shows "cg_parse (drop off a) e = cg_parse (drop off b) e"
proof (cases "CG_MIN_LEN \<le> length (drop off a)")
  case True
  then show ?thesis
    using cg_parse_prefix [of "drop off a" e] cg_parse_prefix [of "drop off b" e] agree_window [OF assms]
      agree_length [OF assms] by simp
next
  case False
  then show ?thesis using agree_length [OF assms] by (simp add: cg_parse_def)
qed

section \<open>The primary superblock and an inode\<close>

definition superblock_region :: "nat set" where
  "superblock_region = {SBLOCK_UFS2..<SBLOCK_UFS2 + SB_MIN_LEN} \<union> {SBLOCK_UFS1..<SBLOCK_UFS1 + SB_MIN_LEN}"

lemma parse_primary_agree:
  assumes "agree_on superblock_region a b" and "parse_primary_sb a = Inr sb"
  shows "parse_primary_sb b = Inr sb"
proof -
  have "agree_on {SBLOCK_UFS2..<SBLOCK_UFS2 + SB_MIN_LEN} a b" "agree_on {SBLOCK_UFS1..<SBLOCK_UFS1 + SB_MIN_LEN} a b"
    using assms(1) by (auto elim!: agree_mono simp: superblock_region_def)
  then show ?thesis
    using assms(2) agree_length [OF assms(1)] by (simp add: parse_primary_sb_Inr sb_parse_agree)
qed

definition inode_record :: "superblock \<Rightarrow> nat \<Rightarrow> nat set" where
  "inode_record sb n = {inode_offset sb n..<inode_offset sb n + dinode_size (sb_version sb)}"

lemma read_inode_agree:
  assumes "valid_slice a" "inode_geometry_ok sb" "agree_on (inode_record sb (unat n)) a b"
  shows "read_inode b sb n = read_inode a sb n"
proof -
  have "valid_slice b" using assms(1,3) agree_valid by blast
  then show ?thesis
    using assms agree_window [OF assms(3) [unfolded inode_record_def]] agree_length [OF assms(3)]
    by (simp add: read_inode_refines Let_def)
qed

section \<open>File content\<close>

text \<open>The pointer blocks read on the way to logical block \<open>k\<close>, and the footprint of a file.\<close>

definition tree_blocks :: "bytes \<Rightarrow> superblock \<Rightarrow> inode \<Rightarrow> nat \<Rightarrow> u64 set" where
  "tree_blocks part sb i k =
     (case block_path (sb_nindir_nat sb) k of
        InTree l ds \<Rightarrow> (\<lambda>j. follow part sb (i_indirect i ! l) (take j ds)) ` {..<length ds}
      | _ \<Rightarrow> {})"

definition block_bytes :: "superblock \<Rightarrow> u64 \<Rightarrow> nat \<Rightarrow> nat set" where
  "block_bytes sb addr n =
     (if addr = 0 then {} else {unat addr * nat_i32 (sb_fsize sb)..<unat addr * nat_i32 (sb_fsize sb) + n})"

definition file_footprint :: "bytes \<Rightarrow> superblock \<Rightarrow> inode \<Rightarrow> nat set" where
  "file_footprint part sb i =
     (let bs = nat_i32 (sb_bsize sb); sz = unat (i_size i); blocks = {k. k * bs < sz} in
      (\<Union>k \<in> blocks. block_bytes sb (block_addr part sb i k) (min bs (sz - k * bs)))
      \<union> (\<Union>k \<in> blocks. \<Union>a \<in> tree_blocks part sb i k. block_bytes sb a bs))"

lemma indirect_ptr_agree:
  assumes "valid_slice a" "file_geometry_ok sb" "agree_on (block_bytes sb ad (nat_i32 (sb_bsize sb))) a b"
  shows "indirect_ptr b sb ad idx = indirect_ptr a sb ad idx"
proof (cases "ad = 0")
  case False
  let ?bs = "nat_i32 (sb_bsize sb)" and ?fs = "nat_i32 (sb_fsize sb)"
  have g: "0 < sint (sb_bsize sb)" "0 < sint (sb_fsize sb)" using assms(2) by (simp_all add: file_geometry_ok_def)
  have vb: "valid_slice b" using assms(1,3) agree_valid by blast
  have "take ?bs (drop (unat ad * ?fs) a) = take ?bs (drop (unat ad * ?fs) b)"
    using assms(3) False by (intro agree_window) (simp add: block_bytes_def)
  then have "read_block b sb ad ?bs = read_block a sb ad ?bs"
    by (simp add: read_block_refines [OF assms(1) g(2)] read_block_refines [OF vb g(2)])
  moreover have "unat (scast (sb_bsize sb) :: u64) = ?bs" using g by (simp add: unat_scast_i32 nat_i32_def)
  ultimately show ?thesis using g(1) by (simp add: indirect_ptr_def)
qed simp

lemma follow_agree:
  assumes "valid_slice a" "file_geometry_ok sb"
    and "\<And>j. j < length ds \<Longrightarrow> agree_on (block_bytes sb (follow a sb r (take j ds)) (nat_i32 (sb_bsize sb))) a b"
  shows "follow b sb r ds = follow a sb r ds"
  using assms(3)
proof (induction ds rule: rev_induct)
  case Nil
  then show ?case by (simp add: follow_def)
next
  case (snoc d ds)
  have "follow b sb r ds = follow a sb r ds"
  proof (rule snoc.IH)
    fix j assume "j < length ds"
    then show "agree_on (block_bytes sb (follow a sb r (take j ds)) (nat_i32 (sb_bsize sb))) a b"
      using snoc.prems [of j] by simp
  qed
  moreover have "indirect_ptr b sb (follow a sb r ds) (of_nat d) = indirect_ptr a sb (follow a sb r ds) (of_nat d)"
    using snoc.prems [of "length ds"] by (intro indirect_ptr_agree [OF assms(1,2)]) simp
  ultimately show ?case by (simp add: follow_def)
qed

lemma block_addr_agree:
  assumes "valid_slice a" "file_geometry_ok sb"
    and "\<And>ad. ad \<in> tree_blocks a sb i k \<Longrightarrow> agree_on (block_bytes sb ad (nat_i32 (sb_bsize sb))) a b"
  shows "block_addr b sb i k = block_addr a sb i k"
proof (cases "block_path (sb_nindir_nat sb) k")
  case (InTree l ds)
  have "follow b sb (i_indirect i ! l) ds = follow a sb (i_indirect i ! l) ds"
    using assms(3) by (intro follow_agree [OF assms(1,2)]) (simp add: tree_blocks_def InTree)
  then show ?thesis by (simp add: block_addr_def place_addr_def InTree)
qed (simp_all add: block_addr_def place_addr_def)

lemma read_inode_file_agree:
  assumes part: "valid_slice a" and geo: "file_geometry_ok sb" and agree: "agree_on (file_footprint a sb i) a b"
  shows "read_inode_file b sb i = read_inode_file a sb i"
proof -
  let ?bs = "nat_i32 (sb_bsize sb)" and ?sz = "unat (i_size i)"
  have bs: "0 < ?bs" using geo by (simp add: file_geometry_ok_def nat_i32_def)
  have len: "length b = length a" using agree_length [OF agree] by simp
  have "file_byte b sb i p = file_byte a sb i p" if p: "p < ?sz" for p
  proof -
    let ?k = "p div ?bs"
    have k: "?k * ?bs < ?sz" using p div_times_less_eq_dividend [of p ?bs] by (rule le_less_trans [rotated])
    have m: "p mod ?bs < min ?bs (?sz - ?k * ?bs)"
      using p bs div_mult_mod_eq [of p ?bs] by (simp add: less_diff_conv add.commute)
    have ad: "block_addr b sb i ?k = block_addr a sb i ?k"
      using k by (intro block_addr_agree [OF part geo] agree_mono [OF agree]) (auto simp: file_footprint_def Let_def)
    have "block_bytes sb (block_addr a sb i ?k) (min ?bs (?sz - ?k * ?bs)) \<subseteq> file_footprint a sb i"
      using k by (auto simp: file_footprint_def Let_def)
    from agree_mono [OF agree this]
    have "a ! (unat (block_addr a sb i ?k) * nat_i32 (sb_fsize sb) + p mod ?bs)
        = b ! (unat (block_addr a sb i ?k) * nat_i32 (sb_fsize sb) + p mod ?bs)"
      if "block_addr a sb i ?k \<noteq> 0"
        "unat (block_addr a sb i ?k) * nat_i32 (sb_fsize sb) + p mod ?bs < length a"
      using that m by (auto simp: agree_on_def block_bytes_def)
    then show ?thesis by (simp add: file_byte_def ad len Let_def)
  qed
  moreover have "valid_slice b" using part agree agree_valid by blast
  ultimately show ?thesis
    using part geo len by (simp add: read_inode_file_exact)
qed

end
