(* ===== verification/Sample.thy ===== *)
theory Sample
  imports ForensicCarve
begin

text \<open>
  Small big-endian UFS2 volumes on which the properties are instantiated: one cylinder group with its
  header and inode bitmap, a few inodes, a root directory with live and deleted entries, data blocks,
  and the primary superblock at its offset; a second one has directories without entry types. An image
  is a patched buffer, so each read is a lookup of the field it lies in, and the lemmas on what the
  components read from such a volume hold for any image of this size with those fields.
\<close>

section \<open>The image\<close>

definition sample_sb :: superblock where
  "sample_sb = \<lparr> sb_version = Ufs2, sb_endian = Big, sb_sblkno = 0, sb_cblkno = 8, sb_iblkno = 32,
     sb_dblkno = 300, sb_ncg = 1, sb_bsize = 64, sb_fsize = 8, sb_frag = 8, sb_bshift = 6, sb_fshift = 3,
     sb_fragshift = 3, sb_fsbtodb = 0, sb_sbsize = 1376, sb_nindir = 8, sb_inopb = 1, sb_ipg = 8,
     sb_fpg = 8300, sb_size = 8364, sb_dsize = 8000, sb_csaddr = 0, sb_sblockloc = 65536,
     sb_maxsymlinklen = 120 \<rparr>"

definition sample_cg :: cylinder_group where
  "sample_cg = \<lparr> cg_cgx = 0, cg_ndblk = 8300, cg_niblk = 8, cg_initediblk = 8, cg_iusedoff = 124,
     cg_freeoff = 125, cg_clusteroff = 0 \<rparr>"

definition sample_inode :: "u16 \<Rightarrow> u16 \<Rightarrow> u64 \<Rightarrow> u64 \<Rightarrow> inode" where
  "sample_inode mode nlink sz addr = \<lparr> i_version = Ufs2, i_mode = mode, i_file_type = file_type_from_mode mode,
     i_nlink = nlink, i_uid = 1000, i_gid = 1000, i_size = sz, i_blocks = 1,
     i_atime = \<lparr> ts_sec = 1700000000, ts_nsec = 1 \<rparr>, i_mtime = \<lparr> ts_sec = 1700000000, ts_nsec = 2 \<rparr>,
     i_ctime = \<lparr> ts_sec = 1700000000, ts_nsec = 3 \<rparr>,
     i_birthtime = Some \<lparr> ts_sec = 1700000000, ts_nsec = 4 \<rparr>,
     i_direct = addr # replicate 11 0, i_indirect = [0, 0, 0], i_fast_symlink = None \<rparr>"

text \<open>The root directory, a live file, an orphan with a link count, and a freed file.\<close>

definition sample_root :: inode where "sample_root = sample_inode 0x41ED 2 36 300"
definition sample_live :: inode where "sample_live = sample_inode 0x81A4 1 5 310"
definition sample_orphan :: inode where "sample_orphan = sample_inode 0x81A4 3 5 310"
definition sample_freed :: inode where "sample_freed = sample_inode 0x81A4 0 5 310"

definition sample_dirents :: "raw_dirent list" where
  "sample_dirents =
     [\<lparr> rd_ino = 2, rd_type = 4, rd_name = [0x2E], rd_pad = [0, 0, 0] \<rparr>,
      \<lparr> rd_ino = 3, rd_type = 8, rd_name = [0x61], rd_pad = [0, 0, 0] \<rparr>,
      \<lparr> rd_ino = 0, rd_type = 8, rd_name = [0x62], rd_pad = [0, 0, 0] \<rparr>]"

definition dinode_bytes :: "inode \<Rightarrow> bytes" where
  "dinode_bytes i = inode_write Big i (replicate 256 0)"

definition sample_content :: bytes where
  "sample_content = [0x68, 0x65, 0x6C, 0x6C, 0x6F]"

definition sample_fields :: "(nat \<times> bytes) list" where
  "sample_fields =
     [(64, cg_write Big sample_cg (replicate 124 0)), (188, [0x1F]),
      (768, dinode_bytes sample_root), (1024, dinode_bytes sample_live),
      (1280, dinode_bytes sample_orphan), (1536, dinode_bytes sample_freed),
      (2400, concat (map (raw_bytes Big) sample_dirents)), (2480, sample_content),
      (65536, sb_write sample_sb (replicate 1376 0))]"

definition sample_image :: bytes where
  "sample_image = patch (replicate 66912 0) sample_fields"

lemma length_sample_image [simp]: "length sample_image = 66912"
  by (simp add: sample_image_def)

lemma valid_sample_image [simp]: "valid_slice sample_image"
  by (simp add: valid_slice_def)

lemma length_dinode_bytes [simp]: "length (dinode_bytes i) = 256"
  by (simp add: dinode_bytes_def)

lemma sample_fields_ordered: "ordered_fields sample_fields"
  by (simp add: sample_fields_def ordered_fields_def sample_dirents_def raw_reclen_def sample_content_def)

text \<open>An image of this size made of fields holds each of them at its place.\<close>

lemma patched_get:
  assumes "ordered_fields fs" and "(off, b) \<in> set fs" and "off + length b \<le> 66912" and "n = length b"
  shows "take n (drop off (patch (replicate 66912 0) fs)) = b"
proof -
  have "slice_get (patch (replicate 66912 0) fs) off (off + length b) = Some b"
    using assms(1-3) by (intro patch_get) simp_all
  then show ?thesis using assms(4) by (simp add: slice_get_Some_iff)
qed

lemma sample_get:
  assumes "(off, b) \<in> set sample_fields" and "n = length b"
  shows "take n (drop off sample_image) = b"
proof -
  have "off + length b \<le> 66912"
    using assms(1) by (auto simp: sample_fields_def sample_dirents_def raw_reclen_def sample_content_def)
  with assms show ?thesis unfolding sample_image_def by (intro patched_get sample_fields_ordered)
qed

section \<open>What the components read from such a volume\<close>

lemma sample_sb_wf: "wf_superblock sample_sb"
  by (simp add: sample_sb_def wf_superblock_def wf_geometry_def)

lemma volume_parse:
  assumes "length img = 66912" and "take 1376 (drop 65536 img) = sb_write sample_sb (replicate 1376 0)"
  shows "sb_parse (drop 65536 img) = Inr sample_sb"
proof -
  have "drop 65536 img = sb_write sample_sb (replicate 1376 0)" using assms by simp
  then show ?thesis using sample_sb_wf by (simp add: sb_parse_write sb_consts)
qed

lemma sample_geometry:
  "inode_geometry_ok sample_sb" "file_geometry_ok sample_sb" "nat_i32 (sb_fsize sample_sb) = 8"
  "nat_i32 (sb_bsize sample_sb) = 64" "nat_i32 (sb_ipg sample_sb) = 8" "nat_i32 (sb_fpg sample_sb) = 8300"
  "inode_count sample_sb = 8" "dinode_size (sb_version sample_sb) = 256" "sb_endian sample_sb = Big"
  "n < 8 \<Longrightarrow> inode_offset sample_sb n = 256 + n * 256"
  by (simp_all add: sample_sb_def inode_geometry_ok_def file_geometry_ok_def nat_i32_def inode_count_def
      dinode_size_def inode_offset_def sb_consts)

lemma sample_inode_wf: "wf_inode (sample_inode mode nlink sz addr)"
  by (simp add: wf_inode_def sample_inode_def sb_consts)

lemma volume_inode:
  assumes "length img = 66912"
    and "take 256 (drop (256 + n * 256) img) = dinode_bytes (sample_inode mode nlink sz addr)"
    and "n < 8" and "file_type_from_mode mode \<noteq> FtSymlink"
  shows "read_inode img sample_sb (of_nat n) = Inr (sample_inode mode nlink sz addr)"
proof -
  let ?i = "sample_inode mode nlink sz addr"
  have un: "unat (of_nat n :: u64) = n" using assms(3) by (simp add: unat_of_nat)
  have v: "i_version ?i = Ufs2" by (simp add: sample_inode_def)
  have "valid_slice img" using assms(1) by (simp add: valid_slice_def)
  moreover have "inode_decode (dinode_bytes ?i) Ufs2 Big m = ?i" for m
    using inode_decode_write [of ?i "replicate 256 0" Big m] sample_inode_wf assms(4)
    unfolding dinode_bytes_def
    by (simp add: v dinode_size_def sb_consts inode_fast_symlink_def) (simp add: sample_inode_def)
  moreover have "sb_version sample_sb = Ufs2" "sb_endian sample_sb = Big" by (simp_all add: sample_sb_def)
  ultimately show ?thesis
    using assms(1-3)
    by (simp add: read_inode_refines sample_geometry un Let_def dinode_size_def UFS2_DINODE_SIZE_def)
qed

lemma volume_listing:
  assumes "length img = 66912" and "addr \<noteq> 0" and "unat sz \<le> 64"
    and "take (unat sz) (drop (unat addr * 8) img) = concat (map (raw_bytes Big) ds)"
    and "\<forall>r \<in> set ds. raw_ok r"
  shows "list_dir_entries img sample_sb (sample_inode mode nlink sz addr) = map raw_entry ds"
proof -
  let ?i = "sample_inode mode nlink sz addr"
  have v: "valid_slice img" using assms(1) by (simp add: valid_slice_def)
  then have "valid_slice (concat (map (raw_bytes Big) ds) @ [])"
    using assms(4) by (simp flip: assms(4) add: valid_slice_def min.strict_coboundedI2)
  then have "walk_entries (concat (map (raw_bytes Big) ds) @ []) Big = map raw_entry ds"
    using assms(5) by (rule walk_entries_layout) (simp add: walk_ends_def)
  then have w: "walk_entries (dir_block img sample_sb ?i 0) Big = map raw_entry ds"
    using assms(2-4) by (simp add: dir_block_def sample_inode_def sample_geometry Let_def min_absorb1)
  have z: "walk_entries (dir_block img sample_sb ?i (Suc k)) Big = []" if "k < 11" for k
    using that by (simp add: dir_block_def sample_inode_def Let_def walk_entries_short)
  have n: "length (i_direct ?i) = 12" by (simp add: sample_inode_def)
  have u: "[0..<12] = 0 # map Suc [0..<11]" by (simp add: map_Suc_upt upt_conv_Cons del: upt_Suc)
  have g: "0 < sint (sb_fsize sample_sb)" "0 < sint (sb_bsize sample_sb)"
    using sample_geometry(2) by (simp_all add: file_geometry_ok_def)
  have "list_dir_entries img sample_sb ?i =
      concat (map (\<lambda>k. walk_entries (dir_block img sample_sb ?i k) Big) [0..<12])"
    using list_dir_entries_exact [OF v g, of ?i] unfolding n sample_geometry(9) .
  also have "\<dots> = concat (map (\<lambda>k. walk_entries (dir_block img sample_sb ?i k) Big) (0 # map Suc [0..<11]))"
    unfolding u ..
  also have "\<dots> = map raw_entry ds"
  proof -
    have "map (\<lambda>k. walk_entries (dir_block img sample_sb ?i (Suc k)) Big) [0..<11] = map (\<lambda>k. []) [0..<11]"
      by (rule map_cong) (simp_all add: z)
    from arg_cong [OF this, of concat] show ?thesis by (simp add: w comp_def)
  qed
  finally show ?thesis .
qed

lemma volume_header:
  assumes "length img = 66912" and "take 124 (drop 64 img) = cg_write Big sample_cg (replicate 124 0)"
  shows "cg_parse (drop 64 img) Big = Inr sample_cg"
proof -
  have "cg_write Big sample_cg (drop 64 img) = drop 64 img"
    unfolding cg_write_def
    by (rule cg_layout.written_prefix [of "replicate 124 0"])
      (use assms in \<open>simp_all add: CG_MIN_LEN_def cg_write_def\<close>)
  then show ?thesis using cg_parse_write [of "drop 64 img" Big sample_cg] assms(1) by (simp add: sb_consts)
qed

lemma volume_bitmap:
  assumes "length img = 66912" and "take 124 (drop 64 img) = cg_write Big sample_cg (replicate 124 0)"
    and "take 1 (drop 188 img) = [b]"
  shows "cg_inode_bitmap img sample_sb 0 = Some [b]"
proof -
  have bm: "slice_get (drop 64 img) 124 125 = Some [b]" using assms(1,3) by (simp add: slice_get_def)
  show ?thesis
    using volume_header [OF assms(1,2)] bm assms(1)
    by (simp add: cg_inode_bitmap_def sample_sb_def Let_def slice_from_def sat_mul_def sat_add_def
        cg_inosused_off_def sample_cg_def div_ceil_def)
qed

section \<open>What they read from the image\<close>

lemma sample_parse: "sb_parse (drop 65536 sample_image) = Inr sample_sb"
  by (rule volume_parse) (simp, rule sample_get, simp_all add: sample_fields_def)

lemma sample_primary: "parse_primary_sb sample_image = Inr sample_sb"
  using sample_parse by (simp add: parse_primary_sb_Inr SBLOCK_UFS2_def)

lemma sample_inodes:
  "read_inode sample_image sample_sb 2 = Inr sample_root" "read_inode sample_image sample_sb 3 = Inr sample_live"
  "read_inode sample_image sample_sb 4 = Inr sample_orphan" "read_inode sample_image sample_sb 5 = Inr sample_freed"
proof -
  have dir: "file_type_from_mode 0x41ED \<noteq> FtSymlink" and reg: "file_type_from_mode 0x81A4 \<noteq> FtSymlink"
    by (simp_all add: file_type_from_mode_def IFMT_def)
  note get = sample_get [OF _ length_dinode_bytes [symmetric]] and len = length_sample_image
  show "read_inode sample_image sample_sb 2 = Inr sample_root"
    using volume_inode [OF len get _ dir, of 2 2 36 300] by (simp add: sample_fields_def sample_root_def)
  show "read_inode sample_image sample_sb 3 = Inr sample_live"
    using volume_inode [OF len get _ reg, of 3 1 5 310] by (simp add: sample_fields_def sample_live_def)
  show "read_inode sample_image sample_sb 4 = Inr sample_orphan"
    using volume_inode [OF len get _ reg, of 4 3 5 310] by (simp add: sample_fields_def sample_orphan_def)
  show "read_inode sample_image sample_sb 5 = Inr sample_freed"
    using volume_inode [OF len get _ reg, of 5 0 5 310] by (simp add: sample_fields_def sample_freed_def)
qed

lemma sample_types:
  "i_file_type sample_root = FtDirectory" "i_file_type sample_live = FtRegular"
  "i_file_type sample_freed = FtRegular" "i_file_type sample_orphan = FtRegular"
  by (simp_all add: sample_root_def sample_live_def sample_orphan_def sample_freed_def sample_inode_def
      file_type_from_mode_def IFMT_def)

lemma sample_listing:
  "list_dir_all sample_image sample_sb 2 = Inr (map raw_entry sample_dirents)"
proof -
  have "take 36 (drop 2400 sample_image) = concat (map (raw_bytes Big) sample_dirents)"
    by (rule sample_get) (simp_all add: sample_fields_def sample_dirents_def raw_reclen_def)
  moreover have "\<forall>r \<in> set sample_dirents. raw_ok r"
    by (simp add: raw_ok_def raw_reclen_def sample_dirents_def)
  ultimately have "list_dir_entries sample_image sample_sb sample_root = map raw_entry sample_dirents"
    unfolding sample_root_def by (intro volume_listing) simp_all
  then show ?thesis by (simp add: list_dir_all_def sample_inodes)
qed

lemma sample_file: "read_inode_file sample_image sample_sb (sample_inode mode nlink 5 310) = Inr sample_content"
proof -
  let ?i = "sample_inode mode nlink 5 310"
  have c: "take 5 (drop 2480 sample_image) = sample_content"
    by (rule sample_get) (simp_all add: sample_fields_def sample_content_def)
  have "map (file_byte sample_image sample_sb ?i) [0..<5] = take 5 (drop 2480 sample_image)"
  proof (rule nth_equalityI)
    fix k assume "k < length (map (file_byte sample_image sample_sb ?i) [0..<5])"
    then have "k < 5" by simp
    then show "map (file_byte sample_image sample_sb ?i) [0..<5] ! k = take 5 (drop 2480 sample_image) ! k"
      by (simp add: file_byte_def Let_def sample_geometry block_addr_def block_path_def place_addr_def)
        (simp add: sample_inode_def)
  qed simp
  then show ?thesis
    using read_inode_file_exact [OF valid_sample_image sample_geometry(2), of ?i] c
    by (simp add: sample_inode_def)
qed

lemma sample_bitmap: "cg_inode_bitmap sample_image sample_sb 0 = Some [0x1F]"
proof (rule volume_bitmap)
  show "take 124 (drop 64 sample_image) = cg_write Big sample_cg (replicate 124 0)"
    by (rule sample_get) (simp_all add: sample_fields_def)
  show "take 1 (drop 188 sample_image) = [0x1F]"
    by (rule sample_get) (simp_all add: sample_fields_def)
qed simp

section \<open>What the analyzer finds in it\<close>

lemma sample_entries:
  "map raw_entry sample_dirents =
     [\<lparr> de_name = dot, de_ino = 2, de_file_type = DtDirectory, de_deleted = False \<rparr>,
      \<lparr> de_name = [0x61], de_ino = 3, de_file_type = DtRegular, de_deleted = False \<rparr>,
      \<lparr> de_name = [0x62], de_ino = 0, de_file_type = DtRegular, de_deleted = True \<rparr>]"
  by (simp add: sample_dirents_def raw_entry_def from_d_type_def)

lemma sample_reachable: "reachable_inodes sample_image sample_sb = [2, 3]"
proof -
  have "reach_loop sample_image sample_sb 1048576 [2] [2] = reach_loop sample_image sample_sb 1048575 [] [2, 3]"
    by (subst reach_loop.simps) (simp add: vec_pop_def sample_listing sample_entries is_dir_entry_def)
  also have "\<dots> = [2, 3]" by (subst reach_loop.simps) simp
  finally show ?thesis by (simp add: reachable_inodes_def WALK_BUDGET_def UFS_ROOTINO_def)
qed

lemma sample_deleted: "collect_deleted_dirents sample_image sample_sb = [([0x62], 0)]"
proof -
  have "decode_name [0x62] = [0x62]"
    by (simp add: decode_name_def from_utf8_lossy.simps [of "[0x62]"] utf8_step_def u8_at_def)
  then have "collect_loop sample_image sample_sb 1048576 [2] ([], []) =
      collect_loop sample_image sample_sb 1048575 [] ([2], [([0x62], 0)])"
    by (subst collect_loop.simps) (simp add: vec_pop_def sample_listing sample_entries is_dir_entry_def)
  also have "\<dots> = ([2], [([0x62], 0)])" by (subst collect_loop.simps) simp
  finally show ?thesis by (simp add: collect_deleted_dirents_def WALK_BUDGET_def UFS_ROOTINO_def)
qed

lemma sample_allocated:
  assumes "n < 8"
  shows "inode_allocated sample_image sample_sb n \<longleftrightarrow> n < 5" "inode_free sample_image sample_sb n \<longleftrightarrow> \<not> n < 5"
proof -
  have "bitmap_bit [0x1F] n \<longleftrightarrow> n < 5"
  proof -
    have "n \<in> {0, 1, 2, 3, 4, 5, 6, 7}" using assms by auto
    then show ?thesis by (auto simp: bitmap_bit_def)
  qed
  then show "inode_allocated sample_image sample_sb n \<longleftrightarrow> n < 5" "inode_free sample_image sample_sb n \<longleftrightarrow> \<not> n < 5"
    using assms by (simp_all add: inode_allocated_def inode_free_def sample_geometry sample_bitmap)
qed

section \<open>Images with only a superblock\<close>

lemma sb_parse_append:
  assumes "wf_superblock sb" and "SB_MIN_LEN \<le> length base"
  shows "sb_parse (sb_write sb base @ rest) = Inr sb"
proof -
  let ?d = "sb_write sb base @ rest"
  have "sb_write sb ?d = ?d"
    unfolding sb_write_def by (rule sb_layout.written_prefix [OF assms(2)]) (simp add: assms(2))
  then show ?thesis using sb_parse_write [of ?d sb] assms by simp
qed

lemma sb_write_rest: "SB_MIN_LEN \<le> length base \<Longrightarrow> drop SB_MIN_LEN (sb_write sb base) = drop SB_MIN_LEN base"
  unfolding sb_write_def by (rule sb_layout.beyond)

lemma zeros4: "replicate 4 (0 :: u8) = [0, 0, 0, 0]"
  by (simp add: eval_nat_numeral)

definition bare_image :: "superblock \<Rightarrow> bytes \<Rightarrow> bytes" where
  "bare_image sb rest = replicate 65536 0 @ sb_write sb (replicate 1376 0) @ rest"

lemma length_bare_image [simp]: "length (bare_image sb rest) = 66912 + length rest"
  by (simp add: bare_image_def)

lemma bare_parse: "wf_superblock sb \<Longrightarrow> sb_parse (drop 65536 (bare_image sb rest)) = Inr sb"
  by (simp add: bare_image_def sb_parse_append SB_MIN_LEN_def)

lemma bare_primary: "wf_superblock sb \<Longrightarrow> parse_primary_sb (bare_image sb rest) = Inr sb"
  using bare_parse by (simp add: parse_primary_sb_Inr SBLOCK_UFS2_def)

section \<open>The directory graph of the image\<close>

lemma sample_edges: "image_edges sample_image sample_sb 2 = [(3, False)]"
  by (simp add: image_edges_def sample_listing sample_entries live_link_def is_dir_entry_def)

lemma sample_dirs: "image_dirs sample_image sample_sb = {2}"
proof
  show "image_dirs sample_image sample_sb \<subseteq> {2}"
    unfolding image_dirs_def by (rule dir_closure_least) (auto simp: sample_edges UFS_ROOTINO_def)
  show "{2} \<subseteq> image_dirs sample_image sample_sb"
    using dir_closure_root [of UFS_ROOTINO] by (simp add: image_dirs_def UFS_ROOTINO_def)
qed

lemma sample_types_agree: "types_agree (image_edges sample_image sample_sb) UFS_ROOTINO"
  using sample_dirs by (simp add: types_agree_def image_dirs_def sample_edges)

section \<open>A volume of the old directory format\<close>

text \<open>
  Directory entries without a type: the root names directory 3, which names file 4, so that \<open>a/x\<close> is
  a path to an allocated inode with a link.
\<close>

definition old_dirents :: "raw_dirent list" where
  "old_dirents =
     [\<lparr> rd_ino = 2, rd_type = 0, rd_name = [0x2E], rd_pad = [0, 0, 0] \<rparr>,
      \<lparr> rd_ino = 3, rd_type = 0, rd_name = [0x61], rd_pad = [0, 0, 0] \<rparr>]"

definition old_subdirents :: "raw_dirent list" where
  "old_subdirents = [\<lparr> rd_ino = 4, rd_type = 0, rd_name = [0x78], rd_pad = [0, 0, 0] \<rparr>]"

definition old_root :: inode where "old_root = sample_inode 0x41ED 3 24 300"
definition old_dir :: inode where "old_dir = sample_inode 0x41ED 2 12 310"
definition old_file :: inode where "old_file = sample_inode 0x81A4 1 5 320"

definition old_fields :: "(nat \<times> bytes) list" where
  "old_fields =
     [(64, cg_write Big sample_cg (replicate 124 0)), (188, [0x1F]),
      (768, dinode_bytes old_root), (1024, dinode_bytes old_dir), (1280, dinode_bytes old_file),
      (2400, concat (map (raw_bytes Big) old_dirents)), (2480, concat (map (raw_bytes Big) old_subdirents)),
      (65536, sb_write sample_sb (replicate 1376 0))]"

definition old_image :: bytes where
  "old_image = patch (replicate 66912 0) old_fields"

lemma length_old_image [simp]: "length old_image = 66912"
  by (simp add: old_image_def)

lemma valid_old_image [simp]: "valid_slice old_image"
  by (simp add: valid_slice_def)

lemma old_get:
  assumes "(off, b) \<in> set old_fields" and "n = length b"
  shows "take n (drop off old_image) = b"
proof -
  have "ordered_fields old_fields"
    by (simp add: old_fields_def ordered_fields_def old_dirents_def old_subdirents_def raw_reclen_def)
  moreover have "off + length b \<le> 66912"
    using assms(1) by (auto simp: old_fields_def old_dirents_def old_subdirents_def raw_reclen_def)
  ultimately show ?thesis unfolding old_image_def using assms by (intro patched_get)
qed

lemma old_primary: "parse_primary_sb old_image = Inr sample_sb"
proof -
  have "sb_parse (drop 65536 old_image) = Inr sample_sb"
    by (rule volume_parse) (simp, rule old_get, simp_all add: old_fields_def)
  then show ?thesis by (simp add: parse_primary_sb_Inr SBLOCK_UFS2_def)
qed

lemma old_inodes:
  "read_inode old_image sample_sb 2 = Inr old_root" "read_inode old_image sample_sb 3 = Inr old_dir"
  "read_inode old_image sample_sb 4 = Inr old_file"
proof -
  have dir: "file_type_from_mode 0x41ED \<noteq> FtSymlink" and reg: "file_type_from_mode 0x81A4 \<noteq> FtSymlink"
    by (simp_all add: file_type_from_mode_def IFMT_def)
  note get = old_get [OF _ length_dinode_bytes [symmetric]] and len = length_old_image
  show "read_inode old_image sample_sb 2 = Inr old_root"
    using volume_inode [OF len get _ dir, of 2 3 24 300] by (simp add: old_fields_def old_root_def)
  show "read_inode old_image sample_sb 3 = Inr old_dir"
    using volume_inode [OF len get _ dir, of 3 2 12 310] by (simp add: old_fields_def old_dir_def)
  show "read_inode old_image sample_sb 4 = Inr old_file"
    using volume_inode [OF len get _ reg, of 4 1 5 320] by (simp add: old_fields_def old_file_def)
qed

lemma old_listings:
  "list_dir_entries old_image sample_sb old_root = map raw_entry old_dirents"
  "list_dir_entries old_image sample_sb old_dir = map raw_entry old_subdirents"
proof -
  have ok: "\<forall>r \<in> set old_dirents. raw_ok r" "\<forall>r \<in> set old_subdirents. raw_ok r"
    by (simp_all add: raw_ok_def raw_reclen_def old_dirents_def old_subdirents_def)
  have "take 24 (drop 2400 old_image) = concat (map (raw_bytes Big) old_dirents)"
    "take 12 (drop 2480 old_image) = concat (map (raw_bytes Big) old_subdirents)"
    by (rule old_get; simp add: old_fields_def old_dirents_def old_subdirents_def raw_reclen_def)+
  then show "list_dir_entries old_image sample_sb old_root = map raw_entry old_dirents"
    "list_dir_entries old_image sample_sb old_dir = map raw_entry old_subdirents"
    unfolding old_root_def old_dir_def using ok by (intro volume_listing; simp)+
qed

lemma old_entries:
  "map raw_entry old_dirents =
     [\<lparr> de_name = dot, de_ino = 2, de_file_type = DtUnknown, de_deleted = False \<rparr>,
      \<lparr> de_name = [0x61], de_ino = 3, de_file_type = DtUnknown, de_deleted = False \<rparr>]"
  "map raw_entry old_subdirents =
     [\<lparr> de_name = [0x78], de_ino = 4, de_file_type = DtUnknown, de_deleted = False \<rparr>]"
  by (simp_all add: old_dirents_def old_subdirents_def raw_entry_def from_d_type_def)

lemma old_path: "read_by_path old_image sample_sb [0x61, slash, 0x78] = Inr (Some (4, old_file))"
proof -
  have "inode_is_dir old_root" "inode_is_dir old_dir"
    by (simp_all add: old_root_def old_dir_def sample_inode_def inode_is_dir_def file_type_from_mode_def IFMT_def)
  then show ?thesis
    by (simp add: read_by_path_def UFS_ROOTINO_def old_inodes old_listings old_entries)
qed

lemma old_allocated: "inode_allocated old_image sample_sb 4"
proof -
  have "cg_inode_bitmap old_image sample_sb 0 = Some [0x1F]"
  proof (rule volume_bitmap)
    show "take 124 (drop 64 old_image) = cg_write Big sample_cg (replicate 124 0)"
      by (rule old_get) (simp_all add: old_fields_def)
    show "take 1 (drop 188 old_image) = [0x1F]"
      by (rule old_get) (simp_all add: old_fields_def)
  qed simp
  then show ?thesis by (simp add: inode_allocated_def sample_geometry bitmap_bit_def)
qed

end
