(* ===== verification/ForensicProperties.thy ===== *)
theory ForensicProperties
  imports Sample
begin

text \<open>
  What the analyzer finds and recovers, for every image: each kind of anomaly, the reachability walk,
  the recovered entries and files, each stated exactly and instantiated on the images of \<open>Sample\<close>.
\<close>

section \<open>The auditor\<close>

text \<open>The region at \<open>off\<close> is a full superblock region whose four magic bytes are no UFS magic.\<close>

definition magic_bad :: "bytes \<Rightarrow> nat \<Rightarrow> bool" where
  "magic_bad img off \<longleftrightarrow> off + SB_MIN_LEN \<le> length img
     \<and> (\<forall>e v. take 4 (drop (off + FS_MAGIC_OFF) img) \<noteq> endian_bytes e (magic_of v))"

lemma magic_bad_parse:
  assumes "off \<le> length img"
  shows "magic_bad img off \<longleftrightarrow> \<not> not_bad_magic (sb_parse (drop off img)) \<and> (\<nexists>sb. sb_parse (drop off img) = Inr sb)"
proof -
  have "sb_magic_bytes (drop off img) = take 4 (drop (off + FS_MAGIC_OFF) img)"
    if "SB_MIN_LEN \<le> length (drop off img)"
    using sb_magic_bytes_slice [OF that] by (simp add: slice_get_Some_iff add.commute)
  moreover have "SB_MIN_LEN \<le> length (drop off img) \<longleftrightarrow> off + SB_MIN_LEN \<le> length img"
    using assms by auto
  ultimately have "magic_bad img off \<longleftrightarrow> (\<exists>o' bs le be. sb_parse (drop off img) = Inl (ErrBadMagic o' bs le be))"
    unfolding sb_parse_bad_magic_iff magic_bad_def by metis
  then show ?thesis by (auto simp: not_bad_magic_def split: sum.splits ufs_error.splits)
qed

lemma magic_bad_length: "magic_bad img off \<Longrightarrow> off \<le> length img"
  by (simp add: magic_bad_def)

lemma magic_bad_bytes:
  "magic_bad img off \<Longrightarrow> sb_magic_bytes (drop off img) = take 4 (drop (off + FS_MAGIC_OFF) img)"
  using sb_magic_bytes_slice [of "drop off img"]
  by (simp add: magic_bad_def slice_get_Some_iff add.commute le_diff_conv2)

lemma parse_primary_sb_cases:
  "parse_primary_sb img =
     (if magic_bad img SBLOCK_UFS2
      then Inl (SbMagicInvalid 66908 (take 4 (drop 66908 img)))
      else case parse_primary img SBLOCK_UFS2 of
        Inr sb \<Rightarrow> Inr sb
      | Inl _ \<Rightarrow>
          if magic_bad img SBLOCK_UFS1 then Inl (SbMagicInvalid 9564 (take 4 (drop 9564 img)))
          else case parse_primary img SBLOCK_UFS1 of Inr sb \<Rightarrow> Inr sb | Inl _ \<Rightarrow> Inl SbNotUfs)"
proof -
  have one: "parse_primary_from img (off # offs) =
      (if magic_bad img off then Inl (SbMagicInvalid (of_nat (off + FS_MAGIC_OFF)) (take 4 (drop (off + FS_MAGIC_OFF) img)))
       else case parse_primary img off of Inr sb \<Rightarrow> Inr sb | Inl _ \<Rightarrow> parse_primary_from img offs)" for off offs
    using magic_bad_parse [of off img] magic_bad_length [of img off] magic_bad_bytes [of img off]
    by (auto simp: parse_primary_from_Cons parse_primary_def slice_from_def not_bad_magic_def
        simp del: parse_primary_from.simps(2) split: sum.splits ufs_error.splits)
  show ?thesis
    unfolding parse_primary_sb_def one by (simp add: SBLOCK_UFS1_def SBLOCK_UFS2_def FS_MAGIC_OFF_def split: sum.split)
qed

text \<open>Where each kind of anomaly comes from.\<close>

lemma ex_Inr: "r = Inr j \<Longrightarrow> (\<exists>i. r = Inr i \<and> P i) \<longleftrightarrow> P j" "r = Inl e \<Longrightarrow> (\<exists>i. r = Inr i \<and> P i) \<longleftrightarrow> False"
  by auto

lemma in_divergences:
  "a \<in> set (divergences img sb c) \<longleftrightarrow> 1 \<le> c \<and> 0 < sint (sb_sblkno sb)
     \<and> frag_off sb c (sb_sblkno sb) \<le> length img
     \<and> (\<exists>backup f p b. sb_parse (drop (frag_off sb c (sb_sblkno sb)) img) = Inr backup
          \<and> (f, p, b) \<in> set (backup_checks sb backup) \<and> p \<noteq> b
          \<and> a = anomaly_new (BackupSuperblockDivergence (of_nat c) f p b (of_nat (frag_off sb c (sb_sblkno sb)))))"
proof -
  have pick: "a \<in> set [anomaly_new (BackupSuperblockDivergence g f p b off). (f, p, b) \<leftarrow> xs, p \<noteq> b] \<longleftrightarrow>
      (\<exists>f p b. (f, p, b) \<in> set xs \<and> p \<noteq> b \<and> a = anomaly_new (BackupSuperblockDivergence g f p b off))" for xs g off
    by (induction xs) (simp, force)
  show ?thesis
  proof (cases "sb_parse (drop (frag_off sb c (sb_sblkno sb)) img)")
    case (Inl e)
    show ?thesis unfolding divergences_def Let_def Inl sum.case by simp
  next
    case (Inr backup)
    have e: "(\<exists>backup f p b. sb_parse (drop (frag_off sb c (sb_sblkno sb)) img) = Inr backup \<and> Q backup f p b)
        \<longleftrightarrow> (\<exists>f p b. Q backup f p b)" for Q :: "superblock \<Rightarrow> string \<Rightarrow> u64 \<Rightarrow> u64 \<Rightarrow> bool"
      using Inr by auto
    show ?thesis unfolding e divergences_def Let_def Inr sum.case
      using pick [of _ _ "backup_checks sb backup"] by (simp del: set_concat)
  qed
qed

lemma in_bad_cg_magic:
  "a \<in> set (bad_cg_magic img sb c) \<longleftrightarrow>
     (let off = frag_off sb c (sb_cblkno sb) in 0 < sint (sb_cblkno sb) \<and> off + 8 \<le> length img
       \<and> take 4 (drop (off + 4) img) \<noteq> endian_bytes Little CG_MAGIC
       \<and> take 4 (drop (off + 4) img) \<noteq> endian_bytes Big CG_MAGIC
       \<and> a = anomaly_new (CgMagicInvalid (of_nat c) (le_u32 img (off + 4)) (of_nat off)))"
  by (auto simp: bad_cg_magic_def Let_def)

lemma in_orphan_emit:
  "a \<in> set (orphan_emit img sb n) \<longleftrightarrow> 3 \<le> n \<and> inode_allocated img sb n
     \<and> of_nat n \<notin> set (reachable_inodes img sb)
     \<and> (\<exists>i. read_inode img sb (of_nat n) = Inr i \<and> i_nlink i \<noteq> 0
          \<and> a = anomaly_new (OrphanedInode (of_nat n) (i_nlink i)))"
proof (cases "read_inode img sb (of_nat n)")
  case (Inl e)
  show ?thesis unfolding ex_Inr(2) [OF Inl] unfolding orphan_emit_def Inl sum.case by simp
next
  case (Inr i)
  show ?thesis unfolding ex_Inr(1) [OF Inr] unfolding orphan_emit_def Inr sum.case by simp
qed

lemma in_audit_image:
  assumes "valid_slice img" and "parse_primary_sb img = Inr sb"
  shows "a \<in> set (audit_image img) \<longleftrightarrow>
    (if geometry_beyond img sb
     then a = anomaly_new (ImpossibleGeometry ''fs_ncg'' (ucast (sb_ncg sb))
                (of_nat (length img div cg_bytes sb + 1)))
     else 0 < sint (sb_fpg sb)
            \<and> (\<exists>c < unat (sb_ncg sb). a \<in> set (divergences img sb c) \<or> a \<in> set (bad_cg_magic img sb c))
          \<or> (\<exists>n < inode_count sb. a \<in> set (orphan_emit img sb n)))"
  unfolding audit_image_exact [OF assms] by auto

lemma inode_count_u64: "k < inode_count sb \<Longrightarrow> unat (of_nat k :: u64) = k"
proof -
  have "inode_count sb \<le> 2 ^ 63"
    unfolding inode_count_def using nat_i32_less [of "sb_ipg sb"] unat_lt [of "sb_ncg sb"]
      mult_le_mono [of "nat_i32 (sb_ipg sb)" "2 ^ 31" "unat (sb_ncg sb)" "2 ^ 32"] by simp
  then show "k < inode_count sb \<Longrightarrow> unat (of_nat k :: u64) = k" by (simp add: unat_of_nat)
qed

text \<open>
  C29. The primary superblock, as the auditor finds it: an invalid magic is reported exactly when the
  region at 65536 is full and has no UFS magic, or when that region gives no superblock for another
  reason and the one at 8192 is full and has no UFS magic; the report has the offset of the magic field
  and its four bytes, it is the only one, and nothing is recovered from such an image.
\<close>

theorem audit_magic_exact:
  assumes "valid_slice img"
  shows "(anomaly_new (SuperblockMagicInvalid off bs) \<in> set (audit_image img) \<longleftrightarrow>
      magic_bad img SBLOCK_UFS2 \<and> off = 66908 \<and> bs = take 4 (drop 66908 img)
      \<or> \<not> magic_bad img SBLOCK_UFS2 \<and> (\<nexists>sb. parse_primary img SBLOCK_UFS2 = Inr sb)
        \<and> magic_bad img SBLOCK_UFS1 \<and> off = 9564 \<and> bs = take 4 (drop 9564 img))
    \<and> (anomaly_new (SuperblockMagicInvalid off bs) \<in> set (audit_image img) \<longrightarrow>
         audit_image img = [anomaly_new (SuperblockMagicInvalid off bs)] \<and> recover_deleted sha256 img = [])"
proof (cases "parse_primary_sb img")
  case (Inr sb)
  then have no: "anomaly_new (SuperblockMagicInvalid off bs) \<notin> set (audit_image img)"
    unfolding in_audit_image [OF assms Inr]
    by (auto simp: in_divergences in_bad_cg_magic in_orphan_emit Let_def)
  moreover have "\<not> magic_bad img SBLOCK_UFS2"
    "(\<exists>sb. parse_primary img SBLOCK_UFS2 = Inr sb) \<or> \<not> magic_bad img SBLOCK_UFS1"
    using Inr by (auto simp: parse_primary_sb_cases split: if_splits sum.splits)
  ultimately show ?thesis by auto
next
  case (Inl e)
  show ?thesis
    using Inl
    by (cases "parse_primary img SBLOCK_UFS2"; cases "parse_primary img SBLOCK_UFS1")
      (auto simp: audit_image_def recover_deleted_def parse_primary_sb_cases split: if_splits)
qed

theorem audit_magic_exact_witness:
  "anomaly_new (SuperblockMagicInvalid 66908 [0, 0, 0, 0]) \<in> set (audit_image (replicate 66912 0))"
proof -
  have "replicate 4 0 \<noteq> endian_bytes e (magic_of v)" for e v
    unfolding zeros4 by (cases e; cases v) (simp_all add: magic_of_def)
  then have b: "magic_bad (replicate 66912 0) SBLOCK_UFS2"
    by (simp add: magic_bad_def SBLOCK_UFS2_def FS_MAGIC_OFF_def SB_MIN_LEN_def)
  show ?thesis
    using audit_magic_exact [of "replicate 66912 0" 66908 "[0, 0, 0, 0]" "\<lambda>d. d"] b
    by (simp add: valid_slice_def zeros4)
qed

text \<open>
  C27. The geometry guard, in exact arithmetic: impossible geometry is reported exactly when the last
  cylinder group starts at or past the end of the image; then it is the only finding, it names the
  group count, and the bound it gives is the number of whole groups in the image plus one, which never
  exceeds the reported count but can equal it, namely when the image is a whole number of groups
  and the last group starts exactly at its end.
\<close>

theorem audit_geometry_exact:
  assumes "valid_slice img" and "parse_primary_sb img = Inr sb"
  shows "((\<exists>f v l. anomaly_new (ImpossibleGeometry f v l) \<in> set (audit_image img)) \<longleftrightarrow> geometry_beyond img sb)
    \<and> (geometry_beyond img sb \<longrightarrow>
         audit_image img = [anomaly_new (ImpossibleGeometry ''fs_ncg'' (ucast (sb_ncg sb))
                              (of_nat (length img div cg_bytes sb + 1)))]
         \<and> length img div cg_bytes sb + 1 \<le> unat (sb_ncg sb)
         \<and> (length img = (unat (sb_ncg sb) - 1) * cg_bytes sb
              \<longrightarrow> length img div cg_bytes sb + 1 = unat (sb_ncg sb)))"
proof (intro conjI impI)
  show "(\<exists>f v l. anomaly_new (ImpossibleGeometry f v l) \<in> set (audit_image img)) \<longleftrightarrow> geometry_beyond img sb"
    unfolding in_audit_image [OF assms] by (simp add: in_divergences in_bad_cg_magic in_orphan_emit Let_def)
next
  assume g: "geometry_beyond img sb"
  then have c: "0 < cg_bytes sb" "0 < unat (sb_ncg sb)" "length img \<le> (unat (sb_ncg sb) - 1) * cg_bytes sb"
    by (simp_all add: geometry_beyond_def)
  show "audit_image img = [anomaly_new (ImpossibleGeometry ''fs_ncg'' (ucast (sb_ncg sb))
      (of_nat (length img div cg_bytes sb + 1)))]"
    using audit_image_exact [OF assms] g by simp
  have "length img div cg_bytes sb \<le> unat (sb_ncg sb) - 1"
    using div_le_mono [OF c(3), of "cg_bytes sb"] c(1) by simp
  then show "length img div cg_bytes sb + 1 \<le> unat (sb_ncg sb)" using c(2) by linarith
  show "length img div cg_bytes sb + 1 = unat (sb_ncg sb)" if "length img = (unat (sb_ncg sb) - 1) * cg_bytes sb"
    using that c by simp
qed

theorem audit_geometry_exact_witness:
  "audit_image (bare_image (sample_sb\<lparr> sb_fpg := 4182, sb_ncg := 3 \<rparr>) []) =
     [anomaly_new (ImpossibleGeometry ''fs_ncg'' 3 3)]"
proof -
  let ?sb = "sample_sb\<lparr> sb_fpg := 4182, sb_ncg := 3 \<rparr>" and ?img = "bare_image (sample_sb\<lparr> sb_fpg := 4182, sb_ncg := 3 \<rparr>) []"
  have w: "wf_superblock ?sb" by (simp add: sample_sb_def wf_superblock_def wf_geometry_def)
  have cb: "cg_bytes ?sb = 33456" "unat (sb_ncg ?sb) = 3" by (simp_all add: sample_sb_def cg_bytes_def nat_i32_def)
  have "geometry_beyond ?img ?sb" by (simp add: geometry_beyond_def cb)
  then have "audit_image ?img = [anomaly_new (ImpossibleGeometry ''fs_ncg'' (ucast (sb_ncg ?sb)) (of_nat (length ?img div cg_bytes ?sb + 1)))]"
    using audit_geometry_exact [OF _ bare_primary [OF w]] by (simp add: valid_slice_def)
  then show ?thesis unfolding cb by simp
qed

text \<open>
  C26. Backup divergences, sound and complete: a divergence is reported exactly when the geometry is
  possible and \<open>fs_fpg\<close> and \<open>fs_sblkno\<close> are positive, for a group \<open>c\<close> from 1 on whose backup superblock, at the group's base plus
  \<open>fs_sblkno\<close>, parses and differs from the primary in one of the four compared fields, with both values
  and the backup's offset.
\<close>

theorem audit_divergence_exact:
  assumes "valid_slice img" and "parse_primary_sb img = Inr sb"
  shows "anomaly_new (BackupSuperblockDivergence cg f p b off) \<in> set (audit_image img) \<longleftrightarrow>
    \<not> geometry_beyond img sb \<and> 0 < sint (sb_fpg sb) \<and> 0 < sint (sb_sblkno sb)
    \<and> (\<exists>c. 1 \<le> c \<and> c < unat (sb_ncg sb) \<and> cg = of_nat c
         \<and> frag_off sb c (sb_sblkno sb) \<le> length img \<and> off = of_nat (frag_off sb c (sb_sblkno sb))
         \<and> (\<exists>backup. sb_parse (drop (frag_off sb c (sb_sblkno sb)) img) = Inr backup
              \<and> (f, p, b) \<in> set (backup_checks sb backup) \<and> p \<noteq> b))"
  unfolding in_audit_image [OF assms]
  by (auto simp: in_divergences in_bad_cg_magic in_orphan_emit Let_def)

theorem audit_divergence_exact_witness:
  "anomaly_new (BackupSuperblockDivergence 1 ''fs_ipg'' 8 9 66920) \<in> set (audit_image
     (bare_image (sample_sb\<lparr> sb_fpg := 8364, sb_ncg := 2, sb_sblkno := 1 \<rparr>)
       (replicate 8 0 @ sb_write (sample_sb\<lparr> sb_ipg := 9 \<rparr>) (replicate 1376 0) @ [])))"
proof -
  let ?sb = "sample_sb\<lparr> sb_fpg := 8364, sb_ncg := 2, sb_sblkno := 1 \<rparr>" and ?bk = "sample_sb\<lparr> sb_ipg := 9 \<rparr>"
  let ?img = "bare_image ?sb (replicate 8 0 @ sb_write ?bk (replicate 1376 0) @ [])"
  have w: "wf_superblock ?sb" "wf_superblock ?bk" by (simp_all add: sample_sb_def wf_superblock_def wf_geometry_def)
  have cb: "cg_bytes ?sb = 66912" "unat (sb_ncg ?sb) = 2" "frag_off ?sb 1 (sb_sblkno ?sb) = 66920"
    "0 < sint (sb_fpg ?sb)" "0 < sint (sb_sblkno ?sb)"
    by (simp_all add: sample_sb_def cg_bytes_def nat_i32_def frag_off_def)
  have len: "length ?img = 68296" by simp
  have bk: "sb_parse (drop 66920 ?img) = Inr ?bk"
    using sb_parse_append [OF w(2), of "replicate 1376 0" "[]"] by (simp add: bare_image_def SB_MIN_LEN_def)
  have ck: "(''fs_ipg'', 8, 9) \<in> set (backup_checks ?sb ?bk)" by (simp add: backup_checks_def sample_sb_def)
  have "anomaly_new (BackupSuperblockDivergence 1 ''fs_ipg'' 8 9 66920) \<in> set (audit_image ?img) \<longleftrightarrow>
    \<not> geometry_beyond ?img ?sb \<and> 0 < sint (sb_fpg ?sb) \<and> 0 < sint (sb_sblkno ?sb)
    \<and> (\<exists>c. 1 \<le> c \<and> c < unat (sb_ncg ?sb) \<and> (1 :: u32) = of_nat c
         \<and> frag_off ?sb c (sb_sblkno ?sb) \<le> length ?img \<and> (66920 :: u64) = of_nat (frag_off ?sb c (sb_sblkno ?sb))
         \<and> (\<exists>backup. sb_parse (drop (frag_off ?sb c (sb_sblkno ?sb)) ?img) = Inr backup
              \<and> (''fs_ipg'', 8, 9) \<in> set (backup_checks ?sb backup) \<and> 8 \<noteq> (9 :: u64)))"
    by (rule audit_divergence_exact [OF _ bare_primary [OF w(1)]]) (simp add: valid_slice_def)
  moreover have "\<not> geometry_beyond ?img ?sb" unfolding geometry_beyond_def cb len by simp
  moreover have "\<exists>c. 1 \<le> c \<and> c < unat (sb_ncg ?sb) \<and> (1 :: u32) = of_nat c
         \<and> frag_off ?sb c (sb_sblkno ?sb) \<le> length ?img \<and> (66920 :: u64) = of_nat (frag_off ?sb c (sb_sblkno ?sb))
         \<and> (\<exists>backup. sb_parse (drop (frag_off ?sb c (sb_sblkno ?sb)) ?img) = Inr backup
              \<and> (''fs_ipg'', 8, 9) \<in> set (backup_checks ?sb backup) \<and> 8 \<noteq> (9 :: u64))"
  proof (intro exI [of _ "1 :: nat"] conjI)
    show "\<exists>backup. sb_parse (drop (frag_off ?sb 1 (sb_sblkno ?sb)) ?img) = Inr backup
        \<and> (''fs_ipg'', 8, 9) \<in> set (backup_checks ?sb backup) \<and> 8 \<noteq> (9 :: u64)"
      unfolding cb using bk ck by (intro exI [of _ ?bk]) simp
  qed (unfold cb len, simp_all)
  ultimately show ?thesis using cb by blast
qed

text \<open>
  C28. Cylinder-group magics, sound and complete: a bad magic is reported exactly when the geometry is
  possible and \<open>fs_fpg\<close> and \<open>fs_cblkno\<close> are positive, for a group whose header region lies in the image and whose four magic bytes are
  the magic in neither byte order, with the value read little-endian and the header's offset.
\<close>

theorem audit_cg_magic_exact:
  assumes "valid_slice img" and "parse_primary_sb img = Inr sb"
  shows "anomaly_new (CgMagicInvalid cg v off) \<in> set (audit_image img) \<longleftrightarrow>
    \<not> geometry_beyond img sb \<and> 0 < sint (sb_fpg sb) \<and> 0 < sint (sb_cblkno sb)
    \<and> (\<exists>c < unat (sb_ncg sb). let o' = frag_off sb c (sb_cblkno sb) in
         cg = of_nat c \<and> off = of_nat o' \<and> o' + 8 \<le> length img \<and> v = le_u32 img (o' + 4)
         \<and> take 4 (drop (o' + 4) img) \<notin> {endian_bytes Little CG_MAGIC, endian_bytes Big CG_MAGIC})"
  unfolding in_audit_image [OF assms]
  by (auto simp: in_divergences in_bad_cg_magic in_orphan_emit Let_def)

theorem audit_cg_magic_exact_witness:
  "anomaly_new (CgMagicInvalid 0 0 64) \<in> set (audit_image (bare_image sample_sb []))"
proof -
  let ?img = "bare_image sample_sb []"
  have cb: "cg_bytes sample_sb = 66400" "unat (sb_ncg sample_sb) = 1" "frag_off sample_sb 0 (sb_cblkno sample_sb) = 64"
    "0 < sint (sb_fpg sample_sb)" "0 < sint (sb_cblkno sample_sb)"
    by (simp_all add: sample_sb_def cg_bytes_def nat_i32_def frag_off_def)
  have z: "take 4 (drop 68 ?img) = [0, 0, 0, 0]" by (simp add: bare_image_def zeros4)
  have "take 4 (drop 68 ?img) \<noteq> endian_bytes e CG_MAGIC" for e
    unfolding z by (cases e) (simp_all add: endian_bytes_def word_to_be_def word_to_le_def CG_MAGIC_def)
  moreover have "le_u32 ?img 68 = 0" by (simp add: le_u32_def read_array_in z from_le_def)
  moreover have "\<not> geometry_beyond ?img sample_sb" unfolding geometry_beyond_def cb by simp
  ultimately show ?thesis
    using audit_cg_magic_exact [OF _ bare_primary [OF sample_sb_wf], of "[]" 0 0 64] cb
    by (auto simp: valid_slice_def Let_def)
qed

text \<open>
  C5. Orphans, sound and complete: for an image of possible geometry inode \<open>n\<close> is reported as an
  orphan exactly when it is not reserved, its bit is set in its group's bitmap, the walk from the root
  does not reach it, and it loads with a non-zero link count, which is the one reported.
\<close>

theorem audit_orphan_exact:
  assumes "valid_slice img" and "parse_primary_sb img = Inr sb"
  shows "anomaly_new (OrphanedInode n l) \<in> set (audit_image img) \<longleftrightarrow>
    \<not> geometry_beyond img sb \<and> 3 \<le> unat n \<and> unat n < inode_count sb
    \<and> inode_allocated img sb (unat n) \<and> n \<notin> set (reachable_inodes img sb)
    \<and> (\<exists>i. read_inode img sb n = Inr i \<and> i_nlink i = l \<and> l \<noteq> 0)"
proof -
  note un = inode_count_u64
  have "(\<exists>k < inode_count sb. anomaly_new (OrphanedInode n l) \<in> set (orphan_emit img sb k)) \<longleftrightarrow>
      unat n < inode_count sb \<and> anomaly_new (OrphanedInode n l) \<in> set (orphan_emit img sb (unat n))"
  proof
    assume "\<exists>k < inode_count sb. anomaly_new (OrphanedInode n l) \<in> set (orphan_emit img sb k)"
    then obtain k where k: "k < inode_count sb" "anomaly_new (OrphanedInode n l) \<in> set (orphan_emit img sb k)" by blast
    then have "n = of_nat k" unfolding in_orphan_emit by auto
    then show "unat n < inode_count sb \<and> anomaly_new (OrphanedInode n l) \<in> set (orphan_emit img sb (unat n))"
      using k un by simp
  qed blast
  then show ?thesis
    unfolding in_audit_image [OF assms]
    by (auto simp: in_divergences in_bad_cg_magic in_orphan_emit [of _ _ _ "unat n"] Let_def)
qed

theorem audit_orphan_exact_witness:
  "anomaly_new (OrphanedInode 4 3) \<in> set (audit_image sample_image)"
proof -
  have "\<not> geometry_beyond sample_image sample_sb" by (simp add: geometry_beyond_def sample_sb_def)
  moreover have "i_nlink sample_orphan = 3" by (simp add: sample_orphan_def sample_inode_def)
  moreover have "\<exists>i. read_inode sample_image sample_sb 4 = Inr i \<and> i_nlink i = 3 \<and> (3 :: u16) \<noteq> 0"
    using sample_inodes(3) calculation(2) by (intro exI [of _ sample_orphan]) simp
  ultimately show ?thesis
    using audit_orphan_exact [OF valid_sample_image sample_primary, of 4 3] sample_allocated(1) [of 4]
    by (simp add: sample_geometry sample_reachable)
qed

text \<open>
  C7. The reachability walk: it marks the root and only inodes that a live entry of a directory of the
  tree names, each once; and it marks all of them whenever entries to the same inode agree on being
  directories and the tree has at most \<open>2^20\<close> directories, so that the walk's budget is enough.
\<close>

theorem reachable_exact:
  "distinct (reachable_inodes img sb) \<and> UFS_ROOTINO \<in> set (reachable_inodes img sb)
   \<and> set (reachable_inodes img sb) \<subseteq> image_links img sb
   \<and> (types_agree (image_edges img sb) UFS_ROOTINO \<and> card (image_dirs img sb) \<le> 2 ^ 20
        \<longrightarrow> set (reachable_inodes img sb) = image_links img sb)"
  using reachable_inodes_sound [of img sb] reachable_inodes_complete [of img sb]
  by (simp add: WALK_BUDGET_def)

theorem reachable_exact_witness:
  "image_links sample_image sample_sb = {2, 3}"
  using reachable_exact [of sample_image sample_sb] sample_types_agree
  by (simp add: sample_dirs sample_reachable)

text \<open>Where no entry of the root has the directory type, the walk stops below the root.\<close>

lemma reachable_untyped:
  assumes "list_dir_all img sb UFS_ROOTINO = Inr es" and "\<forall>e \<in> set es. \<not> is_dir_entry e"
  shows "set (reachable_inodes img sb) = insert UFS_ROOTINO (de_ino ` {e \<in> set es. live_link e})"
proof -
  have edges: "image_edges img sb UFS_ROOTINO = map (\<lambda>e. (de_ino e, is_dir_entry e)) (filter live_link es)"
    using assms(1) by (simp add: image_edges_def)
  have "image_dirs img sb \<subseteq> {UFS_ROOTINO}"
    unfolding image_dirs_def by (rule dir_closure_least) (use assms(2) in \<open>auto simp: edges\<close>)
  moreover have "UFS_ROOTINO \<in> image_dirs img sb" unfolding image_dirs_def by (rule dir_closure_root)
  ultimately have d: "image_dirs img sb = {UFS_ROOTINO}" by blast
  have "types_agree (image_edges img sb) UFS_ROOTINO"
    using assms(2) d by (auto simp: types_agree_def image_dirs_def edges)
  then have "set (reachable_inodes img sb) = image_links img sb"
    using d by (intro reachable_inodes_complete) (simp_all add: WALK_BUDGET_def)
  also have "\<dots> = insert UFS_ROOTINO (de_ino ` {e \<in> set es. live_link e})"
    using d by (auto simp: image_links_def link_closure_def image_dirs_def edges)
  finally show ?thesis .
qed

lemma read_inode_count:
  assumes "valid_slice img" and "read_inode img sb n = Inr i"
  shows "unat n < inode_count sb"
proof -
  have "inode_geometry_ok sb"
    using assms(2) by (auto simp: read_inode_def inode_geometry_ok_def split: if_splits)
  from read_inode_refines [OF assms(1) this] show ?thesis
    using assms(2) by (auto simp: Let_def split: if_splits)
qed

text \<open>
  C36. The walk descends only through entries whose type byte says directory, so on a volume of the
  old directory format, which stores no types, every allocated file below a subdirectory is reported as
  an orphan although a path leads to it: where no live entry of the root has the directory type, an
  inode that a path resolves to, that the root does not name itself, and that is allocated with a
  link, is reported.
\<close>

theorem untyped_false_orphans:
  assumes "valid_slice img" and "parse_primary_sb img = Inr sb" and "\<not> geometry_beyond img sb"
    and "list_dir_all img sb UFS_ROOTINO = Inr es" and "\<forall>e \<in> set es. \<not> is_dir_entry e"
    and "read_by_path img sb path = Inr (Some (n, i))" and "n \<notin> de_ino ` {e \<in> set es. live_link e}"
    and "3 \<le> unat n" and "inode_allocated img sb (unat n)" and "i_nlink i \<noteq> 0"
  shows "anomaly_new (OrphanedInode n (i_nlink i)) \<in> set (audit_image img)"
proof -
  obtain root where "read_inode img sb UFS_ROOTINO = Inr root"
    "resolves img sb UFS_ROOTINO root (path_pieces path) n i"
    using assms(6) by (auto simp: read_by_path_resolves)
  then have i: "read_inode img sb n = Inr i" by (blast dest: resolves_number)
  have "n \<noteq> UFS_ROOTINO" using assms(8) by (auto simp: UFS_ROOTINO_def)
  then have "n \<notin> set (reachable_inodes img sb)"
    using assms(7) by (simp add: reachable_untyped [OF assms(4,5)])
  then have "anomaly_new (OrphanedInode n (i_nlink i)) \<in> set (orphan_emit img sb (unat n))"
    using assms(8-10) i by (simp add: in_orphan_emit)
  then show ?thesis
    using assms(3) read_inode_count [OF assms(1) i] unfolding in_audit_image [OF assms(1,2)] by auto
qed

theorem untyped_false_orphans_witness:
  "read_by_path old_image sample_sb [0x61, slash, 0x78] = Inr (Some (4, old_file))
   \<and> anomaly_new (OrphanedInode 4 1) \<in> set (audit_image old_image)"
proof -
  have l: "list_dir_all old_image sample_sb UFS_ROOTINO = Inr (map raw_entry old_dirents)"
    by (simp add: list_dir_all_def UFS_ROOTINO_def old_inodes old_listings)
  have "\<not> geometry_beyond old_image sample_sb" by (simp add: geometry_beyond_def sample_sb_def)
  moreover have "i_nlink old_file = 1" by (simp add: old_file_def sample_inode_def)
  moreover have "4 \<notin> de_ino ` {e \<in> set (map raw_entry old_dirents). live_link e}"
    by (auto simp: old_entries)
  moreover have "\<forall>e \<in> set (map raw_entry old_dirents). \<not> is_dir_entry e"
    by (simp add: old_entries is_dir_entry_def)
  ultimately show ?thesis
    using untyped_false_orphans [OF valid_old_image old_primary _ l _ old_path] old_allocated old_path
    by simp
qed

text \<open>
  Every anomaly of an audit is built from its kind, so its severity, code and note cannot drift from
  it: it is medium exactly for an orphan and high otherwise, two codes are equal exactly for the same
  kind of anomaly, and the findings are the anomalies' observations in order, under the analyzer's name
  and the caller's scope.
\<close>

lemma audit_derived:
  assumes "valid_slice img"
  shows "(\<forall>a \<in> set (audit_image img). a = anomaly_new (an_kind a)
      \<and> obs_severity (anomaly_observation a) = Some (if \<exists>n l. an_kind a = OrphanedInode n l then SevMedium else SevHigh)
      \<and> obs_note (anomaly_observation a) = kind_note (an_kind a)
      \<and> (\<forall>b \<in> set (audit_image img). an_code a = an_code b \<longleftrightarrow> same_kind (an_kind a) (an_kind b)))
    \<and> length (audit_findings to_finding img scope) = length (audit_image img)
    \<and> (\<forall>i < length (audit_image img). audit_findings to_finding img scope ! i =
         to_finding (anomaly_observation (audit_image img ! i))
           \<lparr> src_analyzer = ''ufs-forensic'', src_scope = scope, src_version = None \<rparr>)"
proof -
  have built: "\<exists>k. a = anomaly_new k" if a: "a \<in> set (audit_image img)" for a
  proof (cases "parse_primary_sb img")
    case (Inl e)
    then show ?thesis using a by (cases e) (auto simp: audit_image_def)
  next
    case (Inr sb)
    then show ?thesis
      using a unfolding in_audit_image [OF assms Inr]
      by (auto simp: in_divergences in_bad_cg_magic in_orphan_emit Let_def split: if_splits)
  qed
  have "a = anomaly_new (an_kind a)
      \<and> obs_severity (anomaly_observation a) = Some (if \<exists>n l. an_kind a = OrphanedInode n l then SevMedium else SevHigh)
      \<and> obs_note (anomaly_observation a) = kind_note (an_kind a)
      \<and> (\<forall>b \<in> set (audit_image img). an_code a = an_code b \<longleftrightarrow> same_kind (an_kind a) (an_kind b))"
    if a: "a \<in> set (audit_image img)" for a
  proof -
    obtain k where k: "a = anomaly_new k" using built [OF a] by blast
    have "kind_severity k = (if \<exists>n l. k = OrphanedInode n l then SevMedium else SevHigh)" by (cases k) simp_all
    moreover have "an_code a = an_code b \<longleftrightarrow> same_kind (an_kind a) (an_kind b)"
      if "b \<in> set (audit_image img)" for b
      using built [OF that] k by (auto simp: kind_code_same)
    ultimately show ?thesis using k by (simp add: anomaly_observation_def)
  qed
  then show ?thesis by (simp add: audit_findings_def Let_def)
qed

lemma audit_derived_witness:
  "length (audit_findings (\<lambda>ob src. obs_code ob) sample_image ''case-1'') = length (audit_image sample_image)"
  using audit_derived [OF valid_sample_image, of "\<lambda>ob src. obs_code ob" "''case-1''"] by blast

section \<open>Recovery\<close>

text \<open>The directory entries among recovered items, in order.\<close>

fun dirent_items :: "recovered_item list \<Rightarrow> (bytes \<times> u64) list" where
  "dirent_items [] = []"
| "dirent_items (DeletedDirent n i # xs) = (n, i) # dirent_items xs"
| "dirent_items (DeletedFile _ _ _ _ _ # xs) = dirent_items xs"

lemma dirent_items_append: "dirent_items (xs @ ys) = dirent_items xs @ dirent_items ys"
  by (induction xs rule: dirent_items.induct) simp_all

lemma dirent_items_map [simp]: "dirent_items (map (\<lambda>(name, ino). DeletedDirent name ino) xs) = xs"
  by (induction xs) auto

lemma in_dirent_items: "(n, i) \<in> set (dirent_items xs) \<longleftrightarrow> DeletedDirent n i \<in> set xs"
  by (induction xs rule: dirent_items.induct) auto

lemma in_carve_emit:
  "x \<in> set (carve_emit sha256 img sb names n) \<longleftrightarrow> 3 \<le> n \<and> inode_free img sb n
     \<and> (\<exists>i content. read_inode img sb (of_nat n) = Inr i \<and> carvable i \<and> read_inode_file img sb i = Inr content
          \<and> content \<noteq> []
          \<and> x = DeletedFile (map_option fst (find (\<lambda>(_, dino). dino = of_nat n) names)) (of_nat n)
                (i_size i) content (sha256_hex sha256 content))"
proof (cases "read_inode img sb (of_nat n)")
  case (Inl e)
  show ?thesis unfolding carve_emit_def Inl sum.case by simp
next
  case (Inr i)
  show ?thesis
  proof (cases "read_inode_file img sb i")
    case (Inl e)
    show ?thesis unfolding carve_emit_def Inr Inl sum.case by (simp add: Inl)
  next
    case r: (Inr content)
    show ?thesis unfolding carve_emit_def Inr r sum.case by (auto simp: r)
  qed
qed

lemma dirent_items_Nil: "(\<And>n i. DeletedDirent n i \<notin> set xs) \<Longrightarrow> dirent_items xs = []"
  by (induction xs rule: dirent_items.induct) auto

lemma dirent_items_emit:
  "dirent_items (concat (map (carve_emit sha256 img sb names) ns)) = []"
  by (rule dirent_items_Nil) (auto simp: in_carve_emit)

text \<open>
  C30. Recovered directory entries: they are the deleted, named slots of directories of the tree, each
  directory contributing its slots once and in order, and all directories contribute when the walk's
  budget covers the tree's directory entries. Every name is valid UTF-8 and every inode number is 0.
\<close>

theorem recovered_dirents_exact:
  assumes "valid_slice img" and "parse_primary_sb img = Inr sb"
  shows "\<exists>vis. distinct vis \<and> set vis \<subseteq> image_dirs img sb
      \<and> (1 + (\<Sum>d \<in> image_dirs img sb. length (live_subdirs img sb d)) \<le> 2 ^ 20 \<longrightarrow> set vis = image_dirs img sb)
      \<and> dirent_items (recover_deleted sha256 img) = concat (map (deleted_slots img sb) vis)
      \<and> (\<forall>n i. DeletedDirent n i \<in> set (recover_deleted sha256 img) \<longrightarrow> i = 0 \<and> utf8_valid n)"
proof -
  have split: "dirent_items (recover_deleted sha256 img) = collect_deleted_dirents img sb"
    unfolding recover_deleted_exact [OF assms(2)] by (simp add: dirent_items_append dirent_items_emit)
  have mem: "i = 0 \<and> utf8_valid n" if "DeletedDirent n i \<in> set (recover_deleted sha256 img)" for n i
    using that collect_deleted_entry(1,2) [OF assms(1), of n i sb]
    unfolding in_dirent_items [symmetric] split by blast
  show ?thesis
  proof (cases "1 + (\<Sum>d \<in> image_dirs img sb. length (live_subdirs img sb d)) \<le> 2 ^ 20")
    case True
    then obtain vis where "distinct vis" "set vis = image_dirs img sb"
      "collect_deleted_dirents img sb = concat (map (deleted_slots img sb) vis)"
      using collect_deleted_complete [of img sb] by (auto simp: WALK_BUDGET_def)
    then show ?thesis using split mem by (intro exI [of _ vis]) simp
  next
    case False
    obtain vis where "distinct vis" "set vis \<subseteq> image_dirs img sb"
      "collect_deleted_dirents img sb = concat (map (deleted_slots img sb) vis)"
      by (rule collect_deleted_sound)
    then show ?thesis using split mem False by (intro exI [of _ vis]) simp
  qed
qed

theorem recovered_dirents_exact_witness:
  "dirent_items (recover_deleted (\<lambda>d. d) sample_image) = [([0x62], 0)]"
proof -
  have sub: "live_subdirs sample_image sample_sb 2 = []"
    by (simp add: live_subdirs_def sample_listing sample_entries live_link_def is_dir_entry_def)
  have "decode_name [0x62] = [0x62]"
    by (simp add: decode_name_def from_utf8_lossy.simps [of "[0x62]"] utf8_step_def u8_at_def)
  then have slots: "deleted_slots sample_image sample_sb 2 = [([0x62], 0)]"
    by (simp add: deleted_slots_def sample_listing sample_entries deleted_named_def)
  obtain vis where v: "distinct vis" "set vis = {2}"
    "dirent_items (recover_deleted (\<lambda>d. d) sample_image) = concat (map (deleted_slots sample_image sample_sb) vis)"
    using recovered_dirents_exact [OF valid_sample_image sample_primary, of "\<lambda>d. d"]
    by (auto simp: sample_dirs sub)
  then have "vis = [2]" by (cases vis; cases "tl vis") auto
  then show ?thesis using v(3) slots by simp
qed

text \<open>
  C6. Recovered files, sound and complete: inode \<open>ino\<close> is recovered with \<open>content\<close> exactly when it is
  not reserved, its group's bitmap says it is free, it loads as a regular file with a size and a first
  block, and \<open>content\<close> is what the reader assembles for it; the content then has exactly the reported
  size and the digest is the content's. The name is never known: a deleted entry has lost its inode
  number, so the lookup of the name by number finds none.
\<close>

theorem recovered_files_exact:
  assumes "valid_slice img" and "parse_primary_sb img = Inr sb"
  shows "DeletedFile name ino sz content h \<in> set (recover_deleted sha256 img) \<longleftrightarrow>
    name = None \<and> 3 \<le> unat ino \<and> unat ino < inode_count sb \<and> inode_free img sb (unat ino)
    \<and> (\<exists>i. read_inode img sb ino = Inr i \<and> inode_is_regular i \<and> 0 < unat (i_size i) \<and> i_direct i ! 0 \<noteq> 0
         \<and> sz = i_size i)
    \<and> read_file img sb ino = Inr content \<and> length content = unat sz \<and> h = sha256_hex sha256 content"
proof -
  let ?names = "collect_deleted_dirents img sb"
  note un = inode_count_u64
  have anon: "find (\<lambda>(_, dino). dino = (of_nat k :: u64)) ?names = None" if k: "3 \<le> k" "k < inode_count sb" for k
  proof -
    have "(of_nat k :: u64) \<noteq> 0" using un [OF k(2)] k(1) by auto
    then show ?thesis
      using collect_deleted_entry(1) [OF assms(1)] by (auto simp: find_None_iff)
  qed
  have size: "length c = unat (i_size i)" if "read_inode_file img sb i = Inr c" for c i
    using that by (rule read_inode_file_length [rotated]) (rule assms(1))
  have ne: "i_size i = 0" if "read_inode_file img sb i = Inr []" for i
    using size [OF that] by (simp add: unat_eq_zero)
  have "DeletedFile name ino sz content h \<in> set (recover_deleted sha256 img) \<longleftrightarrow>
      (\<exists>k < inode_count sb. DeletedFile name ino sz content h \<in> set (carve_emit sha256 img sb ?names k))"
    unfolding recover_deleted_exact [OF assms(2)] by auto
  also have "\<dots> \<longleftrightarrow> unat ino < inode_count sb
      \<and> DeletedFile name ino sz content h \<in> set (carve_emit sha256 img sb ?names (unat ino))"
    using un by (auto simp: in_carve_emit)
  also have "\<dots> \<longleftrightarrow> name = None \<and> 3 \<le> unat ino \<and> unat ino < inode_count sb \<and> inode_free img sb (unat ino)
    \<and> (\<exists>i. read_inode img sb ino = Inr i \<and> inode_is_regular i \<and> 0 < unat (i_size i) \<and> i_direct i ! 0 \<noteq> 0
         \<and> sz = i_size i)
    \<and> read_file img sb ino = Inr content \<and> length content = unat sz \<and> h = sha256_hex sha256 content"
    unfolding in_carve_emit carvable_def read_file_def
    using anon [of "unat ino"] size ne by (auto simp: unat_gt_0)
  finally show ?thesis .
qed

theorem recovered_files_exact_witness:
  "DeletedFile None 5 5 sample_content (sha256_hex (\<lambda>d. d) sample_content) \<in> set (recover_deleted (\<lambda>d. d) sample_image)"
proof -
  have "read_file sample_image sample_sb 5 = Inr sample_content"
    using sample_file [of "0x81A4" 0] by (simp add: read_file_def sample_inodes sample_freed_def)
  moreover have "inode_is_regular sample_freed" "i_size sample_freed = 5" "i_direct sample_freed ! 0 \<noteq> 0"
    by (simp_all add: inode_is_regular_def sample_types) (simp_all add: sample_freed_def sample_inode_def)
  ultimately show ?thesis
    using recovered_files_exact [OF valid_sample_image sample_primary, of None 5 5 sample_content "sha256_hex (\<lambda>d. d) sample_content" "\<lambda>d. d"]
      sample_allocated(2) [of 5]
    by (simp add: sample_geometry sample_inodes sample_content_def)
qed


text \<open>The inode numbers of the files among recovered items, in order.\<close>

fun file_numbers :: "recovered_item list \<Rightarrow> nat list" where
  "file_numbers [] = []"
| "file_numbers (DeletedDirent _ _ # xs) = file_numbers xs"
| "file_numbers (DeletedFile _ ino _ _ _ # xs) = unat ino # file_numbers xs"

lemma file_numbers_append: "file_numbers (xs @ ys) = file_numbers xs @ file_numbers ys"
  by (induction xs rule: file_numbers.induct) simp_all

lemma file_numbers_dirents [simp]: "file_numbers (map (\<lambda>(name, ino). DeletedDirent name ino) xs) = []"
  by (induction xs) auto

lemma file_numbers_emit:
  assumes "unat (of_nat n :: u64) = n"
  shows "file_numbers (carve_emit sha256 img sb names n) = [] \<or> file_numbers (carve_emit sha256 img sb names n) = [n]"
proof (cases "read_inode img sb (of_nat n)")
  case (Inl e)
  show ?thesis unfolding carve_emit_def Inl sum.case by simp
next
  case (Inr i)
  show ?thesis using assms unfolding carve_emit_def Inr sum.case
    by (cases "read_inode_file img sb i") (simp_all split del: if_split split: if_split)
qed

lemma file_numbers_sweep:
  assumes "\<And>n. n < hi \<Longrightarrow> unat (of_nat n :: u64) = n"
  shows "sorted_wrt (<) (file_numbers (concat (map (carve_emit sha256 img sb names) [0..<hi])))
    \<and> set (file_numbers (concat (map (carve_emit sha256 img sb names) [0..<hi]))) \<subseteq> {0..<hi}"
  using assms
proof (induction hi)
  case 0
  then show ?case by simp
next
  case (Suc hi)
  have "file_numbers (carve_emit sha256 img sb names hi) = [] \<or> file_numbers (carve_emit sha256 img sb names hi) = [hi]"
    by (rule file_numbers_emit) (rule Suc.prems, simp)
  then show ?case
    using Suc.IH Suc.prems by (auto simp: file_numbers_append sorted_wrt_append)
qed

text \<open>
  C31. Order and disjointness of what is recovered: first all directory entries, then the files, whose
  inode numbers strictly increase, so that no inode is carved twice; and no recovered file is allocated,
  hence none is reported as an orphan by the audit of the same image.
\<close>

theorem recovered_order:
  assumes "valid_slice img" and "parse_primary_sb img = Inr sb"
  shows "(\<exists>ds fs. recover_deleted sha256 img = ds @ fs \<and> file_numbers ds = [] \<and> dirent_items fs = [])
    \<and> sorted_wrt (<) (file_numbers (recover_deleted sha256 img))
    \<and> (DeletedFile name ino sz content h \<in> set (recover_deleted sha256 img) \<longrightarrow>
         \<not> inode_allocated img sb (unat ino) \<and> anomaly_new (OrphanedInode ino l) \<notin> set (audit_image img))"
proof (intro conjI impI)
  show "\<exists>ds fs. recover_deleted sha256 img = ds @ fs \<and> file_numbers ds = [] \<and> dirent_items fs = []"
    unfolding recover_deleted_exact [OF assms(2)]
    by (intro exI conjI) (rule refl, simp, rule dirent_items_emit)
  show "sorted_wrt (<) (file_numbers (recover_deleted sha256 img))"
    unfolding recover_deleted_exact [OF assms(2)] file_numbers_append file_numbers_dirents append_Nil
    by (intro conjunct1 [OF file_numbers_sweep]) (rule inode_count_u64)
next
  assume f: "DeletedFile name ino sz content h \<in> set (recover_deleted sha256 img)"
  then obtain k where k: "k < inode_count sb" "DeletedFile name ino sz content h \<in> set
      (carve_emit sha256 img sb (collect_deleted_dirents img sb) k)"
    unfolding recover_deleted_exact [OF assms(2)] by auto
  then have "ino = of_nat k" "inode_free img sb k" unfolding in_carve_emit by auto
  moreover have "unat (of_nat k :: u64) = k" using k(1) inode_count_u64 by simp
  ultimately show na: "\<not> inode_allocated img sb (unat ino)" by (simp add: free_not_allocated)
  show "anomaly_new (OrphanedInode ino l) \<notin> set (audit_image img)"
    unfolding in_audit_image [OF assms]
    using na inode_count_u64 by (auto simp: in_divergences in_bad_cg_magic in_orphan_emit Let_def)
qed

lemma sample_carved:
  "DeletedFile None 5 5 sample_content (sha256_hex sha256 sample_content) \<in> set (recover_deleted sha256 sample_image)"
proof -
  have "DeletedFile None 5 5 sample_content (sha256_hex sha256 sample_content)
      \<in> set (carve_emit sha256 sample_image sample_sb (collect_deleted_dirents sample_image sample_sb) 5)"
    unfolding in_carve_emit
    using sample_file [of "0x81A4" 0] sample_allocated(2) [of 5]
    by (simp add: sample_inodes carvable_def inode_is_regular_def sample_types sample_deleted)
      (simp add: sample_freed_def sample_inode_def sample_content_def)
  then show ?thesis
    unfolding recover_deleted_exact [OF sample_primary] by (auto simp: sample_geometry)
qed

theorem recovered_order_witness:
  "anomaly_new (OrphanedInode 5 0) \<notin> set (audit_image sample_image)"
  using recovered_order [OF valid_sample_image sample_primary, where ino = 5 and l = 0]
    sample_carved [of "\<lambda>d. d"] by blast

text \<open>
  Names on display: whatever the bytes of a name are, the decoded name is the UTF-8 encoding of a
  sequence of Unicode scalar values; a name that is one already is unchanged, so decoding twice is
  decoding once; and a decoded name never hides a name of bytes by becoming empty.
\<close>

lemma decode_name_exact:
  "(\<exists>cs. (\<forall>c \<in> set cs. utf8_scalar c) \<and> decode_name bs = concat (map utf8_encode cs))
   \<and> ((\<exists>cs. (\<forall>c \<in> set cs. utf8_scalar c) \<and> bs = concat (map utf8_encode cs)) \<longrightarrow> decode_name bs = bs)
   \<and> decode_name (decode_name bs) = decode_name bs
   \<and> (decode_name bs = [] \<longleftrightarrow> bs = [])"
proof -
  have "from_utf8_lossy bs \<noteq> []" if "bs \<noteq> []"
    using that utf8_step_pos [of bs] by (subst from_utf8_lossy.simps) (auto split: prod.split)
  then show ?thesis
    using lossy_valid [of bs] lossy_id [of bs] lossy_id [OF lossy_valid, of bs]
    unfolding decode_name_def utf8_valid_encodes by (cases "bs = []") auto
qed

lemma decode_name_exact_witness:
  "decode_name [0xE2, 0x82, 0xAC] = [0xE2, 0x82, 0xAC]"
proof -
  have "\<exists>cs. (\<forall>c \<in> set cs. utf8_scalar c) \<and> [0xE2, 0x82, 0xAC] = concat (map utf8_encode cs)"
    by (rule exI [of _ "[0x20AC]"]) (simp add: utf8_scalar_def utf8_encode_def)
  then show ?thesis using decode_name_exact [of "[0xE2, 0x82, 0xAC]"] by blast
qed

end
