(* ===== verification/Deletion.thy ===== *)
theory Deletion
  imports ReadFrame ForensicProperties
begin

text \<open>
  What removing a file leaves and what the recovery makes of it: the number in the file's directory slot is zeroed and
  the file's bit in its group's bitmap of used inodes is cleared, as \<open>forensic/tests/carve.rs\<close> simulates it for one
  volume; the inode, its block map and its data stay.
\<close>

section \<open>Removing a file\<close>

text \<open>The byte and the bit of an inode in the bitmap of its group, whose header is \<open>cgh\<close>.\<close>

definition used_byte :: "superblock \<Rightarrow> cylinder_group \<Rightarrow> nat \<Rightarrow> nat" where
  "used_byte sb cgh ino =
     (let ipg = nat_i32 (sb_ipg sb)
      in frag_off sb (ino div ipg) (sb_cblkno sb) + cg_inosused_off cgh + ino mod ipg div 8)"

definition clear_inode_used :: "superblock \<Rightarrow> cylinder_group \<Rightarrow> nat \<Rightarrow> bytes \<Rightarrow> bytes" where
  "clear_inode_used sb cgh ino part =
     (let byte = used_byte sb cgh ino; mask = push_bit (ino mod nat_i32 (sb_ipg sb) mod 8) 1 :: u8
      in part[byte := part ! byte AND NOT mask])"

definition simulate_delete :: "superblock \<Rightarrow> cylinder_group \<Rightarrow> usize \<Rightarrow> nat \<Rightarrow> bytes \<Rightarrow> bytes" where
  "simulate_delete sb cgh slot ino part = clear_inode_used sb cgh ino (slice_put part slot [0, 0, 0, 0])"

lemma length_simulate_delete [simp]: "length (simulate_delete sb cgh slot ino part) = length part"
  by (simp add: simulate_delete_def clear_inode_used_def Let_def)

text \<open>It writes to the slot and to one byte of the bitmap.\<close>

definition touched :: "superblock \<Rightarrow> cylinder_group \<Rightarrow> usize \<Rightarrow> nat \<Rightarrow> nat set" where
  "touched sb cgh slot ino = insert (used_byte sb cgh ino) {slot..<slot + 4}"

lemma simulate_delete_agree:
  assumes "P \<inter> touched sb cgh slot ino = {}"
  shows "agree_on P part (simulate_delete sb cgh slot ino part)"
proof -
  have "part ! p = simulate_delete sb cgh slot ino part ! p" if "p \<in> P" "p < length part" for p
  proof -
    have "p \<noteq> used_byte sb cgh ino" "\<not> (slot \<le> p \<and> p < slot + 4)"
      using that(1) assms by (auto simp: touched_def)
    then show ?thesis
      using that(2) by (auto simp: simulate_delete_def clear_inode_used_def Let_def slice_put_nth)
  qed
  then show ?thesis by (simp add: agree_on_def)
qed

section \<open>The bitmap of a group\<close>

lemma cg_inode_bitmap_at:
  assumes "valid_slice img" "c < 2 ^ 32"
  shows "cg_inode_bitmap img sb (of_nat c) = Some used \<longleftrightarrow>
    0 < sint (sb_fsize sb) \<and> 0 < sint (sb_fpg sb) \<and> 0 \<le> sint (sb_cblkno sb) \<and> 0 < sint (sb_ipg sb)
    \<and> frag_off sb c (sb_cblkno sb) \<le> length img
    \<and> (\<exists>cgh. cg_parse (drop (frag_off sb c (sb_cblkno sb)) img) (sb_endian sb) = Inr cgh
         \<and> slice_get img (frag_off sb c (sb_cblkno sb) + cg_inosused_off cgh)
             (frag_off sb c (sb_cblkno sb) + cg_inosused_off cgh + (nat_i32 (sb_ipg sb) + 7) div 8) = Some used)"
proof (cases "0 < sint (sb_fsize sb) \<and> 0 < sint (sb_fpg sb) \<and> 0 \<le> sint (sb_cblkno sb) \<and> 0 < sint (sb_ipg sb)")
  case True
  let ?o = "frag_off sb c (sb_cblkno sb)" and ?n = "(nat_i32 (sb_ipg sb) + 7) div 8"
  have fs: "0 < nat_i32 (sb_fsize sb)" using True by (simp add: nat_i32_def)
  have mx: "scast (sb_fsize sb) = i32_max0 (sb_fsize sb)" "scast (sb_fpg sb) = i32_max0 (sb_fpg sb)"
    "scast (sb_cblkno sb) = i32_max0 (sb_cblkno sb)"
    using True by (simp_all add: i32_max0_def)
  have "unat (div_ceil (scast (sb_ipg sb) :: u64) 8) = (unat (scast (sb_ipg sb) :: u64) + unat (8 :: u64) - 1) div unat (8 :: u64)"
    by (rule unat_div_ceil) simp
  then have n: "unat (div_ceil (scast (sb_ipg sb) :: u64) 8) = ?n"
    using True by (simp add: unat_scast_i32 nat_i32_def)
  have sf: "slice_from img (unat (sat_mul (sat_add (sat_mul (of_nat c) (i32_max0 (sb_fpg sb))) (i32_max0 (sb_cblkno sb)))
      (i32_max0 (sb_fsize sb)))) = slice_from img ?o"
    using assms(2) by (subst unat_cg_word [OF fs]) (simp_all add: slice_from_clamped [OF assms(1)])
  have add: "usize_sat_add (cg_inosused_off cgh) ?n = cg_inosused_off cgh + ?n" for cgh
  proof (rule usize_sat_add_small)
    have "cg_inosused_off cgh < 2 ^ 32" using unat_lt [of "cg_iusedoff cgh"] by (simp add: cg_inosused_off_def)
    moreover have "?n < 2 ^ 31" using nat_i32_less [of "sb_ipg sb"] by simp
    ultimately show "cg_inosused_off cgh + ?n \<le> usize_max" by simp
  qed
  have sg: "slice_get (drop ?o img) x (x + y) = slice_get img (?o + x) (?o + x + y)" if "?o \<le> length img" for x y
    using that by (auto simp: slice_get_def add_ac)
  show ?thesis
    using True
    by (simp add: cg_inode_bitmap_def Let_def mx sf n add)
      (auto simp: slice_from_def sg n add Let_def split: sum.split)
qed (auto simp: cg_inode_bitmap_def)


definition group_header :: "superblock \<Rightarrow> nat \<Rightarrow> nat set" where
  "group_header sb c = {frag_off sb c (sb_cblkno sb)..<frag_off sb c (sb_cblkno sb) + CG_MIN_LEN}"

lemma deleted_inode_free:
  assumes img: "valid_slice img" and n: "n < inode_count sb" and live: "inode_allocated img sb n"
    and hdr: "cg_parse (drop (frag_off sb (n div nat_i32 (sb_ipg sb)) (sb_cblkno sb)) img) (sb_endian sb) = Inr cgh"
    and kept: "group_header sb (n div nat_i32 (sb_ipg sb)) \<inter> touched sb cgh slot n = {}"
  shows "inode_free (simulate_delete sb cgh slot n img) sb n"
proof -
  let ?ipg = "nat_i32 (sb_ipg sb)" and ?img' = "simulate_delete sb cgh slot n img"
  let ?c = "n div ?ipg" and ?i = "n mod ?ipg" and ?byte = "used_byte sb cgh n"
  let ?s = "frag_off sb ?c (sb_cblkno sb) + cg_inosused_off cgh"
  have c: "?c < 2 ^ 32"
  proof -
    have "?c < unat (sb_ncg sb)" using n by (simp add: inode_count_def less_mult_imp_div_less mult.commute)
    then show ?thesis using unat_lt [of "sb_ncg sb"] by simp
  qed
  obtain used where used: "cg_inode_bitmap img sb (of_nat ?c) = Some used" "bitmap_bit used ?i"
    using live by (auto simp: inode_allocated_def split: option.splits)
  note at = cg_inode_bitmap_at [OF img c, of sb used, THEN iffD1, OF used(1)]
  then have g: "0 < sint (sb_fsize sb)" "0 < sint (sb_fpg sb)" "0 \<le> sint (sb_cblkno sb)" "0 < sint (sb_ipg sb)"
    "frag_off sb ?c (sb_cblkno sb) \<le> length img"
    and sl: "slice_get img ?s (?s + (?ipg + 7) div 8) = Some used"
    using hdr by auto
  have ipg: "0 < ?ipg" using g(4) by (simp add: nat_i32_def)
  have idx: "?i div 8 < (?ipg + 7) div 8"
  proof -
    have "?i < ?ipg" using ipg by simp
    then show ?thesis by linarith
  qed
  have end_img: "?s + (?ipg + 7) div 8 \<le> length img" using sl by (simp add: slice_get_Some_iff)
  have byte: "?byte = ?s + ?i div 8" by (simp add: used_byte_def Let_def)
  have bi: "?byte < length img" using idx end_img byte by linarith
  let ?used' = "take ((?ipg + 7) div 8) (drop ?s ?img')"
  have v': "valid_slice ?img'" using img by (simp add: valid_slice_def)
  have "cg_parse (drop (frag_off sb ?c (sb_cblkno sb)) ?img') (sb_endian sb) = Inr cgh"
    using cg_parse_agree [of "frag_off sb ?c (sb_cblkno sb)" img ?img'] simulate_delete_agree [OF kept] hdr
    by (simp add: group_header_def)
  moreover have "slice_get ?img' ?s (?s + (?ipg + 7) div 8) = Some ?used'"
    using end_img by (simp add: slice_get_Some_iff)
  ultimately have b': "cg_inode_bitmap ?img' sb (of_nat ?c) = Some ?used'"
    using g by (subst cg_inode_bitmap_at [OF v' c]) auto
  have "?used' ! (?i div 8) = ?img' ! ?byte" using idx end_img byte by (simp add: ac_simps)
  also have "\<dots> = slice_put img slot [0, 0, 0, 0] ! ?byte AND NOT (push_bit (?i mod 8) 1)"
    using bi by (simp add: simulate_delete_def clear_inode_used_def Let_def)
  finally have "\<not> bit (?used' ! (?i div 8)) (?i mod 8)"
    by (simp add: bit_simps)
  then have "\<not> bitmap_bit ?used' ?i" by (simp add: bitmap_bit_iff)
  then show ?thesis using b' by (simp add: inode_free_def)
qed


section \<open>Recovering it\<close>

text \<open>What a removal must leave alone for the file to be recovered whole.\<close>

definition file_region :: "bytes \<Rightarrow> superblock \<Rightarrow> nat \<Rightarrow> inode \<Rightarrow> nat set" where
  "file_region img sb n i =
     superblock_region \<union> group_header sb (n div nat_i32 (sb_ipg sb)) \<union> inode_record sb n \<union> file_footprint img sb i"

lemma read_inode_geometry: "read_inode part sb ino = Inr i \<Longrightarrow> inode_geometry_ok sb"
  by (auto simp: read_inode_def inode_geometry_ok_def Let_def split: if_splits)

text \<open>
  C8. Removal and recovery: take any image with a superblock and a live regular file on it (allocated in its group's
  bitmap, with a size and a first block, its content readable), and remove it by zeroing four bytes (its directory
  slot) and clearing its bit, neither inside the superblocks, its group's header, its inode or its blocks. Then the
  recovery returns the file, with its number, its size, its whole content and the digest of it; before the removal
  it does not return it.
\<close>

theorem recover_after_delete:
  assumes "valid_slice img" and "parse_primary_sb img = Inr sb"
    and "3 \<le> unat ino" and "inode_allocated img sb (unat ino)"
    and "cg_parse (drop (frag_off sb (unat ino div nat_i32 (sb_ipg sb)) (sb_cblkno sb)) img) (sb_endian sb) = Inr cgh"
    and "read_inode img sb ino = Inr i" and "inode_is_regular i" and "i_size i \<noteq> 0" and "i_direct i ! 0 \<noteq> 0"
    and "read_file img sb ino = Inr content"
    and "file_region img sb (unat ino) i \<inter> touched sb cgh slot (unat ino) = {}"
  shows "DeletedFile None ino (i_size i) content (sha256_hex sha256 content)
      \<in> set (recover_deleted sha256 (simulate_delete sb cgh slot (unat ino) img))
    \<and> DeletedFile name ino sz c h \<notin> set (recover_deleted sha256 img)"
proof
  let ?img' = "simulate_delete sb cgh slot (unat ino) img"
  have region: "agree_on P img ?img'" if "P \<subseteq> file_region img sb (unat ino) i" for P
    using that assms(11) by (intro simulate_delete_agree) blast
  have inode: "agree_on (inode_record sb (unat ino)) img ?img'"
    and blocks: "agree_on (file_footprint img sb i) img ?img'"
    by (rule region, simp add: file_region_def subset_iff)+
  have sb': "parse_primary_sb ?img' = Inr sb"
    using assms(2) by (rule parse_primary_agree [rotated]) (rule region, auto simp: file_region_def)
  have geo: "file_geometry_ok sb"
    using parse_primary_sb_wf [OF assms(2)] by (simp add: wf_superblock_def wf_geometry_def file_geometry_ok_def)
  have i': "read_inode ?img' sb ino = Inr i"
    using assms(6) read_inode_agree [OF assms(1) read_inode_geometry [OF assms(6)] inode] by simp
  have content: "read_inode_file img sb i = Inr content" using assms(6,10) by (simp add: read_file_def)
  then have content': "read_inode_file ?img' sb i = Inr content"
    using read_inode_file_agree [OF assms(1) geo blocks] by simp
  have n: "unat ino < inode_count sb" using assms(6) by (rule read_inode_count [OF assms(1)])
  have "inode_free ?img' sb (unat ino)"
    using assms(11) by (intro deleted_inode_free assms n) (auto simp: file_region_def)
  moreover have "content \<noteq> []"
    using read_inode_file_length [OF assms(1) content] assms(8) by (auto simp: unat_eq_zero)
  moreover have "find (\<lambda>(_, dino). dino = ino) (collect_deleted_dirents ?img' sb) = None"
  proof -
    have "valid_slice ?img'" using assms(1) by (simp add: valid_slice_def)
    from collect_deleted_entry(1) [OF this] have "\<forall>(name, dino) \<in> set (collect_deleted_dirents ?img' sb). dino = 0"
      by blast
    moreover have "ino \<noteq> 0" using assms(3) by auto
    ultimately show ?thesis by (auto simp: find_None_iff)
  qed
  ultimately have "DeletedFile None ino (i_size i) content (sha256_hex sha256 content)
      \<in> set (carve_emit sha256 ?img' sb (collect_deleted_dirents ?img' sb) (unat ino))"
    using assms(3,7-9) i' content' by (simp add: in_carve_emit carvable_def)
  then show "DeletedFile None ino (i_size i) content (sha256_hex sha256 content) \<in> set (recover_deleted sha256 ?img')"
    using n unfolding recover_deleted_exact [OF sb'] by auto
  show "DeletedFile name ino sz c h \<notin> set (recover_deleted sha256 img)"
  proof
    assume "DeletedFile name ino sz c h \<in> set (recover_deleted sha256 img)"
    then obtain k where "k < inode_count sb"
      "DeletedFile name ino sz c h \<in> set (carve_emit sha256 img sb (collect_deleted_dirents img sb) k)"
      unfolding recover_deleted_exact [OF assms(2)] by auto
    then have "inode_free img sb (unat ino)" using inode_count_u64 by (auto simp: in_carve_emit)
    then show False using assms(4) free_not_allocated by blast
  qed
qed


lemma sample_live_region:
  "file_region sample_image sample_sb 3 sample_live \<inter> touched sample_sb sample_cg 2412 3 = {}"
proof -
  have "{k. k * 64 < (5 :: nat)} = {0}" by auto
  moreover have "block_addr sample_image sample_sb sample_live 0 = 310"
    by (simp add: block_addr_def block_path_def place_addr_def sample_live_def sample_inode_def)
  moreover have "tree_blocks sample_image sample_sb sample_live 0 = {}"
    by (simp add: tree_blocks_def block_path_def)
  moreover have "unat (i_size sample_live) = 5" by (simp add: sample_live_def sample_inode_def)
  ultimately have "file_footprint sample_image sample_sb sample_live = {2480..<2485}"
    by (simp add: file_footprint_def block_bytes_def sample_geometry Let_def)
  moreover have "touched sample_sb sample_cg 2412 3 = insert 188 {2412..<2416}"
    by (simp add: touched_def used_byte_def frag_off_def sample_geometry cg_inosused_off_def Let_def)
      (simp add: sample_sb_def sample_cg_def nat_i32_def)
  moreover have "group_header sample_sb 0 = {64..<188}" "inode_record sample_sb 3 = {1024..<1280}"
    by (simp_all add: group_header_def inode_record_def frag_off_def sample_geometry sb_consts)
      (simp_all add: sample_sb_def nat_i32_def)
  ultimately show ?thesis
    by (auto simp: file_region_def superblock_region_def sample_geometry sb_consts)
qed

lemma sample_header: "cg_parse (drop 64 sample_image) Big = Inr sample_cg"
  by (rule volume_header) (simp, rule sample_get, simp_all add: sample_fields_def)

theorem recover_after_delete_witness:
  "DeletedFile None 3 5 sample_content (sha256_hex (\<lambda>d. d) sample_content)
      \<in> set (recover_deleted (\<lambda>d. d) (simulate_delete sample_sb sample_cg 2412 3 sample_image))"
proof -
  have "frag_off sample_sb 0 (sb_cblkno sample_sb) = 64"
    by (simp add: frag_off_def sample_geometry) (simp add: sample_sb_def nat_i32_def)
  moreover have "read_file sample_image sample_sb 3 = Inr sample_content"
    using sample_file [of "0x81A4" 1] by (simp add: read_file_def sample_inodes sample_live_def)
  moreover have "inode_is_regular sample_live" "i_size sample_live = 5" "i_direct sample_live ! 0 \<noteq> 0"
    by (simp_all add: inode_is_regular_def sample_types) (simp_all add: sample_live_def sample_inode_def)
  ultimately show ?thesis
    using recover_after_delete [OF valid_sample_image sample_primary, of 3 sample_cg sample_live sample_content 2412]
      sample_header sample_live_region sample_allocated(1) [of 3]
    by (simp add: sample_geometry sample_inodes)
qed

end
