(* ===== verification/Residue.thy ===== *)
theory Residue
  imports Deletion
begin

text \<open>
  What a removal leaves in the directory: the walk of a block meets the same records, the one whose number was zeroed as
  a deleted slot that keeps its name; the tree of directories stays what it was, and the recovery returns the name.
\<close>

section \<open>One record zeroed\<close>

lemma read_array_agree:
  assumes "agree_on {off..<off + n} a b" "off + n \<le> usize_max"
  shows "read_array n b off = read_array n a off"
proof (cases "off + n \<le> length a")
  case True
  then show ?thesis
    using assms agree_length [OF assms(1)] agree_window [OF assms(1)] by (simp add: read_array_in)
next
  case False
  then show ?thesis using assms agree_length [OF assms(1)] by (simp add: read_array_out)
qed

lemma endian_agree:
  assumes "off + 4 \<le> usize_max"
  shows "agree_on {off..<off + 4} a b \<Longrightarrow> endian_u32 e b off = endian_u32 e a off"
    and "agree_on {off..<off + 2} a b \<Longrightarrow> endian_u16 e b off = endian_u16 e a off"
  using assms by (cases e; simp add: reader_defs read_array_agree)+

lemma endian_u32_zero:
  assumes "slice_get d off (off + 4) = Some [0, 0, 0, 0]" "off + 4 \<le> usize_max"
  shows "endian_u32 e d off = 0"
  using assms by (cases e) (simp_all add: reader_defs read_array_def from_le_def from_be_def)

lemma dirent_at_agree:
  assumes "valid_slice a" "off + DIRECT_HEAD \<le> length a"
    and "dirent_at a e off = Some (en, reclen)" "agree_on {off..<off + reclen} a b"
  shows "dirent_at b e off = Some (en, reclen)"
proof -
  have len: "length b = length a" and vb: "valid_slice b"
    using assms(1,4) agree_length agree_valid by auto
  have r: "8 \<le> reclen" "8 + length (de_name en) \<le> reclen"
    using dirent_at_entry(4,5) [OF assms(1-3)] .
  have o8: "off + 8 \<le> length a" "off + 8 \<le> usize_max"
    using assms(1,2) by (simp_all add: sb_consts valid_slice_def)
  have sub: "agree_on P a b" if "P \<subseteq> {off..<off + reclen}" for P
    using agree_mono [OF assms(4) that] .
  have "endian_u32 e b off = endian_u32 e a off"
    using r o8 by (intro endian_agree sub) auto
  moreover have "endian_u16 e b (off + 4) = endian_u16 e a (off + 4)"
    using r o8 by (intro endian_agree sub) auto
  moreover have "b ! (off + 6) = a ! (off + 6)" "b ! (off + 7) = a ! (off + 7)"
    using r o8 agree_nth [OF assms(4), of "off + 6"] agree_nth [OF assms(4), of "off + 7"] by auto
  moreover have "take n (drop (off + 8) b) = take n (drop (off + 8) a)" if "n \<le> reclen - 8" for n
    using that r(1) by (intro agree_window [symmetric] sub) auto
  ultimately show ?thesis
    using assms(3)
    by (auto simp: dirent_at_exact [OF assms(1,2)] dirent_at_exact [OF vb assms(2) [folded len]] Let_def
        split: if_splits)
qed

text \<open>An entry whose number is zeroed.\<close>

definition erased :: "dir_entry \<Rightarrow> dir_entry" where
  "erased en = en\<lparr> de_ino := 0, de_deleted := True \<rparr>"

lemma dirent_at_erased:
  assumes "valid_slice a" "off + DIRECT_HEAD \<le> length a" "dirent_at a e off = Some (en, reclen)"
  shows "dirent_at (slice_put a off [0, 0, 0, 0]) e off = Some (erased en, reclen)"
proof -
  let ?b = "slice_put a off [0, 0, 0, 0]"
  have o8: "off + 8 \<le> length a" "off + 8 \<le> usize_max"
    using assms(1,2) by (simp_all add: sb_consts valid_slice_def)
  have vb: "valid_slice ?b" "off + DIRECT_HEAD \<le> length ?b"
    using assms(1,2) by (simp_all add: valid_slice_def)
  have agree: "agree_on {off + 4..} a ?b" using o8 by (auto simp: agree_on_def slice_put_nth)
  have "slice_get ?b off (off + 4) = Some [0, 0, 0, 0]"
    using o8(1) by (simp add: slice_get_Some_iff slice_put_def)
  then have "endian_u32 e ?b off = 0" by (rule endian_u32_zero) (use o8 in simp)
  moreover have "endian_u16 e ?b (off + 4) = endian_u16 e a (off + 4)"
    using o8 by (intro endian_agree agree_mono [OF agree]) auto
  moreover have "?b ! (off + 6) = a ! (off + 6)" "?b ! (off + 7) = a ! (off + 7)"
    using o8 agree_nth [OF agree, of "off + 6"] agree_nth [OF agree, of "off + 7"] by auto
  moreover have "take n (drop (off + 8) ?b) = take n (drop (off + 8) a)" for n
    by (intro agree_window [symmetric] agree_mono [OF agree]) auto
  ultimately show ?thesis
    using assms(3)
    by (auto simp: dirent_at_exact [OF assms(1,2)] dirent_at_exact [OF vb] Let_def erased_def split: if_splits)
qed

section \<open>The walk of its block\<close>

lemma walk_loop_agree:
  assumes "valid_slice a" "agree_on {off..} a b"
  shows "walk_loop b e off [] = walk_loop a e off []"
  using assms(2)
proof (induction off rule: walk_induct [where block = a and e = e])
  case (stop off)
  then show ?case using agree_length [OF stop(2)] by (simp add: walk_loop_stop)
next
  case (broken off)
  have vb: "valid_slice b" and len: "length b = length a"
    using agree_valid [OF broken(3)] agree_length [OF broken(3)] assms(1) by auto
  have "endian_u16 e b (off + 4) = endian_u16 e a (off + 4)"
    using broken(1) assms(1)
    by (intro endian_agree agree_mono [OF broken(3)]) (auto simp: valid_slice_def sb_consts)
  then have "dirent_at b e off = None"
    using broken(1,2) len
    by (simp add: dirent_at_exact [OF vb] dirent_at_exact [OF assms(1)] Let_def split: if_splits)
  then show ?case using broken(1,2) len by (simp add: walk_loop_step)
next
  case (step off en reclen)
  have len: "length b = length a" using agree_length [OF step.prems] by simp
  have "dirent_at b e off = Some (en, reclen)"
    using step(2) by (rule dirent_at_agree [OF assms(1) step(1)]) (rule agree_mono [OF step.prems], auto)
  moreover have "walk_loop b e (off + reclen) [] = walk_loop a e (off + reclen) []"
    by (rule step.IH) (rule agree_mono [OF step.prems], auto)
  ultimately show ?case
    using step(1,2) len walk_loop_append [of a e "off + reclen" "[en]"] walk_loop_append [of b e "off + reclen" "[en]"]
    by (simp add: walk_loop_step)
qed

lemma walk_from_le: "walk_from block e off off' \<Longrightarrow> off \<le> off'"
  by (induction rule: walk_from.induct) auto

lemma walk_loop_erased:
  assumes "walk_from a e off p" and a: "valid_slice a"
    and p: "p + DIRECT_HEAD \<le> length a" "dirent_at a e p = Some (en, reclen)"
  shows "\<exists>pre post. walk_loop a e off [] = pre @ en # post
    \<and> walk_loop (slice_put a p [0, 0, 0, 0]) e off [] = pre @ erased en # post"
  using assms(1,3,4)
proof (induction rule: walk_from.induct)
  case (here off)
  let ?b = "slice_put a off [0, 0, 0, 0]"
  have r: "8 \<le> reclen" using dirent_at_entry(4) [OF a here] .
  have "agree_on {off + reclen..} a ?b"
    using here(1) r by (auto simp: agree_on_def slice_put_nth sb_consts)
  then have "walk_loop ?b e (off + reclen) [] = walk_loop a e (off + reclen) []"
    by (rule walk_loop_agree [OF a])
  moreover have "walk_loop a e off [] = en # walk_loop a e (off + reclen) []"
    using here by (simp add: walk_loop_step) (subst walk_loop_append, simp)
  moreover have "walk_loop ?b e off [] = erased en # walk_loop ?b e (off + reclen) []"
    using here dirent_at_erased [OF a here] by (simp add: walk_loop_step) (subst walk_loop_append, simp)
  ultimately show ?case by (intro exI [of _ "[]"] exI [of _ "walk_loop a e (off + reclen) []"]) simp
next
  case (more off en' reclen' p)
  let ?b = "slice_put a p [0, 0, 0, 0]"
  obtain pre post where ih: "walk_loop a e (off + reclen') [] = pre @ en # post"
    "walk_loop ?b e (off + reclen') [] = pre @ erased en # post"
    using more by blast
  have "agree_on {off..<off + reclen'} a ?b"
    using walk_from_le [OF more(3)] by (auto simp: agree_on_def slice_put_nth)
  then have "dirent_at ?b e off = Some (en', reclen')"
    by (rule dirent_at_agree [OF a more(1,2)])
  then have "walk_loop ?b e off [] = en' # pre @ erased en # post"
    using more(1) ih(2) walk_loop_append [of ?b e "off + reclen'" "[en']"] by (simp add: walk_loop_step)
  moreover have "walk_loop a e off [] = en' # pre @ en # post"
    using more(1,2) ih(1) walk_loop_append [of a e "off + reclen'" "[en']"] by (simp add: walk_loop_step)
  ultimately show ?case by (intro exI [of _ "en' # pre"] exI [of _ post]) simp
qed


section \<open>A directory and the tree\<close>

text \<open>The bytes of a directory: its inode and the part of each direct block that is within its size.\<close>

definition dir_span :: "superblock \<Rightarrow> inode \<Rightarrow> nat \<Rightarrow> nat set" where
  "dir_span sb i k =
     block_bytes sb (i_direct i ! k) (min (unat (i_size i) - k * nat_i32 (sb_bsize sb)) (nat_i32 (sb_bsize sb)))"

definition dir_region :: "bytes \<Rightarrow> superblock \<Rightarrow> u64 \<Rightarrow> nat set" where
  "dir_region part sb d =
     inode_record sb (unat d) \<union> (case read_inode part sb d of Inl _ \<Rightarrow> {} | Inr i \<Rightarrow> \<Union>k < 12. dir_span sb i k)"

lemma dir_block_agree:
  assumes "agree_on (dir_span sb i k) a b"
  shows "dir_block b sb i k = dir_block a sb i k"
proof (cases "i_direct i ! k = 0")
  case False
  then show ?thesis
    using assms
    by (simp add: dir_block_def Let_def dir_span_def block_bytes_def) (rule agree_window [symmetric], assumption)
qed (simp add: dir_block_def)

lemma list_dir_all_agree:
  assumes a: "valid_slice a" "inode_geometry_ok sb" "file_geometry_ok sb" and agree: "agree_on (dir_region a sb d) a b"
  shows "list_dir_all b sb d = list_dir_all a sb d"
proof -
  have b: "valid_slice b" using a(1) agree agree_valid by blast
  have g: "0 < sint (sb_fsize sb)" "0 < sint (sb_bsize sb)" using a(3) by (simp_all add: file_geometry_ok_def)
  have i: "read_inode b sb d = read_inode a sb d"
    by (rule read_inode_agree [OF a(1,2)]) (rule agree_mono [OF agree], simp add: dir_region_def)
  show ?thesis
  proof (cases "read_inode a sb d")
    case (Inl e)
    then show ?thesis by (simp add: list_dir_all_def i)
  next
    case (Inr i)
    note len = length_inode_direct [OF Inr]
    have "dir_block b sb i k = dir_block a sb i k" if "k < 12" for k
      using that Inr by (intro dir_block_agree agree_mono [OF agree]) (auto simp: dir_region_def)
    then have "map (\<lambda>k. walk_entries (dir_block b sb i k) (sb_endian sb)) [0..<12]
        = map (\<lambda>k. walk_entries (dir_block a sb i k) (sb_endian sb)) [0..<12]"
      by (intro map_cong) simp_all
    then have "list_dir_entries b sb i = list_dir_entries a sb i"
      unfolding list_dir_entries_exact [OF b g] list_dir_entries_exact [OF a(1) g] len by (rule arg_cong)
    then show ?thesis using Inr \<open>read_inode b sb d = read_inode a sb d\<close> by (simp add: list_dir_all_def)
  qed
qed

lemma concat_update:
  assumes "k < n" "\<And>j. j < n \<Longrightarrow> j \<noteq> k \<Longrightarrow> g j = f j" "f k = pre @ x # post" "g k = pre @ y # post"
  shows "\<exists>pre' post'. concat (map f [0..<n]) = pre' @ x # post' \<and> concat (map g [0..<n]) = pre' @ y # post'"
proof -
  have u: "[0..<n] = [0..<k] @ k # [Suc k..<n]" 
    using assms(1) upt_add_eq_append [of 0 k "n - k"] by (simp add: upt_conv_Cons)
  have m: "map g [0..<k] = map f [0..<k]" "map g [Suc k..<n] = map f [Suc k..<n]"
    using assms(1,2) by auto
  have "concat (map f [0..<n]) = (concat (map f [0..<k]) @ pre) @ x # (post @ concat (map f [Suc k..<n]))"
    "concat (map g [0..<n]) = (concat (map f [0..<k]) @ pre) @ y # (post @ concat (map f [Suc k..<n]))"
    unfolding u by (simp_all add: assms(3,4) m)
  then show ?thesis by blast
qed

text \<open>The directory that held the entry, before and after.\<close>

lemma list_dir_erased:
  assumes a: "valid_slice a" "file_geometry_ok sb" and i: "read_inode a sb d = Inr i" and k: "k < 12"
    and at: "walk_at (dir_block a sb i k) (sb_endian sb) p" "p + DIRECT_HEAD \<le> length (dir_block a sb i k)"
      "dirent_at (dir_block a sb i k) (sb_endian sb) p = Some (en, reclen)"
    and slot: "slot = unat (i_direct i ! k) * nat_i32 (sb_fsize sb) + p"
    and kept: "inode_record sb (unat d) \<inter> touched sb cgh slot n = {}" "used_byte sb cgh n \<notin> dir_span sb i k"
      "\<And>j. j < 12 \<Longrightarrow> j \<noteq> k \<Longrightarrow> dir_span sb i j \<inter> touched sb cgh slot n = {}"
  shows "\<exists>pre post. list_dir_all a sb d = Inr (pre @ en # post)
    \<and> list_dir_all (simulate_delete sb cgh slot n a) sb d = Inr (pre @ erased en # post)"
proof -
  let ?b = "simulate_delete sb cgh slot n a" and ?e = "sb_endian sb"
  let ?fs = "nat_i32 (sb_fsize sb)" and ?bs = "nat_i32 (sb_bsize sb)"
  have b: "valid_slice ?b" using a(1) by (simp add: valid_slice_def)
  have g: "0 < sint (sb_fsize sb)" "0 < sint (sb_bsize sb)" using a(2) by (simp_all add: file_geometry_ok_def)
  note len = length_inode_direct [OF i]
  have i': "read_inode ?b sb d = Inr i"
    using read_inode_agree [OF a(1) read_inode_geometry [OF i] simulate_delete_agree [OF kept(1)]] i by simp
  have addr: "i_direct i ! k \<noteq> 0" using at(2) by (auto simp: dir_block_def sb_consts)
  let ?m = "min (unat (i_size i) - k * ?bs) ?bs" and ?base = "unat (i_direct i ! k) * ?fs"
  have blk: "dir_block x sb i k = take ?m (drop ?base x)" for x
    using addr by (simp add: dir_block_def Let_def)
  have p8: "p + 8 \<le> ?m" "?base + p + 8 \<le> length a"
    using at(2) by (auto simp: blk sb_consts)
  have "dir_block ?b sb i k = slice_put (dir_block a sb i k) p [0, 0, 0, 0]"
  proof (rule nth_equalityI)
    fix j assume "j < length (dir_block ?b sb i k)"
    then have j: "j < ?m" "?base + j < length a" by (auto simp: blk)
    have "?base + j \<noteq> used_byte sb cgh n"
      using kept(2) j(1) addr by (auto simp: dir_span_def block_bytes_def)
    then have "?b ! (?base + j) = slice_put a slot [0, 0, 0, 0] ! (?base + j)"
      by (simp add: simulate_delete_def clear_inode_used_def Let_def)
    then show "dir_block ?b sb i k ! j = slice_put (dir_block a sb i k) p [0, 0, 0, 0] ! j"
      using j p8 by (auto simp: blk slice_put_nth slot)
  qed (simp add: blk)
  moreover have "walk_from (dir_block a sb i k) ?e 0 p" using at(1) by (simp add: walk_at_from)
  moreover have "valid_slice (dir_block a sb i k)"
    using a(1) by (simp add: blk valid_slice_def min.coboundedI2)
  ultimately obtain pre post where upd: "walk_entries (dir_block a sb i k) ?e = pre @ en # post"
    "walk_entries (dir_block ?b sb i k) ?e = pre @ erased en # post"
    using walk_loop_erased [OF _ _ at(2,3)] unfolding walk_entries_def walk_block_def by metis
  have same: "walk_entries (dir_block ?b sb i j) ?e = walk_entries (dir_block a sb i j) ?e" if "j < 12" "j \<noteq> k" for j
    using dir_block_agree [OF simulate_delete_agree [OF kept(3) [OF that]]] by simp
  obtain pre' post' where
    "list_dir_entries a sb i = pre' @ en # post'" "list_dir_entries ?b sb i = pre' @ erased en # post'"
    using concat_update [of k 12 "\<lambda>j. walk_entries (dir_block ?b sb i j) ?e"
        "\<lambda>j. walk_entries (dir_block a sb i j) ?e", OF k same upd]
    unfolding list_dir_entries_exact [OF a(1) g] list_dir_entries_exact [OF b g] len by blast
  then show ?thesis using i i' by (auto simp: list_dir_all_def)
qed


text \<open>The directories of a tree depend on the edges of its directories only.\<close>

lemma dir_closure_cong:
  assumes "\<And>d n. d \<in> dir_closure f r \<Longrightarrow> (n, True) \<in> set (g d) \<longleftrightarrow> (n, True) \<in> set (f d)"
  shows "dir_closure g r = dir_closure f r"
proof
  show "dir_closure g r \<subseteq> dir_closure f r"
    by (rule dir_closure_least) (auto simp: dir_closure_root assms intro: dir_closure_step)
  have "dir_closure f r \<subseteq> dir_closure f r \<inter> dir_closure g r"
    by (rule dir_closure_least)
      (auto simp: dir_closure_root assms [symmetric] intro: dir_closure_step [of _ f] dir_closure_step [of _ g])
  then show "dir_closure f r \<subseteq> dir_closure g r" by blast
qed

lemma image_dirs_cong:
  assumes "\<And>d. d \<in> image_dirs a sb \<Longrightarrow> live_subdirs b sb d = live_subdirs a sb d"
  shows "image_dirs b sb = image_dirs a sb"
  unfolding image_dirs_def
  by (rule dir_closure_cong) (simp add: live_subdirs_edges assms [unfolded image_dirs_def])

text \<open>
  C9. The name of a removed file: take an image with a superblock and a named, live entry of a directory of its tree
  that is not itself a directory, and zero the entry's number. The bytes written (the slot and one bit of a bitmap)
  overlap neither the superblocks, nor the directory's inode or other blocks, nor the other directories of the tree, and
  the bitmap byte is outside the entry's block. Then the tree of directories is what it was, the directory lists the same entries with
  this one marked deleted, and the recovery returns its name, with the number 0, when the budget of the walk covers the
  tree.
\<close>

theorem recover_name_after_delete:
  assumes "valid_slice img" and "parse_primary_sb img = Inr sb"
    and "d \<in> image_dirs img sb" and "read_inode img sb d = Inr di" and "k < 12"
    and "walk_at (dir_block img sb di k) (sb_endian sb) p" and "p + DIRECT_HEAD \<le> length (dir_block img sb di k)"
    and "dirent_at (dir_block img sb di k) (sb_endian sb) p = Some (en, reclen)"
    and "live_link en \<and> de_name en \<noteq> []" and "\<not> is_dir_entry en"
    and "slot = unat (i_direct di ! k) * nat_i32 (sb_fsize sb) + p"
    and "(superblock_region \<union> inode_record sb (unat d)) \<inter> touched sb cgh slot n = {}"
    and "used_byte sb cgh n \<notin> dir_span sb di k"
    and "\<And>j. j < 12 \<Longrightarrow> j \<noteq> k \<Longrightarrow> dir_span sb di j \<inter> touched sb cgh slot n = {}"
    and "\<And>d'. d' \<in> image_dirs img sb \<Longrightarrow> d' \<noteq> d \<Longrightarrow> dir_region img sb d' \<inter> touched sb cgh slot n = {}"
    and "1 + (\<Sum>d \<in> image_dirs img sb. length (live_subdirs img sb d)) \<le> 2 ^ 20"
  shows "image_dirs (simulate_delete sb cgh slot n img) sb = image_dirs img sb
    \<and> (\<exists>pre post. list_dir_all img sb d = Inr (pre @ en # post)
        \<and> list_dir_all (simulate_delete sb cgh slot n img) sb d = Inr (pre @ erased en # post))
    \<and> DeletedDirent (decode_name (de_name en)) 0 \<in> set (recover_deleted sha256 (simulate_delete sb cgh slot n img))"
proof -
  let ?img' = "simulate_delete sb cgh slot n img"
  have sb': "parse_primary_sb ?img' = Inr sb"
    using assms(2) by (rule parse_primary_agree [rotated]) (rule simulate_delete_agree, use assms(12) in blast)
  have geo: "file_geometry_ok sb" "inode_geometry_ok sb"
    using parse_primary_sb_wf [OF assms(2)] read_inode_geometry [OF assms(4)]
    by (simp_all add: wf_superblock_def wf_geometry_def file_geometry_ok_def)
  obtain pre post where l: "list_dir_all img sb d = Inr (pre @ en # post)"
    "list_dir_all ?img' sb d = Inr (pre @ erased en # post)"
    using list_dir_erased [OF assms(1) geo(1) assms(4-8,11) _ assms(13,14)] assms(12) by blast
  have sub: "live_subdirs ?img' sb d' = live_subdirs img sb d'" if d': "d' \<in> image_dirs img sb" for d'
  proof (cases "d' = d")
    case True
    then show ?thesis using l assms(10) by (simp add: live_subdirs_def erased_def is_dir_entry_def)
  next
    case False
    have "list_dir_all ?img' sb d' = list_dir_all img sb d'"
      using list_dir_all_agree [OF assms(1) geo(2,1) simulate_delete_agree [OF assms(15) [OF d' False]]] .
    then show ?thesis by (simp add: live_subdirs_def)
  qed
  have dirs: "image_dirs ?img' sb = image_dirs img sb" by (rule image_dirs_cong) (rule sub)
  obtain vis where vis: "set vis = image_dirs ?img' sb"
    "collect_deleted_dirents ?img' sb = concat (map (deleted_slots ?img' sb) vis)"
    by (rule collect_deleted_complete [of ?img' sb]) (use assms(16) sub in \<open>simp add: dirs WALK_BUDGET_def\<close>)
  have "deleted_named (erased en)" using assms(9) by (simp add: deleted_named_def erased_def live_link_def)
  then have "(decode_name (de_name en), 0) \<in> set (deleted_slots ?img' sb d)"
    by (simp add: deleted_slots_def l(2)) (simp add: erased_def)
  then have "(decode_name (de_name en), 0) \<in> set (collect_deleted_dirents ?img' sb)"
    unfolding vis(2) using vis(1) dirs assms(3) by auto
  then show ?thesis
    using dirs l unfolding recover_deleted_exact [OF sb'] by force
qed

theorem recover_name_after_delete_witness:
  "DeletedDirent [0x61] 0 \<in> set (recover_deleted (\<lambda>d. d) (simulate_delete sample_sb sample_cg 2412 3 sample_image))"
proof -
  let ?en = "\<lparr> de_name = [0x61], de_ino = 3, de_file_type = DtRegular, de_deleted = False \<rparr>"
  obtain r0 r1 r2 where rs: "sample_dirents = [r0, r1, r2]"
    and rl: "raw_reclen r0 = 12" "raw_reclen r1 = 12" "raw_reclen r2 = 12"
    and ok: "raw_ok r0" "raw_ok r1" and en: "raw_entry r1 = ?en"
    by (simp add: sample_dirents_def raw_reclen_def raw_ok_def raw_entry_def from_d_type_def)
  let ?block = "raw_bytes Big r0 @ raw_bytes Big r1 @ raw_bytes Big r2"
  have "take 36 (drop 2400 sample_image) = concat (map (raw_bytes Big) sample_dirents)"
    by (rule sample_get) (simp_all add: sample_fields_def rs rl)
  then have blk: "dir_block sample_image sample_sb sample_root 0 = ?block"
    by (simp add: dir_block_def sample_geometry Let_def) (simp add: sample_root_def sample_inode_def rs)
  have v: "valid_slice ([] @ ?block)" "valid_slice ?block"
    by (simp_all add: valid_slice_def rl)
  have "walk_at ?block Big (0 + 12)"
    by (rule walk_at.advance [OF walk_at.start])
      (use dirent_at_raw [OF v(1) ok(1)] in \<open>simp_all add: rl sb_consts\<close>)
  moreover have "dirent_at ?block Big 12 = Some (?en, 12)"
    using dirent_at_raw [OF v(2) ok(2)] by (simp add: rl en)
  moreover have sub: "live_subdirs sample_image sample_sb 2 = []"
    by (simp add: live_subdirs_def sample_listing sample_entries live_link_def is_dir_entry_def)
  moreover have t: "touched sample_sb sample_cg 2412 3 = insert 188 {2412..<2416}"
    by (simp add: touched_def used_byte_def frag_off_def sample_geometry cg_inosused_off_def Let_def)
      (simp add: sample_sb_def sample_cg_def nat_i32_def)
  moreover have "inode_record sample_sb 2 = {768..<1024}"
    by (simp add: inode_record_def frag_off_def sample_geometry sb_consts)
  moreover have "dir_span sample_sb sample_root 0 = {2400..<2436}"
    by (simp add: dir_span_def block_bytes_def sample_geometry Let_def) (simp add: sample_root_def sample_inode_def)
  moreover have "dir_span sample_sb sample_root j = {}" if "j < 12" "j \<noteq> 0" for j
    using that by (simp add: dir_span_def block_bytes_def sample_root_def sample_inode_def nth_Cons')
  moreover have "decode_name [0x61] = [0x61]"
    by (simp add: decode_name_def from_utf8_lossy.simps [of "[0x61]"] utf8_step_def u8_at_def)
  moreover have "used_byte sample_sb sample_cg 3 = 188"
    by (simp add: used_byte_def frag_off_def sample_geometry cg_inosused_off_def Let_def)
      (simp add: sample_sb_def sample_cg_def nat_i32_def)
  moreover have "unat (i_direct sample_root ! 0) = 300" by (simp add: sample_root_def sample_inode_def)
  moreover have "({65536..<66912} \<union> {8192..<9568} \<union> {768..<1024}) \<inter> {2412..<2416} = ({} :: nat set)" by auto
  ultimately show ?thesis
    using recover_name_after_delete [OF valid_sample_image sample_primary, of 2 sample_root 0 12 ?en 12 2412
        sample_cg 3 "\<lambda>d. d"]
    by (simp add: sample_dirs sample_inodes blk rl sample_geometry superblock_region_def live_link_def
        is_dir_entry_def sb_consts)
qed

end
