(* ===== verification/VfsProperties.thy ===== *)
theory VfsProperties
  imports Sample
begin

text \<open>
  The file-system view of a mounted volume: probing, opening, looking up, listing, reading and mapping
  agree with the reader they adapt.
\<close>

section \<open>The mounted sample\<close>

abbreviation sample_fs :: ufs_fs where
  "sample_fs \<equiv> \<lparr> fs_image = sample_image, fs_sb = sample_sb \<rparr>"

lemma sample_list_dir:
  "list_dir sample_image sample_sb 2 =
     Inr [\<lparr> de_name = dot, de_ino = 2, de_file_type = DtDirectory, de_deleted = False \<rparr>,
          \<lparr> de_name = [0x61], de_ino = 3, de_file_type = DtRegular, de_deleted = False \<rparr>]"
  by (simp add: list_dir_def sample_listing sample_entries)

lemma sample_root_path: "read_by_path sample_image sample_sb [] = Inr (Some (2, sample_root))"
  by (simp add: read_by_path_def UFS_ROOTINO_def sample_inodes)

theorem list_dir_exact_witness:
  "filter (\<lambda>e. \<not> de_deleted e)
       (concat (map (\<lambda>k. walk_block (dir_block sample_image sample_sb sample_root k) Big []) [0..<12])) =
     [\<lparr> de_name = dot, de_ino = 2, de_file_type = DtDirectory, de_deleted = False \<rparr>,
      \<lparr> de_name = [0x61], de_ino = 3, de_file_type = DtRegular, de_deleted = False \<rparr>]"
  using list_dir_exact [of sample_image sample_sb 2] sample_list_dir sample_geometry(2)
  by (simp add: sample_inodes file_geometry_ok_def sample_geometry)

section \<open>Probing and opening\<close>

lemma magic_patterns:
  "endian_bytes Little (magic_of Ufs1) = UFS1_MAGIC_LE" "endian_bytes Big (magic_of Ufs1) = UFS1_MAGIC_BE"
  "endian_bytes Little (magic_of Ufs2) = UFS2_MAGIC_LE" "endian_bytes Big (magic_of Ufs2) = UFS2_MAGIC_BE"
  by (simp_all add: magic_of_def UFS1_MAGIC_LE_def UFS1_MAGIC_BE_def UFS2_MAGIC_LE_def UFS2_MAGIC_BE_def)

lemma parse_primary_window:
  assumes "parse_primary img off = Inr sb"
  shows "window_of img (off + 1372) m \<and> length m = 4 \<longleftrightarrow> m = endian_bytes (sb_endian sb) (magic_of (sb_version sb))"
proof -
  have p: "sb_parse (drop off img) = Inr sb" using assms by (simp add: parse_primary_Inr)
  have "length (endian_bytes (sb_endian sb) (magic_of (sb_version sb))) = 4" by simp
  then show ?thesis
    using sb_magic_window [OF sb_parse_InrD(1) [OF p], of m] sb_parse_InrD(2) [OF p]
    by (auto simp: FS_MAGIC_OFF_def)
qed

lemma parse_primary_version:
  assumes "parse_primary img off = Inr sb"
  shows "(\<exists>e. window_of img (off + 1372) (endian_bytes e (magic_of v))) \<longleftrightarrow> sb_version sb = v"
proof -
  have "endian_bytes e (magic_of v) = endian_bytes e' (magic_of v') \<Longrightarrow> v = v'" for e e' v'
    by (cases v; cases e; cases v'; cases e') (simp_all add: magic_of_def)
  moreover have "length (endian_bytes e (magic_of v)) = 4" for e by simp
  ultimately show ?thesis using parse_primary_window [OF assms] by metis
qed

text \<open>
  C37. Probing against opening: on a volume that opens, the probe looking through the same bytes says
  yes whenever the superblock is found at the offset of its own version, and it names that version;
  it can say no only for a superblock whose magic is that of the other version.
\<close>

theorem probe_open_agree:
  assumes "read_at 0 (replicate (unat len) 0) = Inr (length img, img)" and "ufs_open len read_at = Inr fs"
  shows "(parse_primary img SBLOCK_UFS2 = Inr (fs_sb fs) \<and> sb_version (fs_sb fs) = Ufs2
        \<longrightarrow> ufs_probe (window_of img) = ConfYes ''UFS2 fs_magic 0x19540119 at offset 66908'')
    \<and> (parse_primary img SBLOCK_UFS1 = Inr (fs_sb fs) \<and> sb_version (fs_sb fs) = Ufs1
        \<longrightarrow> ufs_probe (window_of img) \<noteq> ConfNo)
    \<and> (ufs_probe (window_of img) = ConfNo
        \<longrightarrow> parse_primary img SBLOCK_UFS2 = Inr (fs_sb fs) \<and> sb_version (fs_sb fs) = Ufs1
          \<or> parse_primary img SBLOCK_UFS1 = Inr (fs_sb fs) \<and> sb_version (fs_sb fs) = Ufs2)"
proof -
  have found: "parse_primary img SBLOCK_UFS2 = Inr (fs_sb fs) \<or> parse_primary img SBLOCK_UFS1 = Inr (fs_sb fs)"
    using assms ufs_open_Inr [of read_at len "length img" img fs] by auto
  have ex: "(\<exists>e. P e) \<longleftrightarrow> P Little \<or> P Big" for P by (metis endian.exhaust)
  have w: "window_of img UFS2_MAGIC_OFF UFS2_MAGIC_LE \<or> window_of img UFS2_MAGIC_OFF UFS2_MAGIC_BE
      \<longleftrightarrow> sb_version sb = Ufs2" if "parse_primary img SBLOCK_UFS2 = Inr sb" for sb
    using parse_primary_version [OF that, of Ufs2] by (simp add: ex magic_patterns UFS2_MAGIC_OFF_def)
  have w1: "window_of img UFS1_MAGIC_OFF UFS1_MAGIC_LE \<or> window_of img UFS1_MAGIC_OFF UFS1_MAGIC_BE
      \<longleftrightarrow> sb_version sb = Ufs1" if "parse_primary img SBLOCK_UFS1 = Inr sb" for sb
    using parse_primary_version [OF that, of Ufs1] by (simp add: ex magic_patterns UFS1_MAGIC_OFF_def)
  have v: "sb_version sb = Ufs1 \<longleftrightarrow> sb_version sb \<noteq> Ufs2" for sb by (cases "sb_version sb") simp_all
  show ?thesis
    using found w [of "fs_sb fs"] w1 [of "fs_sb fs"] v [of "fs_sb fs"]
    unfolding ufs_probe_def by (auto split: if_splits)
qed

theorem probe_open_agree_witness:
  "ufs_probe (window_of sample_image) = ConfYes ''UFS2 fs_magic 0x19540119 at offset 66908''"
proof -
  let ?read = "\<lambda>(off :: u64) (buf :: bytes). Inr (66912, sample_image) :: unit vfs_error + usize \<times> bytes"
  have p: "parse_primary sample_image SBLOCK_UFS2 = Inr sample_sb"
    using sample_parse by (simp add: parse_primary_Inr SBLOCK_UFS2_def)
  then have "ufs_open 66912 ?read = Inr \<lparr> fs_image = sample_image, fs_sb = sample_sb \<rparr>"
    using ufs_open_Inr [of ?read 66912 66912 sample_image "\<lparr> fs_image = sample_image, fs_sb = sample_sb \<rparr>"] by simp
  moreover have "sb_version sample_sb = Ufs2" by (simp add: sample_sb_def)
  ultimately show ?thesis
    using probe_open_agree [of ?read 66912 sample_image] p by simp
qed

section \<open>Directories\<close>

text \<open>
  C40. The views of a directory agree: looking up a name gives the first listed entry of that name, and
  the kind shown in a listing is the kind in the metadata of that entry's inode; where the inode does
  not load, the listing still shows the entry, as of other kind.
\<close>

theorem vfs_views_agree:
  assumes "vfs_read_dir dbg fs fid = (Inr es :: 'e vfs_error + vfs_dir_entry list)"
  shows "(vfs_lookup dbg fs fid name :: 'e vfs_error + 'x file_id option)
      = Inr (map_option (\<lambda>e. FileIdOpaque (ve_ino e)) (find (\<lambda>e. ve_name e = name) es))
    \<and> (\<forall>e \<in> set es. ve_kind e = (case vfs_meta dbg fs (FileIdOpaque (ve_ino e)) :: 'e vfs_error + fs_meta of
           Inr m \<Rightarrow> m_kind m | Inl _ \<Rightarrow> NodeOther))"
proof -
  from assms obtain d ds where d: "ino_of dbg fid = (Inr d :: 'e vfs_error + u64)"
    and l: "list_dir (fs_image fs) (fs_sb fs) d = Inr ds"
    and es: "es = map (\<lambda>e. \<lparr> ve_name = de_name e, ve_ino = de_ino e, ve_kind = vfs_entry_kind fs (de_ino e) \<rparr>) ds"
    by (auto simp: vfs_read_dir_def try_bind_Inr_iff ino_of_def split: file_id.splits)
  have f: "map_option (\<lambda>e. FileIdOpaque (ve_ino e)) (find (\<lambda>e. ve_name e = name) es)
      = map_option (\<lambda>e. FileIdOpaque (de_ino e)) (find (\<lambda>e. de_name e = name) ds)"
    unfolding es by (induction ds) simp_all
  have k: "vfs_entry_kind fs n = (case vfs_meta dbg fs (FileIdOpaque n) :: 'e vfs_error + fs_meta of
      Inr m \<Rightarrow> m_kind m | Inl _ \<Rightarrow> NodeOther)" for n
    by (cases "read_inode (fs_image fs) (fs_sb fs) n") (simp_all add: vfs_entry_kind_def vfs_meta_def ino_of_def)
  show ?thesis
    using k unfolding f by (auto simp: vfs_lookup_def d l es)
qed

theorem vfs_views_agree_witness:
  "vfs_lookup (\<lambda>_. []) sample_fs (FileIdOpaque 2) [0x61] = (Inr (Some (FileIdOpaque 3)) :: unit vfs_error + unit file_id option)"
proof -
  let ?es = "[\<lparr> ve_name = dot, ve_ino = 2, ve_kind = NodeDir \<rparr>, \<lparr> ve_name = [0x61], ve_ino = 3, ve_kind = NodeFile \<rparr>]"
  have "vfs_read_dir (\<lambda>_. []) sample_fs (FileIdOpaque 2 :: unit file_id) = (Inr ?es :: unit vfs_error + vfs_dir_entry list)"
    by (simp add: vfs_read_dir_def ino_of_def sample_list_dir vfs_entry_kind_def sample_inodes sample_types
        node_kind_of_def)
  from vfs_views_agree [OF this, of "[0x61]"] show ?thesis by simp
qed

text \<open>
  C19. Looking up name by name is resolving the path: below a directory that a path resolves to, a
  lookup finds \<open>n\<close> exactly when the path extended by that name resolves to inode \<open>n\<close>, provided that
  inode loads; and it finds nothing exactly when the extended path does not resolve.
\<close>

theorem lookup_resolves:
  fixes dbg :: "'x \<Rightarrow> string"
  assumes "read_by_path (fs_image fs) (fs_sb fs) p = Inr (Some (d, di))" and "i_file_type di = FtDirectory"
    and "name \<noteq> []" and "slash \<notin> set name"
  defines "look \<equiv> vfs_lookup dbg fs (FileIdOpaque d) name :: 'e vfs_error + 'x file_id option"
  shows "(read_by_path (fs_image fs) (fs_sb fs) (p @ slash # name) = Inr (Some (n, i))
      \<longleftrightarrow> look = Inr (Some (FileIdOpaque n)) \<and> read_inode (fs_image fs) (fs_sb fs) n = Inr i)
    \<and> (read_by_path (fs_image fs) (fs_sb fs) (p @ slash # name) = Inr None \<longleftrightarrow> look = Inr None)"
proof -
  have "split_on slash name = [name]" using assms(4) by (rule split_on_no_sep)
  then have e: "read_by_path (fs_image fs) (fs_sb fs) (p @ slash # name) = path_loop (fs_image fs) (fs_sb fs) [name] d di"
    using assms(1) by (simp add: read_by_path_append)
  obtain root where "resolves (fs_image fs) (fs_sb fs) UFS_ROOTINO root (path_pieces p) d di"
    "read_inode (fs_image fs) (fs_sb fs) UFS_ROOTINO = Inr root"
    using assms(1) by (auto simp: read_by_path_resolves)
  then have "read_inode (fs_image fs) (fs_sb fs) d = Inr di" by (blast dest: resolves_number)
  then have l: "list_dir (fs_image fs) (fs_sb fs) d =
      Inr (filter (\<lambda>e. \<not> de_deleted e) (list_dir_entries (fs_image fs) (fs_sb fs) di))"
    by (simp add: list_dir_def list_dir_all_def)
  show ?thesis
  proof (cases "find (\<lambda>e. \<not> de_deleted e \<and> de_name e = name) (list_dir_entries (fs_image fs) (fs_sb fs) di)")
    case None
    then show ?thesis
      using assms(2,3) by (simp add: e look_def vfs_lookup_def ino_of_def l find_filter inode_is_dir_def)
  next
    case (Some en)
    then show ?thesis
      using assms(2,3)
      by (cases "read_inode (fs_image fs) (fs_sb fs) (de_ino en)")
        (auto simp: e look_def vfs_lookup_def ino_of_def l find_filter inode_is_dir_def)
  qed
qed

theorem lookup_resolves_witness:
  "read_by_path sample_image sample_sb ([] @ slash # [0x61]) = Inr (Some (3, sample_live))"
proof -
  have "vfs_lookup (\<lambda>_ :: unit. []) sample_fs (FileIdOpaque 2) [0x61]
      = (Inr (Some (FileIdOpaque 3)) :: unit vfs_error + unit file_id option)"
    by (simp add: vfs_lookup_def ino_of_def sample_list_dir)
  then show ?thesis
    using lookup_resolves [where 'e = unit and fs = sample_fs and p = "[]" and d = 2 and di = sample_root
        and name = "[0x61]" and n = 3 and i = sample_live and dbg = "\<lambda>_ :: unit. []"] sample_root_path
    by (simp add: sample_types sample_inodes)
qed

section \<open>Content\<close>

text \<open>
  C20. Positioned reads: on a sound geometry, reading at any offset into any buffer returns as many bytes
  as the file has from there and the buffer can hold, writes exactly those bytes of the file, which are
  the image bytes its block map points at or zero in holes, and leaves the rest of the buffer; at or
  after the end it reads nothing.
\<close>

theorem vfs_read_at_exact:
  fixes off :: u64 and buf :: bytes
  assumes "valid_slice (fs_image fs)" and "file_geometry_ok (fs_sb fs)"
    and "read_inode (fs_image fs) (fs_sb fs) ino = Inr i" and "unat (i_size i) \<le> length (fs_image fs)"
  defines "n \<equiv> min (unat (i_size i) - unat off) (length buf)"
  shows "vfs_read_at dbg sdbg fs (FileIdOpaque ino) StreamDefault off buf =
      (Inr (n, map (file_byte (fs_image fs) (fs_sb fs) i) [unat off..<unat off + n] @ drop n buf)
        :: 'e vfs_error + usize \<times> bytes)
    \<and> (unat (i_size i) \<le> unat off \<longrightarrow> n = 0)"
proof -
  have c: "read_file (fs_image fs) (fs_sb fs) ino
      = Inr (map (file_byte (fs_image fs) (fs_sb fs) i) [0..<unat (i_size i)])"
    using assms(3,4) read_inode_file_exact [OF assms(1,2), of i] by (simp add: read_file_def)
  show ?thesis
  proof (cases "unat off \<le> unat (i_size i)")
    case True
    then have "take n (drop (unat off) (map (file_byte (fs_image fs) (fs_sb fs) i) [0..<unat (i_size i)]))
        = map (file_byte (fs_image fs) (fs_sb fs) i) [unat off..<unat off + n]"
      by (simp add: n_def drop_map take_map take_upt)
    with True show ?thesis
      by (simp add: vfs_read_at_def require_default_stream_def ino_of_def c slice_from_def Let_def n_def)
  next
    case False
    then show ?thesis
      by (simp add: vfs_read_at_def require_default_stream_def ino_of_def c slice_from_def n_def)
  qed
qed

theorem vfs_read_at_exact_witness:
  "vfs_read_at (\<lambda>_ :: unit. []) (\<lambda>_ :: unit. []) sample_fs (FileIdOpaque 3) StreamDefault 3 [9, 9, 9, 9]
     = (Inr (2, [0x6C, 0x6F, 9, 9]) :: unit vfs_error + usize \<times> bytes)"
proof -
  have "read_inode_file sample_image sample_sb sample_live = Inr sample_content"
    using sample_file [of "0x81A4" 1] by (simp add: sample_live_def)
  then have "map (file_byte sample_image sample_sb sample_live) [0..<5] = sample_content"
    using read_inode_file_exact [OF valid_sample_image sample_geometry(2), of sample_live]
    by (simp add: sample_live_def sample_inode_def)
  then have "drop 3 (map (file_byte sample_image sample_sb sample_live) [0..<5]) = drop 3 sample_content" by simp
  then have b: "map (file_byte sample_image sample_sb sample_live) [3..<5] = [0x6C, 0x6F]"
    by (simp add: drop_map drop_upt sample_content_def)
  have "i_size sample_live = 5" by (simp add: sample_live_def sample_inode_def)
  then show ?thesis
    using vfs_read_at_exact [where 'e = unit and fs = sample_fs and ino = 3 and i = sample_live and off = 3 and buf = "[9, 9, 9, 9]"
        and dbg = "\<lambda>_ :: unit. []" and sdbg = "\<lambda>_ :: unit. []"]
      sample_geometry(2) b
    by (simp add: sample_inodes)
qed

text \<open>
  C32. Extents: the runs of a file are one run for each of its direct blocks that lies within the size
  and is not a hole, in order; and a run that lies in the image holds, byte for byte, the file's content
  at its block, cut to the size.
\<close>

theorem vfs_extents_correct:
  assumes "valid_slice (fs_image fs)" and "file_geometry_ok (fs_sb fs)"
    and "read_inode (fs_image fs) (fs_sb fs) ino = Inr i" and "unat (i_size i) \<le> length (fs_image fs)"
  defines "runs \<equiv> \<lambda>k. extent_of (fs_sb fs) (unat (i_size i)) k (i_direct i ! k)"
    and "bs \<equiv> nat_i32 (sb_bsize (fs_sb fs))"
  shows "vfs_extents dbg sdbg fs (FileIdOpaque ino) StreamDefault
      = (Inr (concat (map runs [0..<12])) :: 'e vfs_error + run_info list)
    \<and> (\<exists>c. read_file (fs_image fs) (fs_sb fs) ino = Inr c
         \<and> (\<forall>k < 12. \<forall>r \<in> set (runs k). unat (run_offset r) + unat (run_len r) \<le> length (fs_image fs) \<longrightarrow>
              0 < unat (run_len r) \<and> k * bs + unat (run_len r) \<le> length c
              \<and> take (unat (run_len r)) (drop (k * bs) c)
                = take (unat (run_len r)) (drop (unat (run_offset r)) (fs_image fs))))"
proof
  show "vfs_extents dbg sdbg fs (FileIdOpaque ino) StreamDefault = Inr (concat (map runs [0..<12]))"
    using vfs_extents_exact [OF assms(2) length_inode_direct [OF assms(3)]] assms(3)
    by (simp add: vfs_extents_def require_default_stream_def fs_inode_def ino_of_def runs_def)
  let ?c = "map (file_byte (fs_image fs) (fs_sb fs) i) [0..<unat (i_size i)]"
  have "read_file (fs_image fs) (fs_sb fs) ino = Inr ?c"
    using assms(3,4) read_inode_file_exact [OF assms(1,2), of i] by (simp add: read_file_def)
  moreover note extent_of_content [OF assms(2) _ _ _ assms(1) refl, of _ _ i]
  ultimately show "\<exists>c. read_file (fs_image fs) (fs_sb fs) ino = Inr c
         \<and> (\<forall>k < 12. \<forall>r \<in> set (runs k). unat (run_offset r) + unat (run_len r) \<le> length (fs_image fs) \<longrightarrow>
              0 < unat (run_len r) \<and> k * bs + unat (run_len r) \<le> length c
              \<and> take (unat (run_len r)) (drop (k * bs) c)
                = take (unat (run_len r)) (drop (unat (run_offset r)) (fs_image fs)))"
    unfolding runs_def bs_def by blast
qed

theorem vfs_extents_correct_witness:
  "\<exists>rs. vfs_extents (\<lambda>_ :: unit. []) (\<lambda>_ :: unit. []) sample_fs (FileIdOpaque 3) StreamDefault
     = (Inr rs :: unit vfs_error + run_info list)
   \<and> \<lparr> run_offset = 2480, run_len = 5, run_flags = FlagsDefault, run_state = RunAllocated \<rparr> \<in> set rs"
proof -
  have s: "unat (i_size sample_live) = 5" "i_direct sample_live ! 0 = 310"
    by (simp_all add: sample_live_def sample_inode_def)
  have "i32_max0 (sb_fsize sample_sb) = 8" by (simp add: i32_max0_def sample_sb_def)
  then have "\<lparr> run_offset = 2480, run_len = 5, run_flags = FlagsDefault, run_state = RunAllocated \<rparr> \<in> set (extent_of sample_sb 5 0 310)"
    by (simp add: extent_of_def sample_geometry sat_mul_def)
  then have "\<lparr> run_offset = 2480, run_len = 5, run_flags = FlagsDefault, run_state = RunAllocated \<rparr>
      \<in> set (concat (map (\<lambda>k. extent_of sample_sb 5 k (i_direct sample_live ! k)) [0..<12]))"
    unfolding set_concat set_map by (intro UN_I [of "extent_of sample_sb 5 0 310"] image_eqI [of _ _ 0]) (simp_all add: s)
  then show ?thesis
    using vfs_extents_correct [where 'e = unit and fs = sample_fs and ino = 3 and i = sample_live
        and dbg = "\<lambda>_ :: unit. []" and sdbg = "\<lambda>_ :: unit. []"] sample_geometry(2) s
    by (intro exI [of _ "concat (map (\<lambda>k. extent_of sample_sb 5 k (i_direct sample_live ! k)) [0..<12])"])
      (simp add: sample_inodes)
qed

text \<open>
  Links: asking for the target of anything but a symbolic link gives no bytes; of a symbolic link it
  gives the inline target, or for a long one the bytes of its file, in both cases the first \<open>cap\<close> of
  them and never more.
\<close>

lemma vfs_read_link_exact:
  assumes "valid_slice (fs_image fs)" and "file_geometry_ok (fs_sb fs)"
    and "read_inode (fs_image fs) (fs_sb fs) ino = Inr i" and "unat (i_size i) \<le> length (fs_image fs)"
  shows "vfs_read_link dbg fs (FileIdOpaque ino) cap = (Inr (take cap
      (if inode_is_symlink i
       then case inode_symlink_target i of
              Some t \<Rightarrow> t
            | None \<Rightarrow> map (file_byte (fs_image fs) (fs_sb fs) i) [0..<unat (i_size i)]
       else [])) :: 'e vfs_error + bytes)
    \<and> (\<forall>t. vfs_read_link dbg fs (FileIdOpaque ino) cap = (Inr t :: 'e vfs_error + bytes) \<longrightarrow> length t \<le> cap)"
proof -
  have "vfs_read_link dbg fs (FileIdOpaque ino) cap = (Inr (take cap
      (if inode_is_symlink i
       then case inode_symlink_target i of
              Some t \<Rightarrow> t
            | None \<Rightarrow> map (file_byte (fs_image fs) (fs_sb fs) i) [0..<unat (i_size i)]
       else [])) :: 'e vfs_error + bytes)"
    using assms(3,4) read_inode_file_exact [OF assms(1,2), of i]
    by (simp add: vfs_read_link_def fs_inode_def ino_of_def read_symlink_target_def inode_is_symlink_def
        split: option.split)
  then show ?thesis by auto
qed

lemma vfs_read_link_exact_witness:
  "vfs_read_link (\<lambda>_ :: unit. []) sample_fs (FileIdOpaque 3) 10 = (Inr [] :: unit vfs_error + bytes)"
proof -
  have "unat (i_size sample_live) = 5" by (simp add: sample_live_def sample_inode_def)
  then show ?thesis
    using vfs_read_link_exact [where 'e = unit and fs = sample_fs and ino = 3 and i = sample_live
        and dbg = "\<lambda>_ :: unit. []" and cap = 10] sample_geometry(2)
    by (simp add: sample_inodes inode_is_symlink_def sample_types)
qed

section \<open>Identities and metadata\<close>

text \<open>
  What is not of this file system is refused, whatever the image: every operation on an identity of
  another kind is unsupported with that identity, and reads and extents of a stream other than the
  default one are unsupported with that stream, before the identity is looked at.
\<close>

lemma foreign_refused:
  "vfs_read_dir dbg fs (FileIdOther x) = Inl (VfsUnsupported ''ufs file-id'' (dbg x))
   \<and> vfs_lookup dbg fs (FileIdOther x) name = Inl (VfsUnsupported ''ufs file-id'' (dbg x))
   \<and> vfs_meta dbg fs (FileIdOther x) = Inl (VfsUnsupported ''ufs file-id'' (dbg x))
   \<and> vfs_read_link dbg fs (FileIdOther x) cap = Inl (VfsUnsupported ''ufs file-id'' (dbg x))
   \<and> vfs_extents dbg sdbg fs (FileIdOther x) StreamDefault = Inl (VfsUnsupported ''ufs file-id'' (dbg x))
   \<and> vfs_read_at dbg sdbg fs (FileIdOther x) StreamDefault off buf = Inl (VfsUnsupported ''ufs file-id'' (dbg x))
   \<and> vfs_extents dbg sdbg fs fid (StreamOther s) = Inl (VfsUnsupported ''ufs stream'' (sdbg s))
   \<and> vfs_read_at dbg sdbg fs fid (StreamOther s) off buf = Inl (VfsUnsupported ''ufs stream'' (sdbg s))"
  by (simp add: vfs_read_dir_def vfs_lookup_def vfs_meta_def vfs_read_link_def vfs_extents_def vfs_read_at_def
      fs_inode_def ino_of_def require_default_stream_def)

text \<open>What decoding a record fixes of an inode beside its fields: the type bits, the birth time, the length of a link.\<close>

lemma read_inode_shape:
  assumes "read_inode part sb ino = Inr i"
  shows "i_file_type i = file_type_from_mode (i_mode i)" and "i_birthtime i = None \<longleftrightarrow> sb_version sb = Ufs1"
    and "inode_symlink_target i = None \<longleftrightarrow>
      \<not> (inode_is_symlink i \<and> 0 < sint (sb_maxsymlinklen sb) \<and> int (unat (i_size i)) \<le> sint (sb_maxsymlinklen sb))"
    and "inode_symlink_target i = Some t \<Longrightarrow> length t = min (unat (i_size i)) (case sb_version sb of Ufs1 \<Rightarrow> 60 | Ufs2 \<Rightarrow> 120)"
proof -
  obtain d where d: "inode_parse_with_maxsymlink d (sb_version sb) (sb_endian sb) (sb_maxsymlinklen sb) = Inr i"
    using assms by (auto simp: read_inode_def Let_def split: if_splits option.splits)
  then show "i_file_type i = file_type_from_mode (i_mode i)" "i_birthtime i = None \<longleftrightarrow> sb_version sb = Ufs1"
    by (auto simp: inode_parse_with_maxsymlink_def inode_decode_def Let_def split: if_splits ufs_version.splits)
  show "inode_symlink_target i = None \<longleftrightarrow>
      \<not> (inode_is_symlink i \<and> 0 < sint (sb_maxsymlinklen sb) \<and> int (unat (i_size i)) \<le> sint (sb_maxsymlinklen sb))"
    by (simp add: inline_target(1) [OF d])
  show "length t = min (unat (i_size i)) (case sb_version sb of Ufs1 \<Rightarrow> 60 | Ufs2 \<Rightarrow> 120)"
    if "inode_symlink_target i = Some t"
    using inline_target_length [OF d that] .
qed

lemma node_kind_bits:
  "node_kind_of (file_type_from_mode w) = NodeFile \<longleftrightarrow> w AND 0xF000 = 0x8000"
  "node_kind_of (file_type_from_mode w) = NodeDir \<longleftrightarrow> w AND 0xF000 = 0x4000"
  "node_kind_of (file_type_from_mode w) = NodeSymlink \<longleftrightarrow> w AND 0xF000 = 0xA000"
  "node_kind_of (file_type_from_mode w) = NodeDevice \<longleftrightarrow> w AND 0xF000 = 0x2000 \<or> w AND 0xF000 = 0x6000"
  by (simp_all add: node_kind_of_def file_type_from_mode_def IFMT_def Let_def)

lemma symlink_bits: "inode_is_symlink i \<longleftrightarrow> i_mode i AND 0xF000 = 0xA000" if "i_file_type i = file_type_from_mode (i_mode i)"
  using that by (simp add: inode_is_symlink_def file_type_from_mode_def IFMT_def Let_def)

text \<open>
  C38. Metadata against the inode. Number, size, link count, owner, group and mode are the inode's; the kind is what
  the type bits of the mode say. Each of the modified, accessed and changed times is the inode's time of that name in
  nanoseconds since the epoch, the birth time too, which is absent exactly on UFS1; all are exact, from the inode
  table, and fit 128 bits. The content is resident exactly for a symbolic link whose size is within a positive
  \<open>maxsymlinklen\<close>, and its inline length is then the size, cut to the 60 or 120 bytes of the pointer region.
\<close>

theorem vfs_meta_exact:
  assumes "vfs_meta dbg fs (FileIdOpaque ino) = (Inr m :: 'e vfs_error + fs_meta)"
  shows "\<exists>i. read_inode (fs_image fs) (fs_sb fs) ino = Inr i
    \<and> m_ino m = ino \<and> m_allocated m = AllocAllocated \<and> m_size m = i_size i \<and> unat (m_nlink m) = unat (i_nlink i)
    \<and> m_uid m = Some (i_uid i) \<and> m_gid m = Some (i_gid i) \<and> map_option unat (m_mode m) = Some (unat (i_mode i))
    \<and> (m_kind m = NodeFile \<longleftrightarrow> i_mode i AND 0xF000 = 0x8000) \<and> (m_kind m = NodeDir \<longleftrightarrow> i_mode i AND 0xF000 = 0x4000)
    \<and> (m_kind m = NodeSymlink \<longleftrightarrow> i_mode i AND 0xF000 = 0xA000)
    \<and> (m_kind m = NodeDevice \<longleftrightarrow> i_mode i AND 0xF000 \<in> {0x2000, 0x6000})
    \<and> map_option unix_nanos (t_modified (m_times m)) = Some (1000000000 * sint (ts_sec (i_mtime i)) + sint (ts_nsec (i_mtime i)))
    \<and> map_option unix_nanos (t_accessed (m_times m)) = Some (1000000000 * sint (ts_sec (i_atime i)) + sint (ts_nsec (i_atime i)))
    \<and> map_option unix_nanos (t_changed (m_times m)) = Some (1000000000 * sint (ts_sec (i_ctime i)) + sint (ts_nsec (i_ctime i)))
    \<and> map_option unix_nanos (t_born (m_times m))
       = map_option (\<lambda>t. 1000000000 * sint (ts_sec t) + sint (ts_nsec t)) (i_birthtime i)
    \<and> (t_born (m_times m) = None \<longleftrightarrow> sb_version (fs_sb fs) = Ufs1)
    \<and> (\<forall>s \<in> Option.these {t_modified (m_times m), t_accessed (m_times m), t_changed (m_times m), t_born (m_times m)}.
         ts_source s = InodeTable \<and> ts_resolution s = Nanos \<and> - (2 ^ 127) \<le> unix_nanos s \<and> unix_nanos s < 2 ^ 127)
    \<and> (case m_residency m of
         Resident k \<Rightarrow> i_mode i AND 0xF000 = 0xA000 \<and> 0 < sint (sb_maxsymlinklen (fs_sb fs))
           \<and> int (unat (i_size i)) \<le> sint (sb_maxsymlinklen (fs_sb fs))
           \<and> unat k = min (unat (i_size i)) (case sb_version (fs_sb fs) of Ufs1 \<Rightarrow> 60 | Ufs2 \<Rightarrow> 120)
       | NonResident \<Rightarrow> i_mode i AND 0xF000 \<noteq> 0xA000 \<or> sint (sb_maxsymlinklen (fs_sb fs)) \<le> 0
           \<or> sint (sb_maxsymlinklen (fs_sb fs)) < int (unat (i_size i)))
    \<and> m_streams m = [] \<and> m_link_target m = None"
proof -
  obtain i where i: "read_inode (fs_image fs) (fs_sb fs) ino = Inr i"
    using assms by (auto simp: vfs_meta_def try_bind_Inr_iff ino_of_def)
  note shape = read_inode_shape [OF i] and m = assms [symmetric, unfolded vfs_meta_def ino_of_def]
  have k: "m_kind m = node_kind_of (file_type_from_mode (i_mode i))" using m i shape(1) by simp
  have res: "case m_residency m of
         Resident k \<Rightarrow> i_mode i AND 0xF000 = 0xA000 \<and> 0 < sint (sb_maxsymlinklen (fs_sb fs))
           \<and> int (unat (i_size i)) \<le> sint (sb_maxsymlinklen (fs_sb fs))
           \<and> unat k = min (unat (i_size i)) (case sb_version (fs_sb fs) of Ufs1 \<Rightarrow> 60 | Ufs2 \<Rightarrow> 120)
       | NonResident \<Rightarrow> i_mode i AND 0xF000 \<noteq> 0xA000 \<or> sint (sb_maxsymlinklen (fs_sb fs)) \<le> 0
           \<or> sint (sb_maxsymlinklen (fs_sb fs)) < int (unat (i_size i))"
  proof (cases "inode_symlink_target i")
    case None
    then show ?thesis using m i shape(3) by (auto simp: symlink_bits [OF shape(1)])
  next
    case (Some t)
    then have "length t < 2 ^ 32" using shape(4) [OF Some] by (auto split: ufs_version.splits)
    then show ?thesis
      using m i Some shape(3) shape(4) [OF Some] by (simp add: symlink_bits [OF shape(1)] unat_of_nat)
  qed
  have born: "t_born (m_times m) = None \<longleftrightarrow> sb_version (fs_sb fs) = Ufs1" using m i shape(2) by simp
  have "unat (ucast (w :: u16) :: u32) = unat w" for w by (simp add: unat_ucast_up)
  then show ?thesis
    using m i k res born to_ts_fits
    by (intro exI [of _ i]) (auto simp: node_kind_bits Option.these_def to_ts_def option.map_comp comp_def)
qed

theorem vfs_meta_exact_witness:
  "\<exists>m. vfs_meta (\<lambda>_ :: unit. []) sample_fs (FileIdOpaque 2) = (Inr m :: unit vfs_error + fs_meta)
     \<and> m_kind m = NodeDir \<and> m_size m = 36 \<and> m_uid m = Some 1000 \<and> m_residency m = NonResident
     \<and> map_option unix_nanos (t_modified (m_times m)) = Some 1700000000000000002
     \<and> map_option unix_nanos (t_born (m_times m)) = Some 1700000000000000004"
proof -
  obtain m where m: "vfs_meta (\<lambda>_ :: unit. []) sample_fs (FileIdOpaque 2) = (Inr m :: unit vfs_error + fs_meta)"
    by (simp add: vfs_meta_def ino_of_def sample_inodes)
  have "i_mode sample_root = 0x41ED" "i_size sample_root = 36" "i_uid sample_root = 1000"
    "i_mtime sample_root = \<lparr> ts_sec = 1700000000, ts_nsec = 2 \<rparr>"
    "i_birthtime sample_root = Some \<lparr> ts_sec = 1700000000, ts_nsec = 4 \<rparr>"
    by (simp_all add: sample_root_def sample_inode_def)
  then have "m_kind m = NodeDir \<and> m_size m = 36 \<and> m_uid m = Some 1000 \<and> m_residency m = NonResident
      \<and> map_option unix_nanos (t_modified (m_times m)) = Some 1700000000000000002
      \<and> map_option unix_nanos (t_born (m_times m)) = Some 1700000000000000004"
    using vfs_meta_exact [OF m] by (simp add: sample_inodes split: residency.splits)
  then show ?thesis using m by blast
qed

text \<open>
  Time stamps keep what they stand for: for nanoseconds within a second, comparing the exported
  numbers is comparing seconds first and nanoseconds next, so equal numbers are equal times.
\<close>

lemma time_stamp_order:
  assumes "0 \<le> sint (ts_nsec a)" "sint (ts_nsec a) < 1000000000"
    and "0 \<le> sint (ts_nsec b)" "sint (ts_nsec b) < 1000000000"
  shows "(unix_nanos (to_ts a) < unix_nanos (to_ts b) \<longleftrightarrow>
        sint (ts_sec a) < sint (ts_sec b)
        \<or> sint (ts_sec a) = sint (ts_sec b) \<and> sint (ts_nsec a) < sint (ts_nsec b))
    \<and> (unix_nanos (to_ts a) = unix_nanos (to_ts b) \<longleftrightarrow> a = b)"
proof -
  have "a = b \<longleftrightarrow> sint (ts_sec a) = sint (ts_sec b) \<and> sint (ts_nsec a) = sint (ts_nsec b)"
    by (cases a; cases b) (auto intro: signed_word_eqI)
  moreover have "(x * 1000000000 + p < y * 1000000000 + q \<longleftrightarrow> x < y \<or> x = y \<and> p < q)
      \<and> (x * 1000000000 + p = y * 1000000000 + q \<longleftrightarrow> x = y \<and> p = q)"
    if "0 \<le> p" "p < 1000000000" "0 \<le> q" "q < 1000000000" for x y p q :: int
    using that by (cases x y rule: linorder_cases) auto
  ultimately show ?thesis using assms by (simp add: to_ts_def)
qed

lemma time_stamp_order_witness:
  "unix_nanos (to_ts \<lparr> ts_sec = - 1, ts_nsec = 999999999 \<rparr>) < unix_nanos (to_ts \<lparr> ts_sec = 0, ts_nsec = 0 \<rparr>)"
  using time_stamp_order [of "\<lparr> ts_sec = - 1, ts_nsec = 999999999 \<rparr>" "\<lparr> ts_sec = 0, ts_nsec = 0 \<rparr>"] by simp

end
