(* ===== verification/RustPanic.thy ===== *)
theory RustPanic
  imports UfsPrelude "HOL-Library.Monad_Syntax"
begin

text \<open>
  What Rust checks at run time. A computation that may panic is an option: \<^const>\<open>None\<close> is the panic,
  \<^const>\<open>Some\<close> the value returned. The primitives are the operations of the language and its
  standard library that panic: \<open>+\<close>, \<open>-\<close>, \<open>*\<close> that overflow (a build with overflow checks), \<open>/\<close> and
  \<open>%\<close> by zero, an oversized shift, \<open>xs[i]\<close> and \<open>&xs[a..b]\<close> out of bounds, \<open>copy_from_slice\<close>
  between slices of different lengths, \<open>vec![0; n]\<close> beyond \<open>isize::MAX\<close> bytes. Each comes with the condition
  under which it returns; the loops of the sources come with one rule each, so that a body is
  discharged construct by construct.
\<close>

named_theorems run_simps \<open>when a checked operation returns, and what\<close>

section \<open>Checked operations\<close>

definition usize_add :: "usize \<Rightarrow> usize \<Rightarrow> usize option" where
  "usize_add a b = (if a + b \<le> usize_max then Some (a + b) else None)"

definition usize_sub :: "usize \<Rightarrow> usize \<Rightarrow> usize option" where
  "usize_sub a b = (if b \<le> a then Some (a - b) else None)"

definition usize_mul :: "usize \<Rightarrow> usize \<Rightarrow> usize option" where
  "usize_mul a b = (if a * b \<le> usize_max then Some (a * b) else None)"

definition word_add :: "'a::len word \<Rightarrow> 'a word \<Rightarrow> 'a word option" where
  "word_add a b = (if unat a + unat b < 2 ^ LENGTH('a) then Some (a + b) else None)"

definition word_sub :: "'a::len word \<Rightarrow> 'a word \<Rightarrow> 'a word option" where
  "word_sub a b = (if b \<le> a then Some (a - b) else None)"

definition word_div :: "'a::len word \<Rightarrow> 'a word \<Rightarrow> 'a word option" where
  "word_div a b = (if b = 0 then None else Some (a div b))"

definition word_rem :: "'a::len word \<Rightarrow> 'a word \<Rightarrow> 'a word option" where
  "word_rem a b = (if b = 0 then None else Some (a mod b))"

definition word_shr :: "'a::len word \<Rightarrow> nat \<Rightarrow> 'a word option" where
  "word_shr a n = (if n < LENGTH('a) then Some (drop_bit n a) else None)"

definition vec_index :: "'a list \<Rightarrow> usize \<Rightarrow> 'a option" where
  "vec_index xs i = (if i < length xs then Some (xs ! i) else None)"

definition copy_from_slice :: "'a list \<Rightarrow> 'a list \<Rightarrow> 'a list option" where
  "copy_from_slice dst src = (if length dst = length src then Some src else None)"

definition vec_zeroed :: "usize \<Rightarrow> bytes option" where
  "vec_zeroed n = (if n \<le> isize_max then Some (replicate n 0) else None)"

text \<open>\<open>div_ceil\<close> of the standard library: a division, a remainder and, when it is not exact, an increment.\<close>

definition div_ceil_run :: "'a::len word \<Rightarrow> 'a word \<Rightarrow> 'a word option" where
  "div_ceil_run a b =
     do { q \<leftarrow> word_div a b; r \<leftarrow> word_rem a b; if 0 < r then word_add q 1 else Some q }"

lemma usize_add_Some [run_simps]: "a + b \<le> usize_max \<Longrightarrow> usize_add a b = Some (a + b)"
  by (simp add: usize_add_def)

lemma usize_sub_Some [run_simps]: "b \<le> a \<Longrightarrow> usize_sub a b = Some (a - b)"
  by (simp add: usize_sub_def)

lemma usize_mul_Some [run_simps]: "a * b \<le> usize_max \<Longrightarrow> usize_mul a b = Some (a * b)"
  by (simp add: usize_mul_def)

lemma word_add_Some [run_simps]:
  "unat a + unat b < 2 ^ LENGTH('a) \<Longrightarrow> word_add a b = Some (a + b)" for a b :: "'a::len word"
  by (simp add: word_add_def)

lemma word_sub_Some [run_simps]: "b \<le> a \<Longrightarrow> word_sub a b = Some (a - b)"
  by (simp add: word_sub_def)

lemma word_div_Some [run_simps]: "b \<noteq> 0 \<Longrightarrow> word_div a b = Some (a div b)"
  by (simp add: word_div_def)

lemma word_rem_Some [run_simps]: "b \<noteq> 0 \<Longrightarrow> word_rem a b = Some (a mod b)"
  by (simp add: word_rem_def)

lemma word_shr_Some [run_simps]:
  "n < LENGTH('a) \<Longrightarrow> word_shr a n = Some (drop_bit n a)" for a :: "'a::len word"
  by (simp add: word_shr_def)

lemma vec_index_Some [run_simps]: "i < length xs \<Longrightarrow> vec_index xs i = Some (xs ! i)"
  by (simp add: vec_index_def)

lemma copy_from_slice_Some [run_simps]: "length dst = length src \<Longrightarrow> copy_from_slice dst src = Some src"
  by (simp add: copy_from_slice_def)

lemma vec_zeroed_Some [run_simps]: "n \<le> isize_max \<Longrightarrow> vec_zeroed n = Some (replicate n 0)"
  by (simp add: vec_zeroed_def)

text \<open>An increment below a bound cannot overflow, whatever the width.\<close>

lemma word_add_1_below [run_simps]: "i < n \<Longrightarrow> word_add i 1 = Some (i + 1)" for i n :: "'a::len word"
proof -
  assume "i < n"
  then have "unat i + 1 \<le> unat n" by (simp add: word_less_nat_alt)
  then have "unat i + 1 < 2 ^ LENGTH('a)" using unat_lt [of n] by linarith
  moreover have "unat (1 :: 'a word) \<le> 1" by simp
  ultimately show ?thesis by (simp add: word_add_def)
qed

lemma word_add_1_unat: "word_add i 1 = Some j \<Longrightarrow> unat j = unat i + unat (1 :: 'a word)"
  for i j :: "'a::len word"
  by (auto simp: word_add_def unat_word_ariths split: if_splits)

lemma div_ceil_run_Some [run_simps]:
  fixes a b :: "'a::len word"
  assumes "b \<noteq> 0"
  shows "div_ceil_run a b = Some (div_ceil a b)"
proof -
  have "word_add (a div b) 1 = Some (a div b + 1)" if r: "0 < a mod b"
  proof -
    have "b \<noteq> 1" using r by (auto simp: word_less_nat_alt unat_mod)
    then have "unat b \<noteq> 0" "unat b \<noteq> 1"
      using assms by (metis unsigned_0 unsigned_word_eqI, metis unsigned_1 unsigned_word_eqI)
    then have "2 \<le> unat b" by simp
    then have "unat (a div b) \<le> unat a div 2" by (simp add: unat_div div_le_mono2)
    moreover have "0 < unat a" using r by (cases "a = 0") (auto simp: unat_gt_0)
    ultimately have "unat (a div b) < unat a" by linarith
    then show ?thesis by (intro word_add_1_below [of _ a]) (simp add: word_less_nat_alt)
  qed
  then show ?thesis using assms by (simp add: div_ceil_run_def div_ceil_def Let_def run_simps)
qed

section \<open>The \<open>?\<close> operator and loops\<close>

definition try_run :: "('e + 'a) option \<Rightarrow> ('a \<Rightarrow> ('e + 'b) option) \<Rightarrow> ('e + 'b) option" where
  "try_run m f = do { r \<leftarrow> m; case r of Inl e \<Rightarrow> Some (Inl e) | Inr x \<Rightarrow> f x }"

fun map_run :: "('a \<Rightarrow> 'b option) \<Rightarrow> 'a list \<Rightarrow> 'b list option" where
  "map_run f [] = Some []"
| "map_run f (x # xs) = do { y \<leftarrow> f x; ys \<leftarrow> map_run f xs; Some (y # ys) }"

fun fold_run :: "('x \<Rightarrow> 'a \<Rightarrow> 'a option) \<Rightarrow> 'x list \<Rightarrow> 'a \<Rightarrow> 'a option" where
  "fold_run f [] a = Some a"
| "fold_run f (x # xs) a = do { a' \<leftarrow> f x a; fold_run f xs a' }"

lemma try_run_Some:
  "(\<And>x. r = Inr x \<Longrightarrow> f x = Some (g x)) \<Longrightarrow> try_run (Some r) f = Some (try_bind r g)"
  by (cases r) (simp_all add: try_run_def)

lemma map_run_Some: "(\<And>x. x \<in> set xs \<Longrightarrow> f x = Some (g x)) \<Longrightarrow> map_run f xs = Some (map g xs)"
  by (induction xs) simp_all

lemma fold_run_Some:
  "(\<And>x a. x \<in> set xs \<Longrightarrow> f x a = Some (g x a)) \<Longrightarrow> fold_run f xs a = Some (fold g xs a)"
  by (induction xs arbitrary: a) simp_all

text \<open>Slices of a slice are slices.\<close>

lemma valid_slice_take [intro, simp]: "valid_slice xs \<Longrightarrow> valid_slice (take n xs)"
  by (simp add: valid_slice_def)

lemma valid_slice_drop [intro, simp]: "valid_slice xs \<Longrightarrow> valid_slice (drop n xs)"
  by (simp add: valid_slice_def)

lemma valid_slice_get: "slice_get xs a b = Some ys \<Longrightarrow> valid_slice xs \<Longrightarrow> valid_slice ys"
  by (auto simp: slice_get_Some_iff)

lemma valid_slice_from: "slice_from xs a = Some ys \<Longrightarrow> valid_slice xs \<Longrightarrow> valid_slice ys"
  by (auto simp: slice_from_def split: if_splits)

end
