(* ===== verification/RunReader.thy ===== *)
theory RunReader
  imports RustPanic UfsInode UfsCg
begin

text \<open>
  The byte readers, the superblock, the cylinder-group and the inode parser with every operation
  that may panic checked: the \<open>copy_from_slice\<close> into the fixed array of a reader, the offset arithmetic
  of the block pointers and of the inline symlink, the divisions that locate an inode. Each
  \<open>f_run\<close> is the body of the \<open>f\<close> of the earlier theories over the checked operations, and its lemma says that
  no check fires and that \<open>f\<close> is what it computes.
\<close>

section \<open>\<open>core/src/bytes.rs\<close>\<close>

definition read_array_run :: "nat \<Rightarrow> bytes \<Rightarrow> usize \<Rightarrow> bytes option" where
  "read_array_run n d off =
     (let b = replicate n 0 in
      case slice_get d off (usize_sat_add off n) of
        Some s \<Rightarrow> copy_from_slice b s
      | None \<Rightarrow> Some b)"

definition le_u16_run :: "bytes \<Rightarrow> usize \<Rightarrow> u16 option" where
  "le_u16_run d off = do { b \<leftarrow> read_array_run 2 d off; Some (from_le b) }"

definition be_u16_run :: "bytes \<Rightarrow> usize \<Rightarrow> u16 option" where
  "be_u16_run d off = do { b \<leftarrow> read_array_run 2 d off; Some (from_be b) }"

definition le_u32_run :: "bytes \<Rightarrow> usize \<Rightarrow> u32 option" where
  "le_u32_run d off = do { b \<leftarrow> read_array_run 4 d off; Some (from_le b) }"

definition be_u32_run :: "bytes \<Rightarrow> usize \<Rightarrow> u32 option" where
  "be_u32_run d off = do { b \<leftarrow> read_array_run 4 d off; Some (from_be b) }"

definition le_u64_run :: "bytes \<Rightarrow> usize \<Rightarrow> u64 option" where
  "le_u64_run d off = do { b \<leftarrow> read_array_run 8 d off; Some (from_le b) }"

definition be_u64_run :: "bytes \<Rightarrow> usize \<Rightarrow> u64 option" where
  "be_u64_run d off = do { b \<leftarrow> read_array_run 8 d off; Some (from_be b) }"

definition endian_u16_run :: "endian \<Rightarrow> bytes \<Rightarrow> usize \<Rightarrow> u16 option" where
  "endian_u16_run e d off = (case e of Little \<Rightarrow> le_u16_run d off | Big \<Rightarrow> be_u16_run d off)"

definition endian_u32_run :: "endian \<Rightarrow> bytes \<Rightarrow> usize \<Rightarrow> u32 option" where
  "endian_u32_run e d off = (case e of Little \<Rightarrow> le_u32_run d off | Big \<Rightarrow> be_u32_run d off)"

definition endian_i32_run :: "endian \<Rightarrow> bytes \<Rightarrow> usize \<Rightarrow> i32 option" where
  "endian_i32_run e d off = endian_u32_run e d off"

definition endian_u64_run :: "endian \<Rightarrow> bytes \<Rightarrow> usize \<Rightarrow> u64 option" where
  "endian_u64_run e d off = (case e of Little \<Rightarrow> le_u64_run d off | Big \<Rightarrow> be_u64_run d off)"

definition endian_i64_run :: "endian \<Rightarrow> bytes \<Rightarrow> usize \<Rightarrow> i64 option" where
  "endian_i64_run e d off = endian_u64_run e d off"

lemma read_array_run_Some [run_simps]:
  assumes "valid_slice d" and "n \<le> 8"
  shows "read_array_run n d off = Some (read_array n d off)"
proof (cases "slice_get d off (usize_sat_add off n)")
  case None
  then show ?thesis by (simp add: read_array_run_def read_array_def Let_def)
next
  case (Some s)
  then have "usize_sat_add off n \<le> isize_max" "off \<le> usize_sat_add off n"
    using assms(1) by (simp_all add: slice_get_Some_iff valid_slice_def)
  then have "usize_sat_add off n = off + n" by (auto simp: usize_sat_add_def min_def split: if_splits)
  then have "length s = n" using slice_get_length [OF Some] by simp
  then show ?thesis using Some by (simp add: read_array_run_def read_array_def Let_def run_simps)
qed

lemma reader_runs [run_simps]:
  assumes "valid_slice d"
  shows "endian_u16_run e d off = Some (endian_u16 e d off)"
    and "endian_u32_run e d off = Some (endian_u32 e d off)"
    and "endian_i32_run e d off = Some (endian_i32 e d off)"
    and "endian_u64_run e d off = Some (endian_u64 e d off)"
    and "endian_i64_run e d off = Some (endian_i64 e d off)"
  using assms
  by (cases e; simp add: endian_u16_run_def endian_u32_run_def endian_i32_run_def endian_u64_run_def
      endian_i64_run_def le_u16_run_def be_u16_run_def le_u32_run_def be_u32_run_def le_u64_run_def
      be_u64_run_def reader_defs endian_i32_def endian_i64_def run_simps)+

section \<open>\<open>core/src/superblock.rs\<close> and \<open>core/src/cg.rs\<close>\<close>

definition sb_decode_run :: "bytes \<Rightarrow> ufs_version \<Rightarrow> endian \<Rightarrow> superblock option" where
  "sb_decode_run data version e =
     do {
       (size, dsize) \<leftarrow> (case version of
           Ufs1 \<Rightarrow> do { s \<leftarrow> endian_i32_run e data OFF_OLD_SIZE; d \<leftarrow> endian_i32_run e data OFF_OLD_DSIZE;
                        Some (scast s, scast d) }
         | Ufs2 \<Rightarrow> do { s \<leftarrow> endian_i64_run e data OFF_SIZE; d \<leftarrow> endian_i64_run e data OFF_DSIZE;
                        Some (s, d) });
       sblockloc \<leftarrow> (case version of Ufs1 \<Rightarrow> Some 0 | Ufs2 \<Rightarrow> endian_i64_run e data OFF_SBLOCKLOC);
       sblkno \<leftarrow> endian_i32_run e data OFF_SBLKNO;
       cblkno \<leftarrow> endian_i32_run e data OFF_CBLKNO;
       iblkno \<leftarrow> endian_i32_run e data OFF_IBLKNO;
       dblkno \<leftarrow> endian_i32_run e data OFF_DBLKNO;
       ncg \<leftarrow> endian_u32_run e data OFF_NCG;
       bsize \<leftarrow> endian_i32_run e data OFF_BSIZE;
       fsize \<leftarrow> endian_i32_run e data OFF_FSIZE;
       frag \<leftarrow> endian_i32_run e data OFF_FRAG;
       bshift \<leftarrow> endian_i32_run e data OFF_BSHIFT;
       fshift \<leftarrow> endian_i32_run e data OFF_FSHIFT;
       fragshift \<leftarrow> endian_i32_run e data OFF_FRAGSHIFT;
       fsbtodb \<leftarrow> endian_i32_run e data OFF_FSBTODB;
       sbsize \<leftarrow> endian_i32_run e data OFF_SBSIZE;
       nindir \<leftarrow> endian_i32_run e data OFF_NINDIR;
       inopb \<leftarrow> endian_u32_run e data OFF_INOPB;
       ipg \<leftarrow> endian_i32_run e data OFF_IPG;
       fpg \<leftarrow> endian_i32_run e data OFF_FPG;
       csaddr \<leftarrow> endian_i64_run e data OFF_CSADDR;
       maxsymlinklen \<leftarrow> endian_i32_run e data OFF_MAXSYMLINKLEN;
       Some \<lparr> sb_version = version, sb_endian = e, sb_sblkno = sblkno, sb_cblkno = cblkno,
         sb_iblkno = iblkno, sb_dblkno = dblkno, sb_ncg = ncg, sb_bsize = bsize, sb_fsize = fsize,
         sb_frag = frag, sb_bshift = bshift, sb_fshift = fshift, sb_fragshift = fragshift,
         sb_fsbtodb = fsbtodb, sb_sbsize = sbsize, sb_nindir = nindir, sb_inopb = inopb,
         sb_ipg = ipg, sb_fpg = fpg, sb_size = size, sb_dsize = dsize, sb_csaddr = csaddr,
         sb_sblockloc = sblockloc, sb_maxsymlinklen = maxsymlinklen \<rparr> }"

definition sb_parse_run :: "bytes \<Rightarrow> (ufs_error + superblock) option" where
  "sb_parse_run data =
     (if length data < SB_MIN_LEN
      then Some (Inl (ErrTruncated ''superblock'' SB_MIN_LEN (length data)))
      else do {
        o1 \<leftarrow> usize_add FS_MAGIC_OFF 1; o2 \<leftarrow> usize_add FS_MAGIC_OFF 2; o3 \<leftarrow> usize_add FS_MAGIC_OFF 3;
        let bs = [u8_at data FS_MAGIC_OFF, u8_at data o1, u8_at data o2, u8_at data o3];
        let le = from_le bs;
        let be = from_be bs;
        case sb_detect le be of
          None \<Rightarrow> Some (Inl (ErrBadMagic FS_MAGIC_OFF bs le be))
        | Some (version, e) \<Rightarrow>
            do { sb \<leftarrow> sb_decode_run data version e;
                 Some (try_bind (sb_validate_geometry sb) (\<lambda>_. Inr sb)) } })"

lemma sb_decode_run_Some: "valid_slice data \<Longrightarrow> sb_decode_run data v e = Some (sb_decode data v e)"
  by (cases v) (simp_all add: sb_decode_run_def sb_decode_def run_simps)

lemma sb_parse_run_Some [run_simps]:
  assumes "valid_slice data"
  shows "sb_parse_run data = Some (sb_parse data)"
proof -
  have "usize_add FS_MAGIC_OFF k = Some (FS_MAGIC_OFF + k)" if "k \<le> 3" for k
    using that by (simp add: sb_consts usize_add_def)
  then show ?thesis
    using assms
    by (simp add: sb_parse_run_def sb_parse_def Let_def sb_magic_bytes_def sb_decode_run_Some
        split: option.split)
qed

definition cg_parse_run :: "bytes \<Rightarrow> endian \<Rightarrow> (ufs_error + cylinder_group) option" where
  "cg_parse_run data e =
     (if length data < CG_MIN_LEN
      then Some (Inl (ErrTruncated ''cylinder group'' CG_MIN_LEN (length data)))
      else do {
        magic \<leftarrow> endian_u32_run e data OFF_MAGIC;
        if magic \<noteq> CG_MAGIC then Some (Inl (ErrBadCgMagic magic e))
        else do {
          cgx \<leftarrow> endian_u32_run e data OFF_CGX;
          ndblk \<leftarrow> endian_u32_run e data OFF_NDBLK;
          niblk \<leftarrow> endian_i32_run e data OFF_NIBLK;
          initediblk \<leftarrow> endian_u32_run e data OFF_INITEDIBLK;
          iusedoff \<leftarrow> endian_u32_run e data OFF_IUSEDOFF;
          freeoff \<leftarrow> endian_u32_run e data OFF_FREEOFF;
          clusteroff \<leftarrow> endian_u32_run e data OFF_CLUSTEROFF;
          Some (Inr \<lparr> cg_cgx = cgx, cg_ndblk = ndblk, cg_niblk = niblk, cg_initediblk = initediblk,
            cg_iusedoff = iusedoff, cg_freeoff = freeoff, cg_clusteroff = clusteroff \<rparr>) } })"

lemma cg_parse_run_Some [run_simps]: "valid_slice data \<Longrightarrow> cg_parse_run data e = Some (cg_parse data e)"
  by (simp add: cg_parse_run_def cg_parse_def Let_def run_simps)

section \<open>\<open>core/src/inode.rs\<close>\<close>

definition read_ptr_run :: "ufs_version \<Rightarrow> endian \<Rightarrow> bytes \<Rightarrow> usize \<Rightarrow> u64 option" where
  "read_ptr_run v e data off =
     (case v of
        Ufs1 \<Rightarrow> do { p \<leftarrow> endian_u32_run e data off; Some (ucast p) }
      | Ufs2 \<Rightarrow> endian_u64_run e data off)"

definition read_ptrs_run :: "ufs_version \<Rightarrow> endian \<Rightarrow> bytes \<Rightarrow> usize \<Rightarrow> nat \<Rightarrow> u64 list option" where
  "read_ptrs_run v e data base n =
     map_run (\<lambda>i. do { k \<leftarrow> usize_mul i (inode_ptr_size v); off \<leftarrow> usize_add base k; read_ptr_run v e data off })
       [0..<n]"

definition inode_fast_symlink_run ::
  "bytes \<Rightarrow> ufs_version \<Rightarrow> file_type \<Rightarrow> u64 \<Rightarrow> i32 \<Rightarrow> bytes option option" where
  "inode_fast_symlink_run data v ft sz maxsymlinklen =
     (if ft = FtSymlink \<and> 0 < sint maxsymlinklen \<and> sz \<le> scast maxsymlinklen
      then do {
        ptrs \<leftarrow> usize_add UFS_NDADDR UFS_NIADDR;
        region_len \<leftarrow> usize_mul ptrs (inode_ptr_size v);
        let n = min (unat sz) region_len;
        let db_off = inode_db_off v;
        stop \<leftarrow> usize_add db_off n;
        Some (slice_get data db_off stop) }
      else Some None)"

definition timespec_run :: "i64 option \<Rightarrow> i32 option \<Rightarrow> timespec option" where
  "timespec_run s n = do { sec \<leftarrow> s; nsec \<leftarrow> n; Some \<lparr> ts_sec = sec, ts_nsec = nsec \<rparr> }"

definition inode_decode_run :: "bytes \<Rightarrow> ufs_version \<Rightarrow> endian \<Rightarrow> i32 \<Rightarrow> inode option" where
  "inode_decode_run data v e maxsymlinklen =
     (let u16 = endian_u16_run e data; u32 = endian_u32_run e data; u64 = endian_u64_run e data;
          i32 = endian_i32_run e data; i64 = endian_i64_run e data;
          i32_64 = (\<lambda>off. do { s \<leftarrow> endian_i32_run e data off; Some (scast s :: i64) }) in
      do {
        mode \<leftarrow> (case v of Ufs2 \<Rightarrow> u16 U2_MODE | Ufs1 \<Rightarrow> u16 U1_MODE);
        nlink \<leftarrow> (case v of Ufs2 \<Rightarrow> u16 U2_NLINK | Ufs1 \<Rightarrow> u16 U1_NLINK);
        uid \<leftarrow> (case v of Ufs2 \<Rightarrow> u32 U2_UID | Ufs1 \<Rightarrow> u32 U1_UID);
        gid \<leftarrow> (case v of Ufs2 \<Rightarrow> u32 U2_GID | Ufs1 \<Rightarrow> u32 U1_GID);
        sz \<leftarrow> (case v of Ufs2 \<Rightarrow> u64 U2_SIZE | Ufs1 \<Rightarrow> u64 U1_SIZE);
        blocks \<leftarrow> (case v of
            Ufs2 \<Rightarrow> u64 U2_BLOCKS
          | Ufs1 \<Rightarrow> do { b \<leftarrow> u32 U1_BLOCKS; Some (ucast b) });
        atime \<leftarrow> (case v of
            Ufs2 \<Rightarrow> timespec_run (i64 U2_ATIME) (i32 U2_ATIMENSEC)
          | Ufs1 \<Rightarrow> timespec_run (i32_64 U1_ATIME) (i32 U1_ATIMENSEC));
        mtime \<leftarrow> (case v of
            Ufs2 \<Rightarrow> timespec_run (i64 U2_MTIME) (i32 U2_MTIMENSEC)
          | Ufs1 \<Rightarrow> timespec_run (i32_64 U1_MTIME) (i32 U1_MTIMENSEC));
        ctime \<leftarrow> (case v of
            Ufs2 \<Rightarrow> timespec_run (i64 U2_CTIME) (i32 U2_CTIMENSEC)
          | Ufs1 \<Rightarrow> timespec_run (i32_64 U1_CTIME) (i32 U1_CTIMENSEC));
        birthtime \<leftarrow> (case v of
            Ufs2 \<Rightarrow> do { t \<leftarrow> timespec_run (i64 U2_BIRTHTIME) (i32 U2_BIRTHNSEC); Some (Some t) }
          | Ufs1 \<Rightarrow> Some None);
        direct \<leftarrow> read_ptrs_run v e data (inode_db_off v) UFS_NDADDR;
        indirect \<leftarrow> read_ptrs_run v e data (inode_ib_off v) UFS_NIADDR;
        let ft = file_type_from_mode mode;
        fast_symlink \<leftarrow> inode_fast_symlink_run data v ft sz maxsymlinklen;
        Some \<lparr> i_version = v, i_mode = mode, i_file_type = ft, i_nlink = nlink, i_uid = uid, i_gid = gid,
          i_size = sz, i_blocks = blocks, i_atime = atime, i_mtime = mtime, i_ctime = ctime,
          i_birthtime = birthtime, i_direct = direct, i_indirect = indirect,
          i_fast_symlink = fast_symlink \<rparr> })"

definition inode_parse_with_maxsymlink_run ::
  "bytes \<Rightarrow> ufs_version \<Rightarrow> endian \<Rightarrow> i32 \<Rightarrow> (ufs_error + inode) option" where
  "inode_parse_with_maxsymlink_run data v e maxsymlinklen =
     (let need = dinode_size v
      in if length data < need then Some (Inl (ErrTruncated ''dinode'' need (length data)))
         else do { i \<leftarrow> inode_decode_run data v e maxsymlinklen; Some (Inr i) })"

definition inode_parse_run :: "bytes \<Rightarrow> ufs_version \<Rightarrow> endian \<Rightarrow> (ufs_error + inode) option" where
  "inode_parse_run data v e = inode_parse_with_maxsymlink_run data v e DEFAULT_MAXSYMLINKLEN"

text \<open>The divisions that locate an inode are reached only behind the guards on the geometry.\<close>

definition read_inode_run :: "bytes \<Rightarrow> superblock \<Rightarrow> u64 \<Rightarrow> (ufs_error + inode) option" where
  "read_inode_run part sb ino =
     (if sint (sb_ipg sb) \<le> 0
      then Some (Inl (ErrImpossibleGeometry ''fs_ipg'' (scast (sb_ipg sb)) I64_MAX))
      else if sint (sb_fpg sb) \<le> 0
      then Some (Inl (ErrImpossibleGeometry ''fs_fpg'' (scast (sb_fpg sb)) I64_MAX))
      else if sint (sb_fsize sb) \<le> 0
      then Some (Inl (ErrImpossibleGeometry ''fs_fsize'' (scast (sb_fsize sb)) I64_MAX))
      else if sint (sb_iblkno sb) < 0
      then Some (Inl (ErrImpossibleGeometry ''fs_iblkno'' (scast (sb_iblkno sb)) I64_MAX))
      else
        let ipg = scast (sb_ipg sb); fpg = scast (sb_fpg sb); fsize = scast (sb_fsize sb);
            iblkno = scast (sb_iblkno sb); inode_size = ucast (sb_inode_size sb);
            count = sat_mul ipg (ucast (sb_ncg sb))
        in if ino \<ge> count then Some (Inl (ErrInodeOutOfRange ino count))
           else do {
             cg \<leftarrow> word_div ino ipg;
             within \<leftarrow> word_rem ino ipg;
             let cgimin = sat_add (sat_mul cg fpg) iblkno;
             let start = unat (sat_add (sat_mul cgimin fsize) (sat_mul within inode_size));
             let stop = usize_sat_add start (unat inode_size);
             case slice_get part start stop of
               None \<Rightarrow> Some (Inl (ErrTruncated ''dinode (located)'' stop (length part)))
             | Some s \<Rightarrow>
                 inode_parse_with_maxsymlink_run s (sb_version sb) (sb_endian sb) (sb_maxsymlinklen sb) })"

lemma read_ptr_run_Some [run_simps]: "valid_slice data \<Longrightarrow> read_ptr_run v e data off = Some (read_ptr v e data off)"
  by (cases v) (simp_all add: read_ptr_run_def read_ptr_def run_simps)

lemma read_ptrs_run_Some [run_simps]:
  assumes "valid_slice data" and "base \<le> 1000" and "n \<le> 1000"
  shows "read_ptrs_run v e data base n = Some (read_ptrs v e data base n)"
  unfolding read_ptrs_run_def read_ptrs_def
proof (rule map_run_Some)
  fix i assume "i \<in> set [0..<n]"
  then have "i * inode_ptr_size v \<le> 8000" using assms(3) by (cases v) (simp_all add: inode_ptr_size_def)
  then show "do { k \<leftarrow> usize_mul i (inode_ptr_size v); off \<leftarrow> usize_add base k; read_ptr_run v e data off }
      = Some (read_ptr v e data (base + i * inode_ptr_size v))"
    using assms by (simp add: run_simps)
qed

lemma inode_fast_symlink_run_Some [run_simps]:
  "inode_fast_symlink_run data v ft sz m = Some (inode_fast_symlink data v ft sz m)"
  by (cases v) (simp_all add: inode_fast_symlink_run_def inode_fast_symlink_def run_simps sb_consts
      inode_ptr_size_def inode_db_off_def)

lemma timespec_run_Some [run_simps]:
  "timespec_run (Some s) (Some n) = Some \<lparr> ts_sec = s, ts_nsec = n \<rparr>"
  by (simp add: timespec_run_def)

lemma ptr_offsets_small: "inode_db_off v \<le> 1000" "inode_ib_off v \<le> 1000" "UFS_NDADDR \<le> 1000" "UFS_NIADDR \<le> 1000"
  by (cases v; simp add: inode_db_off_def inode_ib_off_def sb_consts)+

lemma inode_decode_run_Some [run_simps]:
  assumes "valid_slice data"
  shows "inode_decode_run data v e m = Some (inode_decode data v e m)"
proof -
  note [simp] = ptr_offsets_small
  show ?thesis
    by (cases v) (simp_all add: inode_decode_run_def inode_decode_def Let_def run_simps assms)
qed

lemma inode_parse_with_maxsymlink_run_Some [run_simps]:
  "valid_slice data \<Longrightarrow>
     inode_parse_with_maxsymlink_run data v e m = Some (inode_parse_with_maxsymlink data v e m)"
  by (simp add: inode_parse_with_maxsymlink_run_def inode_parse_with_maxsymlink_def Let_def run_simps)

lemma inode_parse_run_Some [run_simps]: "valid_slice data \<Longrightarrow> inode_parse_run data v e = Some (inode_parse data v e)"
  by (simp add: inode_parse_run_def inode_parse_def run_simps)

lemma scast_pos_nonzero: "0 < sint (w :: i32) \<Longrightarrow> (scast w :: u64) \<noteq> 0"
  using unat_scast_i32 [of w] by (metis nat_eq_iff2 less_le not_less unat_0 zero_less_nat_eq)

lemma read_inode_run_Some [run_simps]:
  assumes "valid_slice part"
  shows "read_inode_run part sb ino = Some (read_inode part sb ino)"
proof -
  have "inode_parse_with_maxsymlink_run s v e m = Some (inode_parse_with_maxsymlink s v e m)"
    if "slice_get part a b = Some s" for a b s v e m
    using valid_slice_get [OF that assms] by (rule inode_parse_with_maxsymlink_run_Some)
  moreover have "unat (ucast (sb_inode_size sb) :: u64) = unat (sb_inode_size sb)" by simp
  ultimately show ?thesis
    by (auto simp: read_inode_run_def read_inode_def inode_byte_def Let_def scast_pos_nonzero run_simps
        split: option.split)
qed

end
