(* ===== verification/RunContent.thy ===== *)
theory RunContent
  imports RunReader UfsFile
begin

text \<open>
  The directory walk, the path lookup and the file assembly with every operation that may panic
  checked: the cursor of the walk, the index into the direct pointers, the subtractions and divisions of
  the indirect tree, the allocation of the file's buffer, the ranges and the copy of each block, the
  increment of the block counter. The loops return whatever the image holds.
\<close>

section \<open>\<open>core/src/dir.rs\<close>\<close>

definition dirent_at_run :: "bytes \<Rightarrow> endian \<Rightarrow> usize \<Rightarrow> (dir_entry \<times> usize) option option" where
  "dirent_at_run block e off =
     do {
       o_ino \<leftarrow> usize_add off OFF_INO;
       ino \<leftarrow> endian_u32_run e block o_ino;
       o_reclen \<leftarrow> usize_add off OFF_RECLEN;
       reclen16 \<leftarrow> endian_u16_run e block o_reclen;
       o_type \<leftarrow> usize_add off OFF_TYPE;
       let d_type = u8_at block o_type;
       o_namlen \<leftarrow> usize_add off OFF_NAMLEN;
       let namlen = unat (u8_at block o_namlen);
       let reclen = unat reclen16;
       if reclen < DIRECT_HEAD then Some None
       else do {
         name_start \<leftarrow> usize_add off OFF_NAME;
         let tk = min namlen (reclen - OFF_NAME);
         let name_end = min (usize_sat_add name_start tk) (length block);
         let name = (case slice_get block name_start name_end of Some s \<Rightarrow> s | None \<Rightarrow> []);
         Some (Some (\<lparr> de_name = name, de_ino = ucast ino, de_file_type = from_d_type d_type,
                       de_deleted = ((ucast ino :: u64) = 0) \<rparr>, reclen)) } }"

function walk_loop_run :: "bytes \<Rightarrow> endian \<Rightarrow> usize \<Rightarrow> dir_entry list \<Rightarrow> dir_entry list option" where
  "walk_loop_run block e off out =
     (case usize_add off DIRECT_HEAD of
        None \<Rightarrow> None
      | Some head_end \<Rightarrow>
          if head_end \<le> length block
          then (case dirent_at_run block e off of
                  None \<Rightarrow> None
                | Some None \<Rightarrow> Some out
                | Some (Some (en, reclen)) \<Rightarrow>
                    walk_loop_run block e (usize_sat_add off reclen) (out @ [en]))
          else Some out)"
  by pat_completeness auto

lemma dirent_at_run_reclen: "dirent_at_run block e off = Some (Some (en, reclen)) \<Longrightarrow> DIRECT_HEAD \<le> reclen"
  by (auto simp: dirent_at_run_def Let_def bind_eq_Some_conv split: if_splits)

termination walk_loop_run
  by (relation "measure (\<lambda>(block, e, off, out). length block - off)")
    (auto simp: usize_add_def usize_sat_add_def sb_consts split: if_splits dest!: dirent_at_run_reclen)

declare walk_loop_run.simps [simp del]

definition walk_block_run :: "bytes \<Rightarrow> endian \<Rightarrow> dir_entry list \<Rightarrow> dir_entry list option" where
  "walk_block_run block e out = walk_loop_run block e 0 out"

lemma dirent_at_run_Some:
  assumes "valid_slice block" and "off + DIRECT_HEAD \<le> length block"
  shows "dirent_at_run block e off = Some (dirent_at block e off)"
proof -
  have "off + 8 \<le> isize_max" using assms by (simp add: valid_slice_def sb_consts)
  then have "usize_add off k = Some (off + k)" if "k \<le> 8" for k
    using that by (simp add: usize_add_def)
  then show ?thesis
    using assms(1) by (simp add: dirent_at_run_def dirent_at_def Let_def run_simps sb_consts)
qed

lemma dirent_at_reclen16: "dirent_at block e off = Some (en, reclen) \<Longrightarrow> reclen < 65536"
  using unat_lt [of "endian_u16 e block (off + OFF_RECLEN)"]
  by (auto simp: dirent_at_def Let_def split: if_splits)

lemma walk_loop_run_Some:
  assumes "valid_slice block" and "off \<le> length block + 65536"
  shows "walk_loop_run block e off out = Some (walk_loop block e off out)"
  using assms
proof (induction block e off out rule: walk_loop.induct)
  case (1 block e off out)
  have small: "length block \<le> isize_max" using "1.prems"(1) by (simp add: valid_slice_def)
  with "1.prems"(2) have head: "usize_add off DIRECT_HEAD = Some (off + DIRECT_HEAD)"
    by (simp add: usize_add_def sb_consts)
  show ?case
  proof (cases "off + DIRECT_HEAD \<le> length block")
    case False
    then show ?thesis
      by (subst walk_loop_run.simps, subst walk_loop.simps) (simp add: head)
  next
    case True
    note at = dirent_at_run_Some [OF "1.prems"(1) True]
    show ?thesis
    proof (cases "dirent_at block e off")
      case None
      then show ?thesis
        using True by (subst walk_loop_run.simps, subst walk_loop.simps) (simp add: head at)
    next
      case (Some p)
      obtain en reclen where p: "p = (en, reclen)" by (cases p)
      have r: "reclen < 65536" using Some p by (simp add: dirent_at_reclen16)
      then have s: "usize_sat_add off reclen = off + reclen"
        using True small by (intro usize_sat_add_small) (simp add: sb_consts)
      have "walk_loop_run block e (off + reclen) (out @ [en]) = Some (walk_loop block e (off + reclen) (out @ [en]))"
        using "1.IH" [OF True Some [unfolded p] refl] "1.prems"(1) True r by (simp add: sb_consts)
      then show ?thesis
        using True Some p by (subst walk_loop_run.simps, subst walk_loop.simps) (simp add: head at s)
    qed
  qed
qed

lemma walk_block_run_Some [run_simps]:
  "valid_slice block \<Longrightarrow> walk_block_run block e out = Some (walk_block block e out)"
  by (simp add: walk_block_run_def walk_block_def walk_loop_run_Some)

fun list_dir_loop_run ::
  "bytes \<Rightarrow> superblock \<Rightarrow> u64 \<Rightarrow> u64 list \<Rightarrow> u64 \<Rightarrow> dir_entry list \<Rightarrow> dir_entry list option" where
  "list_dir_loop_run part sb bsize [] remaining entries = Some entries"
| "list_dir_loop_run part sb bsize (addr # addrs) remaining entries =
     (if remaining = 0 then Some entries
      else if addr = 0
      then list_dir_loop_run part sb bsize addrs (sat_sub remaining bsize) entries
      else
        let want = unat (min remaining bsize)
        in case read_block part sb addr want of
             Inl _ \<Rightarrow> Some entries
           | Inr block \<Rightarrow>
               do { entries' \<leftarrow> walk_block_run block (sb_endian sb) entries;
                    list_dir_loop_run part sb bsize addrs (sat_sub remaining bsize) entries' })"

definition list_dir_entries_run :: "bytes \<Rightarrow> superblock \<Rightarrow> inode \<Rightarrow> dir_entry list option" where
  "list_dir_entries_run part sb i =
     (if sint (sb_fsize sb) \<le> 0 then Some []
      else
        let bsize = (if sint (sb_bsize sb) > 0 then scast (sb_bsize sb) else of_nat DIRBLKSIZ)
        in list_dir_loop_run part sb bsize (i_direct i) (i_size i) [])"

definition list_dir_all_run :: "bytes \<Rightarrow> superblock \<Rightarrow> u64 \<Rightarrow> (ufs_error + dir_entry list) option" where
  "list_dir_all_run part sb dir_ino =
     try_run (read_inode_run part sb dir_ino)
       (\<lambda>i. do { es \<leftarrow> list_dir_entries_run part sb i; Some (Inr es) })"

definition list_dir_run :: "bytes \<Rightarrow> superblock \<Rightarrow> u64 \<Rightarrow> (ufs_error + dir_entry list) option" where
  "list_dir_run part sb dir_ino =
     try_run (list_dir_all_run part sb dir_ino) (\<lambda>es. Some (Inr (filter (\<lambda>e. \<not> de_deleted e) es)))"

fun path_loop_run ::
  "bytes \<Rightarrow> superblock \<Rightarrow> bytes list \<Rightarrow> u64 \<Rightarrow> inode \<Rightarrow> (ufs_error + (u64 \<times> inode) option) option" where
  "path_loop_run part sb [] cur_ino cur = Some (Inr (Some (cur_ino, cur)))"
| "path_loop_run part sb (piece # pieces) cur_ino cur =
     (if piece = [] then path_loop_run part sb pieces cur_ino cur
      else if \<not> inode_is_dir cur then Some (Inr None)
      else
        do { entries \<leftarrow> list_dir_entries_run part sb cur;
             case find (\<lambda>e. \<not> de_deleted e \<and> de_name e = piece) entries of
               None \<Rightarrow> Some (Inr None)
             | Some hit \<Rightarrow>
                 try_run (read_inode_run part sb (de_ino hit))
                   (\<lambda>i. path_loop_run part sb pieces (de_ino hit) i) })"

definition read_by_path_run :: "bytes \<Rightarrow> superblock \<Rightarrow> bytes \<Rightarrow> (ufs_error + (u64 \<times> inode) option) option" where
  "read_by_path_run part sb path =
     try_run (read_inode_run part sb UFS_ROOTINO)
       (\<lambda>root. path_loop_run part sb (split_on slash path) UFS_ROOTINO root)"

lemma read_block_valid: "read_block part sb addr n = Inr block \<Longrightarrow> valid_slice part \<Longrightarrow> valid_slice block"
  by (auto simp: read_block_def Let_def valid_slice_def slice_get_def split: if_splits option.splits)

lemma list_dir_loop_run_Some:
  "valid_slice part \<Longrightarrow>
     list_dir_loop_run part sb bsize addrs remaining entries
       = Some (list_dir_loop part sb bsize addrs remaining entries)"
proof (induction addrs arbitrary: remaining entries)
  case (Cons addr addrs)
  show ?case
  proof (cases "read_block part sb addr (unat (min remaining bsize))")
    case (Inr block)
    then have "valid_slice block" using Cons.prems by (rule read_block_valid)
    then show ?thesis using Inr Cons by (simp add: Let_def run_simps)
  qed (use Cons in \<open>simp add: Let_def\<close>)
qed simp

lemma list_dir_entries_run_Some [run_simps]:
  "valid_slice part \<Longrightarrow> list_dir_entries_run part sb i = Some (list_dir_entries part sb i)"
  by (simp add: list_dir_entries_run_def list_dir_entries_def Let_def list_dir_loop_run_Some)

lemma list_dir_all_run_Some [run_simps]:
  "valid_slice part \<Longrightarrow> list_dir_all_run part sb ino = Some (list_dir_all part sb ino)"
  unfolding list_dir_all_run_def list_dir_all_def
  by (simp add: run_simps, rule try_run_Some, simp)

lemma list_dir_run_Some [run_simps]:
  "valid_slice part \<Longrightarrow> list_dir_run part sb ino = Some (list_dir part sb ino)"
  unfolding list_dir_run_def list_dir_def
  by (simp add: run_simps, rule try_run_Some, simp)

lemma path_loop_run_Some:
  "valid_slice part \<Longrightarrow>
     path_loop_run part sb pieces cur_ino cur = Some (path_loop part sb pieces cur_ino cur)"
  by (induction pieces arbitrary: cur_ino cur) (auto simp: run_simps split: option.split intro: try_run_Some)

lemma read_by_path_run_Some [run_simps]:
  "valid_slice part \<Longrightarrow> read_by_path_run part sb path = Some (read_by_path part sb path)"
  unfolding read_by_path_run_def read_by_path_def
  by (simp add: run_simps, rule try_run_Some, simp add: path_loop_run_Some)

section \<open>\<open>core/src/file.rs\<close>\<close>

definition indirect_ptr_run :: "bytes \<Rightarrow> superblock \<Rightarrow> u64 \<Rightarrow> u64 \<Rightarrow> u64 option" where
  "indirect_ptr_run part sb ind_addr idx =
     (if ind_addr = 0 then Some 0
      else
        let bsize = (if sint (sb_bsize sb) > 0 then unat (scast (sb_bsize sb) :: u64) else 0)
        in case read_block part sb ind_addr bsize of
             Inl _ \<Rightarrow> Some 0
           | Inr block \<Rightarrow>
               (let ptr_size = (case sb_version sb of Ufs2 \<Rightarrow> 8 | Ufs1 \<Rightarrow> 4) :: u64;
                    off = unat (sat_mul idx ptr_size)
                in case sb_version sb of
                     Ufs2 \<Rightarrow> endian_u64_run (sb_endian sb) block off
                   | Ufs1 \<Rightarrow> do { p \<leftarrow> endian_u32_run (sb_endian sb) block off; Some (ucast p) }))"

definition resolve_block_run :: "bytes \<Rightarrow> superblock \<Rightarrow> inode \<Rightarrow> u64 \<Rightarrow> u64 \<Rightarrow> u64 option" where
  "resolve_block_run part sb inode bi nindir =
     (let ndaddr = of_nat UFS_NDADDR in
      if bi < ndaddr then vec_index (i_direct inode) (unat bi)
      else if nindir = 0 then Some 0
      else do {
        i \<leftarrow> word_sub bi ndaddr;
        if i < nindir
        then do { root \<leftarrow> vec_index (i_indirect inode) 0; indirect_ptr_run part sb root i }
        else do {
          i \<leftarrow> word_sub i nindir;
          let nindir2 = sat_mul nindir nindir;
          if i < nindir2
          then do {
            root \<leftarrow> vec_index (i_indirect inode) 1;
            q \<leftarrow> word_div i nindir;
            sib \<leftarrow> indirect_ptr_run part sb root q;
            r \<leftarrow> word_rem i nindir;
            indirect_ptr_run part sb sib r }
          else do {
            i \<leftarrow> word_sub i nindir2;
            let nindir3 = sat_mul nindir2 nindir;
            if i \<ge> nindir3 then Some 0
            else do {
              root \<leftarrow> vec_index (i_indirect inode) 2;
              q2 \<leftarrow> word_div i nindir2;
              dib \<leftarrow> indirect_ptr_run part sb root q2;
              rem \<leftarrow> word_rem i nindir2;
              q \<leftarrow> word_div rem nindir;
              sib \<leftarrow> indirect_ptr_run part sb dib q;
              r \<leftarrow> word_rem rem nindir;
              indirect_ptr_run part sb sib r } } } })"

definition copy_block_run ::
  "bytes \<Rightarrow> superblock \<Rightarrow> u64 \<Rightarrow> usize \<Rightarrow> usize \<Rightarrow> bytes \<Rightarrow> (ufs_error + bytes) option" where
  "copy_block_run part sb addr this_len written out =
     (if addr \<noteq> 0
      then (case read_block part sb addr this_len of
              Inl e \<Rightarrow> Some (Inl e)
            | Inr block \<Rightarrow>
                do {
                  let tk = min (length block) this_len;
                  stop \<leftarrow> usize_add written tk;
                  case slice_get out written stop of
                    None \<Rightarrow> Some (Inr out)
                  | Some dst \<Rightarrow>
                      do { src \<leftarrow> slice_get block 0 tk;
                           bytes \<leftarrow> copy_from_slice dst src;
                           Some (Inr (slice_put out written bytes)) } })
      else Some (Inr out))"

function read_file_loop_run ::
  "bytes \<Rightarrow> superblock \<Rightarrow> inode \<Rightarrow> u64 \<Rightarrow> u64 \<Rightarrow> u64 \<Rightarrow> u64 \<Rightarrow> u64 \<Rightarrow> usize \<Rightarrow> bytes
     \<Rightarrow> (ufs_error + bytes) option"
  where
  "read_file_loop_run part sb inode nindir bsize n_blocks bi remaining written out =
     (if bi < n_blocks
      then
        let this_len = unat (min remaining bsize)
        in case resolve_block_run part sb inode bi nindir of
             None \<Rightarrow> None
           | Some addr \<Rightarrow>
               (case copy_block_run part sb addr this_len written out of
                  None \<Rightarrow> None
                | Some (Inl e) \<Rightarrow> Some (Inl e)
                | Some (Inr out') \<Rightarrow>
                    (case word_add bi 1 of
                       None \<Rightarrow> None
                     | Some bi' \<Rightarrow>
                         read_file_loop_run part sb inode nindir bsize n_blocks bi'
                           (sat_sub remaining bsize) (usize_sat_add written this_len) out'))
      else Some (Inr out))"
  by pat_completeness auto
termination
  by (relation "measure (\<lambda>(part, sb, inode, nindir, bsize, n_blocks, bi, remaining, written, out).
      unat n_blocks - unat bi)") (auto simp: word_less_nat_alt dest!: word_add_1_unat)

declare read_file_loop_run.simps [simp del]

definition read_inode_file_run :: "bytes \<Rightarrow> superblock \<Rightarrow> inode \<Rightarrow> (ufs_error + bytes) option" where
  "read_inode_file_run part sb inode =
     (if sint (sb_bsize sb) \<le> 0
      then Some (Inl (ErrImpossibleGeometry ''fs_bsize'' (scast (sb_bsize sb)) I64_MAX))
      else if sint (sb_fsize sb) \<le> 0
      then Some (Inl (ErrImpossibleGeometry ''fs_fsize'' (scast (sb_fsize sb)) I64_MAX))
      else
        let sz = i_size inode;
            part_len = of_nat (length part) :: u64
        in if sz > part_len then Some (Inl (ErrImpossibleGeometry ''di_size'' sz part_len))
           else do {
             let bsize = scast (sb_bsize sb);
             out \<leftarrow> vec_zeroed (unat sz);
             if sz = 0 then Some (Inr out)
             else do {
               n_blocks \<leftarrow> div_ceil_run sz bsize;
               let nindir = (if sint (sb_nindir sb) > 0 then scast (sb_nindir sb) else 0);
               read_file_loop_run part sb inode nindir bsize n_blocks 0 sz 0 out } })"

definition read_file_run :: "bytes \<Rightarrow> superblock \<Rightarrow> u64 \<Rightarrow> (ufs_error + bytes) option" where
  "read_file_run part sb ino = try_run (read_inode_run part sb ino) (\<lambda>i. read_inode_file_run part sb i)"

definition read_symlink_target_run :: "bytes \<Rightarrow> superblock \<Rightarrow> inode \<Rightarrow> (ufs_error + bytes) option" where
  "read_symlink_target_run part sb inode =
     (case inode_symlink_target inode of
        Some inline \<Rightarrow> Some (Inr inline)
      | None \<Rightarrow> read_inode_file_run part sb inode)"

definition read_path_content_run :: "bytes \<Rightarrow> superblock \<Rightarrow> bytes \<Rightarrow> (ufs_error + bytes option) option" where
  "read_path_content_run part sb path =
     try_run (read_by_path_run part sb path)
       (\<lambda>r. case r of
              None \<Rightarrow> Some (Inr None)
            | Some (ino, inode) \<Rightarrow> try_run (read_inode_file_run part sb inode) (\<lambda>c. Some (Inr (Some c))))"

text \<open>The arrays of an \<open>Inode\<close> have the lengths of their types.\<close>

definition inode_arrays :: "inode \<Rightarrow> bool" where
  "inode_arrays i \<longleftrightarrow> length (i_direct i) = UFS_NDADDR \<and> length (i_indirect i) = UFS_NIADDR"

lemma inode_parse_arrays: "inode_parse_with_maxsymlink d v e m = Inr i \<Longrightarrow> inode_arrays i"
  by (auto simp: inode_parse_with_maxsymlink_def inode_decode_def Let_def inode_arrays_def read_ptrs_def
      split: if_splits)

lemma read_inode_arrays: "read_inode part sb ino = Inr i \<Longrightarrow> inode_arrays i"
  by (auto simp: read_inode_def Let_def dest: inode_parse_arrays split: if_splits option.splits)

lemma indirect_ptr_run_Some [run_simps]:
  "valid_slice part \<Longrightarrow> indirect_ptr_run part sb a idx = Some (indirect_ptr part sb a idx)"
  by (auto simp: indirect_ptr_run_def indirect_ptr_def Let_def run_simps dest!: read_block_valid
      split: sum.split ufs_version.split)

lemma resolve_block_run_Some [run_simps]:
  assumes "valid_slice part" and "inode_arrays inode"
  shows "resolve_block_run part sb inode bi nindir = Some (resolve_block part sb inode bi nindir)"
proof -
  have nz: "sat_mul nindir nindir \<noteq> 0" if "nindir \<noteq> 0"
  proof -
    have "0 < unat nindir" using that by (simp add: unat_gt_0)
    then have "0 < unat (sat_mul nindir nindir)" by (simp add: unat_sat_mul)
    then show ?thesis by (simp add: unat_gt_0)
  qed
  have ix: "vec_index (i_indirect inode) k = Some (i_indirect inode ! k)" if "k \<le> 2" for k
    using that assms(2) by (simp add: vec_index_def inode_arrays_def sb_consts)
  have "vec_index (i_direct inode) (unat bi) = Some (i_direct inode ! unat bi)" if "bi < of_nat UFS_NDADDR"
    using that assms(2) by (simp add: vec_index_def inode_arrays_def sb_consts word_less_nat_alt)
  note ix = this ix
  note defs = resolve_block_run_def resolve_block_def Let_def ix run_simps
  let ?nd = "of_nat UFS_NDADDR :: u64" and ?n2 = "sat_mul nindir nindir"
  show ?thesis
  proof (cases "bi < ?nd \<or> nindir = 0")
    case True
    then show ?thesis by (auto simp: defs)
  next
    case False
    then have a: "\<not> bi < ?nd" "?nd \<le> bi" "nindir \<noteq> 0" "?n2 \<noteq> 0" by (auto simp: nz)
    show ?thesis
    proof (cases "bi - ?nd < nindir")
      case True
      then show ?thesis by (simp add: defs a assms(1))
    next
      case False
      then have b: "\<not> bi - ?nd < nindir" "nindir \<le> bi - ?nd" by auto
      show ?thesis
      proof (cases "bi - ?nd - nindir < ?n2")
        case True
        then show ?thesis by (simp add: defs a b assms(1))
      next
        case False
        then have "\<not> bi - ?nd - nindir < ?n2" "?n2 \<le> bi - ?nd - nindir" by auto
        then show ?thesis by (simp add: defs a b assms(1))
      qed
    qed
  qed
qed

text \<open>
  The end of a block's range in the buffer does not overflow while \<open>written\<close> and \<open>remaining\<close> together
  stay below the width, which the loop keeps: what one gains the other loses.
\<close>

lemma copy_block_run_Some:
  assumes "written + this_len \<le> usize_max"
  shows "copy_block_run part sb addr this_len written out = Some (copy_block part sb addr this_len written out)"
proof (cases "read_block part sb addr this_len")
  case (Inr block)
  define n where "n = min (length block) this_len"
  have "usize_add written n = Some (written + n)" using assms by (simp add: usize_add_def n_def)
  moreover have "slice_get block 0 n = Some (take n block)" by (simp add: slice_get_def n_def)
  moreover have "copy_from_slice dst (take n block) = Some (take n block)"
    if "slice_get out written (written + n) = Some dst" for dst
    using slice_get_length [OF that] by (simp add: copy_from_slice_def n_def)
  moreover have "slice_put out written (take n block) = out" if "slice_get out written (written + n) = None"
    using that by (simp add: slice_get_None_iff slice_put_def n_def)
  ultimately show ?thesis
    using Inr by (simp add: copy_block_run_def copy_block_def Let_def n_def split: option.split)
qed (simp add: copy_block_run_def copy_block_def)

lemma read_file_loop_run_Some:
  assumes "valid_slice part" and "inode_arrays inode" and "written + unat remaining \<le> usize_max"
  shows "read_file_loop_run part sb inode nindir bsize n_blocks bi remaining written out
    = Some (read_file_loop part sb inode nindir bsize n_blocks bi remaining written out)"
  using assms
proof (induction part sb inode nindir bsize n_blocks bi remaining written out rule: read_file_loop.induct)
  case (1 part sb inode nindir bsize n_blocks bi remaining written out)
  show ?case
  proof (cases "bi < n_blocks")
    case False
    then show ?thesis by (subst read_file_loop_run.simps, subst read_file_loop.simps) simp
  next
    case True
    define this_len where "this_len = unat (min remaining bsize)"
    define addr where "addr = resolve_block part sb inode bi nindir"
    have le: "this_len \<le> unat remaining" by (simp add: this_len_def flip: word_le_nat_alt)
    then have w: "written + this_len \<le> usize_max" using "1.prems"(3) by simp
    have rest: "usize_sat_add written this_len + unat (sat_sub remaining bsize) \<le> usize_max"
      using "1.prems"(3) w le by (auto simp: unat_sat_sub this_len_def min_def word_le_nat_alt)
    have r: "resolve_block_run part sb inode bi nindir = Some addr"
      using "1.prems" by (simp add: addr_def run_simps)
    note c = copy_block_run_Some [OF w, of part sb addr out]
    note step = True word_add_1_below [OF True] Let_def this_len_def [symmetric] r addr_def [symmetric] c
    show ?thesis
    proof (cases "copy_block part sb addr this_len written out")
      case (Inl err)
      then show ?thesis
        by (subst read_file_loop_run.simps, subst read_file_loop.simps) (simp add: step)
    next
      case (Inr out')
      then show ?thesis
        using "1.IH" [OF True this_len_def addr_def Inr "1.prems"(1,2) rest]
        by (subst read_file_loop_run.simps, subst read_file_loop.simps) (simp add: step)
    qed
  qed
qed

lemma read_inode_file_run_Some [run_simps]:
  assumes "valid_slice part" and "inode_arrays inode"
  shows "read_inode_file_run part sb inode = Some (read_inode_file part sb inode)"
proof -
  have alloc: "vec_zeroed (unat sz) = Some (replicate (unat sz) 0)"
    if "\<not> of_nat (length part) < sz" for sz :: u64
  proof -
    have "unat sz \<le> length part"
      using that assms(1) by (simp add: not_less word_le_nat_alt unat_of_nat valid_slice_def)
    then show ?thesis using assms(1) by (simp add: vec_zeroed_def valid_slice_def)
  qed
  have loop: "read_file_loop_run part sb inode ni bs nb 0 sz 0 out
      = Some (read_file_loop part sb inode ni bs nb 0 sz 0 out)" for ni bs nb sz out
    using assms unat_u64_le [of sz] by (intro read_file_loop_run_Some) simp_all
  show ?thesis
    by (simp add: read_inode_file_run_def read_inode_file_def Let_def alloc loop scast_pos_nonzero run_simps)
qed

lemma read_file_run_Some [run_simps]:
  "valid_slice part \<Longrightarrow> read_file_run part sb ino = Some (read_file part sb ino)"
  unfolding read_file_run_def read_file_def
  by (simp add: run_simps, rule try_run_Some, simp add: run_simps read_inode_arrays)

lemma read_symlink_target_run_Some [run_simps]:
  "valid_slice part \<Longrightarrow> inode_arrays inode \<Longrightarrow>
     read_symlink_target_run part sb inode = Some (read_symlink_target part sb inode)"
  by (simp add: read_symlink_target_run_def read_symlink_target_def run_simps split: option.split)

lemma path_loop_arrays:
  "inode_arrays cur \<Longrightarrow> path_loop part sb pieces cur_ino cur = Inr (Some (ino, i)) \<Longrightarrow> inode_arrays i"
proof (induction pieces arbitrary: cur_ino cur)
  case (Cons piece pieces)
  then show ?case
    by (auto simp: try_bind_Inr_iff dest: read_inode_arrays split: if_splits option.splits)
qed auto

lemma read_by_path_arrays: "read_by_path part sb path = Inr (Some (ino, i)) \<Longrightarrow> inode_arrays i"
  by (auto simp: read_by_path_def try_bind_Inr_iff dest: read_inode_arrays path_loop_arrays)

lemma read_path_content_run_Some [run_simps]:
  assumes "valid_slice part"
  shows "read_path_content_run part sb path = Some (read_path_content part sb path)"
proof -
  have "(case r of None \<Rightarrow> Some (Inr None)
      | Some (ino, inode) \<Rightarrow> try_run (read_inode_file_run part sb inode) (\<lambda>c. Some (Inr (Some c))))
    = Some (case r of None \<Rightarrow> Inr None
      | Some (ino, inode) \<Rightarrow> try_bind (read_inode_file part sb inode) (\<lambda>c. Inr (Some c)))"
    if "read_by_path part sb path = Inr r" for r
    using that assms by (auto simp: run_simps read_by_path_arrays split: option.split intro!: try_run_Some)
  then show ?thesis
    unfolding read_path_content_run_def read_path_content_def
    by (simp add: run_simps assms, intro try_run_Some) simp
qed

end
