(* ===== verification/RunVolume.thy ===== *)
theory RunVolume
  imports RunContent UfsVfs ForensicCarve
begin

text \<open>
  The file-system adapter, the auditor and the recovery with every operation that may panic checked:
  the buffer the adapter allocates for the whole source, the copies of \<open>read_at\<close>, the quotient plus one of the geometry
  check, the shift of a bitmap byte, the walk budgets, the index of the first direct block. What the
  adapter gets from its data source, and the hash of the recovery, are parameters as in the earlier theories.
\<close>

section \<open>\<open>core/src/vfs.rs\<close>\<close>

definition parse_primary_run :: "bytes \<Rightarrow> usize \<Rightarrow> (ufs_error + superblock) option" where
  "parse_primary_run img off =
     (case slice_from img off of
        None \<Rightarrow> Some (Inl (ErrTruncated ''superblock (primary offset)'' off (length img)))
      | Some s \<Rightarrow> sb_parse_run s)"

definition ufs_open_run ::
  "u64 \<Rightarrow> (u64 \<Rightarrow> bytes \<Rightarrow> 'e vfs_error + (usize \<times> bytes)) \<Rightarrow> ('e vfs_error + ufs_fs) option" where
  "ufs_open_run len read_at =
     do {
       buf \<leftarrow> vec_zeroed (unat len);
       try_run (Some (read_at 0 buf))
         (\<lambda>(n, buf'). do {
            let img = take n buf';
            r2 \<leftarrow> parse_primary_run img SBLOCK_UFS2;
            r \<leftarrow> (case r2 of Inr sb \<Rightarrow> Some (Inr sb) | Inl _ \<Rightarrow> parse_primary_run img SBLOCK_UFS1);
            Some (try_bind (vfs_result r) (\<lambda>sb. Inr \<lparr> fs_image = img, fs_sb = sb \<rparr>)) }) }"

definition vfs_result_run :: "(ufs_error + 'a) option \<Rightarrow> ('e vfs_error + 'a) option" where
  "vfs_result_run m = do { r \<leftarrow> m; Some (vfs_result r) }"

definition fs_inode_run :: "('x \<Rightarrow> string) \<Rightarrow> ufs_fs \<Rightarrow> 'x file_id \<Rightarrow> ('e vfs_error + inode) option" where
  "fs_inode_run dbg fs fid =
     try_run (Some (ino_of dbg fid))
       (\<lambda>ino. vfs_result_run (read_inode_run (fs_image fs) (fs_sb fs) ino))"

definition vfs_entry_kind_run :: "ufs_fs \<Rightarrow> u64 \<Rightarrow> node_kind option" where
  "vfs_entry_kind_run fs ino =
     do { r \<leftarrow> read_inode_run (fs_image fs) (fs_sb fs) ino;
          Some (case r of Inl _ \<Rightarrow> NodeOther | Inr i \<Rightarrow> node_kind_of (i_file_type i)) }"

definition vfs_read_dir_run ::
  "('x \<Rightarrow> string) \<Rightarrow> ufs_fs \<Rightarrow> 'x file_id \<Rightarrow> ('e vfs_error + vfs_dir_entry list) option" where
  "vfs_read_dir_run dbg fs fid =
     try_run (Some (ino_of dbg fid)) (\<lambda>dir_ino.
       try_run (vfs_result_run (list_dir_run (fs_image fs) (fs_sb fs) dir_ino)) (\<lambda>entries. do {
         out \<leftarrow> map_run (\<lambda>e. do { kind \<leftarrow> vfs_entry_kind_run fs (de_ino e);
                  Some \<lparr> ve_name = de_name e, ve_ino = de_ino e, ve_kind = kind \<rparr> }) entries;
         Some (Inr out) }))"

definition vfs_extents_run ::
  "('x \<Rightarrow> string) \<Rightarrow> ('s \<Rightarrow> string) \<Rightarrow> ufs_fs \<Rightarrow> 'x file_id \<Rightarrow> 's stream_id \<Rightarrow> ('e vfs_error + run_info list) option" where
  "vfs_extents_run dbg sdbg fs fid st =
     try_run (Some (require_default_stream sdbg st)) (\<lambda>_.
       try_run (fs_inode_run dbg fs fid) (\<lambda>i.
         Some (Inr (extents_loop (i32_max0 (sb_fsize (fs_sb fs))) (i32_max0 (sb_bsize (fs_sb fs)))
                (take UFS_NDADDR (i_direct i)) (i_size i)))))"

definition vfs_lookup_run ::
  "('x \<Rightarrow> string) \<Rightarrow> ufs_fs \<Rightarrow> 'x file_id \<Rightarrow> bytes \<Rightarrow> ('e vfs_error + 'x file_id option) option" where
  "vfs_lookup_run dbg fs parent name =
     try_run (Some (ino_of dbg parent)) (\<lambda>dir_ino.
       try_run (vfs_result_run (list_dir_run (fs_image fs) (fs_sb fs) dir_ino)) (\<lambda>entries.
         Some (Inr (map_option (\<lambda>e. FileIdOpaque (de_ino e)) (find (\<lambda>e. de_name e = name) entries)))))"

text \<open>The nanoseconds of a time stamp are computed in \<open>i128\<close>.\<close>

definition i128_checked :: "int \<Rightarrow> int option" where
  "i128_checked x = (if - (2 ^ 127) \<le> x \<and> x < 2 ^ 127 then Some x else None)"

definition to_ts_run :: "timespec \<Rightarrow> time_stamp option" where
  "to_ts_run ts =
     do { scaled \<leftarrow> i128_checked (sint (ts_sec ts) * 1000000000);
          nanos \<leftarrow> i128_checked (scaled + sint (ts_nsec ts));
          Some \<lparr> unix_nanos = nanos, ts_source = InodeTable, ts_resolution = Nanos \<rparr> }"

definition vfs_meta_run :: "('x \<Rightarrow> string) \<Rightarrow> ufs_fs \<Rightarrow> 'x file_id \<Rightarrow> ('e vfs_error + fs_meta) option" where
  "vfs_meta_run dbg fs fid =
     try_run (Some (ino_of dbg fid)) (\<lambda>ino.
       try_run (vfs_result_run (read_inode_run (fs_image fs) (fs_sb fs) ino)) (\<lambda>i. do {
         let residency = (case inode_symlink_target i of
             Some t \<Rightarrow> Resident (if length t < 2 ^ 32 then of_nat (length t) else - 1)
           | None \<Rightarrow> NonResident);
         modified \<leftarrow> to_ts_run (i_mtime i);
         accessed \<leftarrow> to_ts_run (i_atime i);
         changed \<leftarrow> to_ts_run (i_ctime i);
         born \<leftarrow> (case i_birthtime i of
             None \<Rightarrow> Some None
           | Some t \<Rightarrow> do { b \<leftarrow> to_ts_run t; Some (Some b) });
         Some (Inr \<lparr> m_ino = ino, m_kind = node_kind_of (i_file_type i), m_allocated = AllocAllocated,
           m_size = i_size i, m_nlink = ucast (i_nlink i), m_uid = Some (i_uid i), m_gid = Some (i_gid i),
           m_mode = Some (ucast (i_mode i)),
           m_times = \<lparr> t_modified = Some modified, t_accessed = Some accessed, t_changed = Some changed,
                       t_born = born \<rparr>,
           m_streams = [], m_residency = residency, m_link_target = None \<rparr>) }))"

definition vfs_read_at_run ::
  "('x \<Rightarrow> string) \<Rightarrow> ('s \<Rightarrow> string) \<Rightarrow> ufs_fs \<Rightarrow> 'x file_id \<Rightarrow> 's stream_id \<Rightarrow> u64 \<Rightarrow> bytes
     \<Rightarrow> ('e vfs_error + (usize \<times> bytes)) option" where
  "vfs_read_at_run dbg sdbg fs fid st off buf =
     try_run (Some (require_default_stream sdbg st)) (\<lambda>_.
       try_run (Some (ino_of dbg fid)) (\<lambda>ino.
         try_run (vfs_result_run (read_file_run (fs_image fs) (fs_sb fs) ino)) (\<lambda>file.
           case slice_from file (unat off) of
             None \<Rightarrow> Some (Inr (0, buf))
           | Some s \<Rightarrow> do {
               let n = min (length s) (length buf);
               dst \<leftarrow> slice_get buf 0 n;
               src \<leftarrow> slice_get s 0 n;
               bytes \<leftarrow> copy_from_slice dst src;
               Some (Inr (n, bytes @ drop n buf)) })))"

definition vfs_read_link_run ::
  "('x \<Rightarrow> string) \<Rightarrow> ufs_fs \<Rightarrow> 'x file_id \<Rightarrow> usize \<Rightarrow> ('e vfs_error + bytes) option" where
  "vfs_read_link_run dbg fs fid cap =
     try_run (fs_inode_run dbg fs fid) (\<lambda>i.
       if i_file_type i \<noteq> FtSymlink then Some (Inr [])
       else try_run (vfs_result_run (read_symlink_target_run (fs_image fs) (fs_sb fs) i))
              (\<lambda>target. Some (Inr (take cap target))))"

lemma vfs_result_run_Some [run_simps]: "vfs_result_run (Some r) = Some (vfs_result r)"
  by (simp add: vfs_result_run_def)

lemma parse_primary_run_Some [run_simps]:
  "valid_slice img \<Longrightarrow> parse_primary_run img off = Some (parse_primary img off)"
  by (auto simp: parse_primary_run_def parse_primary_def run_simps valid_slice_from split: option.split)

lemma fs_inode_run_Some [run_simps]:
  "valid_slice (fs_image fs) \<Longrightarrow> fs_inode_run dbg fs fid = Some (fs_inode dbg fs fid)"
  unfolding fs_inode_run_def fs_inode_def by (rule try_run_Some) (simp add: run_simps)

lemma vfs_entry_kind_run_Some [run_simps]:
  "valid_slice (fs_image fs) \<Longrightarrow> vfs_entry_kind_run fs ino = Some (vfs_entry_kind fs ino)"
  by (simp add: vfs_entry_kind_run_def vfs_entry_kind_def run_simps)

lemma vfs_read_dir_run_Some [run_simps]:
  assumes "valid_slice (fs_image fs)"
  shows "vfs_read_dir_run dbg fs fid = Some (vfs_read_dir dbg fs fid)"
  unfolding vfs_read_dir_run_def vfs_read_dir_def
  by (rule try_run_Some, simp add: run_simps assms, rule try_run_Some)
    (simp add: map_run_Some run_simps assms)

lemma vfs_extents_run_Some [run_simps]:
  assumes "valid_slice (fs_image fs)"
  shows "vfs_extents_run dbg sdbg fs fid st = Some (vfs_extents dbg sdbg fs fid st)"
  unfolding vfs_extents_run_def vfs_extents_def
  by (rule try_run_Some, simp add: run_simps assms, rule try_run_Some) simp

lemma vfs_lookup_run_Some [run_simps]:
  assumes "valid_slice (fs_image fs)"
  shows "vfs_lookup_run dbg fs fid name = Some (vfs_lookup dbg fs fid name)"
  unfolding vfs_lookup_run_def vfs_lookup_def
  by (rule try_run_Some, simp add: run_simps assms, rule try_run_Some) simp

lemma to_ts_run_Some [run_simps]: "to_ts_run ts = Some (to_ts ts)"
proof -
  have "- (2 ^ 63) \<le> sint (ts_sec ts)" "sint (ts_sec ts) < 2 ^ 63"
    "- (2 ^ 31) \<le> sint (ts_nsec ts)" "sint (ts_nsec ts) < 2 ^ 31"
    using sint_ge [of "ts_sec ts"] sint_lt [of "ts_sec ts"] sint_le_i32 [of "ts_nsec ts"] by simp_all
  then show ?thesis by (simp add: to_ts_run_def to_ts_def i128_checked_def)
qed

lemma vfs_meta_run_Some [run_simps]:
  assumes "valid_slice (fs_image fs)"
  shows "vfs_meta_run dbg fs fid = Some (vfs_meta dbg fs fid)"
  unfolding vfs_meta_run_def vfs_meta_def
  by (rule try_run_Some, simp add: run_simps assms, rule try_run_Some)
    (simp add: Let_def run_simps split: option.split)

lemma vfs_read_at_run_Some [run_simps]:
  assumes "valid_slice (fs_image fs)"
  shows "vfs_read_at_run dbg sdbg fs fid st off buf = Some (vfs_read_at dbg sdbg fs fid st off buf)"
  unfolding vfs_read_at_run_def vfs_read_at_def
  by (rule try_run_Some, rule try_run_Some, simp add: run_simps assms, rule try_run_Some)
    (simp add: Let_def slice_get_def run_simps split: option.split)

lemma fs_inode_arrays: "fs_inode dbg fs fid = Inr i \<Longrightarrow> inode_arrays i"
  by (auto simp: fs_inode_def try_bind_Inr_iff dest: read_inode_arrays)

lemma vfs_read_link_run_Some [run_simps]:
  assumes "valid_slice (fs_image fs)"
  shows "(vfs_read_link_run dbg fs fid cap :: ('e vfs_error + bytes) option) = Some (vfs_read_link dbg fs fid cap)"
proof -
  have "(if i_file_type i \<noteq> FtSymlink then Some (Inr [])
      else try_run (vfs_result_run (read_symlink_target_run (fs_image fs) (fs_sb fs) i))
             (\<lambda>target. Some (Inr (take cap target))))
    = Some (if i_file_type i \<noteq> FtSymlink then Inr []
      else try_bind (vfs_result (read_symlink_target (fs_image fs) (fs_sb fs) i))
             (\<lambda>target. Inr (take cap target)) :: 'e vfs_error + bytes)"
    if "(fs_inode dbg fs fid :: 'e vfs_error + inode) = Inr i" for i
    using fs_inode_arrays [OF that] assms by (auto simp: run_simps intro!: try_run_Some)
  then show ?thesis
    unfolding vfs_read_link_run_def vfs_read_link_def
    by (simp add: run_simps assms, intro try_run_Some) simp
qed

text \<open>
  \<open>open\<close> allocates as many bytes as its source reports. It returns (with the volume or an error) for every source that
  leaves the buffer its length, unless the reported length is beyond what a vector may hold.
\<close>

lemma ufs_open_run_None: "isize_max < unat len \<Longrightarrow> ufs_open_run len read_at = None"
  by (simp add: ufs_open_run_def vec_zeroed_def)

lemma ufs_open_run_Some:
  assumes "unat len \<le> isize_max"
    and "\<And>buf n buf'. read_at 0 buf = Inr (n, buf') \<Longrightarrow> length buf' = length buf"
  shows "ufs_open_run len read_at = Some (ufs_open len read_at)"
proof -
  have "parse_primary_run (take n buf) off = Some (parse_primary (take n buf) off)"
    if "read_at 0 (replicate (unat len) 0) = Inr (n, buf)" for n buf off
    using assms(2) [OF that] assms(1) by (intro parse_primary_run_Some) (simp add: valid_slice_def)
  then show ?thesis
    unfolding ufs_open_run_def ufs_open_def
    by (simp add: vec_zeroed_Some assms(1), intro try_run_Some) (auto simp: Let_def split: sum.split)
qed

section \<open>\<open>forensic/src/lib.rs\<close>: the audit\<close>

fun parse_primary_from_run :: "bytes \<Rightarrow> usize list \<Rightarrow> (sb_error + superblock) option" where
  "parse_primary_from_run img [] = Some (Inl SbNotUfs)"
| "parse_primary_from_run img (off # offs) =
     (case slice_from img off of
        None \<Rightarrow> parse_primary_from_run img offs
      | Some s \<Rightarrow>
          do { r \<leftarrow> sb_parse_run s;
               case r of
                 Inr sb \<Rightarrow> Some (Inr sb)
               | Inl (ErrBadMagic _ bs _ _) \<Rightarrow>
                   do { at \<leftarrow> usize_add off FS_MAGIC_OFF; Some (Inl (SbMagicInvalid (of_nat at) bs)) }
               | Inl _ \<Rightarrow> parse_primary_from_run img offs })"

definition parse_primary_sb_run :: "bytes \<Rightarrow> (sb_error + superblock) option" where
  "parse_primary_sb_run img = parse_primary_from_run img [SBLOCK_UFS2, SBLOCK_UFS1]"

definition check_impossible_geometry_run ::
  "anomaly list \<Rightarrow> u64 \<Rightarrow> u64 \<Rightarrow> u64 \<Rightarrow> u64 \<Rightarrow> (bool \<times> anomaly list) option" where
  "check_impossible_geometry_run out fsize fpg ncg part_len =
     (if fsize = 0 \<or> fpg = 0 \<or> ncg = 0 then Some (False, out)
      else
        let cg_bytes = sat_mul fpg fsize;
            last_base = sat_mul (sat_sub ncg 1) cg_bytes
        in if last_base < part_len then Some (False, out)
           else do {
             limit \<leftarrow> (if cg_bytes = 0 then Some 1 else word_add (part_len div cg_bytes) 1);
             Some (True, out @ [anomaly_new (ImpossibleGeometry ''fs_ncg'' ncg limit)]) })"

definition check_backup_sb_run ::
  "anomaly list \<Rightarrow> bytes \<Rightarrow> superblock \<Rightarrow> u32 \<Rightarrow> u64 \<Rightarrow> anomaly list option" where
  "check_backup_sb_run out img primary cg offset =
     (case slice_from img (unat offset) of
        None \<Rightarrow> Some out
      | Some s \<Rightarrow>
          do { r \<leftarrow> sb_parse_run s;
               case r of
                 Inl _ \<Rightarrow> Some out
               | Inr backup \<Rightarrow> Some (fold (push_divergence cg offset) (backup_checks primary backup) out) })"

definition check_cg_magic_run :: "anomaly list \<Rightarrow> bytes \<Rightarrow> u32 \<Rightarrow> u64 \<Rightarrow> anomaly list option" where
  "check_cg_magic_run out img cg offset =
     (case slice_from img (unat offset) of
        None \<Rightarrow> Some out
      | Some s \<Rightarrow>
          do { need \<leftarrow> usize_add CG_MAGIC_OFF 4;
               if length s < need then Some out
               else
                 let le = read_u32_le s CG_MAGIC_OFF;
                     be = read_u32_be s CG_MAGIC_OFF
                 in Some (if le \<noteq> CG_MAGIC \<and> be \<noteq> CG_MAGIC
                          then out @ [anomaly_new (CgMagicInvalid cg le offset)] else out) })"

definition check_one_cg_run ::
  "bytes \<Rightarrow> superblock \<Rightarrow> u64 \<Rightarrow> u64 \<Rightarrow> u64 \<Rightarrow> u64 \<Rightarrow> u64 \<Rightarrow> anomaly list \<Rightarrow> anomaly list option" where
  "check_one_cg_run img sb fsize fpg sblkno cblkno cg out =
     (let cg_base_frag = sat_mul cg fpg in
      do {
        out1 \<leftarrow> (if cg \<ge> 1 \<and> sblkno > 0
                 then check_backup_sb_run out img sb (ucast cg) (sat_mul (sat_add cg_base_frag sblkno) fsize)
                 else Some out);
        if cblkno > 0
        then check_cg_magic_run out1 img (ucast cg) (sat_mul (sat_add cg_base_frag cblkno) fsize)
        else Some out1 })"

definition check_all_cgs_run ::
  "anomaly list \<Rightarrow> bytes \<Rightarrow> superblock \<Rightarrow> u64 \<Rightarrow> u64 \<Rightarrow> u64 \<Rightarrow> u64 \<Rightarrow> u64 \<Rightarrow> anomaly list option" where
  "check_all_cgs_run out img sb fsize fpg sblkno cblkno ncg =
     (if fsize = 0 \<or> fpg = 0 then Some out
      else fold_run (check_one_cg_run img sb fsize fpg sblkno cblkno) (map of_nat [0..<unat ncg]) out)"

definition cg_inode_bitmap_run :: "bytes \<Rightarrow> superblock \<Rightarrow> u64 \<Rightarrow> bytes option option" where
  "cg_inode_bitmap_run img sb cg =
     (if sint (sb_fsize sb) \<le> 0 \<or> sint (sb_fpg sb) \<le> 0 \<or> sint (sb_cblkno sb) < 0 \<or> sint (sb_ipg sb) \<le> 0
      then Some None
      else
        let fsize = scast (sb_fsize sb); fpg = scast (sb_fpg sb); cblkno = scast (sb_cblkno sb);
            cg_off = sat_mul (sat_add (sat_mul cg fpg) cblkno) fsize
        in case slice_from img (unat cg_off) of
             None \<Rightarrow> Some None
           | Some header \<Rightarrow>
               do { r \<leftarrow> cg_parse_run header (sb_endian sb);
                    case r of
                      Inl _ \<Rightarrow> Some None
                    | Inr cgh \<Rightarrow>
                        do { let bmp_start = cg_inosused_off cgh;
                             nbytes \<leftarrow> div_ceil_run (scast (sb_ipg sb) :: u64) 8;
                             Some (slice_get header bmp_start (usize_sat_add bmp_start (unat nbytes))) } })"

definition bitmap_bit_run :: "bytes \<Rightarrow> usize \<Rightarrow> bool option" where
  "bitmap_bit_run bitmap idx =
     (let byte = idx div 8; bt = idx mod 8
      in if byte < length bitmap then do { b \<leftarrow> word_shr (bitmap ! byte) bt; Some (b AND 1 = 1) }
         else Some False)"

function reach_loop_run :: "bytes \<Rightarrow> superblock \<Rightarrow> nat \<Rightarrow> u64 list \<Rightarrow> u64 list \<Rightarrow> u64 list option" where
  "reach_loop_run img sb budget queue reachable =
     (case vec_pop queue of
        None \<Rightarrow> Some reachable
      | Some (dir_ino, queue') \<Rightarrow>
          if budget = 0 then Some reachable
          else
            (case usize_sub budget 1 of
               None \<Rightarrow> None
             | Some budget' \<Rightarrow>
                 (case list_dir_all_run img sb dir_ino of
                    None \<Rightarrow> None
                  | Some (Inl _) \<Rightarrow> reach_loop_run img sb budget' queue' reachable
                  | Some (Inr entries) \<Rightarrow>
                      (case reach_entries entries queue' reachable of
                         (queue'', reachable') \<Rightarrow> reach_loop_run img sb budget' queue'' reachable'))))"
  by pat_completeness auto
termination
  by (relation "measure (\<lambda>(img, sb, budget, queue, reachable). budget)")
    (auto simp: usize_sub_def split: if_splits)

declare reach_loop_run.simps [simp del]

definition reachable_inodes_run :: "bytes \<Rightarrow> superblock \<Rightarrow> u64 list option" where
  "reachable_inodes_run img sb = reach_loop_run img sb WALK_BUDGET [UFS_ROOTINO] [UFS_ROOTINO]"

definition orphan_step_run ::
  "bytes \<Rightarrow> superblock \<Rightarrow> u64 list \<Rightarrow> u64 \<Rightarrow> u64 \<Rightarrow> u64 \<Rightarrow> bytes \<Rightarrow> u64 \<Rightarrow> anomaly list \<Rightarrow> anomaly list option" where
  "orphan_step_run img sb reachable ipg ntotal cg used within out =
     (let ino = sat_add (sat_mul cg ipg) within in
      do {
        first \<leftarrow> word_add UFS_ROOTINO 1;
        if ino < first \<or> ino \<ge> ntotal then Some out
        else do {
          bt \<leftarrow> bitmap_bit_run used (unat within);
          if \<not> bt then Some out
          else if ino \<in> set reachable then Some out
          else do {
            r \<leftarrow> read_inode_run img sb ino;
            case r of
              Inl _ \<Rightarrow> Some out
            | Inr i \<Rightarrow>
                Some (if i_nlink i = 0 then out
                      else out @ [anomaly_new (OrphanedInode ino (i_nlink i))]) } } })"

definition orphan_cg_run ::
  "bytes \<Rightarrow> superblock \<Rightarrow> u64 list \<Rightarrow> u64 \<Rightarrow> u64 \<Rightarrow> u64 \<Rightarrow> anomaly list \<Rightarrow> anomaly list option" where
  "orphan_cg_run img sb reachable ipg ntotal cg out =
     do { bm \<leftarrow> cg_inode_bitmap_run img sb cg;
          case bm of
            None \<Rightarrow> Some out
          | Some used \<Rightarrow>
              fold_run (orphan_step_run img sb reachable ipg ntotal cg used) (map of_nat [0..<unat ipg]) out }"

definition check_orphaned_inodes_run :: "anomaly list \<Rightarrow> bytes \<Rightarrow> superblock \<Rightarrow> anomaly list option" where
  "check_orphaned_inodes_run out img sb =
     do { reachable \<leftarrow> reachable_inodes_run img sb;
          if sint (sb_ipg sb) > 0
          then
            let ipg = scast (sb_ipg sb);
                ncg = ucast (sb_ncg sb);
                ntotal = sat_mul ipg ncg
            in fold_run (orphan_cg_run img sb reachable ipg ntotal) (map of_nat [0..<unat ncg]) out
          else Some out }"

definition audit_image_run :: "bytes \<Rightarrow> anomaly list option" where
  "audit_image_run img =
     do { r \<leftarrow> parse_primary_sb_run img;
          case r of
            Inl (SbMagicInvalid offset bs) \<Rightarrow> Some [anomaly_new (SuperblockMagicInvalid offset bs)]
          | Inl SbNotUfs \<Rightarrow> Some []
          | Inr sb \<Rightarrow>
              do {
                let fsize = (if sint (sb_fsize sb) > 0 then scast (sb_fsize sb) else 0);
                let fpg = (if sint (sb_fpg sb) > 0 then scast (sb_fpg sb) else 0);
                let sblkno = (if sint (sb_sblkno sb) \<ge> 0 then scast (sb_sblkno sb) else 0);
                let cblkno = (if sint (sb_cblkno sb) \<ge> 0 then scast (sb_cblkno sb) else 0);
                let ncg = ucast (sb_ncg sb);
                (stop, out) \<leftarrow> check_impossible_geometry_run [] fsize fpg ncg (of_nat (length img));
                if stop then Some out
                else do {
                  out1 \<leftarrow> check_all_cgs_run out img sb fsize fpg sblkno cblkno ncg;
                  check_orphaned_inodes_run out1 img sb } } }"

definition audit_findings_run ::
  "(observation \<Rightarrow> report_source \<Rightarrow> 'f) \<Rightarrow> bytes \<Rightarrow> string \<Rightarrow> 'f list option" where
  "audit_findings_run to_finding img scope =
     do { out \<leftarrow> audit_image_run img;
          let source = \<lparr> src_analyzer = ''ufs-forensic'', src_scope = scope, src_version = None \<rparr>;
          Some (map (\<lambda>a. to_finding (anomaly_observation a) source) out) }"

lemma parse_primary_from_run_Some:
  assumes "valid_slice img" and "\<forall>off \<in> set offs. off \<le> isize_max"
  shows "parse_primary_from_run img offs = Some (parse_primary_from img offs)"
  using assms
proof (induction offs)
  case (Cons off offs)
  have "usize_add off FS_MAGIC_OFF = Some (off + FS_MAGIC_OFF)"
    using Cons.prems(2) by (simp add: usize_add_def sb_consts)
  then show ?case
    using Cons
    by (cases "slice_from img off")
      (simp_all add: valid_slice_from run_simps split: sum.split ufs_error.split)
qed simp

lemma parse_primary_sb_run_Some [run_simps]:
  "valid_slice img \<Longrightarrow> parse_primary_sb_run img = Some (parse_primary_sb img)"
  unfolding parse_primary_sb_run_def parse_primary_sb_def
  by (rule parse_primary_from_run_Some) (simp_all add: sb_consts)

text \<open>
  The quotient plus one cannot overflow: for it to be the largest value the groups must be of one byte
  each and the image \<open>2^64 - 1\<close> bytes long.
\<close>

lemma check_impossible_geometry_run_Some:
  assumes "unat part_len \<le> isize_max"
  shows "check_impossible_geometry_run out fsize fpg ncg part_len
    = Some (check_impossible_geometry out fsize fpg ncg part_len)"
proof -
  have "word_add (part_len div b) 1 = Some (part_len div b + 1)" for b
  proof -
    have "unat (part_len div b) \<le> unat part_len" by (simp add: unat_div div_le_dividend)
    then show ?thesis using assms by (intro word_add_Some) simp
  qed
  then show ?thesis
    by (simp add: check_impossible_geometry_run_def check_impossible_geometry_def Let_def)
qed

lemma check_backup_sb_run_Some [run_simps]:
  "valid_slice img \<Longrightarrow> check_backup_sb_run out img sb cg off = Some (check_backup_sb out img sb cg off)"
  by (auto simp: check_backup_sb_run_def check_backup_sb_def run_simps valid_slice_from
      split: option.split sum.split)

lemma check_cg_magic_run_Some [run_simps]:
  "check_cg_magic_run out img cg off = Some (check_cg_magic out img cg off)"
  by (simp add: check_cg_magic_run_def check_cg_magic_def Let_def usize_add_def CG_MAGIC_OFF_def
      split: option.split)

lemma check_one_cg_run_Some [run_simps]:
  "valid_slice img \<Longrightarrow> check_one_cg_run img sb fsize fpg s c cg out = Some (check_one_cg img sb fsize fpg s c cg out)"
  by (simp add: check_one_cg_run_def check_one_cg_def Let_def run_simps)

lemma check_all_cgs_run_Some [run_simps]:
  "valid_slice img \<Longrightarrow>
     check_all_cgs_run out img sb fsize fpg s c ncg = Some (check_all_cgs out img sb fsize fpg s c ncg)"
  by (simp add: check_all_cgs_run_def check_all_cgs_def fold_run_Some run_simps)

lemma cg_inode_bitmap_run_Some [run_simps]:
  "valid_slice img \<Longrightarrow> cg_inode_bitmap_run img sb cg = Some (cg_inode_bitmap img sb cg)"
  by (auto simp: cg_inode_bitmap_run_def cg_inode_bitmap_def Let_def run_simps valid_slice_from
      split: option.split sum.split)

lemma bitmap_bit_run_Some [run_simps]: "bitmap_bit_run bm k = Some (bitmap_bit bm k)"
  by (simp add: bitmap_bit_run_def bitmap_bit_def Let_def run_simps)

lemma reach_loop_run_Some:
  "valid_slice img \<Longrightarrow> reach_loop_run img sb budget queue reachable = Some (reach_loop img sb budget queue reachable)"
proof (induction budget arbitrary: queue reachable)
  case 0
  then show ?case
    by (subst reach_loop_run.simps, subst reach_loop.simps) (simp split: option.split)
next
  case (Suc budget)
  then show ?case
    by (subst reach_loop_run.simps, subst reach_loop.simps)
      (auto simp: run_simps split: option.split sum.split prod.split)
qed

lemma reachable_inodes_run_Some [run_simps]:
  "valid_slice img \<Longrightarrow> reachable_inodes_run img sb = Some (reachable_inodes img sb)"
  by (simp add: reachable_inodes_run_def reachable_inodes_def reach_loop_run_Some)

lemma first_inode_Some [run_simps]: "word_add UFS_ROOTINO 1 = Some (UFS_ROOTINO + 1)"
  by (simp add: word_add_def sb_consts)

lemma orphan_step_run_Some [run_simps]:
  "valid_slice img \<Longrightarrow>
     orphan_step_run img sb reach ipg nt cg used w out = Some (orphan_step img sb reach ipg nt cg used w out)"
  by (simp add: orphan_step_run_def orphan_step_def Let_def run_simps split: sum.split)

lemma orphan_cg_run_Some [run_simps]:
  "valid_slice img \<Longrightarrow> orphan_cg_run img sb reach ipg nt cg out = Some (orphan_cg img sb reach ipg nt cg out)"
  by (simp add: orphan_cg_run_def orphan_cg_def fold_run_Some run_simps split: option.split)

lemma check_orphaned_inodes_run_Some [run_simps]:
  "valid_slice img \<Longrightarrow> check_orphaned_inodes_run out img sb = Some (check_orphaned_inodes out img sb)"
  by (simp add: check_orphaned_inodes_run_def check_orphaned_inodes_def Let_def fold_run_Some run_simps)

lemma audit_image_run_Some [run_simps]:
  assumes "valid_slice img"
  shows "audit_image_run img = Some (audit_image img)"
proof -
  have "unat (of_nat (length img) :: u64) \<le> isize_max"
    using assms by (simp add: valid_slice_def unat_of_nat)
  note geometry = check_impossible_geometry_run_Some [OF this]
  show ?thesis
    by (simp add: audit_image_run_def audit_image_def Let_def geometry run_simps assms
        split: sum.split sb_error.split prod.split bool.split)
qed

lemma audit_findings_run_Some [run_simps]:
  "valid_slice img \<Longrightarrow> audit_findings_run tf img scope = Some (audit_findings tf img scope)"
  by (simp add: audit_findings_run_def audit_findings_def Let_def run_simps)

section \<open>\<open>forensic/src/lib.rs\<close>: the recovery\<close>

function collect_loop_run ::
  "bytes \<Rightarrow> superblock \<Rightarrow> nat \<Rightarrow> u64 list \<Rightarrow> u64 list \<times> (bytes \<times> u64) list
     \<Rightarrow> (u64 list \<times> (bytes \<times> u64) list) option" where
  "collect_loop_run img sb budget queue (visited, deleted) =
     (case vec_pop queue of
        None \<Rightarrow> Some (visited, deleted)
      | Some (dir_ino, queue') \<Rightarrow>
          if budget = 0 then Some (visited, deleted)
          else
            (case usize_sub budget 1 of
               None \<Rightarrow> None
             | Some budget' \<Rightarrow>
                 if dir_ino \<in> set visited then collect_loop_run img sb budget' queue' (visited, deleted)
                 else
                   (case list_dir_all_run img sb dir_ino of
                      None \<Rightarrow> None
                    | Some (Inl _) \<Rightarrow> collect_loop_run img sb budget' queue' (visited @ [dir_ino], deleted)
                    | Some (Inr entries) \<Rightarrow>
                        (case collect_entries entries queue' deleted of
                           (queue'', deleted') \<Rightarrow>
                             collect_loop_run img sb budget' queue'' (visited @ [dir_ino], deleted')))))"
  by pat_completeness auto
termination
  by (relation "measure (\<lambda>(img, sb, budget, queue, acc). budget)")
    (auto simp: usize_sub_def split: if_splits)

declare collect_loop_run.simps [simp del]

definition collect_deleted_dirents_run :: "bytes \<Rightarrow> superblock \<Rightarrow> (bytes \<times> u64) list option" where
  "collect_deleted_dirents_run img sb =
     do { acc \<leftarrow> collect_loop_run img sb WALK_BUDGET [UFS_ROOTINO] ([], []); Some (snd acc) }"

definition carve_step_run ::
  "(bytes \<Rightarrow> bytes) \<Rightarrow> bytes \<Rightarrow> superblock \<Rightarrow> (bytes \<times> u64) list \<Rightarrow> u64 \<Rightarrow> u64 \<Rightarrow> u64 \<Rightarrow> bytes \<Rightarrow> u64
     \<Rightarrow> recovered_item list \<Rightarrow> recovered_item list option" where
  "carve_step_run sha256 img sb deleted_names ipg ntotal cg used within out =
     (let ino = sat_add (sat_mul cg ipg) within in
      do {
        first \<leftarrow> word_add UFS_ROOTINO 1;
        if ino < first \<or> ino \<ge> ntotal then Some out
        else do {
          bt \<leftarrow> bitmap_bit_run used (unat within);
          if bt then Some out
          else do {
            r \<leftarrow> read_inode_run img sb ino;
            case r of
              Inl _ \<Rightarrow> Some out
            | Inr i \<Rightarrow>
                if \<not> inode_is_regular i \<or> i_size i = 0 then Some out
                else do {
                  block0 \<leftarrow> vec_index (i_direct i) 0;
                  if block0 = 0 then Some out
                  else do {
                    c \<leftarrow> read_file_run img sb ino;
                    case c of
                      Inl _ \<Rightarrow> Some out
                    | Inr content \<Rightarrow>
                        if content = [] then Some out
                        else
                          let content_sha256 = sha256_hex sha256 content;
                              name = map_option fst (find (\<lambda>(_, dino). dino = ino) deleted_names)
                          in Some (out @ [DeletedFile name ino (i_size i) content content_sha256]) } } } } })"

definition carve_cg_run ::
  "(bytes \<Rightarrow> bytes) \<Rightarrow> bytes \<Rightarrow> superblock \<Rightarrow> (bytes \<times> u64) list \<Rightarrow> u64 \<Rightarrow> u64 \<Rightarrow> u64
     \<Rightarrow> recovered_item list \<Rightarrow> recovered_item list option" where
  "carve_cg_run sha256 img sb deleted_names ipg ntotal cg out =
     do { bm \<leftarrow> cg_inode_bitmap_run img sb cg;
          case bm of
            None \<Rightarrow> Some out
          | Some used \<Rightarrow>
              fold_run (carve_step_run sha256 img sb deleted_names ipg ntotal cg used)
                (map of_nat [0..<unat ipg]) out }"

definition carve_deleted_inodes_run ::
  "(bytes \<Rightarrow> bytes) \<Rightarrow> bytes \<Rightarrow> superblock \<Rightarrow> (bytes \<times> u64) list \<Rightarrow> recovered_item list
     \<Rightarrow> recovered_item list option" where
  "carve_deleted_inodes_run sha256 img sb deleted_names out =
     (if sint (sb_ipg sb) > 0
      then
        let ipg = scast (sb_ipg sb);
            ncg = ucast (sb_ncg sb);
            ntotal = sat_mul ipg ncg
        in fold_run (carve_cg_run sha256 img sb deleted_names ipg ntotal) (map of_nat [0..<unat ncg]) out
      else Some out)"

definition recover_deleted_run :: "(bytes \<Rightarrow> bytes) \<Rightarrow> bytes \<Rightarrow> recovered_item list option" where
  "recover_deleted_run sha256 img =
     do { r \<leftarrow> parse_primary_sb_run img;
          case r of
            Inl _ \<Rightarrow> Some []
          | Inr sb \<Rightarrow>
              do { deleted_names \<leftarrow> collect_deleted_dirents_run img sb;
                   carve_deleted_inodes_run sha256 img sb deleted_names
                     (map (\<lambda>(name, ino). DeletedDirent name ino) deleted_names) } }"

lemma collect_loop_run_Some:
  "valid_slice img \<Longrightarrow>
     collect_loop_run img sb budget queue (vis, del) = Some (collect_loop img sb budget queue (vis, del))"
proof (induction budget arbitrary: queue vis del)
  case 0
  then show ?case
    by (subst collect_loop_run.simps, subst collect_loop.simps) (simp split: option.split)
next
  case (Suc budget)
  then show ?case
    by (subst collect_loop_run.simps, subst collect_loop.simps)
      (auto simp: run_simps split: option.split sum.split prod.split)
qed

lemma collect_deleted_dirents_run_Some [run_simps]:
  "valid_slice img \<Longrightarrow> collect_deleted_dirents_run img sb = Some (collect_deleted_dirents img sb)"
  by (simp add: collect_deleted_dirents_run_def collect_deleted_dirents_def collect_loop_run_Some)

lemma read_inode_direct_0: "read_inode img sb ino = Inr i \<Longrightarrow> vec_index (i_direct i) 0 = Some (i_direct i ! 0)"
  using read_inode_arrays [of img sb ino i] by (simp add: vec_index_def inode_arrays_def sb_consts)

lemma carve_step_run_Some [run_simps]:
  assumes "valid_slice img"
  shows "carve_step_run sha img sb names ipg nt cg used w out = Some (carve_step sha img sb names ipg nt cg used w out)"
proof (cases "read_inode img sb (sat_add (sat_mul cg ipg) w)")
  case (Inr i)
  note direct = read_inode_direct_0 [OF Inr]
  show ?thesis
    using Inr by (simp add: carve_step_run_def carve_step_def Let_def run_simps assms direct split: sum.split)
qed (simp add: carve_step_run_def carve_step_def Let_def run_simps assms)

lemma carve_cg_run_Some [run_simps]:
  "valid_slice img \<Longrightarrow> carve_cg_run sha img sb names ipg nt cg out = Some (carve_cg sha img sb names ipg nt cg out)"
  by (simp add: carve_cg_run_def carve_cg_def fold_run_Some run_simps split: option.split)

lemma recover_deleted_run_Some [run_simps]:
  assumes "valid_slice img"
  shows "recover_deleted_run sha img = Some (recover_deleted sha img)"
  by (simp add: recover_deleted_run_def recover_deleted_def carve_deleted_inodes_run_def
      carve_deleted_inodes_def Let_def fold_run_Some run_simps assms split: sum.split)

end
