(* ===== verification/FuzzTargets.thy ===== *)
theory FuzzTargets
  imports RunVolume Sample
begin

text \<open>
  \<open>fuzz/fuzz_targets/*.rs\<close>: the six entry points the fuzzer drives with arbitrary bytes, over the checked
  functions, and what the fuzzer looks for: no input makes one of them panic. A target returns nothing,
  so its only outcomes are \<open>Some ()\<close> and \<^const>\<open>None\<close>, the panic.
\<close>

definition for_run :: "'x list \<Rightarrow> ('x \<Rightarrow> unit option) \<Rightarrow> unit option" where
  "for_run xs f = fold_run (\<lambda>x _. f x) xs ()"

lemma for_run_ok: "(\<And>x. x \<in> set xs \<Longrightarrow> f x = Some ()) \<Longrightarrow> for_run xs f = Some ()"
  unfolding for_run_def by (subst fold_run_Some [where g = "\<lambda>_ _. ()"]) simp_all

text \<open>\<open>if let Ok(x) = r { body }\<close>, and a call whose value is dropped.\<close>

definition if_ok :: "('e + 'a) option \<Rightarrow> ('a \<Rightarrow> unit option) \<Rightarrow> unit option" where
  "if_ok m f = do { r \<leftarrow> m; case r of Inl _ \<Rightarrow> Some () | Inr x \<Rightarrow> f x }"

definition discard :: "'a option \<Rightarrow> unit option" where
  "discard m = do { _ \<leftarrow> m; Some () }"

lemma if_ok_Some: "(\<And>x. r = Inr x \<Longrightarrow> f x = Some ()) \<Longrightarrow> if_ok (Some r) f = Some ()"
  by (cases r) (simp_all add: if_ok_def)

lemma discard_Some [run_simps]: "discard (Some x) = Some ()"
  by (simp add: discard_def)

section \<open>The targets\<close>

definition fuzz_superblock :: "bytes \<Rightarrow> unit option" where
  "fuzz_superblock data =
     if_ok (sb_parse_run data) (\<lambda>sb. do {
       discard (Some (sb_inode_size sb));
       discard (Some (sb_primary_offset sb)) })"

definition fuzz_cg :: "bytes \<Rightarrow> unit option" where
  "fuzz_cg data =
     for_run [Little, Big] (\<lambda>e.
       if_ok (cg_parse_run data e) (\<lambda>cg. do {
         discard (Some (cg_inosused_off cg));
         discard (Some (cg_blksfree_off cg)) }))"

definition fuzz_inode :: "bytes \<Rightarrow> unit option" where
  "fuzz_inode data =
     for_run [Ufs1, Ufs2] (\<lambda>v.
       for_run [Little, Big] (\<lambda>e.
         if_ok (inode_parse_run data v e) (\<lambda>i. do {
           discard (Some (inode_is_dir i));
           discard (Some (inode_is_regular i));
           discard (Some (inode_is_symlink i));
           discard (Some (inode_symlink_target i)) })))"

definition fuzz_dir :: "bytes \<Rightarrow> unit option" where
  "fuzz_dir data =
     for_run [SBLOCK_UFS2, SBLOCK_UFS1] (\<lambda>base.
       case slice_from data base of
         None \<Rightarrow> Some ()
       | Some s \<Rightarrow>
           if_ok (sb_parse_run s) (\<lambda>sb. do {
             discard (list_dir_all_run data sb UFS_ROOTINO);
             discard (read_by_path_run data sb (str ''a_directory/another_file'')) }))"

text \<open>\<open>sb.ipg.clamp(0, 256) as u64\<close> bounds the sweep; the range ends at \<open>2 + ipg\<close>.\<close>

definition i32_clamp :: "i32 \<Rightarrow> i32 \<Rightarrow> i32 \<Rightarrow> i32" where
  "i32_clamp w lo hi = (if sint w < sint lo then lo else if sint hi < sint w then hi else w)"

definition fuzz_file_inode :: "bytes \<Rightarrow> superblock \<Rightarrow> u64 \<Rightarrow> unit option" where
  "fuzz_file_inode data sb ino =
     do {
       discard (read_file_run data sb ino);
       if_ok (read_inode_run data sb ino) (\<lambda>i. discard (read_symlink_target_run data sb i)) }"

definition fuzz_file :: "bytes \<Rightarrow> unit option" where
  "fuzz_file data =
     for_run [SBLOCK_UFS2, SBLOCK_UFS1] (\<lambda>base.
       case slice_from data base of
         None \<Rightarrow> Some ()
       | Some s \<Rightarrow>
           if_ok (sb_parse_run s) (\<lambda>sb. do {
             let ipg = (scast (i32_clamp (sb_ipg sb) 0 256) :: u64);
             stop \<leftarrow> word_add 2 ipg;
             for_run (map of_nat [2..<unat stop]) (fuzz_file_inode data sb);
             discard (read_path_content_run data sb (str ''passwords.txt'')) }))"

definition fuzz_forensic ::
  "(observation \<Rightarrow> report_source \<Rightarrow> 'f) \<Rightarrow> (bytes \<Rightarrow> bytes) \<Rightarrow> bytes \<Rightarrow> unit option" where
  "fuzz_forensic to_finding sha256 data =
     do {
       discard (audit_image_run data);
       discard (audit_findings_run to_finding data ''fuzz'');
       discard (recover_deleted_run sha256 data) }"

section \<open>None of them panics\<close>

lemma i32_clamp_range: "unat (scast (i32_clamp w 0 256) :: u64) \<le> 256"
proof -
  have "sint (0 :: i32) = 0" "sint (256 :: i32) = 256" by simp_all
  then have "0 \<le> sint (i32_clamp w 0 256)" "sint (i32_clamp w 0 256) \<le> 256"
    by (auto simp: i32_clamp_def)
  then show ?thesis by (simp add: unat_scast_i32)
qed

lemma fuzz_superblock_ok: "valid_slice data \<Longrightarrow> fuzz_superblock data = Some ()"
  by (simp add: fuzz_superblock_def run_simps if_ok_Some)

lemma fuzz_cg_ok: "valid_slice data \<Longrightarrow> fuzz_cg data = Some ()"
  unfolding fuzz_cg_def by (intro for_run_ok) (simp add: run_simps if_ok_Some)

lemma fuzz_inode_ok: "valid_slice data \<Longrightarrow> fuzz_inode data = Some ()"
  unfolding fuzz_inode_def by (intro for_run_ok) (simp add: run_simps if_ok_Some)

lemma fuzz_dir_ok: "valid_slice data \<Longrightarrow> fuzz_dir data = Some ()"
  unfolding fuzz_dir_def
  by (intro for_run_ok) (auto simp: run_simps valid_slice_from if_ok_Some split: option.split)

lemma fuzz_file_inode_ok: "valid_slice data \<Longrightarrow> fuzz_file_inode data sb ino = Some ()"
  by (auto simp: fuzz_file_inode_def run_simps intro!: if_ok_Some dest: read_inode_arrays)

lemma fuzz_file_ok:
  assumes "valid_slice data"
  shows "fuzz_file data = Some ()"
proof -
  have stop: "\<exists>s. word_add (2 :: u64) (scast (i32_clamp w 0 256)) = Some s" for w
    using i32_clamp_range [of w] by (simp add: word_add_def)
  have "do { s \<leftarrow> word_add (2 :: u64) (scast (i32_clamp (sb_ipg sb) 0 256));
             for_run (map of_nat [2..<unat s]) (fuzz_file_inode data sb);
             discard (read_path_content_run data sb (str ''passwords.txt'')) } = Some ()" for sb
    using stop [of "sb_ipg sb"] assms
    by (auto simp: run_simps for_run_ok fuzz_file_inode_ok)
  then show ?thesis
    unfolding fuzz_file_def
    by (intro for_run_ok) (auto simp: run_simps assms valid_slice_from Let_def if_ok_Some split: option.split)
qed

lemma fuzz_forensic_ok: "valid_slice data \<Longrightarrow> fuzz_forensic tf sha data = Some ()"
  by (simp add: fuzz_forensic_def run_simps)

text \<open>
  C12. No byte string makes a fuzz target panic: whatever the bytes, the parsers in every byte order and version, the
  directory walk, the sweep of the first inodes with their files and links, the audit and the recovery return.
\<close>

theorem fuzz_targets_safe:
  assumes "valid_slice data"
  shows "fuzz_superblock data = Some () \<and> fuzz_cg data = Some () \<and> fuzz_inode data = Some ()
    \<and> fuzz_dir data = Some () \<and> fuzz_file data = Some () \<and> fuzz_forensic to_finding sha256 data = Some ()"
  using assms
  by (simp add: fuzz_superblock_ok fuzz_cg_ok fuzz_inode_ok fuzz_dir_ok fuzz_file_ok fuzz_forensic_ok)

theorem fuzz_targets_safe_witness: "fuzz_file sample_image = Some () \<and> fuzz_dir (replicate 70000 0xFF) = Some ()"
  using fuzz_targets_safe [OF valid_sample_image, of "\<lambda>_ _. ()" "\<lambda>_. []"]
    fuzz_targets_safe [of "replicate 70000 0xFF" "\<lambda>_ _. ()" "\<lambda>_. []"]
  by (simp add: valid_slice_def)

section \<open>What the checked functions compute\<close>

text \<open>
  C10. The parsers and the content functions of the reader never panic and compute exactly the functions of the
  earlier theories, for any bytes, any superblock a caller may pass (validated or not) and any inode number or
  path: no overflow check, no division, no index, no slice range, no allocation among their operations fires.
\<close>

theorem reader_never_panics:
  assumes "valid_slice part"
  shows "sb_parse_run part = Some (sb_parse part) \<and> cg_parse_run part e = Some (cg_parse part e)
    \<and> inode_parse_run part v e = Some (inode_parse part v e)
    \<and> read_inode_run part sb ino = Some (read_inode part sb ino)
    \<and> list_dir_all_run part sb ino = Some (list_dir_all part sb ino)
    \<and> read_by_path_run part sb path = Some (read_by_path part sb path)
    \<and> read_file_run part sb ino = Some (read_file part sb ino)
    \<and> read_path_content_run part sb path = Some (read_path_content part sb path)"
  using assms by (simp add: run_simps)

theorem reader_never_panics_witness:
  "read_file_run sample_image sample_sb 3 = Some (Inr sample_content)
    \<and> read_path_content_run sample_image (sample_sb \<lparr> sb_nindir := 0, sb_bsize := - 1 \<rparr>) (str ''a/b'') \<noteq> None"
  using reader_never_panics [OF valid_sample_image, of Little Ufs2 sample_sb 3 "[]"]
    reader_never_panics [OF valid_sample_image, of Little Ufs2 "sample_sb \<lparr> sb_nindir := 0, sb_bsize := - 1 \<rparr>" 3
      "str ''a/b''"]
    sample_file [of "0x81A4" 1]
  by (simp add: read_file_def sample_inodes sample_live_def)

text \<open>
  C22. The block map of any inode with its twelve direct and three indirect pointers, and the content of a file
  assembled from it, never panic, whatever the size and the pointers say: the subtractions that find the tree, the
  divisions inside it, the buffer of \<open>di_size\<close> bytes and the range of every block are in bounds.
\<close>

theorem block_map_never_panics:
  assumes "valid_slice part" and "inode_arrays i"
  shows "resolve_block_run part sb i bi nindir = Some (resolve_block part sb i bi nindir)
    \<and> read_inode_file_run part sb i = Some (read_inode_file part sb i)
    \<and> read_symlink_target_run part sb i = Some (read_symlink_target part sb i)"
  using assms by (simp add: run_simps)

theorem block_map_never_panics_witness:
  "resolve_block_run sample_image sample_sb sample_live 18446744073709551615 8 \<noteq> None
    \<and> read_inode_file_run sample_image sample_sb (sample_live \<lparr> i_size := 66912 \<rparr>) \<noteq> None"
proof -
  have "inode_arrays sample_live" "inode_arrays (sample_live \<lparr> i_size := 66912 \<rparr>)"
    by (simp_all add: inode_arrays_def sample_live_def sample_inode_def sb_consts)
  then show ?thesis
    using block_map_never_panics [OF valid_sample_image, of sample_live sample_sb 18446744073709551615 8]
      block_map_never_panics [OF valid_sample_image, of "sample_live \<lparr> i_size := 66912 \<rparr>" sample_sb 0 8]
    by simp
qed

text \<open>
  C11. The audit and the recovery never panic on any bytes and compute exactly the functions of the earlier theories, so
  every anomaly list and every recovered item of theirs is what the checked code returns.
\<close>

theorem analysis_never_panics:
  assumes "valid_slice img"
  shows "audit_image_run img = Some (audit_image img)
    \<and> audit_findings_run to_finding img scope = Some (audit_findings to_finding img scope)
    \<and> recover_deleted_run sha256 img = Some (recover_deleted sha256 img)"
  using assms by (simp add: run_simps)

theorem analysis_never_panics_witness:
  "audit_image_run (replicate 70000 0) = Some (audit_image (replicate 70000 0))
    \<and> recover_deleted_run (\<lambda>_. []) sample_image \<noteq> None"
  using analysis_never_panics [of "replicate 70000 0" "\<lambda>_ _. ()" "[]" "\<lambda>_. []"]
    analysis_never_panics [OF valid_sample_image, of "\<lambda>_ _. ()" "[]" "\<lambda>_. []"]
  by (simp add: valid_slice_def)

text \<open>
  C24. Opening a volume panics exactly when the source reports more bytes than a vector can hold (the buffer for the
  whole source is allocated before anything is read); every other source, whatever it returns, is opened or
  rejected with an error. The source must leave the buffer its length, as a write through a slice does.
\<close>

theorem open_panics_exact:
  assumes "\<And>buf n buf'. read_at 0 buf = Inr (n, buf') \<Longrightarrow> length buf' = length buf"
  shows "ufs_open_run len read_at =
    (if isize_max < unat len then None else Some (ufs_open len read_at))"
proof (cases "isize_max < unat len")
  case False
  then show ?thesis by (simp only: if_False) (rule ufs_open_run_Some, simp, rule assms)
qed (simp add: ufs_open_run_None)

definition idle_source :: "u64 \<Rightarrow> bytes \<Rightarrow> unit vfs_error + (usize \<times> bytes)" where
  "idle_source off buf = Inr (0, buf)"

theorem open_panics_exact_witness:
  "ufs_open_run (- 1) idle_source = None \<and> ufs_open_run 70000 idle_source \<noteq> None"
  using open_panics_exact [of idle_source "- 1"] open_panics_exact [of idle_source 70000]
  by (simp add: idle_source_def unat_max_word)

text \<open>
  C23. The operations of an opened volume never panic and compute exactly the functions of the earlier theories:
  listing, lookup, metadata with its time stamps in 128-bit nanoseconds, extents, reading into a buffer of any length
  at any offset, and reading a link.
\<close>

theorem volume_never_panics:
  assumes "valid_slice (fs_image fs)"
  shows "vfs_read_dir_run dbg fs fid = Some (vfs_read_dir dbg fs fid)
    \<and> vfs_lookup_run dbg fs fid name = Some (vfs_lookup dbg fs fid name)
    \<and> vfs_meta_run dbg fs fid = Some (vfs_meta dbg fs fid)
    \<and> vfs_extents_run dbg sdbg fs fid st = Some (vfs_extents dbg sdbg fs fid st)
    \<and> (vfs_read_at_run dbg sdbg fs fid st off buf :: ('e vfs_error + (usize \<times> bytes)) option)
        = Some (vfs_read_at dbg sdbg fs fid st off buf)
    \<and> vfs_read_link_run dbg fs fid cap = Some (vfs_read_link dbg fs fid cap)"
  using assms by (simp add: run_simps)

theorem volume_never_panics_witness:
  "(vfs_read_at_run (\<lambda>_ :: unit. []) (\<lambda>_ :: unit. []) \<lparr> fs_image = sample_image, fs_sb = sample_sb \<rparr>
      (FileIdOpaque 3) StreamDefault 3 [7, 7, 7, 7] :: (unit vfs_error + (nat \<times> bytes)) option)
    = Some (Inr (2, [0x6C, 0x6F, 7, 7]))"
proof -
  let ?fs = "\<lparr> fs_image = sample_image, fs_sb = sample_sb \<rparr>"
  have "(vfs_read_at_run (\<lambda>_ :: unit. []) (\<lambda>_ :: unit. []) ?fs (FileIdOpaque 3) StreamDefault 3 [7, 7, 7, 7]
      :: (unit vfs_error + (nat \<times> bytes)) option)
    = Some (vfs_read_at (\<lambda>_ :: unit. []) (\<lambda>_ :: unit. []) ?fs (FileIdOpaque 3) StreamDefault 3 [7, 7, 7, 7])"
    by (rule volume_never_panics [THEN conjunct2, THEN conjunct2, THEN conjunct2, THEN conjunct2, THEN conjunct1])
      simp
  then show ?thesis
    using sample_file [of "0x81A4" 1]
    by (simp add: vfs_read_at_def require_default_stream_def ino_of_def read_file_def sample_inodes
        sample_live_def vfs_result_def slice_from_def sample_content_def)
qed

end
