(* ===== verification/Fixtures.thy ===== *)
theory Fixtures
  imports UfsVfs UfsCg
begin

text \<open>
  The vocabulary of the unit tests at the end of each source file: a fixture is a zeroed buffer with values written
  to it in order, an assertion on a \<open>Result\<close> is a predicate on its value or its error. The lemmas say what a
  fixture holds at an offset (the last write that covers it, or zeros) and when a structure is read from it, so that
  a test is evaluated field by field and not byte by byte.
\<close>

section \<open>Assertions\<close>

text \<open>\<open>r.unwrap()\<close> and \<open>r.unwrap_err()\<close> followed by assertions on the value; \<open>r.is_err()\<close>.\<close>

definition ok_and :: "'e + 'a \<Rightarrow> ('a \<Rightarrow> bool) \<Rightarrow> bool" where
  "ok_and r P = (case r of Inl _ \<Rightarrow> False | Inr x \<Rightarrow> P x)"

definition err_and :: "'e + 'a \<Rightarrow> ('e \<Rightarrow> bool) \<Rightarrow> bool" where
  "err_and r P = (case r of Inl e \<Rightarrow> P e | Inr _ \<Rightarrow> False)"

lemma ok_and_simps [simp]: "ok_and (Inr x) P = P x" "ok_and (Inl e) P = False"
  by (simp_all add: ok_and_def)

lemma err_and_simps [simp]: "err_and (Inl e) P = P e" "err_and (Inr x) P = False"
  by (simp_all add: err_and_def)

text \<open>The patterns the tests match errors with.\<close>

fun is_truncated :: "string \<Rightarrow> ufs_error \<Rightarrow> bool" where
  "is_truncated s (ErrTruncated s' _ _) = (s' = s)"
| "is_truncated s _ = False"

fun is_impossible :: "string \<Rightarrow> ufs_error \<Rightarrow> bool" where
  "is_impossible f (ErrImpossibleGeometry f' _ _) = (f' = f)"
| "is_impossible f _ = False"

section \<open>Buffers\<close>

definition fixture :: "nat \<Rightarrow> (nat \<times> bytes) list \<Rightarrow> bytes" where
  "fixture n fs = patch (replicate n 0) fs"

text \<open>What a list of writes leaves at an offset, the last write first.\<close>

fun holds_rev :: "(nat \<times> bytes) list \<Rightarrow> nat \<Rightarrow> bytes \<Rightarrow> bool" where
  "holds_rev [] a b = (b = replicate (length b) 0)"
| "holds_rev ((off, c) # fs) a b =
     (if off = a \<and> c = b then True
      else if a + length b \<le> off \<or> off + length c \<le> a then holds_rev fs a b
      else False)"

definition holds :: "nat \<Rightarrow> (nat \<times> bytes) list \<Rightarrow> nat \<times> bytes \<Rightarrow> bool" where
  "holds n fs f = (fst f + length (snd f) \<le> n \<and> holds_rev (rev fs) (fst f) (snd f))"

text \<open>A write out of range would panic; the writes of the fixtures are in range.\<close>

definition fits :: "nat \<Rightarrow> (nat \<times> bytes) list \<Rightarrow> bool" where
  "fits n fs = list_all (\<lambda>(off, b). off + length b \<le> n) fs"

lemma length_fixture [simp]: "length (fixture n fs) = n"
  by (simp add: fixture_def)

lemma patch_append: "patch d (fs @ gs) = patch (patch d fs) gs"
  by (simp add: patch_def)

lemma patch_snoc: "patch d (fs @ [(off, b)]) = slice_put (patch d fs) off b"
  by (simp add: patch_def)

lemma fixture_put: "slice_put (fixture n fs) off b = fixture n (fs @ [(off, b)])"
  by (simp add: fixture_def patch_snoc)

lemma holds_rev_get:
  "a + length b \<le> n \<Longrightarrow> holds_rev fs a b \<Longrightarrow> slice_get (patch (replicate n 0) (rev fs)) a (a + length b) = Some b"
proof (induction fs)
  case Nil
  then have "length b \<le> n - a" "b = replicate (length b) 0" by simp_all
  with Nil.prems(1) show ?case by (simp add: slice_get_def)
next
  case (Cons f fs)
  obtain off c where f: "f = (off, c)" by (cases f)
  show ?case
  proof (cases "off = a \<and> c = b")
    case True
    then show ?thesis
      using Cons.prems(1) slice_get_put_same [of a b "patch (replicate n 0) (rev fs)"]
      by (simp add: f patch_snoc)
  next
    case False
    then have "a + length b \<le> off \<or> off + length c \<le> a" "holds_rev fs a b"
      using Cons.prems(2) by (auto simp: f split: if_splits)
    then show ?thesis
      using Cons.IH [OF Cons.prems(1)] by (simp add: f patch_snoc slice_get_put_other)
  qed
qed

lemma fixture_get: "holds n fs (a, b) \<Longrightarrow> slice_get (fixture n fs) a (a + length b) = Some b"
  using holds_rev_get [of a b n "rev fs"] by (simp add: holds_def fixture_def)

lemma fixture_take: "holds n fs (a, b) \<Longrightarrow> k = length b \<Longrightarrow> take k (drop a (fixture n fs)) = b"
  using fixture_get [of n fs a b] by (simp add: slice_get_Some_iff)

lemma fixture_nth: "holds n fs (a, b) \<Longrightarrow> i < length b \<Longrightarrow> fixture n fs ! (a + i) = b ! i"
  using slice_get_nth [OF fixture_get, of n fs a b i] by simp

lemma fixture_patch:
  assumes "list_all (holds n fs) gs"
  shows "patch (fixture n fs) gs = fixture n fs"
  using assms by (intro patch_id) (auto simp: list_all_iff dest!: fixture_get)

lemma endian_bytes_0 [simp]: "endian_bytes e (0 :: 'a::len word) = replicate (LENGTH('a) div 8) 0"
proof -
  have "nat_to_le n 0 = replicate n 0" for n by (induction n) simp_all
  then show ?thesis by (cases e) (simp_all add: endian_bytes_def word_to_be_def word_to_le_def)
qed

lemma fixture_u16: "holds n fs (a, endian_bytes e w) \<Longrightarrow> n \<le> usize_max \<Longrightarrow> endian_u16 e (fixture n fs) a = w"
  using fixture_get [of n fs a "endian_bytes e w"] by (intro eu16.rd_at) (simp_all add: slice_get_Some_iff)

lemma fixture_u32: "holds n fs (a, endian_bytes e w) \<Longrightarrow> n \<le> usize_max \<Longrightarrow> endian_u32 e (fixture n fs) a = w"
  using fixture_get [of n fs a "endian_bytes e w"] by (intro eu32.rd_at) (simp_all add: slice_get_Some_iff)

lemma fixture_u64: "holds n fs (a, endian_bytes e w) \<Longrightarrow> n \<le> usize_max \<Longrightarrow> endian_u64 e (fixture n fs) a = w"
  using fixture_get [of n fs a "endian_bytes e w"] by (intro eu64.rd_at) (simp_all add: slice_get_Some_iff)

lemma fixture_u8: "holds n fs (a, [b]) \<Longrightarrow> u8_at (fixture n fs) a = b"
  using fixture_nth [of n fs a "[b]" 0] by (simp add: u8_at_def holds_def)

text \<open>A window of a fixture that cuts no write is the fixture of the writes in it.\<close>

definition writes_in :: "nat \<Rightarrow> nat \<Rightarrow> (nat \<times> bytes) list \<Rightarrow> (nat \<times> bytes) list" where
  "writes_in k n fs =
     map (\<lambda>(off, b). (off - k, b)) (filter (\<lambda>(off, b). k \<le> off \<and> off + length b \<le> k + n) fs)"

definition uncut :: "nat \<Rightarrow> nat \<Rightarrow> nat \<times> bytes \<Rightarrow> bool" where
  "uncut k n f =
     (let off = fst f; e = fst f + length (snd f) in e \<le> k \<or> k + n \<le> off \<or> k \<le> off \<and> e \<le> k + n)"

lemma fixture_window:
  assumes "k + n \<le> N" and "list_all (uncut k n) fs"
  shows "take n (drop k (fixture N fs)) = fixture n (writes_in k n fs)"
  using assms(2)
proof (induction fs rule: rev_induct)
  case Nil
  then show ?case using assms(1) by (simp add: fixture_def writes_in_def min_def)
next
  case (snoc f fs)
  obtain off b where f: "f = (off, b)" by (cases f)
  have ih: "take n (drop k (fixture N fs)) = fixture n (writes_in k n fs)"
    using snoc by (simp add: list_all_append)
  have u: "off + length b \<le> k \<or> k + n \<le> off \<or> k \<le> off \<and> off + length b \<le> k + n"
    using snoc.prems by (simp add: f uncut_def Let_def list_all_append)
  have put: "fixture N (fs @ [f]) = slice_put (fixture N fs) off b" by (simp add: f fixture_put)
  have m: "min (N - k) n = n" using assms(1) by simp
  show ?case
  proof (cases "k \<le> off \<and> off + length b \<le> k + n")
    case True
    then have w: "fixture n (writes_in k n (fs @ [f])) = slice_put (fixture n (writes_in k n fs)) (off - k) b"
      by (simp add: writes_in_def f fixture_put)
    show ?thesis
      unfolding w ih [symmetric] put
      by (rule nth_equalityI) (use True assms(1) in \<open>auto simp: slice_put_nth m add.commute\<close>)
  next
    case False
    then have w: "writes_in k n (fs @ [f]) = writes_in k n fs" by (simp add: writes_in_def f)
    show ?thesis
      unfolding w ih [symmetric] put
      by (rule nth_equalityI) (use False u assms(1) in \<open>auto simp: slice_put_nth m\<close>)
  qed
qed

text \<open>A structure whose fields a fixture holds is read from it.\<close>

lemma slice_get_drop: "k \<le> length d \<Longrightarrow> slice_get (drop k d) a b = slice_get d (k + a) (k + b)"
  by (auto simp: slice_get_def add.commute)

lemma fixture_sb_at:
  assumes "k + SB_MIN_LEN \<le> n" and "list_all (\<lambda>(off, b). holds n fs (k + off, b)) (sb_fields sb)"
    and "sb_version sb = Ufs1 \<Longrightarrow> sb_sblockloc sb = 0 \<and>
      scast (ucast (sb_size sb) :: i32) = sb_size sb \<and> scast (ucast (sb_dsize sb) :: i32) = sb_dsize sb"
  shows "sb_parse (drop k (fixture n fs)) = try_bind (sb_validate_geometry sb) (\<lambda>_. Inr sb)"
proof -
  let ?d = "drop k (fixture n fs)"
  have "\<forall>(off, b) \<in> set (sb_fields sb). slice_get ?d off (off + length b) = Some b"
    using assms(1,2) by (auto simp: list_all_iff slice_get_drop add.assoc dest!: fixture_get)
  then have "sb_write sb ?d = ?d" unfolding sb_write_def by (rule patch_id)
  then show ?thesis using sb_parse_fields [of ?d sb] assms(1,3) by simp
qed

lemmas fixture_sb = fixture_sb_at [where k = 0, simplified]

lemma fixture_cg:
  assumes "CG_MIN_LEN \<le> n" and "list_all (holds n fs) (cg_fields e cg)"
  shows "cg_parse (fixture n fs) e = Inr cg"
proof -
  have "cg_write e cg (fixture n fs) = fixture n fs"
    using assms(2) by (simp add: cg_write_def fixture_patch)
  then show ?thesis using cg_parse_write [of "fixture n fs" e cg] assms(1) by simp
qed

lemma fixture_inode:
  assumes "dinode_size v \<le> n" and "list_all (holds n fs) (inode_fields e i)" and "wf_inode i" and "i_version i = v"
  shows "inode_parse_with_maxsymlink (fixture n fs) v e m =
    Inr (i\<lparr> i_fast_symlink := inode_fast_symlink (fixture n fs) v (i_file_type i) (i_size i) m \<rparr>)"
proof -
  have "inode_write e i (fixture n fs) = fixture n fs"
    using assms(2) by (simp add: inode_write_def fixture_patch)
  then show ?thesis
    using inode_decode_write [of i "fixture n fs" e m] assms(1,3,4)
    by (simp add: inode_parse_with_maxsymlink_def)
qed

lemma fixture_symlink:
  assumes "dinode_size v \<le> n" and "holds n fs (0, endian_bytes e mode)"
    and "holds n fs (case v of Ufs1 \<Rightarrow> U1_SIZE | Ufs2 \<Rightarrow> U2_SIZE, endian_bytes e (of_nat (length t) :: u64))"
    and "holds n fs (inode_db_off v, t)" and "file_type_from_mode mode = FtSymlink"
    and "length t \<le> 15 * inode_ptr_size v" and "int (length t) \<le> sint m" and "0 < sint m"
  shows "inode_parse_with_maxsymlink (fixture n fs) v e m = Inr (inode_decode (fixture n fs) v e m)
    \<and> i_file_type (inode_decode (fixture n fs) v e m) = FtSymlink
    \<and> inode_symlink_target (inode_decode (fixture n fs) v e m) = Some t"
proof -
  let ?d = "fixture n fs"
  have "inode_ptr_size v \<le> 8" by (cases v) simp_all
  then have len: "length t < 2 ^ 64" and sz: "unat (of_nat (length t) :: u64) = length t"
    using assms(6) by (simp_all add: unat_of_nat)
  have m16: "endian_u16 e ?d 0 = mode"
    using fixture_get [OF assms(2)] by (intro eu16.rd_at) simp_all
  have m: "endian_u16 e ?d U2_MODE = mode" "endian_u16 e ?d U1_MODE = mode"
    using m16 by (simp_all add: sb_consts)
  have s: "endian_u64 e ?d (case v of Ufs1 \<Rightarrow> U1_SIZE | Ufs2 \<Rightarrow> U2_SIZE) = of_nat (length t)"
    using fixture_get [OF assms(3)] by (intro eu64.rd_at) (cases v; simp add: sb_consts)+
  have "(of_nat (length t) :: u64) \<le> scast m"
    using assms(7,8) by (simp add: word_le_nat_alt sz unat_scast_i32 nat_le_iff)
  then have "inode_fast_symlink ?d v FtSymlink (of_nat (length t)) m = Some t"
    using assms(6,8) fixture_get [OF assms(4)]
    by (simp add: inode_fast_symlink_def Let_def sz sb_consts min_absorb1)
  then show ?thesis
    using assms(1,5) m s
    by (cases v) (simp_all add: inode_parse_with_maxsymlink_def inode_decode_def inode_symlink_target_def Let_def)
qed

text \<open>An inode in its slot of a partition.\<close>

lemma fixture_read_inode:
  assumes "n \<le> isize_max" and "inode_geometry_ok sb" and "unat ino < inode_count sb"
    and "holds n fs (inode_offset sb (unat ino), d)" and "length d = dinode_size (sb_version sb)"
    and "inode_parse_with_maxsymlink d (sb_version sb) (sb_endian sb) (sb_maxsymlinklen sb) = Inr i"
  shows "read_inode (fixture n fs) sb ino = Inr i"
proof -
  have "valid_slice (fixture n fs)" using assms(1) by (simp add: valid_slice_def)
  moreover have "inode_offset sb (unat ino) + length d \<le> n" using assms(4) by (simp add: holds_def)
  moreover have "take (length d) (drop (inode_offset sb (unat ino)) (fixture n fs)) = d"
    using assms(4) by (rule fixture_take) simp
  moreover have "i = inode_decode d (sb_version sb) (sb_endian sb) (sb_maxsymlinklen sb)"
    using assms(6) by (auto simp: inode_parse_with_maxsymlink_def Let_def split: if_splits)
  ultimately show ?thesis
    using assms(2,3,5) by (simp add: read_inode_refines Let_def)
qed

text \<open>An inode written field by field into a partition.\<close>

lemma fixture_inode_at:
  assumes "n \<le> isize_max" and "inode_geometry_ok sb" and "unat ino < inode_count sb" and "inode_offset sb (unat ino) = k"
    and "list_all (\<lambda>(off, b). holds n fs (k + off, b)) (inode_fields (sb_endian sb) i)"
    and "wf_inode i" and "i_version i = sb_version sb" and "i_file_type i \<noteq> FtSymlink" and "i_fast_symlink i = None"
    and "k + dinode_size (sb_version sb) \<le> n"
  shows "read_inode (fixture n fs) sb ino = Inr i"
proof -
  let ?d = "take (dinode_size (sb_version sb)) (drop k (fixture n fs))"
  have v: "valid_slice (fixture n fs)" using assms(1) by (simp add: valid_slice_def)
  have len: "length ?d = dinode_size (sb_version sb)" using assms(10) by simp
  have "slice_get ?d off (off + length b) = Some b" if "(off, b) \<in> set (inode_fields (sb_endian sb) i)" for off b
  proof -
    have "off + length b \<le> dinode_size (sb_version sb)"
      using inode_fields_bounds [OF that] assms(7) by simp
    moreover have "slice_get (fixture n fs) (k + off) (k + off + length b) = Some b"
      using assms(5) that by (auto simp: list_all_iff dest!: fixture_get)
    ultimately show ?thesis
      using assms(10) by (simp add: slice_get_Some_iff take_drop_window ac_simps)
  qed
  then have "inode_write (sb_endian sb) i ?d = ?d" unfolding inode_write_def by (intro patch_id) auto
  then have "inode_decode ?d (sb_version sb) (sb_endian sb) (sb_maxsymlinklen sb) = i"
    using inode_decode_write [of i ?d "sb_endian sb" "sb_maxsymlinklen sb"] assms(6-9) len
    by (simp add: inode_fast_symlink_def)
  then show ?thesis using assms(2-4,10) by (simp add: read_inode_refines [OF v] Let_def)
qed

section \<open>Directory entries\<close>

text \<open>
  The helper \<open>direct\<close> of the test modules: one entry of \<open>reclen\<close> bytes with the name after the head.
  It panics when the name does not fit; then the entry is not one of the layout.
\<close>

definition dirent_bytes :: "u32 \<Rightarrow> u16 \<Rightarrow> u8 \<Rightarrow> bytes \<Rightarrow> bytes" where
  "dirent_bytes ino reclen d_type name =
     fixture (unat reclen)
       [(OFF_INO, endian_bytes Little ino), (OFF_RECLEN, endian_bytes Little reclen),
        (OFF_TYPE, [d_type]), (OFF_NAMLEN, [of_nat (length name)]), (OFF_NAME, name)]"

definition plain_dirent :: "u32 \<Rightarrow> u16 \<Rightarrow> u8 \<Rightarrow> bytes \<Rightarrow> raw_dirent" where
  "plain_dirent ino reclen d_type name =
     \<lparr> rd_ino = ino, rd_type = d_type, rd_name = name, rd_pad = replicate (unat reclen - 8 - length name) 0 \<rparr>"

lemma slice_put_zeros:
  "p = length xs \<Longrightarrow> length b \<le> k \<Longrightarrow>
     slice_put (xs @ replicate k 0) p b = (xs @ b) @ replicate (k - length b) 0"
  by (simp add: slice_put_def)

lemma dirent_bytes_layout:
  assumes "8 + length name \<le> unat reclen"
  shows "dirent_bytes ino reclen ty name = raw_bytes Little (plain_dirent ino reclen ty name)"
proof -
  let ?e = "endian_bytes Little"
  let ?n = "unat reclen"
  have "dirent_bytes ino reclen ty name = fixture ?n
      [(0, ?e ino), (4, ?e reclen), (6, [ty]), (7, [of_nat (length name)]), (8, name)]"
    by (simp add: dirent_bytes_def sb_consts)
  also have "\<dots> = ?e ino @ ?e reclen @ [ty, of_nat (length name)] @ name @ replicate (?n - 8 - length name) 0"
  proof -
    have "slice_put ([] @ replicate ?n 0) 0 (?e ino) = ([] @ ?e ino) @ replicate (?n - 4) 0"
      using assms by (subst slice_put_zeros) simp_all
    moreover have "slice_put (?e ino @ replicate (?n - 4) 0) 4 (?e reclen) = (?e ino @ ?e reclen) @ replicate (?n - 6) 0"
      using assms by (subst slice_put_zeros) simp_all
    moreover have "slice_put ((?e ino @ ?e reclen) @ replicate (?n - 6) 0) 6 [ty]
        = ((?e ino @ ?e reclen) @ [ty]) @ replicate (?n - 7) 0"
      using assms by (subst slice_put_zeros) simp_all
    moreover have "slice_put (((?e ino @ ?e reclen) @ [ty]) @ replicate (?n - 7) 0) 7 [of_nat (length name)]
        = (((?e ino @ ?e reclen) @ [ty]) @ [of_nat (length name)]) @ replicate (?n - 8) 0"
      using assms by (subst slice_put_zeros) simp_all
    moreover have "slice_put ((((?e ino @ ?e reclen) @ [ty]) @ [of_nat (length name)]) @ replicate (?n - 8) 0) 8 name
        = ((((?e ino @ ?e reclen) @ [ty]) @ [of_nat (length name)]) @ name) @ replicate (?n - 8 - length name) 0"
      using assms by (subst slice_put_zeros) simp_all
    ultimately show ?thesis unfolding fixture_def patch_simps append_Nil by (simp only: append_assoc append_Cons append_Nil)
  qed
  also have "\<dots> = raw_bytes Little (plain_dirent ino reclen ty name)"
    using assms by (simp add: raw_bytes_def raw_reclen_def plain_dirent_def)
  finally show ?thesis .
qed

lemma plain_dirent_ok:
  "8 + length name \<le> unat reclen \<Longrightarrow> length name \<le> 255 \<Longrightarrow> raw_ok (plain_dirent ino reclen ty name)"
  using unat_lt [of reclen] by (simp add: raw_ok_def raw_reclen_def plain_dirent_def)

text \<open>A listing whose directory has one block.\<close>

lemma first_block_listing:
  assumes "valid_slice part" "0 < sint (sb_fsize sb)" "0 < sint (sb_bsize sb)"
    and "i_direct i = addr # replicate 11 0"
  shows "list_dir_entries part sb i = walk_entries (dir_block part sb i 0) (sb_endian sb)"
proof -
  have z: "walk_entries (dir_block part sb i (Suc k)) (sb_endian sb) = []" if "k < 11" for k
    using that assms(4) by (simp add: dir_block_def Let_def walk_entries_short)
  have u: "[0..<12] = 0 # map Suc [0..<11]" by (simp add: map_Suc_upt upt_conv_Cons del: upt_Suc)
  have "list_dir_entries part sb i =
      concat (map (\<lambda>k. walk_entries (dir_block part sb i k) (sb_endian sb)) [0..<12])"
    using list_dir_entries_exact [OF assms(1-3), of i] assms(4) by simp
  also have "\<dots> = walk_entries (dir_block part sb i 0) (sb_endian sb)
      @ concat (map (\<lambda>k. walk_entries (dir_block part sb i (Suc k)) (sb_endian sb)) [0..<11])"
    unfolding u by (simp add: comp_def)
  also have "map (\<lambda>k. walk_entries (dir_block part sb i (Suc k)) (sb_endian sb)) [0..<11] = map (\<lambda>k. []) [0..<11]"
    by (rule map_cong) (simp_all add: z)
  finally show ?thesis by (simp add: map_replicate_const)
qed

end
