(* ===== verification/TestsParsers.thy ===== *)
theory TestsParsers
  imports Fixtures
begin

text \<open>
  The unit tests of \<open>core/src/bytes.rs\<close>, \<open>core/src/cg.rs\<close> and \<open>core/src/superblock.rs\<close>: each fixture and each test
  is a definition, and each test passes on the model.
\<close>

section \<open>\<open>core/src/bytes.rs\<close>\<close>

definition test_readers_decode_both_orders :: bool where
  "test_readers_decode_both_orders \<longleftrightarrow>
     (let d = [0x11, 0x22, 0x33, 0x44, 0x55, 0x66, 0x77, 0x88] in
        le_u16 d 0 = 0x2211 \<and> be_u16 d 0 = 0x1122
        \<and> le_u32 d 0 = 0x44332211 \<and> be_u32 d 0 = 0x11223344
        \<and> le_u64 d 0 = 0x8877665544332211 \<and> be_u64 d 0 = 0x1122334455667788
        \<and> u8_at d 3 = 0x44)"

definition test_readers_yield_zero_out_of_range :: bool where
  "test_readers_yield_zero_out_of_range \<longleftrightarrow>
     le_u16 [0x12] 0 = 0 \<and> be_u16 [0x12] 0 = 0
     \<and> le_u32 [0, 0, 0] 0 = 0 \<and> be_u32 [0, 0, 0] 0 = 0
     \<and> le_u64 (replicate 7 0) 0 = 0 \<and> be_u64 (replicate 7 0) 0 = 0
     \<and> u8_at [] 0 = 0"

definition test_endian_selector_dispatches_both_orders :: bool where
  "test_endian_selector_dispatches_both_orders \<longleftrightarrow>
     (let d = [0xaa, 0xbb, 0xcc, 0xdd, 0x01, 0x02, 0x03, 0x04] in
        endian_u16 Little d 0 = 0xbbaa \<and> endian_u16 Big d 0 = 0xaabb
        \<and> endian_u32 Little d 0 = 0xddccbbaa \<and> endian_u32 Big d 0 = 0xaabbccdd
        \<and> endian_i32 Little d 0 = 0xddccbbaa \<and> endian_i32 Big d 0 = 0xaabbccdd
        \<and> endian_u64 Little d 0 = 0x04030201ddccbbaa \<and> endian_u64 Big d 0 = 0xaabbccdd01020304
        \<and> endian_i64 Little d 0 = 0x04030201ddccbbaa \<and> endian_i64 Big d 0 = 0xaabbccdd01020304)"

lemmas eval_readers = reader_defs endian_i32_def endian_i64_def read_array_def slice_get_def
  from_le_def from_be_def u8_at_def

lemma bytes_tests:
  "test_readers_decode_both_orders" "test_readers_yield_zero_out_of_range"
  "test_endian_selector_dispatches_both_orders"
  by (simp_all add: test_readers_decode_both_orders_def test_readers_yield_zero_out_of_range_def
      test_endian_selector_dispatches_both_orders_def eval_readers Let_def)

section \<open>\<open>core/src/cg.rs\<close>\<close>

definition cg_synthetic_writes :: "endian \<Rightarrow> (nat \<times> bytes) list" where
  "cg_synthetic_writes e =
     [(OFF_MAGIC, endian_bytes e CG_MAGIC),
      (OFF_CGX, endian_bytes e (0 :: u32)),
      (OFF_NDBLK, endian_bytes e (256 :: u32)),
      (OFF_NIBLK, endian_bytes e (8 :: u32)),
      (OFF_INITEDIBLK, endian_bytes e (128 :: u32)),
      (OFF_IUSEDOFF, endian_bytes e (168 :: u32)),
      (OFF_FREEOFF, endian_bytes e (184 :: u32)),
      (OFF_CLUSTEROFF, endian_bytes e (200 :: u32))]"

definition cg_synthetic :: "endian \<Rightarrow> bytes" where
  "cg_synthetic e = fixture CG_MIN_LEN (cg_synthetic_writes e)"

definition test_parses_valid_cg_little_endian :: bool where
  "test_parses_valid_cg_little_endian \<longleftrightarrow>
     ok_and (cg_parse (cg_synthetic Little) Little) (\<lambda>cg.
       cg_cgx cg = 0 \<and> cg_ndblk cg = 256 \<and> cg_niblk cg = 8 \<and> cg_iusedoff cg = 168
       \<and> cg_freeoff cg = 184 \<and> cg_inosused_off cg = 168 \<and> cg_blksfree_off cg = 184)"

definition test_parses_valid_cg_big_endian :: bool where
  "test_parses_valid_cg_big_endian \<longleftrightarrow>
     ok_and (cg_parse (cg_synthetic Big) Big) (\<lambda>cg. cg_ndblk cg = 256 \<and> cg_iusedoff cg = 168)"

definition test_bad_cg_magic_fails_loud :: bool where
  "test_bad_cg_magic_fails_loud \<longleftrightarrow>
     (let d = slice_put (cg_synthetic Little) OFF_MAGIC (endian_bytes Little (0x12345678 :: u32)) in
        err_and (cg_parse d Little)
          (\<lambda>err. case err of ErrBadCgMagic found _ \<Rightarrow> found = 0x12345678 | _ \<Rightarrow> False))"

definition test_wrong_endian_is_detected_as_bad_magic :: bool where
  "test_wrong_endian_is_detected_as_bad_magic \<longleftrightarrow>
     err_and (cg_parse (cg_synthetic Little) Big)
       (\<lambda>err. case err of ErrBadCgMagic _ _ \<Rightarrow> True | _ \<Rightarrow> False)"

definition test_truncated_cg_does_not_panic :: bool where
  "test_truncated_cg_does_not_panic \<longleftrightarrow>
     err_and (cg_parse (replicate (CG_MIN_LEN - 1) 0) Little) (is_truncated ''cylinder group'')"

definition synthetic_cg :: cylinder_group where
  "synthetic_cg = \<lparr> cg_cgx = 0, cg_ndblk = 256, cg_niblk = 8, cg_initediblk = 128, cg_iusedoff = 168,
     cg_freeoff = 184, cg_clusteroff = 200 \<rparr>"

lemma cg_synthetic_parse: "cg_parse (cg_synthetic e) e = Inr synthetic_cg"
  unfolding cg_synthetic_def
  by (rule fixture_cg)
    (simp_all add: cg_fields_def cg_synthetic_writes_def holds_def sb_consts synthetic_cg_def)

lemma cg_tests:
  "test_parses_valid_cg_little_endian" "test_parses_valid_cg_big_endian" "test_bad_cg_magic_fails_loud"
  "test_wrong_endian_is_detected_as_bad_magic" "test_truncated_cg_does_not_panic"
proof -
  let ?bad = "slice_put (cg_synthetic Little) OFF_MAGIC (endian_bytes Little (0x12345678 :: u32))"
  have "endian_u32 Little ?bad OFF_MAGIC = 0x12345678"
    by (rule eu32.rd_put_same) (simp_all add: cg_synthetic_def sb_consts)
  then have bad: "cg_parse ?bad Little = Inl (ErrBadCgMagic 0x12345678 Little)"
    by (simp add: cg_parse_def cg_synthetic_def CG_MAGIC_def)
  have "cg_parse (cg_synthetic Little) Big =
      Inl (ErrBadCgMagic (endian_u32 Big (cg_synthetic Little) OFF_MAGIC) Big)"
    by (rule cg_parse_one_order [OF cg_synthetic_parse]) simp
  then show "test_wrong_endian_is_detected_as_bad_magic"
    by (simp add: test_wrong_endian_is_detected_as_bad_magic_def)
  show "test_parses_valid_cg_little_endian" "test_parses_valid_cg_big_endian" "test_bad_cg_magic_fails_loud"
    by (simp_all add: test_parses_valid_cg_little_endian_def test_parses_valid_cg_big_endian_def
        test_bad_cg_magic_fails_loud_def cg_synthetic_parse bad synthetic_cg_def cg_inosused_off_def cg_blksfree_off_def)
  show "test_truncated_cg_does_not_panic"
    by (simp add: test_truncated_cg_does_not_panic_def cg_parse_def sb_consts)
qed

section \<open>\<open>core/src/superblock.rs\<close>\<close>

definition sb_synthetic_writes :: "u32 \<Rightarrow> endian \<Rightarrow> bool \<Rightarrow> (nat \<times> bytes) list" where
  "sb_synthetic_writes magic e ufs2 =
     [(FS_MAGIC_OFF, endian_bytes e magic),
      (OFF_SBLKNO, endian_bytes e (24 :: i32)), (OFF_CBLKNO, endian_bytes e (32 :: i32)),
      (OFF_IBLKNO, endian_bytes e (40 :: i32)), (OFF_DBLKNO, endian_bytes e (48 :: i32)),
      (OFF_NCG, endian_bytes e (4 :: i32)), (OFF_BSIZE, endian_bytes e (32768 :: i32)),
      (OFF_FSIZE, endian_bytes e (4096 :: i32)), (OFF_FRAG, endian_bytes e (8 :: i32)),
      (OFF_BSHIFT, endian_bytes e (15 :: i32)), (OFF_FSHIFT, endian_bytes e (12 :: i32)),
      (OFF_INOPB, endian_bytes e (128 :: i32)), (OFF_IPG, endian_bytes e (128 :: i32)),
      (OFF_FPG, endian_bytes e (256 :: i32)), (OFF_MAXSYMLINKLEN, endian_bytes e (120 :: i32))]
     @ (if ufs2
        then [(OFF_SIZE, endian_bytes e (1022 :: i64)), (OFF_DSIZE, endian_bytes e (901 :: i64)),
              (OFF_SBLOCKLOC, endian_bytes e (of_nat SBLOCK_UFS2 :: i64))]
        else [(OFF_OLD_SIZE, endian_bytes e (1000 :: i32)), (OFF_OLD_DSIZE, endian_bytes e (900 :: i32))])"

definition sb_synthetic :: "u32 \<Rightarrow> endian \<Rightarrow> bool \<Rightarrow> bytes" where
  "sb_synthetic magic e ufs2 = fixture SB_MIN_LEN (sb_synthetic_writes magic e ufs2)"

definition test_detects_ufs2_little_endian :: bool where
  "test_detects_ufs2_little_endian \<longleftrightarrow>
     ok_and (sb_parse (sb_synthetic FS_UFS2_MAGIC Little True)) (\<lambda>sb.
       sb_version sb = Ufs2 \<and> sb_endian sb = Little \<and> sb_bsize sb = 32768 \<and> sb_ncg sb = 4
       \<and> sb_size sb = 1022 \<and> sb_sblockloc sb = of_nat SBLOCK_UFS2 \<and> sb_inode_size sb = 256
       \<and> sb_primary_offset sb = SBLOCK_UFS2)"

definition test_detects_ufs2_big_endian :: bool where
  "test_detects_ufs2_big_endian \<longleftrightarrow>
     ok_and (sb_parse (sb_synthetic FS_UFS2_MAGIC Big True)) (\<lambda>sb.
       sb_version sb = Ufs2 \<and> sb_endian sb = Big \<and> sb_bsize sb = 32768 \<and> sb_fpg sb = 256)"

definition test_detects_ufs1_and_uses_old_size_fields :: bool where
  "test_detects_ufs1_and_uses_old_size_fields \<longleftrightarrow>
     ok_and (sb_parse (sb_synthetic FS_UFS1_MAGIC Little False)) (\<lambda>sb.
       sb_version sb = Ufs1 \<and> sb_size sb = 1000 \<and> sb_dsize sb = 900 \<and> sb_sblockloc sb = 0
       \<and> sb_inode_size sb = 128 \<and> sb_primary_offset sb = SBLOCK_UFS1)"

definition test_detects_ufs1_big_endian :: bool where
  "test_detects_ufs1_big_endian \<longleftrightarrow>
     ok_and (sb_parse (sb_synthetic FS_UFS1_MAGIC Big False)) (\<lambda>sb.
       sb_version sb = Ufs1 \<and> sb_endian sb = Big \<and> sb_size sb = 1000 \<and> sb_inode_size sb = 128)"

definition test_bad_magic_fails_loud_with_bytes :: bool where
  "test_bad_magic_fails_loud_with_bytes \<longleftrightarrow>
     (let d = slice_put (replicate SB_MIN_LEN 0) FS_MAGIC_OFF (endian_bytes Little (0xdeadbeef :: u32)) in
        err_and (sb_parse d) (\<lambda>err. case err of
            ErrBadMagic offset bs le _ \<Rightarrow>
              offset = FS_MAGIC_OFF \<and> le = 0xdeadbeef \<and> bs = endian_bytes Little (0xdeadbeef :: u32)
          | _ \<Rightarrow> False))"

definition test_truncated_buffer_fails_loud_not_panic :: bool where
  "test_truncated_buffer_fails_loud_not_panic \<longleftrightarrow>
     err_and (sb_parse (replicate (SB_MIN_LEN - 1) 0)) (\<lambda>err. case err of
         ErrTruncated structure need _ \<Rightarrow> structure = ''superblock'' \<and> need = SB_MIN_LEN
       | _ \<Rightarrow> False)"

definition test_empty_buffer_reports_truncated_not_panic :: bool where
  "test_empty_buffer_reports_truncated_not_panic \<longleftrightarrow>
     err_and (sb_parse []) (\<lambda>err. case err of ErrTruncated _ _ _ \<Rightarrow> True | _ \<Rightarrow> False)"

definition test_impossible_block_size_rejected :: bool where
  "test_impossible_block_size_rejected \<longleftrightarrow>
     (let d = slice_put (sb_synthetic FS_UFS2_MAGIC Little True) OFF_BSIZE (endian_bytes Little (1048576 :: i32)) in
        err_and (sb_parse d) (is_impossible ''fs_bsize''))"

definition test_impossible_fragment_size_rejected :: bool where
  "test_impossible_fragment_size_rejected \<longleftrightarrow>
     (let d = slice_put (sb_synthetic FS_UFS2_MAGIC Little True) OFF_FSIZE (endian_bytes Little (65536 :: i32)) in
        err_and (sb_parse d) (is_impossible ''fs_fsize''))"

definition test_absurd_cg_count_rejected :: bool where
  "test_absurd_cg_count_rejected \<longleftrightarrow>
     (let d = slice_put (sb_synthetic FS_UFS2_MAGIC Little True) OFF_NCG (endian_bytes Little (0x7fffffff :: u32)) in
        err_and (sb_parse d) (is_impossible ''fs_ncg''))"

text \<open>The superblock the fixture spells out; the fields it does not write are zero.\<close>

definition synthetic_sb :: "ufs_version \<Rightarrow> endian \<Rightarrow> superblock" where
  "synthetic_sb v e = \<lparr> sb_version = v, sb_endian = e, sb_sblkno = 24, sb_cblkno = 32, sb_iblkno = 40,
     sb_dblkno = 48, sb_ncg = 4, sb_bsize = 32768, sb_fsize = 4096, sb_frag = 8, sb_bshift = 15,
     sb_fshift = 12, sb_fragshift = 0, sb_fsbtodb = 0, sb_sbsize = 0, sb_nindir = 0, sb_inopb = 128,
     sb_ipg = 128, sb_fpg = 256,
     sb_size = (case v of Ufs1 \<Rightarrow> 1000 | Ufs2 \<Rightarrow> 1022), sb_dsize = (case v of Ufs1 \<Rightarrow> 900 | Ufs2 \<Rightarrow> 901),
     sb_csaddr = 0, sb_sblockloc = (case v of Ufs1 \<Rightarrow> 0 | Ufs2 \<Rightarrow> 65536), sb_maxsymlinklen = 120 \<rparr>"

lemmas sb_fixture_simps = sb_fields_defs sb_synthetic_writes_def holds_def magic_of_def sb_consts

lemma synthetic_sb_wf: "wf_superblock (synthetic_sb v e)"
  by (cases v) (simp_all add: wf_superblock_def wf_geometry_def synthetic_sb_def)

lemma sb_synthetic_parse:
  "sb_parse (sb_synthetic FS_UFS2_MAGIC e True) = Inr (synthetic_sb Ufs2 e)"
  "sb_parse (sb_synthetic FS_UFS1_MAGIC e False) = Inr (synthetic_sb Ufs1 e)"
proof -
  have ok: "sb_validate_geometry (synthetic_sb v e) = Inr ()" for v
    using synthetic_sb_wf [of v e] by (simp add: validate_Inr wf_superblock_def)
  have "sb_parse (sb_synthetic FS_UFS2_MAGIC e True)
      = try_bind (sb_validate_geometry (synthetic_sb Ufs2 e)) (\<lambda>_. Inr (synthetic_sb Ufs2 e))"
    unfolding sb_synthetic_def
    by (rule fixture_sb) (simp_all add: sb_fixture_simps synthetic_sb_def)
  then show "sb_parse (sb_synthetic FS_UFS2_MAGIC e True) = Inr (synthetic_sb Ufs2 e)"
    by (simp add: ok)
  have "sb_parse (sb_synthetic FS_UFS1_MAGIC e False)
      = try_bind (sb_validate_geometry (synthetic_sb Ufs1 e)) (\<lambda>_. Inr (synthetic_sb Ufs1 e))"
    unfolding sb_synthetic_def
    by (rule fixture_sb) (simp_all add: sb_fixture_simps synthetic_sb_def)
  then show "sb_parse (sb_synthetic FS_UFS1_MAGIC e False) = Inr (synthetic_sb Ufs1 e)"
    by (simp add: ok)
qed

text \<open>Overwriting a field gives the superblock with that field, which the geometry check rejects.\<close>

lemma sb_synthetic_rejects:
  "err_and (sb_parse (slice_put (sb_synthetic FS_UFS2_MAGIC Little True) OFF_BSIZE (endian_bytes Little (1048576 :: i32))))
     (is_impossible ''fs_bsize'')"
  "err_and (sb_parse (slice_put (sb_synthetic FS_UFS2_MAGIC Little True) OFF_FSIZE (endian_bytes Little (65536 :: i32))))
     (is_impossible ''fs_fsize'')"
  "err_and (sb_parse (slice_put (sb_synthetic FS_UFS2_MAGIC Little True) OFF_NCG (endian_bytes Little (0x7fffffff :: u32))))
     (is_impossible ''fs_ncg'')"
proof -
  let ?w = "sb_synthetic_writes FS_UFS2_MAGIC Little True"
  let ?sb = "synthetic_sb Ufs2 Little"
  note simps = sb_fixture_simps synthetic_sb_def
  have "sb_parse (fixture SB_MIN_LEN (?w @ [(OFF_BSIZE, endian_bytes Little (1048576 :: i32))]))
      = try_bind (sb_validate_geometry (?sb\<lparr> sb_bsize := 1048576 \<rparr>)) (\<lambda>_. Inr (?sb\<lparr> sb_bsize := 1048576 \<rparr>))"
    by (rule fixture_sb) (simp_all add: simps)
  then show "err_and (sb_parse (slice_put (sb_synthetic FS_UFS2_MAGIC Little True) OFF_BSIZE (endian_bytes Little (1048576 :: i32))))
      (is_impossible ''fs_bsize'')"
    by (simp add: sb_synthetic_def fixture_put sb_validate_geometry_def synthetic_sb_def)
  have "sb_parse (fixture SB_MIN_LEN (?w @ [(OFF_FSIZE, endian_bytes Little (65536 :: i32))]))
      = try_bind (sb_validate_geometry (?sb\<lparr> sb_fsize := 65536 \<rparr>)) (\<lambda>_. Inr (?sb\<lparr> sb_fsize := 65536 \<rparr>))"
    by (rule fixture_sb) (simp_all add: simps)
  then show "err_and (sb_parse (slice_put (sb_synthetic FS_UFS2_MAGIC Little True) OFF_FSIZE (endian_bytes Little (65536 :: i32))))
      (is_impossible ''fs_fsize'')"
    by (simp add: sb_synthetic_def fixture_put sb_validate_geometry_def synthetic_sb_def)
  have "sb_parse (fixture SB_MIN_LEN (?w @ [(OFF_NCG, endian_bytes Little (0x7fffffff :: u32))]))
      = try_bind (sb_validate_geometry (?sb\<lparr> sb_ncg := 0x7fffffff \<rparr>)) (\<lambda>_. Inr (?sb\<lparr> sb_ncg := 0x7fffffff \<rparr>))"
    by (rule fixture_sb) (simp_all add: simps)
  then show "err_and (sb_parse (slice_put (sb_synthetic FS_UFS2_MAGIC Little True) OFF_NCG (endian_bytes Little (0x7fffffff :: u32))))
      (is_impossible ''fs_ncg'')"
    by (simp add: sb_synthetic_def fixture_put sb_validate_geometry_def synthetic_sb_def MAX_NCG_def)
qed

lemma sb_bad_magic:
  "sb_parse (slice_put (replicate SB_MIN_LEN 0) FS_MAGIC_OFF (endian_bytes Little (0xdeadbeef :: u32)))
    = Inl (ErrBadMagic FS_MAGIC_OFF (endian_bytes Little (0xdeadbeef :: u32)) 0xdeadbeef 0xefbeadde)"
proof -
  let ?b = "endian_bytes Little (0xdeadbeef :: u32)"
  let ?d = "slice_put (replicate SB_MIN_LEN 0) FS_MAGIC_OFF ?b"
  have b: "?b = [0xef, 0xbe, 0xad, 0xde]" by (simp add: endian_bytes_def word_to_le_def)
  have "slice_get ?d FS_MAGIC_OFF (FS_MAGIC_OFF + length ?b) = Some ?b"
    by (rule slice_get_put_same) (simp add: sb_consts)
  then have "sb_magic_bytes ?d = ?b" using sb_magic_bytes_slice [of ?d] by simp
  moreover have "from_le ?b = (0xdeadbeef :: u32)" "from_be ?b = (0xefbeadde :: u32)"
    unfolding b by (simp_all add: from_be_def from_le_def)
  ultimately show ?thesis by (simp add: sb_parse_def sb_detect_def sb_consts)
qed

lemma superblock_tests:
  "test_detects_ufs2_little_endian" "test_detects_ufs2_big_endian" "test_detects_ufs1_and_uses_old_size_fields"
  "test_detects_ufs1_big_endian" "test_bad_magic_fails_loud_with_bytes"
  "test_truncated_buffer_fails_loud_not_panic" "test_empty_buffer_reports_truncated_not_panic"
  "test_impossible_block_size_rejected" "test_impossible_fragment_size_rejected" "test_absurd_cg_count_rejected"
  using sb_synthetic_rejects
  by (simp_all add: test_detects_ufs2_little_endian_def test_detects_ufs2_big_endian_def
      test_detects_ufs1_and_uses_old_size_fields_def test_detects_ufs1_big_endian_def
      test_bad_magic_fails_loud_with_bytes_def test_truncated_buffer_fails_loud_not_panic_def
      test_empty_buffer_reports_truncated_not_panic_def test_impossible_block_size_rejected_def
      test_impossible_fragment_size_rejected_def test_absurd_cg_count_rejected_def Let_def
      sb_synthetic_parse sb_bad_magic,
     simp_all add: synthetic_sb_def sb_inode_size_def sb_primary_offset_def sb_parse_def sb_consts)

end
