(* ===== verification/TestsInode.thy ===== *)
theory TestsInode
  imports TestsParsers
begin

text \<open>
  The unit tests of \<open>core/src/inode.rs\<close>: the dinode fixtures of both layouts, the synthetic partition with one
  dinode in its slot, and every test, each of which passes on the model.
\<close>

section \<open>Fixtures\<close>

definition ufs2_dinode_writes :: "u16 \<Rightarrow> u64 \<Rightarrow> u64 \<Rightarrow> (nat \<times> bytes) list" where
  "ufs2_dinode_writes mode sz db0 =
     [(U2_MODE, endian_bytes Little mode), (U2_NLINK, endian_bytes Little (1 :: u16)),
      (U2_UID, endian_bytes Little (1000 :: u32)), (U2_GID, endian_bytes Little (1000 :: u32)),
      (U2_SIZE, endian_bytes Little sz), (U2_BLOCKS, endian_bytes Little (8 :: u64)),
      (U2_MTIME, endian_bytes Little (0x11223344 :: i64)), (U2_MTIMENSEC, endian_bytes Little (500 :: i32)),
      (U2_BIRTHTIME, endian_bytes Little (0x2233 :: i64)), (U2_DB, endian_bytes Little db0)]"

definition ufs2_dinode :: "u16 \<Rightarrow> u64 \<Rightarrow> u64 \<Rightarrow> bytes" where
  "ufs2_dinode mode sz db0 = fixture UFS2_DINODE_SIZE (ufs2_dinode_writes mode sz db0)"

definition ufs1_dinode_writes :: "u16 \<Rightarrow> u64 \<Rightarrow> u32 \<Rightarrow> (nat \<times> bytes) list" where
  "ufs1_dinode_writes mode sz db0 =
     [(U1_MODE, endian_bytes Little mode), (U1_NLINK, endian_bytes Little (2 :: u16)),
      (U1_SIZE, endian_bytes Little sz), (U1_MTIME, endian_bytes Little (0x00556677 :: u32)),
      (U1_MTIMENSEC, endian_bytes Little (7 :: i32)), (U1_BLOCKS, endian_bytes Little (4 :: u32)),
      (U1_UID, endian_bytes Little (501 :: u32)), (U1_GID, endian_bytes Little (20 :: u32)),
      (U1_DB, endian_bytes Little db0)]"

definition ufs1_dinode :: "u16 \<Rightarrow> u64 \<Rightarrow> u32 \<Rightarrow> bytes" where
  "ufs1_dinode mode sz db0 = fixture UFS1_DINODE_SIZE (ufs1_dinode_writes mode sz db0)"

text \<open>The partition and what its superblock parses to; the fixture unwraps the latter.\<close>

definition partition_byte :: "nat \<Rightarrow> nat" where
  "partition_byte ino =
     (let cg = ino div 128; within = ino mod 128; cgimin = cg * 256 + 40
      in cgimin * 4096 + within * 256)"

definition partition_writes :: "nat \<Rightarrow> bytes \<Rightarrow> (nat \<times> bytes) list" where
  "partition_writes ino dinode =
     (let w32 = (\<lambda>off (v :: i32). (SBLOCK_UFS2 + off, endian_bytes Little v));
          w64 = (\<lambda>off (v :: i64). (SBLOCK_UFS2 + off, endian_bytes Little v)) in
      [(partition_byte ino, dinode),
       w32 8 24, w32 12 32, w32 16 40, w32 20 48, w32 44 4, w32 48 32768, w32 52 4096, w32 56 8,
       w32 80 15, w32 84 12, w32 120 128, w32 184 128, w32 188 256, w32 1320 120,
       w64 1080 1022, w64 1088 901, w64 1000 (of_nat SBLOCK_UFS2),
       (SBLOCK_UFS2 + 1372, endian_bytes Little FS_UFS2_MAGIC)])"

definition synthetic_partition :: "nat \<Rightarrow> bytes \<Rightarrow> bytes \<times> (ufs_error + superblock)" where
  "synthetic_partition ino dinode =
     (let total = max (partition_byte ino + length dinode) (SBLOCK_UFS2 + 1376) + 16;
          part = fixture total (partition_writes ino dinode)
      in (part, sb_parse (drop SBLOCK_UFS2 part)))"

section \<open>The tests of the decoder\<close>

definition test_file_type_from_mode_classifies_all_ifmt :: bool where
  "test_file_type_from_mode_classifies_all_ifmt \<longleftrightarrow>
     file_type_from_mode 0x41ED = FtDirectory \<and> file_type_from_mode 0x81A4 = FtRegular
     \<and> file_type_from_mode 0xA1FF = FtSymlink \<and> file_type_from_mode 0x1000 = FtFifo
     \<and> file_type_from_mode 0x2000 = FtCharDevice \<and> file_type_from_mode 0x6000 = FtBlockDevice
     \<and> file_type_from_mode 0xC000 = FtSocket \<and> file_type_from_mode 0xE000 = FtWhiteout
     \<and> file_type_from_mode 0x5000 = FtOther 0x5000"

definition test_decodes_ufs2_regular_file :: bool where
  "test_decodes_ufs2_regular_file \<longleftrightarrow>
     ok_and (inode_parse (ufs2_dinode 0x81A4 116 57) Ufs2 Little) (\<lambda>ino.
       i_version ino = Ufs2 \<and> i_file_type ino = FtRegular \<and> inode_is_regular ino \<and> \<not> inode_is_dir ino
       \<and> i_mode ino AND 0xFFF = 0x1A4 \<and> i_nlink ino = 1 \<and> i_uid ino = 1000 \<and> i_gid ino = 1000
       \<and> i_size ino = 116 \<and> i_blocks ino = 8 \<and> ts_sec (i_mtime ino) = 0x11223344
       \<and> ts_nsec (i_mtime ino) = 500 \<and> i_birthtime ino = Some \<lparr> ts_sec = 0x2233, ts_nsec = 0 \<rparr>
       \<and> i_direct ino ! 0 = 57 \<and> list_all (\<lambda>b. b = 0) (drop 1 (i_direct ino))
       \<and> inode_symlink_target ino = None)"

definition test_decodes_ufs2_directory :: bool where
  "test_decodes_ufs2_directory \<longleftrightarrow>
     ok_and (inode_parse (ufs2_dinode 0x41ED 512 56) Ufs2 Little)
       (\<lambda>ino. inode_is_dir ino \<and> i_direct ino ! 0 = 56)"

definition test_decodes_ufs2_fast_symlink_inline_target :: bool where
  "test_decodes_ufs2_fast_symlink_inline_target \<longleftrightarrow>
     (let target = str ''a_directory/another_file'';
          d = slice_put (ufs2_dinode 0xA1ED (of_nat (length target)) 0) U2_DB target in
        ok_and (inode_parse d Ufs2 Little) (\<lambda>ino.
          i_file_type ino = FtSymlink \<and> inode_is_symlink ino \<and> inode_symlink_target ino = Some target))"

definition test_slow_symlink_over_threshold_has_no_inline_target :: bool where
  "test_slow_symlink_over_threshold_has_no_inline_target \<longleftrightarrow>
     ok_and (inode_parse_with_maxsymlink (ufs2_dinode 0xA1ED 200 57) Ufs2 Little 120) (\<lambda>ino.
       i_file_type ino = FtSymlink \<and> inode_symlink_target ino = None \<and> i_direct ino ! 0 = 57)"

definition test_decodes_ufs2_big_endian :: bool where
  "test_decodes_ufs2_big_endian \<longleftrightarrow>
     (let d = fixture UFS2_DINODE_SIZE
            [(U2_MODE, endian_bytes Big (0x81A4 :: u16)), (U2_SIZE, endian_bytes Big (999 :: u64)),
             (U2_DB, endian_bytes Big (123 :: u64))] in
        ok_and (inode_parse d Ufs2 Big)
          (\<lambda>ino. i_file_type ino = FtRegular \<and> i_size ino = 999 \<and> i_direct ino ! 0 = 123))"

definition test_decodes_ufs1_dinode_32bit_layout :: bool where
  "test_decodes_ufs1_dinode_32bit_layout \<longleftrightarrow>
     ok_and (inode_parse (ufs1_dinode 0x8180 4096 0xdead) Ufs1 Little) (\<lambda>ino.
       i_version ino = Ufs1 \<and> i_file_type ino = FtRegular \<and> i_mode ino AND 0xFFF = 0x180
       \<and> i_nlink ino = 2 \<and> i_uid ino = 501 \<and> i_gid ino = 20 \<and> i_size ino = 4096 \<and> i_blocks ino = 4
       \<and> ts_sec (i_mtime ino) = 0x00556677 \<and> ts_nsec (i_mtime ino) = 7 \<and> i_birthtime ino = None
       \<and> i_direct ino ! 0 = 0xdead)"

definition test_decodes_ufs1_fast_symlink :: bool where
  "test_decodes_ufs1_fast_symlink \<longleftrightarrow>
     (let target = str ''../elsewhere'';
          d = slice_put (ufs1_dinode 0xA1FF (of_nat (length target)) 0) U1_DB target in
        ok_and (inode_parse_with_maxsymlink d Ufs1 Little 60)
          (\<lambda>ino. inode_symlink_target ino = Some target))"

definition test_truncated_dinode_fails_loud_not_panic :: bool where
  "test_truncated_dinode_fails_loud_not_panic \<longleftrightarrow>
     err_and (inode_parse (replicate (UFS2_DINODE_SIZE - 1) 0) Ufs2 Little) (\<lambda>err. case err of
         ErrTruncated structure need _ \<Rightarrow> structure = ''dinode'' \<and> need = UFS2_DINODE_SIZE
       | _ \<Rightarrow> False)"

definition test_empty_dinode_buffer_does_not_panic :: bool where
  "test_empty_dinode_buffer_does_not_panic \<longleftrightarrow>
     err_and (inode_parse [] Ufs2 Little) (\<lambda>err. case err of ErrTruncated _ _ _ \<Rightarrow> True | _ \<Rightarrow> False)"

text \<open>The inodes the fixtures spell out.\<close>

definition ufs2_inode :: "u16 \<Rightarrow> u64 \<Rightarrow> u64 \<Rightarrow> inode" where
  "ufs2_inode mode sz db0 = \<lparr> i_version = Ufs2, i_mode = mode, i_file_type = file_type_from_mode mode,
     i_nlink = 1, i_uid = 1000, i_gid = 1000, i_size = sz, i_blocks = 8,
     i_atime = \<lparr> ts_sec = 0, ts_nsec = 0 \<rparr>, i_mtime = \<lparr> ts_sec = 0x11223344, ts_nsec = 500 \<rparr>,
     i_ctime = \<lparr> ts_sec = 0, ts_nsec = 0 \<rparr>, i_birthtime = Some \<lparr> ts_sec = 0x2233, ts_nsec = 0 \<rparr>,
     i_direct = db0 # replicate 11 0, i_indirect = [0, 0, 0], i_fast_symlink = None \<rparr>"

definition ufs1_inode :: "u16 \<Rightarrow> u64 \<Rightarrow> u32 \<Rightarrow> inode" where
  "ufs1_inode mode sz db0 = \<lparr> i_version = Ufs1, i_mode = mode, i_file_type = file_type_from_mode mode,
     i_nlink = 2, i_uid = 501, i_gid = 20, i_size = sz, i_blocks = 4,
     i_atime = \<lparr> ts_sec = 0, ts_nsec = 0 \<rparr>, i_mtime = \<lparr> ts_sec = 0x00556677, ts_nsec = 7 \<rparr>,
     i_ctime = \<lparr> ts_sec = 0, ts_nsec = 0 \<rparr>, i_birthtime = None,
     i_direct = ucast db0 # replicate 11 0, i_indirect = [0, 0, 0], i_fast_symlink = None \<rparr>"

lemma upt_12: "[0..<12] = [0, 1, 2, 3, 4, 5, 6, 7, 8, 9, 10, 11]" and upt_3: "[0..<3] = [0, 1, 2]"
  by (simp_all add: upt_rec)

lemma replicate_11: "replicate 11 (x :: 'a) = [x, x, x, x, x, x, x, x, x, x, x]"
  by (simp add: eval_nat_numeral)

lemma ucast_u32_u64_0: "(ucast (0 :: u64) :: u32) = 0" by simp

lemmas inode_fixture_simps = inode_fields_def ptr_fields_def ptr_enc_def upt_12 upt_3 replicate_11 birth_def
  holds_def sb_consts

lemma ufs2_dinode_holds:
  "list_all (holds UFS2_DINODE_SIZE (ufs2_dinode_writes mode sz db0)) (inode_fields Little (ufs2_inode mode sz db0))"
  by (simp add: inode_fixture_simps ufs2_dinode_writes_def ufs2_inode_def)

lemma ufs1_dinode_holds:
  "list_all (holds UFS1_DINODE_SIZE (ufs1_dinode_writes mode sz db0)) (inode_fields Little (ufs1_inode mode sz db0))"
  by (simp add: inode_fixture_simps ufs1_dinode_writes_def ufs1_inode_def ucast_ucast_id)

lemma ufs2_dinode_parse:
  assumes "file_type_from_mode mode \<noteq> FtSymlink \<or> scast m < sz"
  shows "inode_parse_with_maxsymlink (ufs2_dinode mode sz db0) Ufs2 Little m = Inr (ufs2_inode mode sz db0)"
proof -
  have "inode_fast_symlink d Ufs2 (file_type_from_mode mode) sz m = None" for d
    using assms by (auto simp: inode_fast_symlink_def)
  moreover have "wf_inode (ufs2_inode mode sz db0)"
    by (simp add: wf_inode_def ufs2_inode_def sb_consts)
  ultimately show ?thesis
    using fixture_inode [OF _ ufs2_dinode_holds [of mode sz db0], where v = Ufs2 and m = m]
    unfolding ufs2_dinode_def by (simp add: dinode_size_def) (simp add: ufs2_inode_def)
qed

lemma ufs1_dinode_parse:
  assumes "file_type_from_mode mode \<noteq> FtSymlink"
  shows "inode_parse_with_maxsymlink (ufs1_dinode mode sz db0) Ufs1 Little m = Inr (ufs1_inode mode sz db0)"
proof -
  have "inode_fast_symlink d Ufs1 (file_type_from_mode mode) sz m = None" for d
    using assms by (simp add: inode_fast_symlink_def)
  moreover have "wf_inode (ufs1_inode mode sz db0)"
    using narrow_facts [of db0]
    by (simp add: wf_inode_def ufs1_inode_def replicate_11 sb_consts narrow32_def snarrow32_def)
  ultimately show ?thesis
    using fixture_inode [OF _ ufs1_dinode_holds [of mode sz db0], where v = Ufs1 and m = m]
    unfolding ufs1_dinode_def by (simp add: dinode_size_def) (simp add: ufs1_inode_def)
qed

lemma modes:
  "file_type_from_mode 0x81A4 = FtRegular" "file_type_from_mode 0x8180 = FtRegular"
  "file_type_from_mode 0x41ED = FtDirectory" "file_type_from_mode 0xA1ED = FtSymlink"
  "file_type_from_mode 0xA1FF = FtSymlink"
  by (simp_all add: file_type_from_mode_def IFMT_def)

lemma ufs2_fast_symlink:
  assumes "length t \<le> 120"
  shows "ok_and (inode_parse (slice_put (ufs2_dinode 0xA1ED (of_nat (length t)) 0) U2_DB t) Ufs2 Little)
    (\<lambda>ino. i_file_type ino = FtSymlink \<and> inode_symlink_target ino = Some t)"
proof -
  let ?w = "ufs2_dinode_writes 0xA1ED (of_nat (length t)) 0 @ [(U2_DB, t)]"
  have "holds 256 ?w (0, endian_bytes Little (0xA1ED :: u16))"
    "holds 256 ?w (U2_SIZE, endian_bytes Little (of_nat (length t) :: u64))" "holds 256 ?w (U2_DB, t)"
    using assms by (simp_all add: holds_def ufs2_dinode_writes_def sb_consts)
  then show ?thesis
    using fixture_symlink [of Ufs2 256 ?w Little "0xA1ED" t DEFAULT_MAXSYMLINKLEN] assms
    by (simp add: ufs2_dinode_def fixture_put modes inode_parse_def dinode_size_def inode_db_off_def sb_consts)
qed

lemma ufs1_fast_symlink:
  assumes "length t \<le> 60"
  shows "ok_and (inode_parse_with_maxsymlink (slice_put (ufs1_dinode 0xA1FF (of_nat (length t)) 0) U1_DB t) Ufs1 Little 60)
    (\<lambda>ino. inode_symlink_target ino = Some t)"
proof -
  let ?w = "ufs1_dinode_writes 0xA1FF (of_nat (length t)) 0 @ [(U1_DB, t)]"
  have "holds 128 ?w (0, endian_bytes Little (0xA1FF :: u16))"
    "holds 128 ?w (U1_SIZE, endian_bytes Little (of_nat (length t) :: u64))" "holds 128 ?w (U1_DB, t)"
    using assms by (simp_all add: holds_def ufs1_dinode_writes_def sb_consts)
  then show ?thesis
    using fixture_symlink [of Ufs1 128 ?w Little "0xA1FF" t 60] assms
    by (simp add: ufs1_dinode_def fixture_put modes dinode_size_def inode_db_off_def sb_consts)
qed

lemma big_endian_dinode:
  "ok_and (inode_parse (fixture UFS2_DINODE_SIZE
       [(U2_MODE, endian_bytes Big (0x81A4 :: u16)), (U2_SIZE, endian_bytes Big (999 :: u64)),
        (U2_DB, endian_bytes Big (123 :: u64))]) Ufs2 Big)
     (\<lambda>ino. i_file_type ino = FtRegular \<and> i_size ino = 999 \<and> i_direct ino ! 0 = 123)"
proof -
  let ?i = "(ufs2_inode 0x81A4 999 123)\<lparr> i_nlink := 0, i_uid := 0, i_gid := 0, i_blocks := 0,
    i_mtime := \<lparr> ts_sec = 0, ts_nsec = 0 \<rparr>, i_birthtime := Some \<lparr> ts_sec = 0, ts_nsec = 0 \<rparr> \<rparr>"
  let ?w = "[(U2_MODE, endian_bytes Big (0x81A4 :: u16)), (U2_SIZE, endian_bytes Big (999 :: u64)),
    (U2_DB, endian_bytes Big (123 :: u64))]"
  have "list_all (holds UFS2_DINODE_SIZE ?w) (inode_fields Big ?i)"
    by (simp add: inode_fixture_simps ufs2_inode_def)
  moreover have "wf_inode ?i" by (simp add: wf_inode_def ufs2_inode_def sb_consts)
  ultimately show ?thesis
    using fixture_inode [of Ufs2 UFS2_DINODE_SIZE ?w Big ?i DEFAULT_MAXSYMLINKLEN]
    by (simp add: inode_parse_def dinode_size_def) (simp add: ufs2_inode_def modes)
qed

lemma decoder_tests:
  "test_file_type_from_mode_classifies_all_ifmt" "test_decodes_ufs2_regular_file" "test_decodes_ufs2_directory"
  "test_decodes_ufs2_fast_symlink_inline_target" "test_slow_symlink_over_threshold_has_no_inline_target"
  "test_decodes_ufs2_big_endian" "test_decodes_ufs1_dinode_32bit_layout" "test_decodes_ufs1_fast_symlink"
  "test_truncated_dinode_fails_loud_not_panic" "test_empty_dinode_buffer_does_not_panic"
proof -
  show "test_file_type_from_mode_classifies_all_ifmt"
    by (simp add: test_file_type_from_mode_classifies_all_ifmt_def file_type_from_mode_def IFMT_def)
  show "test_decodes_ufs2_regular_file" "test_decodes_ufs2_directory"
    by (simp_all add: test_decodes_ufs2_regular_file_def test_decodes_ufs2_directory_def inode_parse_def
        ufs2_dinode_parse modes)
      (simp_all add: ufs2_inode_def modes inode_is_regular_def inode_is_dir_def inode_symlink_target_def replicate_11)
  show "test_decodes_ufs2_fast_symlink_inline_target"
    using ufs2_fast_symlink [of "str ''a_directory/another_file''"]
    unfolding test_decodes_ufs2_fast_symlink_inline_target_def Let_def inode_is_symlink_def
    by (simp add: ok_and_def split: sum.splits)
  show "test_decodes_ufs1_fast_symlink"
    using ufs1_fast_symlink [of "str ''../elsewhere''"]
    unfolding test_decodes_ufs1_fast_symlink_def Let_def by simp
  show "test_slow_symlink_over_threshold_has_no_inline_target"
    by (simp add: test_slow_symlink_over_threshold_has_no_inline_target_def ufs2_dinode_parse modes)
      (simp add: ufs2_inode_def modes inode_symlink_target_def)
  show "test_decodes_ufs2_big_endian"
    using big_endian_dinode by (simp add: test_decodes_ufs2_big_endian_def)
  show "test_decodes_ufs1_dinode_32bit_layout"
    by (simp add: test_decodes_ufs1_dinode_32bit_layout_def inode_parse_def ufs1_dinode_parse modes)
      (simp add: ufs1_inode_def modes)
  show "test_truncated_dinode_fails_loud_not_panic" "test_empty_dinode_buffer_does_not_panic"
    by (simp_all add: test_truncated_dinode_fails_loud_not_panic_def test_empty_dinode_buffer_does_not_panic_def
        inode_parse_def inode_parse_with_maxsymlink_def dinode_size_def sb_consts)
qed

section \<open>The tests of \<open>read_inode\<close>\<close>

definition test_read_inode_locates_and_decodes :: bool where
  "test_read_inode_locates_and_decodes \<longleftrightarrow>
     (case synthetic_partition 4 (ufs2_dinode 0x81A4 116 57) of (part, r) \<Rightarrow>
        ok_and r (\<lambda>sb. ok_and (read_inode part sb 4) (\<lambda>ino.
          i_file_type ino = FtRegular \<and> i_size ino = 116 \<and> i_direct ino ! 0 = 57)))"

definition test_read_inode_rejects_out_of_range :: bool where
  "test_read_inode_rejects_out_of_range \<longleftrightarrow>
     (case synthetic_partition 4 (ufs2_dinode 0x81A4 1 1) of (part, r) \<Rightarrow>
        ok_and r (\<lambda>sb. err_and (read_inode part sb 512) (\<lambda>err. err = ErrInodeOutOfRange 512 512)))"

definition test_read_inode_truncated_partition_fails_loud :: bool where
  "test_read_inode_truncated_partition_fails_loud \<longleftrightarrow>
     (case synthetic_partition 4 (ufs2_dinode 0x81A4 1 1) of (part, r) \<Rightarrow>
        ok_and r (\<lambda>sb. err_and (read_inode (take 180000 part) sb 200) (\<lambda>err. case err of
          ErrTruncated _ _ _ \<Rightarrow> True | _ \<Rightarrow> False)))"

definition test_read_inode_rejects_zero_ipg_geometry :: bool where
  "test_read_inode_rejects_zero_ipg_geometry \<longleftrightarrow>
     (case synthetic_partition 4 (ufs2_dinode 0x81A4 1 1) of (part, r) \<Rightarrow>
        ok_and r (\<lambda>sb. err_and (read_inode part (sb\<lparr> sb_ipg := 0 \<rparr>) 4) (is_impossible ''fs_ipg'')))"

definition test_read_inode_rejects_zero_fpg_geometry :: bool where
  "test_read_inode_rejects_zero_fpg_geometry \<longleftrightarrow>
     (case synthetic_partition 4 (ufs2_dinode 0x81A4 1 1) of (part, r) \<Rightarrow>
        ok_and r (\<lambda>sb. err_and (read_inode part (sb\<lparr> sb_fpg := 0 \<rparr>) 4) (is_impossible ''fs_fpg'')))"

definition test_read_inode_rejects_zero_fsize_geometry :: bool where
  "test_read_inode_rejects_zero_fsize_geometry \<longleftrightarrow>
     (case synthetic_partition 4 (ufs2_dinode 0x81A4 1 1) of (part, r) \<Rightarrow>
        ok_and r (\<lambda>sb. err_and (read_inode part (sb\<lparr> sb_fsize := 0 \<rparr>) 4) (is_impossible ''fs_fsize'')))"

definition test_read_inode_rejects_negative_iblkno_geometry :: bool where
  "test_read_inode_rejects_negative_iblkno_geometry \<longleftrightarrow>
     (case synthetic_partition 4 (ufs2_dinode 0x81A4 1 1) of (part, r) \<Rightarrow>
        ok_and r (\<lambda>sb. err_and (read_inode part (sb\<lparr> sb_iblkno := - 1 \<rparr>) 4) (is_impossible ''fs_iblkno'')))"

lemma length_ufs2_dinode [simp]: "length (ufs2_dinode mode sz db0) = 256"
  by (simp add: ufs2_dinode_def sb_consts)

lemma partition_byte_4 [simp]: "partition_byte 4 = 164864"
  by (simp add: partition_byte_def Let_def)

lemma partition_sb:
  assumes "length dinode = 256"
  shows "synthetic_partition 4 dinode = (fixture 165136 (partition_writes 4 dinode), Inr (synthetic_sb Ufs2 Little))"
proof -
  let ?sb = "synthetic_sb Ufs2 Little"
  have "sb_parse (drop 65536 (fixture 165136 (partition_writes 4 dinode)))
      = try_bind (sb_validate_geometry ?sb) (\<lambda>_. Inr ?sb)"
    by (rule fixture_sb_at)
      (use assms in \<open>simp_all add: sb_fields_defs partition_writes_def holds_def magic_of_def sb_consts synthetic_sb_def\<close>)
  moreover have "sb_validate_geometry ?sb = Inr ()"
    using synthetic_sb_wf [of Ufs2 Little] by (simp add: validate_Inr wf_superblock_def)
  ultimately show ?thesis
    using assms by (simp add: synthetic_partition_def Let_def sb_consts)
qed

lemma synthetic_sb_geometry:
  "inode_geometry_ok (synthetic_sb Ufs2 e)" "inode_count (synthetic_sb Ufs2 e) = 512"
  "sb_version (synthetic_sb v e) = v" "sb_endian (synthetic_sb v e) = e"
  "inode_offset (synthetic_sb Ufs2 e) n = (n div 128 * 256 + 40) * 4096 + n mod 128 * 256"
  "dinode_size Ufs2 = 256"
  by (simp_all add: synthetic_sb_def inode_geometry_ok_def inode_count_def inode_offset_def nat_i32_def
      dinode_size_def sb_consts)

lemma read_inode_tests:
  "test_read_inode_locates_and_decodes" "test_read_inode_rejects_out_of_range"
  "test_read_inode_truncated_partition_fails_loud" "test_read_inode_rejects_zero_ipg_geometry"
  "test_read_inode_rejects_zero_fpg_geometry" "test_read_inode_rejects_zero_fsize_geometry"
  "test_read_inode_rejects_negative_iblkno_geometry"
proof -
  let ?sb = "synthetic_sb Ufs2 Little"
  let ?d = "ufs2_dinode 0x81A4 116 57" let ?w = "partition_writes 4 ?d"
  have "read_inode (fixture 165136 ?w) ?sb 4 = Inr (ufs2_inode 0x81A4 116 57)"
    by (rule fixture_read_inode [where d = ?d])
      (simp_all add: synthetic_sb_geometry ufs2_dinode_parse modes, simp add: holds_def partition_writes_def sb_consts)
  then show "test_read_inode_locates_and_decodes"
    by (simp add: test_read_inode_locates_and_decodes_def partition_sb) (simp add: ufs2_inode_def modes)
  have valid: "valid_slice (fixture 165136 w)" "valid_slice (take 180000 (fixture 165136 w))" for w
    by (simp_all add: valid_slice_def)
  show "test_read_inode_rejects_out_of_range"
    by (simp add: test_read_inode_rejects_out_of_range_def partition_sb read_inode_refines valid
        synthetic_sb_geometry Let_def)
  show "test_read_inode_truncated_partition_fails_loud"
    by (simp add: test_read_inode_truncated_partition_fails_loud_def partition_sb read_inode_refines valid
        synthetic_sb_geometry Let_def)
  show "test_read_inode_rejects_zero_ipg_geometry" "test_read_inode_rejects_zero_fpg_geometry"
    "test_read_inode_rejects_zero_fsize_geometry" "test_read_inode_rejects_negative_iblkno_geometry"
    by (simp_all add: test_read_inode_rejects_zero_ipg_geometry_def test_read_inode_rejects_zero_fpg_geometry_def
        test_read_inode_rejects_zero_fsize_geometry_def test_read_inode_rejects_negative_iblkno_geometry_def
        partition_sb read_inode_def)
      (simp_all add: synthetic_sb_def)
qed

end
