(* ===== verification/TestsDir.thy ===== *)
theory TestsDir
  imports TestsInode
begin

text \<open>
  The unit tests of \<open>core/src/dir.rs\<close>: the entries and blocks the tests build, the synthetic file system with its
  root, a nested directory and two files, and every test, each of which passes on the model.
\<close>

section \<open>Blocks\<close>

definition real_root_block :: bytes where
  "real_root_block =
     dirent_bytes 2 12 4 (str ''.'') @ dirent_bytes 2 12 4 (str ''..'')
     @ dirent_bytes 3 16 4 (str ''.snap'') @ dirent_bytes 128 20 4 (str ''a_directory'')
     @ dirent_bytes 4 24 8 (str ''passwords.txt'') @ dirent_bytes 5 428 10 (str ''a_link'')"

definition test_walk :: "bytes \<Rightarrow> dir_entry list" where
  "test_walk block = walk_block block Little []"

definition test_d_type_classifies_all_dt_values :: bool where
  "test_d_type_classifies_all_dt_values \<longleftrightarrow>
     from_d_type 0 = DtUnknown \<and> from_d_type 1 = DtFifo \<and> from_d_type 2 = DtCharDevice
     \<and> from_d_type 4 = DtDirectory \<and> from_d_type 6 = DtBlockDevice \<and> from_d_type 8 = DtRegular
     \<and> from_d_type 10 = DtSymlink \<and> from_d_type 12 = DtSocket \<and> from_d_type 14 = DtWhiteout
     \<and> from_d_type 9 = DtOther 9"

abbreviation root_names :: "bytes list" where
  "root_names \<equiv> [str ''.'', str ''..'', str ''.snap'', str ''a_directory'', str ''passwords.txt'', str ''a_link'']"

definition test_walk_block_decodes_real_root_layout :: bool where
  "test_walk_block_decodes_real_root_layout \<longleftrightarrow>
     (let entries = test_walk real_root_block in
        map de_name entries = root_names
        \<and> map de_ino entries = [2, 2, 3, 128, 4, 5]
        \<and> de_file_type (entries ! 3) = DtDirectory \<and> de_file_type (entries ! 4) = DtRegular
        \<and> de_file_type (entries ! 5) = DtSymlink \<and> list_all (\<lambda>e. \<not> de_deleted e) entries)"

definition test_walk_block_surfaces_deleted_slot :: bool where
  "test_walk_block_surfaces_deleted_slot \<longleftrightarrow>
     (let entries = test_walk (dirent_bytes 7 16 8 (str ''live'') @ dirent_bytes 0 16 8 (str ''ghost'')) in
        length entries = 2 \<and> \<not> de_deleted (entries ! 0) \<and> de_name (entries ! 0) = str ''live''
        \<and> de_deleted (entries ! 1) \<and> de_ino (entries ! 1) = 0 \<and> de_name (entries ! 1) = str ''ghost'')"

definition test_lying_zero_reclen_does_not_loop_forever :: bool where
  "test_lying_zero_reclen_does_not_loop_forever \<longleftrightarrow>
     (let bad = fixture DIRECT_HEAD [(OFF_INO, endian_bytes Little (5 :: u32))];
          entries = test_walk (dirent_bytes 9 16 8 (str ''ok'') @ bad) in
        length entries = 1 \<and> de_name (entries ! 0) = str ''ok'')"

definition test_over_long_namlen_is_clamped_not_overread :: bool where
  "test_over_long_namlen_is_clamped_not_overread \<longleftrightarrow>
     (let e = fixture 16
            [(OFF_INO, endian_bytes Little (3 :: u32)), (OFF_RECLEN, endian_bytes Little (16 :: u16)),
             (OFF_TYPE, [8]), (OFF_NAMLEN, [200]), (OFF_NAME, str ''abcd'')];
          entries = test_walk e in
        length entries = 1 \<and> length (de_name (entries ! 0)) \<le> 16 - OFF_NAME)"

definition test_reclen_below_head_ends_block :: bool where
  "test_reclen_below_head_ends_block \<longleftrightarrow>
     (let e = fixture 8 [(OFF_INO, endian_bytes Little (1 :: u32)), (OFF_RECLEN, endian_bytes Little (4 :: u16))] in
        test_walk e = [])"

definition test_walk_empty_or_short_block_is_safe :: bool where
  "test_walk_empty_or_short_block_is_safe \<longleftrightarrow> test_walk [] = [] \<and> test_walk (replicate 3 0) = []"

text \<open>A block of well-formed entries is listed entry by entry.\<close>

lemma test_walk_layout:
  assumes "valid_slice (concat (map (raw_bytes Little) rs) @ rest)" "\<forall>r \<in> set rs. raw_ok r" "walk_ends Little rest"
  shows "test_walk (concat (map (raw_bytes Little) rs) @ rest) = map raw_entry rs"
  using walk_entries_layout [OF assms] by (simp add: test_walk_def walk_entries_def)

definition root_dirents :: "raw_dirent list" where
  "root_dirents =
     [plain_dirent 2 12 4 (str ''.''), plain_dirent 2 12 4 (str ''..''), plain_dirent 3 16 4 (str ''.snap''),
      plain_dirent 128 20 4 (str ''a_directory''), plain_dirent 4 24 8 (str ''passwords.txt''),
      plain_dirent 5 428 10 (str ''a_link'')]"

lemma real_root_block_layout: "real_root_block = concat (map (raw_bytes Little) root_dirents)"
  by (simp add: real_root_block_def root_dirents_def dirent_bytes_layout)

lemma root_dirents_ok: "\<forall>r \<in> set root_dirents. raw_ok r"
  by (simp add: root_dirents_def plain_dirent_ok)

lemma length_real_root_block [simp]: "length real_root_block = DIRBLKSIZ"
  by (simp add: real_root_block_layout root_dirents_def raw_reclen_def plain_dirent_def sb_consts)

lemma walk_real_root: "walk_entries real_root_block Little = map raw_entry root_dirents"
  using walk_entries_layout [of Little root_dirents "[]"] root_dirents_ok
  by (simp add: real_root_block_layout [symmetric] valid_slice_def walk_ends_def sb_consts)

lemma root_entries:
  "map raw_entry root_dirents =
     [\<lparr> de_name = str ''.'', de_ino = 2, de_file_type = DtDirectory, de_deleted = False \<rparr>,
      \<lparr> de_name = str ''..'', de_ino = 2, de_file_type = DtDirectory, de_deleted = False \<rparr>,
      \<lparr> de_name = str ''.snap'', de_ino = 3, de_file_type = DtDirectory, de_deleted = False \<rparr>,
      \<lparr> de_name = str ''a_directory'', de_ino = 128, de_file_type = DtDirectory, de_deleted = False \<rparr>,
      \<lparr> de_name = str ''passwords.txt'', de_ino = 4, de_file_type = DtRegular, de_deleted = False \<rparr>,
      \<lparr> de_name = str ''a_link'', de_ino = 5, de_file_type = DtSymlink, de_deleted = False \<rparr>]"
  by (simp add: root_dirents_def plain_dirent_def raw_entry_def from_d_type_def)

lemma walk_tests:
  "test_d_type_classifies_all_dt_values" "test_walk_block_decodes_real_root_layout"
  "test_walk_block_surfaces_deleted_slot" "test_lying_zero_reclen_does_not_loop_forever"
  "test_over_long_namlen_is_clamped_not_overread" "test_reclen_below_head_ends_block"
  "test_walk_empty_or_short_block_is_safe"
proof -
  show "test_d_type_classifies_all_dt_values"
    by (simp add: test_d_type_classifies_all_dt_values_def from_d_type_def)
  show "test_walk_block_decodes_real_root_layout"
    using walk_real_root
    by (simp add: test_walk_block_decodes_real_root_layout_def test_walk_def walk_entries_def root_entries)
  show "test_walk_block_surfaces_deleted_slot"
    using test_walk_layout [of "[plain_dirent 7 16 8 (str ''live''), plain_dirent 0 16 8 (str ''ghost'')]" "[]"]
    by (simp add: test_walk_block_surfaces_deleted_slot_def dirent_bytes_layout valid_slice_def walk_ends_def
        plain_dirent_ok) (simp add: plain_dirent_def raw_reclen_def raw_entry_def)
  show "test_lying_zero_reclen_does_not_loop_forever"
  proof -
    let ?bad = "fixture 8 [(0, endian_bytes Little (5 :: u32))]"
    have "endian_u16 Little ?bad 4 = 0" by (rule fixture_u16) (simp_all add: holds_def)
    then have "walk_ends Little ?bad" by (simp add: walk_ends_def)
    then show ?thesis
      using test_walk_layout [of "[plain_dirent 9 16 8 (str ''ok'')]" ?bad]
      by (simp add: test_lying_zero_reclen_does_not_loop_forever_def dirent_bytes_layout valid_slice_def
          plain_dirent_ok sb_consts) (simp add: plain_dirent_def raw_reclen_def raw_entry_def)
  qed
  show "test_over_long_namlen_is_clamped_not_overread"
  proof -
    let ?w = "[(0, endian_bytes Little (3 :: u32)), (4, endian_bytes Little (16 :: u16)),
      (6, [8]), (7, [200]), (8, str ''abcd'')]"
    let ?e = "fixture 16 ?w"
    have r: "endian_u16 Little ?e 4 = 16" by (rule fixture_u16) (simp_all add: holds_def)
    obtain en where en: "dirent_at ?e Little 0 = Some (en, 16)" and len: "length (de_name en) \<le> 8"
      using r by (auto simp: dirent_at_def Let_def sb_consts slice_get_def)
    have "test_walk ?e = [en]"
      unfolding test_walk_def walk_block_def
      using walk_loop_step [of 0 ?e Little "[]"] en walk_loop_stop [of ?e 16 Little "[en]"]
      by (simp add: sb_consts)
    then show ?thesis using len by (simp add: test_over_long_namlen_is_clamped_not_overread_def sb_consts)
  qed
  show "test_reclen_below_head_ends_block"
  proof -
    let ?e = "fixture 8 [(0, endian_bytes Little (1 :: u32)), (4, endian_bytes Little (4 :: u16))]"
    have "endian_u16 Little ?e 4 = 4" by (rule fixture_u16) (simp_all add: holds_def)
    then have "walk_ends Little ?e" by (simp add: walk_ends_def)
    then show ?thesis
      using test_walk_layout [of "[]" ?e]
      by (simp add: test_reclen_below_head_ends_block_def valid_slice_def sb_consts)
  qed
  show "test_walk_empty_or_short_block_is_safe"
    using walk_entries_short [of "[]" Little] walk_entries_short [of "replicate 3 0" Little]
    by (simp add: test_walk_empty_or_short_block_is_safe_def test_walk_def walk_entries_def)
qed

section \<open>The superblock and \<open>read_block\<close>\<close>

definition dir_sb_writes :: "(nat \<times> bytes) list" where
  "dir_sb_writes =
     (let w32 = (\<lambda>off (v :: i32). (off, endian_bytes Little v)); w64 = (\<lambda>off (v :: i64). (off, endian_bytes Little v)) in
      [w32 8 24, w32 12 32, w32 16 40, w32 20 48, w32 44 4, w32 48 32768, w32 52 4096, w32 56 8,
       w32 184 128, w32 188 256, w32 1320 120, w64 1080 1022, w64 1000 (of_nat SBLOCK_UFS2),
       (1372, endian_bytes Little FS_UFS2_MAGIC)])"

definition dir_tiny_sb :: "ufs_error + superblock" where
  "dir_tiny_sb = sb_parse (fixture 1376 dir_sb_writes)"

definition test_read_block_offsets_by_fragment_size :: bool where
  "test_read_block_offsets_by_fragment_size \<longleftrightarrow>
     ok_and dir_tiny_sb (\<lambda>sb.
       ok_and (read_block (fixture (8192 + 16) [(8192, str ''HERE'')]) sb 2 4) (\<lambda>block. block = str ''HERE''))"

definition test_read_block_clamps_past_end_without_error :: bool where
  "test_read_block_clamps_past_end_without_error \<longleftrightarrow>
     ok_and dir_tiny_sb (\<lambda>sb. ok_and (read_block (replicate 100 0) sb 1 512) (\<lambda>block. block = []))"

definition test_read_block_rejects_zero_fsize :: bool where
  "test_read_block_rejects_zero_fsize \<longleftrightarrow>
     ok_and dir_tiny_sb (\<lambda>sb. err_and (read_block (replicate 16 0) (sb\<lparr> sb_fsize := 0 \<rparr>) 0 4) (is_impossible ''fs_fsize''))"

definition dir_sb :: superblock where
  "dir_sb = (synthetic_sb Ufs2 Little)\<lparr> sb_bshift := 0, sb_fshift := 0, sb_inopb := 0, sb_dsize := 0 \<rparr>"

lemma dir_sb_valid: "sb_validate_geometry dir_sb = Inr ()"
  by (simp add: validate_Inr wf_geometry_def dir_sb_def synthetic_sb_def)

lemma dir_tiny_sb_parse: "dir_tiny_sb = Inr dir_sb"
proof -
  have "sb_parse (fixture 1376 dir_sb_writes) = try_bind (sb_validate_geometry dir_sb) (\<lambda>_. Inr dir_sb)"
    by (rule fixture_sb)
      (simp_all add: sb_fields_defs dir_sb_writes_def holds_def magic_of_def sb_consts dir_sb_def synthetic_sb_def)
  then show ?thesis by (simp add: dir_tiny_sb_def dir_sb_valid)
qed

lemma dir_sb_geometry:
  "inode_geometry_ok dir_sb" "inode_count dir_sb = 512" "sb_version dir_sb = Ufs2" "sb_endian dir_sb = Little"
  "inode_offset dir_sb n = (n div 128 * 256 + 40) * 4096 + n mod 128 * 256"
  "sb_maxsymlinklen dir_sb = 120" "nat_i32 (sb_fsize dir_sb) = 4096" "nat_i32 (sb_bsize dir_sb) = 32768"
  "sint (sb_fsize dir_sb) = 4096" "sint (sb_bsize dir_sb) = 32768"
  by (simp_all add: dir_sb_def synthetic_sb_def inode_geometry_ok_def inode_count_def inode_offset_def nat_i32_def
      dinode_size_def sb_consts)

lemma read_block_tests:
  "test_read_block_offsets_by_fragment_size" "test_read_block_clamps_past_end_without_error"
  "test_read_block_rejects_zero_fsize"
proof -
  have "take 4 (drop 8192 (fixture 8208 [(8192, str ''HERE'')])) = str ''HERE''"
    by (rule fixture_take) (simp_all add: holds_def)
  then show "test_read_block_offsets_by_fragment_size"
    by (simp add: test_read_block_offsets_by_fragment_size_def dir_tiny_sb_parse read_block_refines
        dir_sb_geometry valid_slice_def)
  show "test_read_block_clamps_past_end_without_error"
    by (simp add: test_read_block_clamps_past_end_without_error_def dir_tiny_sb_parse read_block_refines
        dir_sb_geometry valid_slice_def)
  show "test_read_block_rejects_zero_fsize"
    by (simp add: test_read_block_rejects_zero_fsize_def dir_tiny_sb_parse read_block_def)
qed

section \<open>The synthetic file system\<close>

definition dir_ino_byte :: "nat \<Rightarrow> nat" where
  "dir_ino_byte ino = (ino div 128 * 256 + 40) * 4096 + ino mod 128 * 256"

definition dir_inode_writes :: "u64 \<Rightarrow> u64 \<Rightarrow> u16 \<Rightarrow> (nat \<times> bytes) list" where
  "dir_inode_writes frag sz mode =
     [(0, endian_bytes Little mode), (2, endian_bytes Little (1 :: u16)), (16, endian_bytes Little sz),
      (112, endian_bytes Little frag)]"

definition dir_inode :: "u64 \<Rightarrow> u64 \<Rightarrow> u16 \<Rightarrow> bytes" where
  "dir_inode frag sz mode = fixture 256 (dir_inode_writes frag sz mode)"

definition adir_block :: bytes where
  "adir_block = dirent_bytes 128 12 4 (str ''.'') @ dirent_bytes 2 12 4 (str ''..'')
     @ dirent_bytes 129 488 8 (str ''a_file'')"

definition synthetic_fs_writes :: "(nat \<times> bytes) list" where
  "synthetic_fs_writes =
     [(SBLOCK_UFS2, fixture 1376 dir_sb_writes),
      (dir_ino_byte 2, dir_inode 60 512 0x41ED), (dir_ino_byte 128, dir_inode 61 512 0x41ED),
      (dir_ino_byte 4, dir_inode 0 116 0x81A4), (dir_ino_byte 129, dir_inode 0 116 0x81A4),
      (60 * 4096, real_root_block), (61 * 4096, adir_block)]"

definition synthetic_fs :: bytes where
  "synthetic_fs =
     (let max_byte = Max {SBLOCK_UFS2 + 1376, dir_ino_byte 130 + 256, (60 + 1) * 4096, (61 + 1) * 4096}
      in fixture (max_byte + 16) synthetic_fs_writes)"

definition on_synthetic_fs :: "(bytes \<Rightarrow> superblock \<Rightarrow> bool) \<Rightarrow> bool" where
  "on_synthetic_fs P \<longleftrightarrow> ok_and dir_tiny_sb (P synthetic_fs)"

text \<open>\<open>r.unwrap().unwrap()\<close> and \<open>r.unwrap().is_none()\<close> of a lookup.\<close>

definition found :: "'e + 'a option \<Rightarrow> ('a \<Rightarrow> bool) \<Rightarrow> bool" where
  "found r P = ok_and r (\<lambda>x. case x of None \<Rightarrow> False | Some y \<Rightarrow> P y)"

definition not_found :: "'e + 'a option \<Rightarrow> bool" where
  "not_found r = ok_and r (\<lambda>x. x = None)"

definition test_list_dir_returns_live_root_entries :: bool where
  "test_list_dir_returns_live_root_entries \<longleftrightarrow>
     on_synthetic_fs (\<lambda>part sb. ok_and (list_dir part sb 2) (\<lambda>entries.
       map de_name entries = root_names
       \<and> (case find (\<lambda>e. de_name e = str ''passwords.txt'') entries of
            None \<Rightarrow> False
          | Some pw \<Rightarrow> de_ino pw = 4 \<and> de_file_type pw = DtRegular)))"

definition hole_block :: bytes where
  "hole_block = dirent_bytes 9 12 8 (str ''x'') @ dirent_bytes 10 (of_nat DIRBLKSIZ - 12) 8 (str ''y'')"

definition test_list_dir_skips_hole_in_direct_pointers :: bool where
  "test_list_dir_skips_hole_in_direct_pointers \<longleftrightarrow>
     ok_and dir_tiny_sb (\<lambda>sb.
       let bsize = (scast (sb_bsize sb) :: u64); start = unat (60 * scast (sb_fsize sb) :: u64);
           dino = fixture 256
             [(0, endian_bytes Little (0x41ED :: u16)), (2, endian_bytes Little (1 :: u16)),
              (16, endian_bytes Little (2 * bsize)), (112, endian_bytes Little (60 :: u64))];
           part = fixture (start + length hole_block) [(start, hole_block)] in
       ok_and (inode_parse dino Ufs2 Little) (\<lambda>inode.
         i_direct inode ! 1 = 0
         \<and> map de_name (list_dir_entries part sb inode) = [str ''x'', str ''y'']))"

definition test_read_by_path_root_resolves_to_inode2 :: bool where
  "test_read_by_path_root_resolves_to_inode2 \<longleftrightarrow>
     on_synthetic_fs (\<lambda>part sb. found (read_by_path part sb (str ''/''))
       (\<lambda>(ino, inode). ino = 2 \<and> inode_is_dir inode))"

definition test_read_by_path_resolves_known_file_inode4 :: bool where
  "test_read_by_path_resolves_known_file_inode4 \<longleftrightarrow>
     on_synthetic_fs (\<lambda>part sb. found (read_by_path part sb (str ''/passwords.txt''))
       (\<lambda>(ino, inode). ino = 4 \<and> i_size inode = 116))"

definition test_read_by_path_descends_nested_directory :: bool where
  "test_read_by_path_descends_nested_directory \<longleftrightarrow>
     on_synthetic_fs (\<lambda>part sb. found (read_by_path part sb (str ''/a_directory/a_file''))
       (\<lambda>(ino, inode). ino = 129 \<and> inode_is_regular inode))"

definition test_read_by_path_missing_component_is_none :: bool where
  "test_read_by_path_missing_component_is_none \<longleftrightarrow>
     on_synthetic_fs (\<lambda>part sb. not_found (read_by_path part sb (str ''/nope''))
       \<and> not_found (read_by_path part sb (str ''/a_directory/missing'')))"

definition test_read_by_path_through_non_directory_is_none :: bool where
  "test_read_by_path_through_non_directory_is_none \<longleftrightarrow>
     on_synthetic_fs (\<lambda>part sb. not_found (read_by_path part sb (str ''/passwords.txt/x'')))"

text \<open>What the file system holds.\<close>

definition plain_inode :: "u16 \<Rightarrow> u16 \<Rightarrow> u64 \<Rightarrow> u64 list \<Rightarrow> u64 list \<Rightarrow> inode" where
  "plain_inode mode nlink sz direct ib = \<lparr> i_version = Ufs2, i_mode = mode, i_file_type = file_type_from_mode mode,
     i_nlink = nlink, i_uid = 0, i_gid = 0, i_size = sz, i_blocks = 0,
     i_atime = \<lparr> ts_sec = 0, ts_nsec = 0 \<rparr>, i_mtime = \<lparr> ts_sec = 0, ts_nsec = 0 \<rparr>,
     i_ctime = \<lparr> ts_sec = 0, ts_nsec = 0 \<rparr>, i_birthtime = Some \<lparr> ts_sec = 0, ts_nsec = 0 \<rparr>,
     i_direct = direct, i_indirect = ib, i_fast_symlink = None \<rparr>"

lemma plain_inode_parse:
  assumes "list_all (holds 256 fs) (inode_fields Little (plain_inode mode nlink sz direct ib))"
    and "length direct = 12" "length ib = 3" "file_type_from_mode mode \<noteq> FtSymlink \<or> scast m < sz"
  shows "inode_parse_with_maxsymlink (fixture 256 fs) Ufs2 Little m = Inr (plain_inode mode nlink sz direct ib)"
proof -
  have "inode_fast_symlink d Ufs2 (file_type_from_mode mode) sz m = None" for d
    using assms(4) by (auto simp: inode_fast_symlink_def)
  moreover have "wf_inode (plain_inode mode nlink sz direct ib)"
    using assms(2,3) by (simp add: wf_inode_def plain_inode_def sb_consts)
  ultimately show ?thesis
    using fixture_inode [OF _ assms(1), of Ufs2 m]
    by (simp add: dinode_size_def sb_consts) (simp add: plain_inode_def)
qed

lemma dir_inode_parse:
  assumes "file_type_from_mode mode \<noteq> FtSymlink"
  shows "inode_parse_with_maxsymlink (dir_inode frag sz mode) Ufs2 Little m
    = Inr (plain_inode mode 1 sz (frag # replicate 11 0) [0, 0, 0])"
  unfolding dir_inode_def
  by (rule plain_inode_parse)
    (use assms in \<open>simp_all add: inode_fixture_simps dir_inode_writes_def plain_inode_def\<close>)

lemma length_dir_inode [simp]: "length (dir_inode frag sz mode) = 256"
  by (simp add: dir_inode_def)

definition adir_dirents :: "raw_dirent list" where
  "adir_dirents = [plain_dirent 128 12 4 (str ''.''), plain_dirent 2 12 4 (str ''..''),
     plain_dirent 129 488 8 (str ''a_file'')]"

lemma adir_block_layout: "adir_block = concat (map (raw_bytes Little) adir_dirents)"
  by (simp add: adir_block_def adir_dirents_def dirent_bytes_layout)

lemma length_adir_block [simp]: "length adir_block = 512"
  by (simp add: adir_block_layout adir_dirents_def raw_reclen_def plain_dirent_def)

lemma synthetic_fs_fixture: "synthetic_fs = fixture 1213200 synthetic_fs_writes"
  by (simp add: synthetic_fs_def dir_ino_byte_def sb_consts)

lemma synthetic_fs_valid [simp]: "valid_slice synthetic_fs"
  by (simp add: synthetic_fs_fixture valid_slice_def)

lemma synthetic_fs_holds:
  "holds 1213200 synthetic_fs_writes (164352, dir_inode 60 512 0x41ED)"
  "holds 1213200 synthetic_fs_writes (1212416, dir_inode 61 512 0x41ED)"
  "holds 1213200 synthetic_fs_writes (164864, dir_inode 0 116 0x81A4)"
  "holds 1213200 synthetic_fs_writes (1212672, dir_inode 0 116 0x81A4)"
  "holds 1213200 synthetic_fs_writes (245760, real_root_block)"
  "holds 1213200 synthetic_fs_writes (249856, adir_block)"
  by (simp_all add: synthetic_fs_writes_def holds_def dir_ino_byte_def sb_consts)

definition root_inode :: inode where "root_inode = plain_inode 0x41ED 1 512 (60 # replicate 11 0) [0, 0, 0]"
definition adir_inode :: inode where "adir_inode = plain_inode 0x41ED 1 512 (61 # replicate 11 0) [0, 0, 0]"
definition file_inode :: inode where "file_inode = plain_inode 0x81A4 1 116 (0 # replicate 11 0) [0, 0, 0]"

lemma synthetic_fs_inodes:
  "read_inode synthetic_fs dir_sb 2 = Inr root_inode" "read_inode synthetic_fs dir_sb 128 = Inr adir_inode"
  "read_inode synthetic_fs dir_sb 4 = Inr file_inode" "read_inode synthetic_fs dir_sb 129 = Inr file_inode"
proof -
  note simps = dir_sb_geometry synthetic_fs_holds dir_inode_parse modes dinode_size_def UFS2_DINODE_SIZE_def
  show "read_inode synthetic_fs dir_sb 2 = Inr root_inode"
    unfolding synthetic_fs_fixture root_inode_def
    by (rule fixture_read_inode [where d = "dir_inode 60 512 0x41ED"]) (simp_all add: simps)
  show "read_inode synthetic_fs dir_sb 128 = Inr adir_inode"
    unfolding synthetic_fs_fixture adir_inode_def
    by (rule fixture_read_inode [where d = "dir_inode 61 512 0x41ED"]) (simp_all add: simps)
  show "read_inode synthetic_fs dir_sb 4 = Inr file_inode" "read_inode synthetic_fs dir_sb 129 = Inr file_inode"
    unfolding synthetic_fs_fixture file_inode_def
    by (rule fixture_read_inode [where d = "dir_inode 0 116 0x81A4"]; simp add: simps)+
qed

lemma one_block_dir:
  assumes "valid_slice part"
    and "take 512 (drop (unat addr * nat_i32 (sb_fsize sb)) part) = concat (map (raw_bytes Little) rs)"
    and "\<forall>r \<in> set rs. raw_ok r" and "addr \<noteq> 0"
    and "0 < sint (sb_fsize sb)" "512 \<le> sint (sb_bsize sb)" "sb_endian sb = Little"
    and i: "i_direct i = addr # replicate 11 0" "i_size i = 512"
  shows "list_dir_entries part sb i = map raw_entry rs"
proof -
  have b: "512 \<le> nat_i32 (sb_bsize sb)" using assms(6) by (simp add: nat_i32_def)
  have "list_dir_entries part sb i = walk_entries (dir_block part sb i 0) Little"
    using first_block_listing [OF assms(1), of sb i addr] assms(5-7) i by simp
  also have "dir_block part sb i 0 = concat (map (raw_bytes Little) rs) @ []"
    using assms(2,4) b by (simp add: dir_block_def i Let_def min_absorb1)
  also have "walk_entries \<dots> Little = map raw_entry rs"
    using assms(1,3)
    by (intro walk_entries_layout) (simp_all add: walk_ends_def valid_slice_def min_def flip: assms(2))
  finally show ?thesis .
qed

lemma synthetic_fs_listings:
  "list_dir_entries synthetic_fs dir_sb root_inode = map raw_entry root_dirents"
  "list_dir_entries synthetic_fs dir_sb adir_inode = map raw_entry adir_dirents"
proof -
  have "take 512 (drop (unat (60 :: u64) * 4096) synthetic_fs) = concat (map (raw_bytes Little) root_dirents)"
    using fixture_take [OF synthetic_fs_holds(5), of 512]
    by (simp add: synthetic_fs_fixture real_root_block_layout [symmetric] DIRBLKSIZ_def)
  then show "list_dir_entries synthetic_fs dir_sb root_inode = map raw_entry root_dirents"
    unfolding root_inode_def by (intro one_block_dir root_dirents_ok) (simp_all add: dir_sb_geometry plain_inode_def)
  have "take 512 (drop (unat (61 :: u64) * 4096) synthetic_fs) = concat (map (raw_bytes Little) adir_dirents)"
    using fixture_take [OF synthetic_fs_holds(6), of 512]
    by (simp add: synthetic_fs_fixture adir_block_layout [symmetric])
  moreover have "\<forall>r \<in> set adir_dirents. raw_ok r" by (simp add: adir_dirents_def plain_dirent_ok)
  ultimately show "list_dir_entries synthetic_fs dir_sb adir_inode = map raw_entry adir_dirents"
    unfolding adir_inode_def by (intro one_block_dir) (simp_all add: dir_sb_geometry plain_inode_def)
qed

lemma adir_entries:
  "map raw_entry adir_dirents =
     [\<lparr> de_name = str ''.'', de_ino = 128, de_file_type = DtDirectory, de_deleted = False \<rparr>,
      \<lparr> de_name = str ''..'', de_ino = 2, de_file_type = DtDirectory, de_deleted = False \<rparr>,
      \<lparr> de_name = str ''a_file'', de_ino = 129, de_file_type = DtRegular, de_deleted = False \<rparr>]"
  by (simp add: adir_dirents_def plain_dirent_def raw_entry_def from_d_type_def)

lemma synthetic_fs_kinds:
  "inode_is_dir root_inode" "inode_is_dir adir_inode" "\<not> inode_is_dir file_inode" "inode_is_regular file_inode"
  "i_size file_inode = 116"
  by (simp_all add: root_inode_def adir_inode_def file_inode_def plain_inode_def inode_is_dir_def
      inode_is_regular_def modes)

lemma path_tests:
  "test_list_dir_returns_live_root_entries" "test_read_by_path_root_resolves_to_inode2"
  "test_read_by_path_resolves_known_file_inode4" "test_read_by_path_descends_nested_directory"
  "test_read_by_path_missing_component_is_none" "test_read_by_path_through_non_directory_is_none"
  by (simp_all add: test_list_dir_returns_live_root_entries_def test_read_by_path_root_resolves_to_inode2_def
      test_read_by_path_resolves_known_file_inode4_def test_read_by_path_descends_nested_directory_def
      test_read_by_path_missing_component_is_none_def test_read_by_path_through_non_directory_is_none_def
      on_synthetic_fs_def dir_tiny_sb_parse found_def not_found_def list_dir_def list_dir_all_def read_by_path_def
      UFS_ROOTINO_def synthetic_fs_inodes synthetic_fs_listings root_entries adir_entries synthetic_fs_kinds)

lemma hole_test: "test_list_dir_skips_hole_in_direct_pointers"
proof -
  let ?rs = "[plain_dirent 9 12 8 (str ''x''), plain_dirent 10 500 8 (str ''y'')]"
  let ?i = "plain_inode 0x41ED 1 65536 (60 # replicate 11 0) [0, 0, 0]"
  let ?part = "fixture 246272 [(245760, hole_block)]"
  let ?dino = "fixture 256 [(0, endian_bytes Little (0x41ED :: u16)), (2, endian_bytes Little (1 :: u16)),
    (16, endian_bytes Little (65536 :: u64)), (112, endian_bytes Little (60 :: u64))]"
  have hb: "hole_block = concat (map (raw_bytes Little) ?rs)"
    by (simp add: hole_block_def dirent_bytes_layout sb_consts)
  have len: "length hole_block = 512"
    unfolding hb by (simp add: raw_reclen_def plain_dirent_def)
  have parse: "inode_parse_with_maxsymlink ?dino Ufs2 Little m = Inr ?i" for m
    by (rule plain_inode_parse) (simp_all add: inode_fixture_simps plain_inode_def modes)
  have v: "valid_slice ?part" by (simp add: valid_slice_def)
  have "list_dir_entries ?part dir_sb ?i = walk_entries (dir_block ?part dir_sb ?i 0) Little"
    using first_block_listing [OF v, of dir_sb ?i 60] by (simp add: dir_sb_geometry plain_inode_def)
  moreover have t: "take 512 (drop 245760 ?part) = hole_block"
    by (rule fixture_take) (simp_all add: holds_def len)
  moreover have "drop 245760 ?part = take 512 (drop 245760 ?part)"
    by (rule take_all [symmetric]) simp
  ultimately have "list_dir_entries ?part dir_sb ?i = walk_entries (dir_block ?part dir_sb ?i 0) Little"
    and d: "drop 245760 ?part = hole_block" by simp_all
  note this(1)
  moreover have "dir_block ?part dir_sb ?i 0 = hole_block"
    using len by (simp add: dir_block_def dir_sb_geometry plain_inode_def Let_def d)
  moreover have "walk_entries hole_block Little = map raw_entry ?rs"
    unfolding hb
    by (rule walk_entries_layout [of Little _ "[]", unfolded append_Nil2])
      (simp_all add: valid_slice_def walk_ends_def plain_dirent_ok raw_reclen_def plain_dirent_def raw_ok_def)
  ultimately have "map de_name (list_dir_entries ?part dir_sb ?i) = [str ''x'', str ''y'']"
    by (simp add: raw_entry_def plain_dirent_def)
  moreover have "scast (sb_bsize dir_sb) = (32768 :: u64)" "scast (sb_fsize dir_sb) = (4096 :: u64)"
    by (simp_all add: dir_sb_def synthetic_sb_def)
  ultimately show ?thesis
    using len parse
    by (simp add: test_list_dir_skips_hole_in_direct_pointers_def dir_tiny_sb_parse inode_parse_def Let_def
        del: map_eq_Cons_conv) (simp add: plain_inode_def)
qed

end
