(* ===== verification/TestsFile.thy ===== *)
theory TestsFile
  imports TestsDir "HOL-Library.Signed_Division"
begin

text \<open>
  The unit tests of \<open>core/src/file.rs\<close>: files over direct, single, double and triple indirect blocks in both pointer
  widths, holes, allocation bombs, broken geometry, truncated images, links and lookups by path; every test passes on
  the model.
\<close>

section \<open>Fixtures\<close>

definition file_sb_writes :: "i32 \<Rightarrow> i32 \<Rightarrow> i32 \<Rightarrow> (nat \<times> bytes) list" where
  "file_sb_writes bsize fsize nindir =
     (let w32 = (\<lambda>off (v :: i32). (off, endian_bytes Little v)); w64 = (\<lambda>off (v :: i64). (off, endian_bytes Little v)) in
      [w32 8 1, w32 12 2, w32 16 4, w32 20 8, w32 44 1, w32 48 bsize, w32 52 fsize, w32 56 1, w32 116 nindir,
       w32 120 (word_of_int (sint bsize sdiv 256)), w32 184 128, w32 188 4096, w32 1320 120, w64 1080 65536,
       (1372, endian_bytes Little FS_UFS2_MAGIC)])"

definition file_tiny_sb :: "i32 \<Rightarrow> i32 \<Rightarrow> i32 \<Rightarrow> ufs_error + superblock" where
  "file_tiny_sb bsize fsize nindir = sb_parse (fixture 1376 (file_sb_writes bsize fsize nindir))"

definition inode_with_writes :: "u64 \<Rightarrow> u64 list \<Rightarrow> u64 list \<Rightarrow> (nat \<times> bytes) list" where
  "inode_with_writes sz direct ib =
     [(0, endian_bytes Little (0x81A4 :: u16)), (2, endian_bytes Little (1 :: u16)), (16, endian_bytes Little sz)]
     @ map (\<lambda>(i, a). (112 + i * 8, endian_bytes Little a)) (enumerate 0 direct)
     @ map (\<lambda>(i, a). (208 + i * 8, endian_bytes Little a)) (enumerate 0 ib)"

definition inode_with :: "u64 \<Rightarrow> u64 list \<Rightarrow> u64 list \<Rightarrow> ufs_error + inode" where
  "inode_with sz direct ib = inode_parse (fixture 256 (inode_with_writes sz direct ib)) Ufs2 Little"

definition file_sb :: "i32 \<Rightarrow> superblock" where
  "file_sb nindir = \<lparr> sb_version = Ufs2, sb_endian = Little, sb_sblkno = 1, sb_cblkno = 2, sb_iblkno = 4,
     sb_dblkno = 8, sb_ncg = 1, sb_bsize = 512, sb_fsize = 512, sb_frag = 1, sb_bshift = 0, sb_fshift = 0,
     sb_fragshift = 0, sb_fsbtodb = 0, sb_sbsize = 0, sb_nindir = nindir, sb_inopb = 2, sb_ipg = 128,
     sb_fpg = 4096, sb_size = 65536, sb_dsize = 0, sb_csaddr = 0, sb_sblockloc = 0, sb_maxsymlinklen = 120 \<rparr>"

lemma file_tiny_sb_parse: "file_tiny_sb 512 512 nindir = Inr (file_sb nindir)"
proof -
  have "sb_parse (fixture 1376 (file_sb_writes 512 512 nindir))
      = try_bind (sb_validate_geometry (file_sb nindir)) (\<lambda>_. Inr (file_sb nindir))"
    by (rule fixture_sb)
      (simp_all add: sb_fields_defs file_sb_writes_def holds_def magic_of_def sb_consts file_sb_def
        signed_divide_int_def)
  moreover have "sb_validate_geometry (file_sb nindir) = Inr ()"
    by (simp add: validate_Inr wf_geometry_def file_sb_def)
  ultimately show ?thesis by (simp add: file_tiny_sb_def)
qed

lemma file_sb_geometry:
  "file_geometry_ok (file_sb n)" "nat_i32 (sb_fsize (file_sb n)) = 512" "nat_i32 (sb_bsize (file_sb n)) = 512"
  "sb_version (file_sb n) = Ufs2" "sb_endian (file_sb n) = Little" "sb_nindir_nat (file_sb n) = nat_i32 n"
  "ptr_bytes (file_sb n) = 8" "inode_geometry_ok (file_sb n)" "inode_count (file_sb n) = 128"
  "inode_offset (file_sb n) k = (k div 128 * 4096 + 4) * 512 + k mod 128 * 256"
  "sb_maxsymlinklen (file_sb n) = 120" "sint (sb_fsize (file_sb n)) = 512" "sint (sb_bsize (file_sb n)) = 512"
  by (simp_all add: file_sb_def file_geometry_ok_def nat_i32_def sb_nindir_nat_def ptr_bytes_def
      inode_geometry_ok_def inode_count_def inode_offset_def dinode_size_def sb_consts)

lemma inode_with_12:
  "inode_with sz [d0, d1, d2, d3, d4, d5, d6, d7, d8, d9, d10, d11] [a, b, c]
    = Inr (plain_inode 0x81A4 1 sz [d0, d1, d2, d3, d4, d5, d6, d7, d8, d9, d10, d11] [a, b, c])"
  unfolding inode_with_def inode_parse_def
  by (rule plain_inode_parse)
    (simp_all add: inode_fixture_simps inode_with_writes_def plain_inode_def modes)

lemma inode_with_1:
  "inode_with sz [d0] [a, b, c] = Inr (plain_inode 0x81A4 1 sz (d0 # replicate 11 0) [a, b, c])"
  unfolding inode_with_def inode_parse_def
  by (rule plain_inode_parse)
    (simp_all add: inode_fixture_simps inode_with_writes_def plain_inode_def modes)

lemma inode_with_2:
  "inode_with sz [d0, d1] [a, b, c] = Inr (plain_inode 0x81A4 1 sz (d0 # d1 # replicate 10 0) [a, b, c])"
proof -
  have r: "replicate 10 (x :: 'a) = [x, x, x, x, x, x, x, x, x, x]" for x by (simp add: eval_nat_numeral)
  show ?thesis
    unfolding inode_with_def inode_parse_def
    by (rule plain_inode_parse)
      (simp_all add: inode_fixture_simps inode_with_writes_def plain_inode_def modes r)
qed

section \<open>Reading content\<close>

text \<open>The images of the tests: a byte that marks a block, a pointer in an indirect block.\<close>

definition mark :: "nat \<Rightarrow> u8 \<Rightarrow> nat \<times> bytes" where
  "mark frag m = (frag * 512, [m])"

definition put_ptr :: "nat \<Rightarrow> nat \<Rightarrow> u64 \<Rightarrow> nat \<times> bytes" where
  "put_ptr frag idx target = (frag * 512 + idx * 8, endian_bytes Little target)"

definition direct_marks :: "(nat \<times> bytes) list" where
  "direct_marks = map (\<lambda>i. mark (20 + i) (of_nat (i + 1))) [0..<12]"

definition direct_20 :: "u64 list" where "direct_20 = map (\<lambda>i. of_nat (20 + i)) [0..<12]"

text \<open>The body of a content test: the file of an inode built by \<^const>\<open>inode_with\<close> on a superblock and an image.\<close>

definition on_file :: "ufs_error + superblock \<Rightarrow> bytes \<Rightarrow> ufs_error + inode \<Rightarrow> ((ufs_error + bytes) \<Rightarrow> bool) \<Rightarrow> bool" where
  "on_file sb part inode P \<longleftrightarrow> ok_and sb (\<lambda>sb. ok_and inode (\<lambda>inode. P (read_inode_file part sb inode)))"

definition test_read_file_direct_only_single_block :: bool where
  "test_read_file_direct_only_single_block \<longleftrightarrow>
     (let payload = map (\<lambda>i. ucast (of_nat i AND 0xFF :: u16)) [0..<100];
          part = fixture (512 * 32) [(10 * 512, payload)] in
      on_file (file_tiny_sb 512 512 64) part (inode_with (of_nat (length payload)) [10] [0, 0, 0])
        (\<lambda>r. ok_and r (\<lambda>got. got = payload)))"

definition test_read_file_zero_size_is_empty :: bool where
  "test_read_file_zero_size_is_empty \<longleftrightarrow>
     on_file (file_tiny_sb 512 512 64) (replicate (512 * 4) 0) (inode_with 0 (replicate 12 0) [0, 0, 0])
       (\<lambda>r. ok_and r (\<lambda>got. got = []))"

definition test_read_file_single_indirect_block :: bool where
  "test_read_file_single_indirect_block \<longleftrightarrow>
     (let part = fixture (512 * 64) (direct_marks @ [put_ptr 40 0 41, mark 41 0xAB]) in
      on_file (file_tiny_sb 512 512 64) part (inode_with (13 * 512) direct_20 [40, 0, 0])
        (\<lambda>r. ok_and r (\<lambda>got. length got = 13 * 512 \<and> got ! 0 = 1 \<and> got ! (12 * 512) = 0xAB)))"

definition triple_writes :: "(nat \<times> bytes) list" where
  "triple_writes = direct_marks
     @ [put_ptr 40 0 50, put_ptr 40 1 51, mark 50 100, mark 51 101,
        put_ptr 41 0 42, put_ptr 41 1 43, put_ptr 42 0 52, put_ptr 42 1 53, put_ptr 43 0 54, put_ptr 43 1 55]
     @ map (\<lambda>(blk, f). mark f blk) [(14, 52), (15, 53), (16, 54), (17, 55)]
     @ [put_ptr 44 0 45, put_ptr 45 0 46, put_ptr 46 0 56, mark 56 200]"

definition test_read_file_double_and_triple_indirect_with_nindir2 :: bool where
  "test_read_file_double_and_triple_indirect_with_nindir2 \<longleftrightarrow>
     (let part = fixture (512 * 128) triple_writes in
      on_file (file_tiny_sb 512 512 2) part (inode_with (19 * 512) direct_20 [40, 41, 44])
        (\<lambda>r. ok_and r (\<lambda>got. length got = 19 * 512 \<and> got ! 0 = 1 \<and> got ! (12 * 512) = 100
          \<and> got ! (14 * 512) = 14 \<and> got ! (17 * 512) = 17 \<and> got ! (18 * 512) = 200)))"

definition test_read_file_hole_zero_fills :: bool where
  "test_read_file_hole_zero_fills \<longleftrightarrow>
     (let part = fixture (512 * 16) [mark 9 0x77] in
      on_file (file_tiny_sb 512 512 64) part (inode_with (2 * 512) [0, 9] [0, 0, 0])
        (\<lambda>r. ok_and r (\<lambda>got. list_all (\<lambda>b. b = 0) (take 512 got) \<and> got ! 512 = 0x77)))"

definition test_read_file_rejects_allocation_bomb :: bool where
  "test_read_file_rejects_allocation_bomb \<longleftrightarrow>
     on_file (file_tiny_sb 512 512 64) (replicate (512 * 4) 0) (inode_with (- 1) (replicate 12 0) [0, 0, 0])
       (\<lambda>r. err_and r (is_impossible ''di_size''))"

definition test_read_file_rejects_zero_bsize :: bool where
  "test_read_file_rejects_zero_bsize \<longleftrightarrow>
     on_file (try_bind (file_tiny_sb 512 512 64) (\<lambda>sb. Inr (sb\<lparr> sb_bsize := 0 \<rparr>))) (replicate (512 * 4) 0)
       (inode_with 100 [1] [0, 0, 0]) (\<lambda>r. err_and r (is_impossible ''fs_bsize''))"

definition test_read_file_rejects_zero_fsize :: bool where
  "test_read_file_rejects_zero_fsize \<longleftrightarrow>
     on_file (try_bind (file_tiny_sb 512 512 64) (\<lambda>sb. Inr (sb\<lparr> sb_fsize := 0 \<rparr>))) (replicate (512 * 4) 0)
       (inode_with 100 [1] [0, 0, 0]) (\<lambda>r. err_and r (is_impossible ''fs_fsize''))"

definition test_read_file_truncated_partition_no_panic :: bool where
  "test_read_file_truncated_partition_no_panic \<longleftrightarrow>
     on_file (file_tiny_sb 512 512 64) (replicate (512 * 3) 0) (inode_with (2 * 512) [2, 100] [0, 0, 0])
       (\<lambda>r. ok_and r (\<lambda>got. length got = 2 * 512))"

definition test_resolve_block_zero_nindir_collapses_to_direct_only :: bool where
  "test_resolve_block_zero_nindir_collapses_to_direct_only \<longleftrightarrow>
     ok_and (file_tiny_sb 512 512 0) (\<lambda>sb. ok_and (inode_with (20 * 512) (replicate 12 5) [40, 0, 0]) (\<lambda>inode.
       resolve_block [] sb inode 12 0 = 0 \<and> resolve_block [] sb inode 0 0 = 5))"

definition test_indirect_ptr_hole_addr_is_zero :: bool where
  "test_indirect_ptr_hole_addr_is_zero \<longleftrightarrow>
     ok_and (file_tiny_sb 512 512 64) (\<lambda>sb. indirect_ptr (replicate 512 0) sb 0 0 = 0)"

text \<open>Pointers and bytes of the images.\<close>

lemma fixture_ptr:
  assumes "n \<le> isize_max" "a \<noteq> 0" "(d + 1) * 8 \<le> (512 :: nat)" "holds n fs (put_ptr (unat a) d p)"
  shows "indirect_ptr (fixture n fs) (file_sb m) a (of_nat d) = p"
proof -
  have h: "holds n fs (unat a * 512 + d * 8, endian_bytes Little p)" using assms(4) by (simp add: put_ptr_def)
  have "indirect_ptr (fixture n fs) (file_sb m) a (of_nat d)
      = read_ptr Ufs2 Little (fixture n fs) (unat a * 512 + d * 8)"
    using assms(1-3) h
    by (subst indirect_ptr_exact) (simp_all add: valid_slice_def file_sb_geometry holds_def)
  also have "\<dots> = p"
    using fixture_u64 [OF h] assms(1) by (simp add: read_ptr_def)
  finally show ?thesis .
qed

lemma marked_byte:
  assumes "block_addr (fixture n fs) (file_sb m) i k = a" "a \<noteq> 0" "holds n fs (mark (unat a) b)"
  shows "file_byte (fixture n fs) (file_sb m) i (k * 512) = b"
  using assms fixture_nth [of n fs "unat a * 512" "[b]" 0]
  by (simp add: file_byte_def file_sb_geometry Let_def mark_def holds_def)

lemma plain_inode_sel [simp]:
  "i_size (plain_inode md nl sz direct ib) = sz" "i_direct (plain_inode md nl sz direct ib) = direct"
  "i_indirect (plain_inode md nl sz direct ib) = ib" "i_fast_symlink (plain_inode md nl sz direct ib) = None"
  by (simp_all add: plain_inode_def)

lemma fixture_byte: "holds n fs (a, [b]) \<Longrightarrow> fixture n fs ! a = b"
  using fixture_nth [of n fs a "[b]" 0] by simp

lemma content_parts:
  assumes "n \<le> isize_max" "unat sz \<le> n"
  shows "on_file (file_tiny_sb 512 512 m) (fixture n fs) (Inr (plain_inode md nl sz direct ib)) P
    \<longleftrightarrow> P (Inr (map (file_byte (fixture n fs) (file_sb m) (plain_inode md nl sz direct ib)) [0..<unat sz]))"
  using assms by (simp add: on_file_def file_tiny_sb_parse read_inode_file_exact valid_slice_def file_sb_geometry)

lemma direct_20_list: "direct_20 = [20, 21, 22, 23, 24, 25, 26, 27, 28, 29, 30, 31]"
  by (simp add: direct_20_def upt_12)

lemma replicate_12: "replicate 12 (x :: 'a) = [x, x, x, x, x, x, x, x, x, x, x, x]"
  by (simp add: eval_nat_numeral)

lemmas image_simps = direct_marks_def triple_writes_def upt_12 mark_def put_ptr_def holds_def

lemmas tree_simps = block_addr_def block_path_def place_addr_def follow_def file_sb_geometry nat_i32_def Let_def


lemma direct_only_test: "test_read_file_direct_only_single_block"
proof -
  let ?payload = "map (\<lambda>i. ucast (of_nat i AND 0xFF :: u16) :: u8) [0..<100]"
  let ?part = "fixture 16384 [(5120, ?payload)]"
  let ?i = "plain_inode 0x81A4 1 100 (10 # replicate 11 0) [0, 0, 0]"
  have h: "holds 16384 [(5120, ?payload)] (5120, ?payload)" by (simp add: holds_def)
  have "file_byte ?part (file_sb 64) ?i k = ?payload ! k" if "k < 100" for k
    using that fixture_nth [OF h, of k] by (simp add: file_byte_def tree_simps)
  then have "map (file_byte ?part (file_sb 64) ?i) [0..<100] = ?payload"
    by (intro nth_equalityI) simp_all
  then show ?thesis
    by (simp add: test_read_file_direct_only_single_block_def Let_def inode_with_1 content_parts
        del: map_eq_conv)
qed

lemma single_indirect_test: "test_read_file_single_indirect_block"
proof -
  let ?fs = "direct_marks @ [put_ptr 40 0 41, mark 41 0xAB]"
  let ?part = "fixture 32768 ?fs"
  let ?i = "plain_inode 0x81A4 1 6656 direct_20 [40, 0, 0]"
  have "indirect_ptr ?part (file_sb 64) 40 (of_nat 0) = 41"
    by (rule fixture_ptr) (simp_all add: image_simps)
  then have "block_addr ?part (file_sb 64) ?i 0 = 20" "block_addr ?part (file_sb 64) ?i 12 = 41"
    by (simp_all add: tree_simps direct_20_list)
  note a = this
  have "file_byte ?part (file_sb 64) ?i (0 * 512) = 1" "file_byte ?part (file_sb 64) ?i (12 * 512) = 0xAB"
    by (rule marked_byte, rule a, simp, simp add: image_simps)+
  then show ?thesis
    by (simp add: test_read_file_single_indirect_block_def Let_def direct_20_list inode_with_12 content_parts)
qed

lemma triple_indirect_test: "test_read_file_double_and_triple_indirect_with_nindir2"
proof -
  let ?part = "fixture 65536 triple_writes"
  let ?i = "plain_inode 0x81A4 1 9728 direct_20 [40, 41, 44]"
  let ?p = "indirect_ptr ?part (file_sb 2)"
  have "?p 40 (of_nat 0) = 50" "?p 41 (of_nat 0) = 42" "?p 42 (of_nat 0) = 52" "?p 41 (of_nat 1) = 43"
    "?p 43 (of_nat 1) = 55" "?p 44 (of_nat 0) = 45" "?p 45 (of_nat 0) = 46" "?p 46 (of_nat 0) = 56"
    by (rule fixture_ptr; simp add: image_simps)+
  then have "block_addr ?part (file_sb 2) ?i 0 = 20" "block_addr ?part (file_sb 2) ?i 12 = 50"
    "block_addr ?part (file_sb 2) ?i 14 = 52" "block_addr ?part (file_sb 2) ?i 17 = 55"
    "block_addr ?part (file_sb 2) ?i 18 = 56"
    by (simp_all add: tree_simps direct_20_list)
  note a = this
  have "file_byte ?part (file_sb 2) ?i (0 * 512) = 1" "file_byte ?part (file_sb 2) ?i (12 * 512) = 100"
    "file_byte ?part (file_sb 2) ?i (14 * 512) = 14" "file_byte ?part (file_sb 2) ?i (17 * 512) = 17"
    "file_byte ?part (file_sb 2) ?i (18 * 512) = 200"
    by (rule marked_byte, rule a, simp, simp add: image_simps)+
  then show ?thesis
    by (simp add: test_read_file_double_and_triple_indirect_with_nindir2_def Let_def direct_20_list inode_with_12
        content_parts)
qed

lemma hole_fill_test: "test_read_file_hole_zero_fills"
proof -
  let ?part = "fixture 8192 [mark 9 0x77]"
  let ?i = "plain_inode 0x81A4 1 1024 (0 # 9 # replicate 10 0) [0, 0, 0]"
  have "block_addr ?part (file_sb 64) ?i 1 = 9" by (simp add: tree_simps)
  then have "file_byte ?part (file_sb 64) ?i (1 * 512) = 0x77"
    by (rule marked_byte) (simp_all add: image_simps)
  moreover have "file_byte ?part (file_sb 64) ?i k = 0" if "k < 512" for k
    using that by (simp add: file_byte_def tree_simps)
  ultimately show ?thesis
    by (simp add: test_read_file_hole_zero_fills_def Let_def inode_with_2 content_parts list_all_iff take_map)
qed

lemma read_inode_file_bad_sizes:
  "read_inode_file part (sb\<lparr> sb_bsize := 0 \<rparr>) i = Inl (ErrImpossibleGeometry ''fs_bsize'' 0 I64_MAX)"
  "sint (sb_bsize sb) = 512 \<Longrightarrow>
    read_inode_file part (sb\<lparr> sb_fsize := 0 \<rparr>) i = Inl (ErrImpossibleGeometry ''fs_fsize'' 0 I64_MAX)"
  by (simp_all add: read_inode_file_def)

lemma content_tests:
  "test_read_file_zero_size_is_empty" "test_read_file_rejects_allocation_bomb" "test_read_file_rejects_zero_bsize"
  "test_read_file_rejects_zero_fsize" "test_read_file_truncated_partition_no_panic"
  "test_indirect_ptr_hole_addr_is_zero"
  by (simp_all add: test_read_file_zero_size_is_empty_def test_read_file_rejects_allocation_bomb_def
      test_read_file_rejects_zero_bsize_def test_read_file_rejects_zero_fsize_def
      test_read_file_truncated_partition_no_panic_def test_indirect_ptr_hole_addr_is_zero_def
      on_file_def file_tiny_sb_parse inode_with_12 inode_with_1 inode_with_2 replicate_12
      read_inode_file_exact read_inode_file_bad_sizes valid_slice_def file_sb_geometry unat_max_word)

lemma zero_nindir_test: "test_resolve_block_zero_nindir_collapses_to_direct_only"
  by (simp add: test_resolve_block_zero_nindir_collapses_to_direct_only_def file_tiny_sb_parse inode_with_12
      replicate_12 resolve_block_def sb_consts)


section \<open>UFS1 pointers\<close>

definition file_ufs1_sb_writes :: "(nat \<times> bytes) list" where
  "file_ufs1_sb_writes =
     (let w32 = (\<lambda>off (v :: i32). (off, endian_bytes Little v)) in
      [w32 8 1, w32 12 2, w32 16 4, w32 20 8, w32 44 1, w32 48 512, w32 52 512, w32 56 1, w32 116 128, w32 120 4,
       w32 184 128, w32 188 4096, w32 1320 60, w32 36 65536, (1372, endian_bytes Little FS_UFS1_MAGIC)])"

definition file_ufs1_inode_writes :: "(nat \<times> bytes) list" where
  "file_ufs1_inode_writes =
     [(0, endian_bytes Little (0x81A4 :: u16)), (8, endian_bytes Little (13 * 512 :: u64))]
     @ map (\<lambda>i. (40 + i * 4, endian_bytes Little (of_nat (20 + i) :: u32))) [0..<12]
     @ [(88, endian_bytes Little (40 :: u32))]"

definition test_read_file_ufs1_single_indirect_uses_4byte_pointers :: bool where
  "test_read_file_ufs1_single_indirect_uses_4byte_pointers \<longleftrightarrow>
     ok_and (sb_parse (fixture 1376 file_ufs1_sb_writes)) (\<lambda>sb.
       sb_version sb = Ufs1
       \<and> (let part = fixture (512 * 64) (direct_marks @ [(40 * 512, endian_bytes Little (41 :: u32)), mark 41 0xCD]) in
          ok_and (inode_parse (fixture 128 file_ufs1_inode_writes) Ufs1 Little) (\<lambda>inode.
            ok_and (read_inode_file part sb inode) (\<lambda>got. length got = 13 * 512 \<and> got ! (12 * 512) = 0xCD))))"

definition file_ufs1_sb :: superblock where
  "file_ufs1_sb = (file_sb 128)\<lparr> sb_version := Ufs1, sb_inopb := 4, sb_maxsymlinklen := 60 \<rparr>"

definition file_ufs1_inode :: inode where
  "file_ufs1_inode = (plain_inode 0x81A4 0 6656 direct_20 [40, 0, 0])\<lparr> i_version := Ufs1, i_birthtime := None \<rparr>"

lemma file_ufs1_sb_parse: "sb_parse (fixture 1376 file_ufs1_sb_writes) = Inr file_ufs1_sb"
proof -
  have "sb_parse (fixture 1376 file_ufs1_sb_writes) = try_bind (sb_validate_geometry file_ufs1_sb) (\<lambda>_. Inr file_ufs1_sb)"
    by (rule fixture_sb)
      (simp_all add: sb_fields_defs file_ufs1_sb_writes_def holds_def magic_of_def sb_consts file_ufs1_sb_def
        file_sb_def)
  moreover have "sb_validate_geometry file_ufs1_sb = Inr ()"
    by (simp add: validate_Inr wf_geometry_def file_ufs1_sb_def file_sb_def)
  ultimately show ?thesis by simp
qed

lemma file_ufs1_inode_parse: "inode_parse (fixture 128 file_ufs1_inode_writes) Ufs1 Little = Inr file_ufs1_inode"
proof -
  have "list_all (holds 128 file_ufs1_inode_writes) (inode_fields Little file_ufs1_inode)"
    by (simp add: inode_fixture_simps file_ufs1_inode_writes_def file_ufs1_inode_def plain_inode_def direct_20_list)
  moreover have "wf_inode file_ufs1_inode"
    by (simp add: wf_inode_def file_ufs1_inode_def plain_inode_def direct_20_list sb_consts narrow32_def snarrow32_def)
  ultimately show ?thesis
    using fixture_inode [of Ufs1 128 file_ufs1_inode_writes Little file_ufs1_inode DEFAULT_MAXSYMLINKLEN]
    by (simp add: inode_parse_def dinode_size_def sb_consts)
      (simp add: file_ufs1_inode_def plain_inode_def inode_fast_symlink_def modes)
qed

lemma file_ufs1_geometry:
  "file_geometry_ok file_ufs1_sb" "nat_i32 (sb_fsize file_ufs1_sb) = 512" "nat_i32 (sb_bsize file_ufs1_sb) = 512"
  "sb_version file_ufs1_sb = Ufs1" "sb_endian file_ufs1_sb = Little" "sb_nindir_nat file_ufs1_sb = 128"
  "ptr_bytes file_ufs1_sb = 4" "i_size file_ufs1_inode = 6656" "i_indirect file_ufs1_inode = [40, 0, 0]"
  by (simp_all add: file_ufs1_sb_def file_ufs1_inode_def file_sb_def file_geometry_ok_def nat_i32_def
      sb_nindir_nat_def ptr_bytes_def)

lemma ufs1_pointers_test: "test_read_file_ufs1_single_indirect_uses_4byte_pointers"
proof -
  let ?fs = "direct_marks @ [(20480, endian_bytes Little (41 :: u32)), mark 41 0xCD]"
  let ?part = "fixture 32768 ?fs"
  have h: "holds 32768 ?fs (20480, endian_bytes Little (41 :: u32))" "holds 32768 ?fs (41 * 512, [0xCD])"
    by (simp_all add: image_simps)
  have "indirect_ptr ?part file_ufs1_sb 40 (of_nat 0) = 41"
    using fixture_u32 [OF h(1)]
    by (subst indirect_ptr_exact) (simp_all add: valid_slice_def file_ufs1_geometry read_ptr_def)
  then have "block_addr ?part file_ufs1_sb file_ufs1_inode 12 = 41"
    by (simp add: block_addr_def block_path_def place_addr_def follow_def file_ufs1_geometry)
  then have "file_byte ?part file_ufs1_sb file_ufs1_inode 6144 = 0xCD"
    using fixture_byte [OF h(2)] by (simp add: file_byte_def file_ufs1_geometry Let_def)
  then show ?thesis
    by (simp add: test_read_file_ufs1_single_indirect_uses_4byte_pointers_def file_ufs1_sb_parse Let_def
        file_ufs1_inode_parse read_inode_file_exact valid_slice_def file_ufs1_geometry)
qed


section \<open>Links and the minimal file system\<close>

definition test_read_symlink_target_fast_inline :: bool where
  "test_read_symlink_target_fast_inline \<longleftrightarrow>
     ok_and (file_tiny_sb 512 512 64) (\<lambda>sb.
       let d = fixture 256 [(0, endian_bytes Little (0xA1ED :: u16)), (16, endian_bytes Little (5 :: u64)),
         (112, str ''a/b/c'')] in
       ok_and (inode_parse d Ufs2 Little) (\<lambda>inode.
         ok_and (read_symlink_target [] sb inode) (\<lambda>target. target = str ''a/b/c'')))"

definition slow_target :: bytes where "slow_target = replicate 130 0x78"

definition test_read_symlink_target_slow_reads_data_block :: bool where
  "test_read_symlink_target_slow_reads_data_block \<longleftrightarrow>
     ok_and (file_tiny_sb 512 512 64) (\<lambda>sb.
       let part = fixture (512 * 16) [(7 * 512, slow_target)];
           d = fixture 256 [(0, endian_bytes Little (0xA1ED :: u16)), (16, endian_bytes Little (130 :: u64)),
             (112, endian_bytes Little (7 :: u64))] in
       ok_and (inode_parse d Ufs2 Little) (\<lambda>inode.
         inode_symlink_target inode = None
         \<and> ok_and (read_symlink_target part sb inode) (\<lambda>got. got = slow_target)))"

definition file_ino_byte :: "nat \<Rightarrow> nat" where
  "file_ino_byte ino = (ino div 128 * 4096 + 4) * 512 + ino mod 128 * 256"

definition minimal_payload :: bytes where "minimal_payload = str ''twenty-byte-content!''"

definition minimal_inode :: "u16 \<Rightarrow> u64 \<Rightarrow> u64 \<Rightarrow> bytes" where
  "minimal_inode mode sz frag = fixture 256 [(0, endian_bytes Little mode), (16, endian_bytes Little sz),
     (112, endian_bytes Little frag)]"

definition minimal_block :: bytes where
  "minimal_block = dirent_bytes 2 12 8 (str ''.'') @ dirent_bytes 2 12 8 (str ''..'')
     @ dirent_bytes 4 (512 - 24) 8 (str ''f'')"

definition minimal_writes :: "(nat \<times> bytes) list" where
  "minimal_writes =
     [(file_ino_byte 2, minimal_inode 0x41ED 512 300),
      (file_ino_byte 4, minimal_inode 0x81A4 (of_nat (length minimal_payload)) 301),
      (301 * 512, minimal_payload), (300 * 512, minimal_block)]"

definition minimal_part :: bytes where
  "minimal_part = fixture (max (file_ino_byte 5) ((301 + 1) * 512) + 16) minimal_writes"

definition test_read_file_by_inode_number_locates_then_reads :: bool where
  "test_read_file_by_inode_number_locates_then_reads \<longleftrightarrow>
     ok_and (file_tiny_sb 512 512 64) (\<lambda>sb. ok_and (read_file minimal_part sb 4) (\<lambda>got. got = minimal_payload))"

definition test_read_path_content_reads_a_file_and_missing_is_none :: bool where
  "test_read_path_content_reads_a_file_and_missing_is_none \<longleftrightarrow>
     ok_and (file_tiny_sb 512 512 64) (\<lambda>sb.
       found (read_path_content minimal_part sb (str ''/f'')) (\<lambda>got. got = minimal_payload)
       \<and> not_found (read_path_content minimal_part sb (str ''/does-not-exist'')))"

lemma fast_link_test: "test_read_symlink_target_fast_inline"
proof -
  let ?d = "fixture 256 [(0, endian_bytes Little (0xA1ED :: u16)), (16, endian_bytes Little (5 :: u64)),
    (112, str ''a/b/c'')]"
  have "inode_parse_with_maxsymlink ?d Ufs2 Little DEFAULT_MAXSYMLINKLEN
      = Inr (inode_decode ?d Ufs2 Little DEFAULT_MAXSYMLINKLEN)
    \<and> i_file_type (inode_decode ?d Ufs2 Little DEFAULT_MAXSYMLINKLEN) = FtSymlink
    \<and> inode_symlink_target (inode_decode ?d Ufs2 Little DEFAULT_MAXSYMLINKLEN) = Some (str ''a/b/c'')"
    by (rule fixture_symlink [where mode = "0xA1ED"])
      (simp_all add: holds_def modes dinode_size_def inode_db_off_def inode_ptr_size_def sb_consts)
  then show ?thesis
    unfolding test_read_symlink_target_fast_inline_def Let_def file_tiny_sb_parse inode_parse_def ok_and_simps
    by (elim conjE) (simp only: ok_and_simps read_symlink_target_def option.case)
qed

lemma slow_link_test: "test_read_symlink_target_slow_reads_data_block"
proof -
  let ?part = "fixture 8192 [(3584, slow_target)]"
  let ?d = "fixture 256 [(0, endian_bytes Little (0xA1ED :: u16)), (16, endian_bytes Little (130 :: u64)),
    (112, endian_bytes Little (7 :: u64))]"
  let ?i = "plain_inode 0xA1ED 0 130 (7 # replicate 11 0) [0, 0, 0]"
  have parse: "inode_parse ?d Ufs2 Little = Inr ?i"
    unfolding inode_parse_def
    by (rule plain_inode_parse) (simp_all add: inode_fixture_simps plain_inode_def modes)
  have h: "holds 8192 [(3584, slow_target)] (3584, slow_target)" by (simp add: holds_def slow_target_def)
  have "file_byte ?part (file_sb 64) ?i k = slow_target ! k" if "k < 130" for k
    using that fixture_nth [OF h, of k] by (simp add: file_byte_def tree_simps slow_target_def)
  then have c: "map (file_byte ?part (file_sb 64) ?i) [0..<130] = slow_target"
    by (intro nth_equalityI) (simp_all add: slow_target_def)
  have "inode_symlink_target ?i = None" by (simp add: inode_symlink_target_def)
  with parse c show ?thesis
    by (simp add: test_read_symlink_target_slow_reads_data_block_def Let_def file_tiny_sb_parse
        read_symlink_target_def read_inode_file_exact valid_slice_def file_sb_geometry)
qed

definition minimal_dirents :: "raw_dirent list" where
  "minimal_dirents = [plain_dirent 2 12 8 (str ''.''), plain_dirent 2 12 8 (str ''..''), plain_dirent 4 488 8 (str ''f'')]"

lemma minimal_block_layout: "minimal_block = concat (map (raw_bytes Little) minimal_dirents)"
  by (simp add: minimal_block_def minimal_dirents_def dirent_bytes_layout)

lemma length_minimal_block: "length minimal_block = 512"
  by (simp add: minimal_block_layout minimal_dirents_def raw_reclen_def plain_dirent_def)

lemma minimal_inode_parse:
  assumes "file_type_from_mode mode \<noteq> FtSymlink"
  shows "inode_parse_with_maxsymlink (minimal_inode mode sz frag) Ufs2 Little m
    = Inr (plain_inode mode 0 sz (frag # replicate 11 0) [0, 0, 0])"
  unfolding minimal_inode_def
  by (rule plain_inode_parse) (use assms in \<open>simp_all add: inode_fixture_simps plain_inode_def\<close>)

lemma length_minimal_inode: "length (minimal_inode mode sz frag) = 256"
  by (simp add: minimal_inode_def)

lemma length_minimal_payload: "length minimal_payload = 20"
  by (simp add: minimal_payload_def)

lemma minimal_fixture: "minimal_part = fixture 154640 minimal_writes" and minimal_valid: "valid_slice minimal_part"
  by (simp_all add: minimal_part_def file_ino_byte_def valid_slice_def)

lemma minimal_holds:
  "holds 154640 minimal_writes (2560, minimal_inode 0x41ED 512 300)"
  "holds 154640 minimal_writes (3072, minimal_inode 0x81A4 20 301)"
  "holds 154640 minimal_writes (154112, minimal_payload)"
  "holds 154640 minimal_writes (153600, minimal_block)"
  by (simp_all add: minimal_writes_def holds_def file_ino_byte_def length_minimal_inode length_minimal_payload
      length_minimal_block)

definition minimal_root :: inode where "minimal_root = plain_inode 0x41ED 0 512 (300 # replicate 11 0) [0, 0, 0]"
definition minimal_file :: inode where "minimal_file = plain_inode 0x81A4 0 20 (301 # replicate 11 0) [0, 0, 0]"

lemma minimal_inodes:
  "read_inode minimal_part (file_sb 64) 2 = Inr minimal_root" "read_inode minimal_part (file_sb 64) 4 = Inr minimal_file"
proof -
  note simps = file_sb_geometry minimal_holds minimal_inode_parse length_minimal_inode modes dinode_size_def
    UFS2_DINODE_SIZE_def
  show "read_inode minimal_part (file_sb 64) 2 = Inr minimal_root"
    unfolding minimal_fixture minimal_root_def
    by (rule fixture_read_inode [where d = "minimal_inode 0x41ED 512 300"]) (simp_all add: simps)
  show "read_inode minimal_part (file_sb 64) 4 = Inr minimal_file"
    unfolding minimal_fixture minimal_file_def
    by (rule fixture_read_inode [where d = "minimal_inode 0x81A4 20 301"]) (simp_all add: simps)
qed

lemma minimal_listing: "list_dir_entries minimal_part (file_sb 64) minimal_root = map raw_entry minimal_dirents"
proof -
  have "take 512 (drop (unat (300 :: u64) * 512) minimal_part) = concat (map (raw_bytes Little) minimal_dirents)"
    using fixture_take [OF minimal_holds(4), of 512]
    by (simp add: minimal_fixture minimal_block_layout [symmetric] length_minimal_block)
  moreover have "\<forall>r \<in> set minimal_dirents. raw_ok r" by (simp add: minimal_dirents_def plain_dirent_ok)
  ultimately show ?thesis
    unfolding minimal_root_def by (intro one_block_dir) (simp_all add: file_sb_geometry minimal_valid plain_inode_def)
qed

lemma minimal_content: "read_inode_file minimal_part (file_sb 64) minimal_file = Inr minimal_payload"
proof -
  have "file_byte minimal_part (file_sb 64) minimal_file k = minimal_payload ! k" if "k < 20" for k
    using that fixture_nth [OF minimal_holds(3), of k]
    by (simp add: file_byte_def tree_simps minimal_file_def minimal_fixture length_minimal_payload)
  then have "map (file_byte minimal_part (file_sb 64) minimal_file) [0..<20] = minimal_payload"
    by (intro nth_equalityI) (simp_all add: length_minimal_payload)
  then show ?thesis
    by (simp add: read_inode_file_exact minimal_valid file_sb_geometry) (simp add: minimal_file_def minimal_fixture)
qed

lemma minimal_tests:
  "test_read_file_by_inode_number_locates_then_reads" "test_read_path_content_reads_a_file_and_missing_is_none"
proof -
  have e: "map raw_entry minimal_dirents =
      [\<lparr> de_name = str ''.'', de_ino = 2, de_file_type = DtRegular, de_deleted = False \<rparr>,
       \<lparr> de_name = str ''..'', de_ino = 2, de_file_type = DtRegular, de_deleted = False \<rparr>,
       \<lparr> de_name = str ''f'', de_ino = 4, de_file_type = DtRegular, de_deleted = False \<rparr>]"
    by (simp add: minimal_dirents_def plain_dirent_def raw_entry_def from_d_type_def)
  have d: "inode_is_dir minimal_root" by (simp add: minimal_root_def plain_inode_def inode_is_dir_def modes)
  show "test_read_file_by_inode_number_locates_then_reads"
    by (simp add: test_read_file_by_inode_number_locates_then_reads_def file_tiny_sb_parse read_file_def
        minimal_inodes minimal_content)
  show "test_read_path_content_reads_a_file_and_missing_is_none"
    by (simp add: test_read_path_content_reads_a_file_and_missing_is_none_def file_tiny_sb_parse
        read_path_content_def read_by_path_def found_def not_found_def UFS_ROOTINO_def minimal_inodes
        minimal_listing minimal_content e d)
qed

end
