(* ===== verification/TestsVfs.thy ===== *)
theory TestsVfs
  imports TestsDir ForensicCarve Sample
begin

text \<open>
  The unit tests of \<open>core/src/vfs.rs\<close>: the mapping helpers, the probe, and the adapter over a complete small volume
  (a root with a file, an inline link and a subdirectory), opened through the byte source the tests define. The
  other identities, streams and errors of the contract's crate that the tests use are constructors of their own.
\<close>

section \<open>Mapping helpers and probe\<close>

datatype foreign_id = NtfsRef u64 u16
datatype foreign_stream = StreamSlack | StreamNamed u64

type_synonym 'a vfs_out = "unit vfs_error + 'a"

definition test_node_kind_maps_every_ifmt_type :: bool where
  "test_node_kind_maps_every_ifmt_type \<longleftrightarrow>
     node_kind_of FtRegular = NodeFile \<and> node_kind_of FtDirectory = NodeDir \<and> node_kind_of FtSymlink = NodeSymlink
     \<and> node_kind_of FtCharDevice = NodeDevice \<and> node_kind_of FtBlockDevice = NodeDevice
     \<and> node_kind_of FtFifo = NodeOther \<and> node_kind_of FtSocket = NodeOther \<and> node_kind_of FtWhiteout = NodeOther
     \<and> node_kind_of (FtOther 0x5000) = NodeOther"

definition test_to_ts_carries_ns_and_inode_table_provenance :: bool where
  "test_to_ts_carries_ns_and_inode_table_provenance \<longleftrightarrow>
     (let ts = to_ts \<lparr> ts_sec = 5, ts_nsec = 123 \<rparr> in
      unix_nanos ts = 5 * 1000000000 + 123 \<and> ts_source ts = InodeTable \<and> ts_resolution ts = Nanos)
     \<and> unix_nanos (to_ts \<lparr> ts_sec = - 1, ts_nsec = 0 \<rparr>) = - 1000000000"

definition test_map_err_splits_truncated_from_decode :: bool where
  "test_map_err_splits_truncated_from_decode \<longleftrightarrow>
     (case map_err (ErrTruncated ''x'' 9 4) :: unit vfs_error of
        VfsOutOfRange _ offset _ bound \<Rightarrow> offset = 9 \<and> bound = 4 | _ \<Rightarrow> False)
     \<and> (case map_err (ErrInodeOutOfRange 1 1) :: unit vfs_error of
          VfsDecode layer _ _ _ \<Rightarrow> layer = ''ufs'' | _ \<Rightarrow> False)"

definition test_require_default_stream_refuses_named_streams :: "(foreign_stream \<Rightarrow> string) \<Rightarrow> bool" where
  "test_require_default_stream_refuses_named_streams sdbg \<longleftrightarrow>
     ok_and (require_default_stream sdbg StreamDefault :: unit vfs_out) (\<lambda>_. True)
     \<and> err_and (require_default_stream sdbg (StreamOther StreamSlack) :: unit vfs_out)
         (\<lambda>e. case e of VfsUnsupported layer _ \<Rightarrow> layer = ''ufs stream'' | _ \<Rightarrow> False)"

definition test_ino_of_refuses_foreign_identity :: "(foreign_id \<Rightarrow> string) \<Rightarrow> bool" where
  "test_ino_of_refuses_foreign_identity dbg \<longleftrightarrow>
     ok_and (ino_of dbg (FileIdOpaque 42) :: u64 vfs_out) (\<lambda>ino. ino = 42)
     \<and> err_and (ino_of dbg (FileIdOther (NtfsRef 1 1)) :: u64 vfs_out)
         (\<lambda>e. case e of VfsUnsupported layer _ \<Rightarrow> layer = ''ufs file-id'' | _ \<Rightarrow> False)"

text \<open>The sniff window at 0 over a buffer has a magic where the buffer has it.\<close>

fun is_yes :: "confidence \<Rightarrow> bool" where
  "is_yes (ConfYes _) = True"
| "is_yes ConfNo = False"

definition test_ufs_probe_matches_ufs2_magic_either_order :: bool where
  "test_ufs_probe_matches_ufs2_magic_either_order \<longleftrightarrow>
     is_yes (ufs_probe (window_of (fixture (UFS2_MAGIC_OFF + 4) [(UFS2_MAGIC_OFF, UFS2_MAGIC_LE)])))
     \<and> is_yes (ufs_probe (window_of (fixture (UFS2_MAGIC_OFF + 4) [(UFS2_MAGIC_OFF, UFS2_MAGIC_BE)])))"

definition test_ufs_probe_matches_ufs1_magic_either_order :: bool where
  "test_ufs_probe_matches_ufs1_magic_either_order \<longleftrightarrow>
     is_yes (ufs_probe (window_of (fixture (UFS1_MAGIC_OFF + 4) [(UFS1_MAGIC_OFF, UFS1_MAGIC_LE)])))
     \<and> is_yes (ufs_probe (window_of (fixture (UFS1_MAGIC_OFF + 4) [(UFS1_MAGIC_OFF, UFS1_MAGIC_BE)])))"

definition test_ufs_probe_declines_non_ufs :: bool where
  "test_ufs_probe_declines_non_ufs \<longleftrightarrow>
     ufs_probe (window_of (str ''not ufs'')) = ConfNo \<and> ufs_probe (window_of []) = ConfNo"

lemma mapping_tests:
  "test_node_kind_maps_every_ifmt_type" "test_to_ts_carries_ns_and_inode_table_provenance"
  "test_map_err_splits_truncated_from_decode" "test_require_default_stream_refuses_named_streams sdbg"
  "test_ino_of_refuses_foreign_identity dbg"
  by (simp_all add: test_node_kind_maps_every_ifmt_type_def test_to_ts_carries_ns_and_inode_table_provenance_def
      test_map_err_splits_truncated_from_decode_def test_require_default_stream_refuses_named_streams_def
      test_ino_of_refuses_foreign_identity_def node_kind_of_def to_ts_def map_err_def require_default_stream_def
      ino_of_def Let_def)

lemma window_holds: "length m = 4 \<Longrightarrow> window_of (fixture (off + 4) [(off, m)]) off m"
  using fixture_get [of "off + 4" "[(off, m)]" off m] by (simp add: window_of_def holds_def)

lemma window_short: "length w < off + length m \<Longrightarrow> \<not> window_of w off m"
  by (auto simp: window_of_def slice_get_def)

lemma magic_lengths:
  "length UFS2_MAGIC_LE = 4" "length UFS2_MAGIC_BE = 4" "length UFS1_MAGIC_LE = 4" "length UFS1_MAGIC_BE = 4"
  by (simp_all add: UFS2_MAGIC_LE_def UFS2_MAGIC_BE_def UFS1_MAGIC_LE_def UFS1_MAGIC_BE_def)

lemma probe_tests:
  "test_ufs_probe_matches_ufs2_magic_either_order" "test_ufs_probe_matches_ufs1_magic_either_order"
  "test_ufs_probe_declines_non_ufs"
  by (simp_all add: test_ufs_probe_matches_ufs2_magic_either_order_def
      test_ufs_probe_matches_ufs1_magic_either_order_def test_ufs_probe_declines_non_ufs_def ufs_probe_def
      window_holds window_short magic_lengths, simp_all add: window_short magic_lengths sb_consts)


section \<open>The volume\<close>

text \<open>The byte source over a vector: an offset past the end reads nothing.\<close>

definition bytes_len :: "bytes \<Rightarrow> u64" where
  "bytes_len d = of_nat (length d)"

definition bytes_read_at :: "bytes \<Rightarrow> u64 \<Rightarrow> bytes \<Rightarrow> (usize \<times> bytes) vfs_out" where
  "bytes_read_at d offset buf =
     (case slice_from d (unat offset) of
        None \<Rightarrow> Inr (0, buf)
      | Some s \<Rightarrow> (let n = min (length s) (length buf) in Inr (n, take n s @ drop n buf)))"

definition mount :: "bytes \<Rightarrow> ufs_fs vfs_out" where
  "mount img = ufs_open (bytes_len img) (bytes_read_at img)"

definition FSIZE :: usize where "FSIZE = 4096"
definition IBLKNO :: usize where "IBLKNO = 40"
definition FPG :: usize where "FPG = 256"
definition IPG :: usize where "IPG = 128"
definition ISZ :: usize where "ISZ = UFS2_DINODE_SIZE"
definition BSIZE :: usize where "BSIZE = 32768"

lemmas vfs_consts = FSIZE_def IBLKNO_def FPG_def IPG_def ISZ_def BSIZE_def sb_consts

definition vfs_ino_byte :: "usize \<Rightarrow> usize" where
  "vfs_ino_byte ino = (ino div IPG * FPG + IBLKNO) * FSIZE + ino mod IPG * ISZ"

definition vfs_dinode_writes :: "u16 \<Rightarrow> u64 \<Rightarrow> u64 list \<Rightarrow> (nat \<times> bytes) list" where
  "vfs_dinode_writes mode sz direct =
     [(0, endian_bytes Little mode), (2, endian_bytes Little (1 :: u16)), (4, endian_bytes Little (1000 :: u32)),
      (8, endian_bytes Little (1000 :: u32)), (16, endian_bytes Little sz),
      (40, endian_bytes Little (0x11223344 :: i64)), (64, endian_bytes Little (500 :: i32)),
      (56, endian_bytes Little (0x2233 :: i64))]
     @ map (\<lambda>(i, a). (112 + i * 8, endian_bytes Little a)) (take UFS_NDADDR (enumerate 0 direct))"

definition vfs_dinode :: "u16 \<Rightarrow> u64 \<Rightarrow> u64 list \<Rightarrow> bytes" where
  "vfs_dinode mode sz direct = fixture ISZ (vfs_dinode_writes mode sz direct)"

definition symlink_dinode_writes :: "bytes \<Rightarrow> (nat \<times> bytes) list" where
  "symlink_dinode_writes target =
     [(0, endian_bytes Little (0xA1FF :: u16)), (2, endian_bytes Little (1 :: u16)),
      (16, endian_bytes Little (of_nat (length target) :: u64)), (112, target)]"

definition symlink_dinode :: "bytes \<Rightarrow> bytes" where
  "symlink_dinode target = fixture ISZ (symlink_dinode_writes target)"

definition vfs_sb_writes :: "(nat \<times> bytes) list" where
  "vfs_sb_writes =
     (let w32 = (\<lambda>off (v :: i32). (off, endian_bytes Little v)); w64 = (\<lambda>off (v :: i64). (off, endian_bytes Little v)) in
      [w32 8 24, w32 12 32, w32 16 (of_nat IBLKNO), w32 20 48, w32 44 4, w32 48 (of_nat BSIZE),
       w32 52 (of_nat FSIZE), w32 56 8, w32 80 15, w32 84 12, w32 116 2048, w32 120 128, w32 184 (of_nat IPG),
       w32 188 (of_nat FPG), w32 1320 120, w64 1080 1022, w64 1088 901, w64 1000 (of_nat SBLOCK_UFS2),
       (1372, endian_bytes Little FS_UFS2_MAGIC)])"

definition vfs_root_block :: bytes where
  "vfs_root_block = dirent_bytes 2 12 4 (str ''.'') @ dirent_bytes 2 12 4 (str ''..'')
     @ dirent_bytes 4 24 8 (str ''file.txt'') @ dirent_bytes 5 16 10 (str ''sym'')
     @ dirent_bytes 6 (of_nat DIRBLKSIZ - 64) 4 (str ''sub'')"

definition vfs_sub_block :: bytes where
  "vfs_sub_block = dirent_bytes 6 12 4 (str ''.'') @ dirent_bytes 2 (of_nat DIRBLKSIZ - 12) 4 (str ''..'')"

definition vfs_content :: bytes where "vfs_content = str ''content-1'' @ [0x0A]"

definition tree_writes :: "(nat \<times> bytes) list" where
  "tree_writes =
     [(SBLOCK_UFS2, fixture 1376 vfs_sb_writes),
      (vfs_ino_byte 2, vfs_dinode 0x41ED 512 [60]),
      (vfs_ino_byte 4, vfs_dinode 0x81A4 (of_nat (length vfs_content)) [61]),
      (vfs_ino_byte 5, symlink_dinode (str ''target/path'')),
      (vfs_ino_byte 6, vfs_dinode 0x41ED 512 [62]),
      (60 * FSIZE, vfs_root_block), (61 * FSIZE, vfs_content), (62 * FSIZE, vfs_sub_block)]"

definition image_with_tree :: bytes where
  "image_with_tree =
     (let max_byte = Max {SBLOCK_UFS2 + 1376, vfs_ino_byte 7 + ISZ, (62 + 1) * FSIZE}
      in fixture (max_byte + 16) tree_writes)"

section \<open>The adapter's tests\<close>

definition test_open_rejects_non_ufs_source_loud :: bool where
  "test_open_rejects_non_ufs_source_loud \<longleftrightarrow>
     err_and (mount (replicate (SBLOCK_UFS2 + 2000) 0))
       (\<lambda>e. case e of VfsDecode layer _ _ _ \<Rightarrow> layer = ''ufs'' | _ \<Rightarrow> False)"

definition test_adapter_geometry_surface :: bool where
  "test_adapter_geometry_surface \<longleftrightarrow>
     ok_and (mount image_with_tree) (\<lambda>fs.
       vfs_kind fs = KindUFS \<and> vfs_timestamp_zone fs = ZoneUtc
       \<and> ss_logical (vfs_sector_sizes fs) = 512 \<and> ss_physical (vfs_sector_sizes fs) = 512
       \<and> ss_cluster_or_block (vfs_sector_sizes fs) = of_nat BSIZE
       \<and> vfs_root fs = (FileIdOpaque UFS_ROOTINO :: foreign_id file_id))"

definition test_extents_on_empty_file_is_empty ::
  "(foreign_id \<Rightarrow> string) \<Rightarrow> (foreign_stream \<Rightarrow> string) \<Rightarrow> bool" where
  "test_extents_on_empty_file_is_empty dbg sdbg \<longleftrightarrow>
     ok_and (mount (slice_put image_with_tree (vfs_ino_byte 4) (vfs_dinode 0x81A4 0 []))) (\<lambda>fs.
       ok_and (vfs_extents dbg sdbg fs (FileIdOpaque 4) StreamDefault :: run_info list vfs_out)
         (\<lambda>runs. length runs = 0))"

definition test_adapter_navigates_the_synthetic_tree ::
  "(foreign_id \<Rightarrow> string) \<Rightarrow> (foreign_stream \<Rightarrow> string) \<Rightarrow> bool" where
  "test_adapter_navigates_the_synthetic_tree dbg sdbg \<longleftrightarrow>
     ok_and (mount image_with_tree) (\<lambda>fs.
       let root = vfs_root fs;
           meta = (\<lambda>f. vfs_meta dbg fs f :: fs_meta vfs_out);
           lookup = (\<lambda>name. vfs_lookup dbg fs root (str name) :: foreign_id file_id option vfs_out);
           read_dir = (\<lambda>f. vfs_read_dir dbg fs f :: vfs_dir_entry list vfs_out);
           extents = (\<lambda>f st. vfs_extents dbg sdbg fs f st :: run_info list vfs_out);
           read_at = (\<lambda>f st off buf. vfs_read_at dbg sdbg fs f st off buf :: (usize \<times> bytes) vfs_out);
           read_link = (\<lambda>f cap. vfs_read_link dbg fs f cap :: bytes vfs_out) in
       ok_and (meta root) (\<lambda>m. m_kind m = NodeDir)
       \<and> ok_and (read_dir root) (\<lambda>es.
           let listing = map (\<lambda>e. (decode_name (ve_name e), ve_ino e, ve_kind e)) es in
           (str ''file.txt'', 4, NodeFile) \<in> set listing \<and> (str ''sym'', 5, NodeSymlink) \<in> set listing
           \<and> (str ''sub'', 6, NodeDir) \<in> set listing)
       \<and> found (lookup ''file.txt'') (\<lambda>file.
           file = FileIdOpaque 4
           \<and> ok_and (meta file) (\<lambda>m.
               m_kind m = NodeFile \<and> m_size m = 10 \<and> m_residency m = NonResident
               \<and> m_uid m = Some 1000 \<and> m_gid m = Some 1000 \<and> m_nlink m = 1
               \<and> t_modified (m_times m) \<noteq> None \<and> t_born (m_times m) \<noteq> None
               \<and> ok_and (read_at file StreamDefault 0 (replicate (unat (m_size m)) 0))
                   (\<lambda>(n, buf). take n buf = vfs_content)
               \<and> ok_and (read_at file StreamDefault (m_size m + 100) (replicate 4 0)) (\<lambda>(n, buf). n = 0))
           \<and> ok_and (extents file StreamDefault) (\<lambda>runs.
               length runs = 1 \<and> run_offset (runs ! 0) = of_nat (61 * FSIZE) \<and> run_len (runs ! 0) = 10
               \<and> run_state (runs ! 0) = RunAllocated)
           \<and> err_and (extents file (StreamOther (StreamNamed 1))) (\<lambda>_. True)
           \<and> err_and (read_at file (StreamOther StreamSlack) 0 (replicate 4 0)) (\<lambda>_. True))
       \<and> not_found (lookup ''nope'')
       \<and> found (lookup ''sub'') (\<lambda>sub.
           ok_and (meta sub) (\<lambda>m. m_kind m = NodeDir)
           \<and> ok_and (read_dir sub) (\<lambda>es.
               let sub_children = map (\<lambda>e. decode_name (ve_name e)) es in
               str ''.'' \<in> set sub_children \<and> str ''..'' \<in> set sub_children))
       \<and> found (lookup ''sym'') (\<lambda>sym.
           ok_and (meta sym) (\<lambda>m. m_kind m = NodeSymlink
             \<and> (case m_residency m of Resident _ \<Rightarrow> True | NonResident \<Rightarrow> False))
           \<and> ok_and (read_link sym 4096) (\<lambda>t. t = str ''target/path'')
           \<and> ok_and (read_link sym 6) (\<lambda>t. t = str ''target''))
       \<and> ok_and (read_link root 4096) (\<lambda>t. t = [])
       \<and> ok_and (vfs_deleted fs :: unit list vfs_out) (\<lambda>ds. length ds = 0)
       \<and> ok_and (vfs_unallocated fs :: run_info list vfs_out) (\<lambda>us. length us = 0))"


section \<open>They pass\<close>

definition vfs_sb :: superblock where
  "vfs_sb = (synthetic_sb Ufs2 Little)\<lparr> sb_nindir := 2048 \<rparr>"

lemma vfs_sb_holds: "list_all (holds 1376 vfs_sb_writes) (sb_fields vfs_sb)"
  by (simp add: sb_fixture_simps vfs_sb_writes_def vfs_sb_def synthetic_sb_def vfs_consts)

lemma vfs_sb_wf: "wf_superblock vfs_sb"
  by (simp add: vfs_sb_def synthetic_sb_def wf_superblock_def wf_geometry_def)

lemma vfs_sb_geometry:
  "inode_geometry_ok vfs_sb" "inode_count vfs_sb = 512" "sb_version vfs_sb = Ufs2" "sb_endian vfs_sb = Little"
  "inode_offset vfs_sb n = (n div 128 * 256 + 40) * 4096 + n mod 128 * 256" "file_geometry_ok vfs_sb"
  "sb_maxsymlinklen vfs_sb = 120" "nat_i32 (sb_fsize vfs_sb) = 4096" "nat_i32 (sb_bsize vfs_sb) = 32768"
  "sint (sb_fsize vfs_sb) = 4096" "sint (sb_bsize vfs_sb) = 32768"
  by (simp_all add: vfs_sb_def synthetic_sb_def inode_geometry_ok_def inode_count_def inode_offset_def nat_i32_def
      file_geometry_ok_def dinode_size_def sb_consts)

lemma fixture_superblock:
  assumes "list_all (holds 1376 ws) (sb_fields sb)" "wf_superblock sb" "holds n fs (k, fixture 1376 ws)"
  shows "sb_parse (drop k (fixture n fs)) = Inr sb"
proof -
  have "sb_write sb (fixture 1376 ws) = fixture 1376 ws"
    using assms(1) by (simp add: sb_write_def fixture_patch)
  moreover have "drop k (fixture n fs) = fixture 1376 ws @ drop (k + 1376) (fixture n fs)"
    using append_take_drop_id [of 1376 "drop k (fixture n fs)"] fixture_take [OF assms(3), of 1376]
    by (simp add: add.commute)
  ultimately show ?thesis
    using sb_parse_append [OF assms(2), of "fixture 1376 ws"] by (simp add: sb_consts)
qed

lemma mount_fixture:
  assumes "n \<le> isize_max" "holds n fs (65536, fixture 1376 vfs_sb_writes)"
  shows "mount (fixture n fs) = Inr \<lparr> fs_image = fixture n fs, fs_sb = vfs_sb \<rparr>"
proof -
  have u: "unat (of_nat n :: u64) = n" using assms(1) by (simp add: unat_of_nat)
  have "65536 \<le> n" using assms(2) by (simp add: holds_def)
  then have "parse_primary (fixture n fs) SBLOCK_UFS2 = Inr vfs_sb"
    using fixture_superblock [OF vfs_sb_holds vfs_sb_wf assms(2)] by (simp add: parse_primary_Inr sb_consts)
  then show ?thesis
    unfolding mount_def
    by (subst ufs_open_Inr [where n = n and buf = "fixture n fs"])
      (simp_all add: bytes_read_at_def bytes_len_def slice_from_def u)
qed

definition vfs_inode :: "u16 \<Rightarrow> u64 \<Rightarrow> u64 \<Rightarrow> inode" where
  "vfs_inode mode sz db0 = (plain_inode mode 1 sz (db0 # replicate 11 0) [0, 0, 0])
     \<lparr> i_uid := 1000, i_gid := 1000, i_mtime := \<lparr> ts_sec = 0x11223344, ts_nsec = 500 \<rparr>,
       i_birthtime := Some \<lparr> ts_sec = 0x2233, ts_nsec = 0 \<rparr> \<rparr>"

lemma vfs_dinode_parse:
  assumes "file_type_from_mode mode \<noteq> FtSymlink" "ds = [db0] \<or> ds = [] \<and> db0 = 0"
  shows "inode_parse_with_maxsymlink (vfs_dinode mode sz ds) Ufs2 Little m = Inr (vfs_inode mode sz db0)"
proof -
  have "list_all (holds 256 (vfs_dinode_writes mode sz ds)) (inode_fields Little (vfs_inode mode sz db0))"
    using assms(2)
    by (elim disjE) (simp_all add: inode_fixture_simps vfs_dinode_writes_def vfs_inode_def plain_inode_def)
  moreover have "wf_inode (vfs_inode mode sz db0)"
    by (simp add: wf_inode_def vfs_inode_def plain_inode_def sb_consts)
  ultimately show ?thesis
    using fixture_inode [of Ufs2 256 "vfs_dinode_writes mode sz ds" Little "vfs_inode mode sz db0" m] assms(1)
    by (simp add: vfs_dinode_def dinode_size_def vfs_consts)
      (simp add: vfs_inode_def plain_inode_def inode_fast_symlink_def)
qed

lemma vfs_lengths [simp]:
  "length (vfs_dinode mode sz ds) = 256" "length (symlink_dinode t) = 256" "length vfs_content = 10"
  by (simp_all add: vfs_dinode_def symlink_dinode_def vfs_consts vfs_content_def)

definition vfs_root_dirents :: "raw_dirent list" where
  "vfs_root_dirents = [plain_dirent 2 12 4 (str ''.''), plain_dirent 2 12 4 (str ''..''),
     plain_dirent 4 24 8 (str ''file.txt''), plain_dirent 5 16 10 (str ''sym''), plain_dirent 6 448 4 (str ''sub'')]"

definition vfs_sub_dirents :: "raw_dirent list" where
  "vfs_sub_dirents = [plain_dirent 6 12 4 (str ''.''), plain_dirent 2 500 4 (str ''..'')]"

lemma vfs_blocks:
  "vfs_root_block = concat (map (raw_bytes Little) vfs_root_dirents)"
  "vfs_sub_block = concat (map (raw_bytes Little) vfs_sub_dirents)"
  "\<forall>r \<in> set vfs_root_dirents. raw_ok r" "\<forall>r \<in> set vfs_sub_dirents. raw_ok r"
  by (simp_all add: vfs_root_block_def vfs_sub_block_def vfs_root_dirents_def vfs_sub_dirents_def
      dirent_bytes_layout plain_dirent_ok sb_consts)

lemma vfs_block_lengths [simp]: "length vfs_root_block = 512" "length vfs_sub_block = 512"
  by (simp_all add: vfs_blocks vfs_root_dirents_def vfs_sub_dirents_def raw_reclen_def plain_dirent_def)


text \<open>Volumes that hold the tree, whatever their inode 4 is.\<close>

definition vfs_fs :: "(nat \<times> bytes) list \<Rightarrow> ufs_fs" where
  "vfs_fs fs = \<lparr> fs_image = fixture 258064 fs, fs_sb = vfs_sb \<rparr>"

lemma image_with_tree_fixture: "image_with_tree = fixture 258064 tree_writes"
  by (simp add: image_with_tree_def vfs_ino_byte_def vfs_consts)

lemma tree_holds:
  "holds 258064 tree_writes (65536, fixture 1376 vfs_sb_writes)"
  "holds 258064 tree_writes (164352, vfs_dinode 0x41ED 512 [60])"
  "holds 258064 tree_writes (164864, vfs_dinode 0x81A4 10 [61])"
  "holds 258064 tree_writes (165120, symlink_dinode (str ''target/path''))"
  "holds 258064 tree_writes (165376, vfs_dinode 0x41ED 512 [62])"
  "holds 258064 tree_writes (245760, vfs_root_block)" "holds 258064 tree_writes (249856, vfs_content)"
  "holds 258064 tree_writes (253952, vfs_sub_block)"
  "holds 258064 (tree_writes @ [(vfs_ino_byte 4, vfs_dinode 0x81A4 0 [])]) (65536, fixture 1376 vfs_sb_writes)"
  "holds 258064 (tree_writes @ [(vfs_ino_byte 4, vfs_dinode 0x81A4 0 [])]) (164864, vfs_dinode 0x81A4 0 [])"
  by (simp_all add: tree_writes_def holds_def vfs_ino_byte_def vfs_consts)

lemma tree_mount: "mount image_with_tree = Inr (vfs_fs tree_writes)"
  unfolding image_with_tree_fixture vfs_fs_def by (rule mount_fixture [OF _ tree_holds(1)]) simp

lemma tree_valid: "valid_slice (fs_image (vfs_fs fs))"
  by (simp add: vfs_fs_def valid_slice_def)

lemma tree_inode:
  assumes "unat ino < 512" "holds 258064 fs (inode_offset vfs_sb (unat ino), vfs_dinode mode sz ds)"
    and "file_type_from_mode mode \<noteq> FtSymlink" "ds = [db0] \<or> ds = [] \<and> db0 = 0"
  shows "read_inode (fs_image (vfs_fs fs)) (fs_sb (vfs_fs fs)) ino = Inr (vfs_inode mode sz db0)"
  unfolding vfs_fs_def ufs_fs.simps
  by (rule fixture_read_inode [OF _ _ _ assms(2)])
    (use assms in \<open>simp_all add: vfs_sb_geometry vfs_dinode_parse dinode_size_def vfs_consts\<close>)

lemma tree_inodes:
  "read_inode (fs_image (vfs_fs tree_writes)) (fs_sb (vfs_fs tree_writes)) 2 = Inr (vfs_inode 0x41ED 512 60)"
  "read_inode (fs_image (vfs_fs tree_writes)) (fs_sb (vfs_fs tree_writes)) 4 = Inr (vfs_inode 0x81A4 10 61)"
  "read_inode (fs_image (vfs_fs tree_writes)) (fs_sb (vfs_fs tree_writes)) 6 = Inr (vfs_inode 0x41ED 512 62)"
  by (rule tree_inode [where ds = "[60]"], simp_all add: vfs_sb_geometry tree_holds modes)
    (rule tree_inode [where ds = "[61]"] tree_inode [where ds = "[62]"];
      simp add: vfs_sb_geometry tree_holds modes)+


definition vfs_link :: inode where
  "vfs_link = inode_decode (symlink_dinode (str ''target/path'')) Ufs2 Little 120"

lemma vfs_link_parse:
  "inode_parse_with_maxsymlink (symlink_dinode (str ''target/path'')) Ufs2 Little 120 = Inr vfs_link"
  "i_file_type vfs_link = FtSymlink" "inode_symlink_target vfs_link = Some (str ''target/path'')"
proof -
  have "inode_parse_with_maxsymlink (symlink_dinode (str ''target/path'')) Ufs2 Little 120 = Inr vfs_link
    \<and> i_file_type vfs_link = FtSymlink \<and> inode_symlink_target vfs_link = Some (str ''target/path'')"
    unfolding vfs_link_def symlink_dinode_def
    by (rule fixture_symlink [where mode = "0xA1FF"])
      (simp_all add: symlink_dinode_writes_def holds_def modes dinode_size_def inode_db_off_def inode_ptr_size_def
        vfs_consts)
  then show "inode_parse_with_maxsymlink (symlink_dinode (str ''target/path'')) Ufs2 Little 120 = Inr vfs_link"
    "i_file_type vfs_link = FtSymlink" "inode_symlink_target vfs_link = Some (str ''target/path'')" by blast+
qed

lemma tree_link: "read_inode (fs_image (vfs_fs tree_writes)) (fs_sb (vfs_fs tree_writes)) 5 = Inr vfs_link"
proof -
  have "holds 258064 tree_writes (inode_offset vfs_sb (unat (5 :: u64)), symlink_dinode (str ''target/path''))"
    using tree_holds(4) by (simp add: vfs_sb_geometry)
  then show ?thesis
    unfolding vfs_fs_def ufs_fs.simps
    by (rule fixture_read_inode [rotated 3])
      (use vfs_link_parse(1) in \<open>simp_all add: vfs_sb_geometry dinode_size_def vfs_consts\<close>)
qed

lemma tree_listings:
  "list_dir_entries (fs_image (vfs_fs tree_writes)) (fs_sb (vfs_fs tree_writes)) (vfs_inode 0x41ED 512 60)
     = map raw_entry vfs_root_dirents"
  "list_dir_entries (fs_image (vfs_fs tree_writes)) (fs_sb (vfs_fs tree_writes)) (vfs_inode 0x41ED 512 62)
     = map raw_entry vfs_sub_dirents"
proof -
  have "take 512 (drop (unat (60 :: u64) * 4096) (fixture 258064 tree_writes))
      = concat (map (raw_bytes Little) vfs_root_dirents)"
    using fixture_take [OF tree_holds(6), of 512] by (simp add: vfs_blocks(1) [symmetric])
  then show "list_dir_entries (fs_image (vfs_fs tree_writes)) (fs_sb (vfs_fs tree_writes)) (vfs_inode 0x41ED 512 60)
     = map raw_entry vfs_root_dirents"
    by (intro one_block_dir [OF tree_valid])
      (simp_all add: vfs_fs_def vfs_sb_geometry vfs_inode_def plain_inode_def vfs_blocks)
  have "take 512 (drop (unat (62 :: u64) * 4096) (fixture 258064 tree_writes))
      = concat (map (raw_bytes Little) vfs_sub_dirents)"
    using fixture_take [OF tree_holds(8), of 512] by (simp add: vfs_blocks(2) [symmetric])
  then show "list_dir_entries (fs_image (vfs_fs tree_writes)) (fs_sb (vfs_fs tree_writes)) (vfs_inode 0x41ED 512 62)
     = map raw_entry vfs_sub_dirents"
    by (intro one_block_dir [OF tree_valid])
      (simp_all add: vfs_fs_def vfs_sb_geometry vfs_inode_def plain_inode_def vfs_blocks)
qed

lemma tree_content: "read_file (fs_image (vfs_fs tree_writes)) (fs_sb (vfs_fs tree_writes)) 4 = Inr vfs_content"
proof -
  let ?i = "vfs_inode 0x81A4 10 61"
  have "file_byte (fixture 258064 tree_writes) vfs_sb ?i k = vfs_content ! k" if "k < 10" for k
    using that fixture_nth [OF tree_holds(7), of k]
    by (simp add: file_byte_def block_addr_def block_path_def place_addr_def vfs_sb_geometry vfs_inode_def
        plain_inode_def Let_def)
  then have "map (file_byte (fixture 258064 tree_writes) vfs_sb ?i) [0..<10] = vfs_content"
    by (intro nth_equalityI) simp_all
  moreover have "i_size ?i = 10" by (simp add: vfs_inode_def plain_inode_def)
  ultimately show ?thesis
    using tree_valid [of tree_writes]
    by (simp add: read_file_def tree_inodes) (simp add: vfs_fs_def read_inode_file_exact vfs_sb_geometry)
qed

lemma vfs_entries:
  "map raw_entry vfs_root_dirents =
     [\<lparr> de_name = str ''.'', de_ino = 2, de_file_type = DtDirectory, de_deleted = False \<rparr>,
      \<lparr> de_name = str ''..'', de_ino = 2, de_file_type = DtDirectory, de_deleted = False \<rparr>,
      \<lparr> de_name = str ''file.txt'', de_ino = 4, de_file_type = DtRegular, de_deleted = False \<rparr>,
      \<lparr> de_name = str ''sym'', de_ino = 5, de_file_type = DtSymlink, de_deleted = False \<rparr>,
      \<lparr> de_name = str ''sub'', de_ino = 6, de_file_type = DtDirectory, de_deleted = False \<rparr>]"
  "map raw_entry vfs_sub_dirents =
     [\<lparr> de_name = str ''.'', de_ino = 6, de_file_type = DtDirectory, de_deleted = False \<rparr>,
      \<lparr> de_name = str ''..'', de_ino = 2, de_file_type = DtDirectory, de_deleted = False \<rparr>]"
  by (simp_all add: vfs_root_dirents_def vfs_sub_dirents_def plain_dirent_def raw_entry_def from_d_type_def)

lemma tree_dirs:
  "list_dir (fs_image (vfs_fs tree_writes)) (fs_sb (vfs_fs tree_writes)) 2 = Inr (map raw_entry vfs_root_dirents)"
  "list_dir (fs_image (vfs_fs tree_writes)) (fs_sb (vfs_fs tree_writes)) 6 = Inr (map raw_entry vfs_sub_dirents)"
proof -
  have "inode_is_dir (vfs_inode 0x41ED 512 db0)" for db0
    by (simp add: vfs_inode_def plain_inode_def inode_is_dir_def modes)
  then show
    "list_dir (fs_image (vfs_fs tree_writes)) (fs_sb (vfs_fs tree_writes)) 2 = Inr (map raw_entry vfs_root_dirents)"
    "list_dir (fs_image (vfs_fs tree_writes)) (fs_sb (vfs_fs tree_writes)) 6 = Inr (map raw_entry vfs_sub_dirents)"
    by (simp_all add: list_dir_def list_dir_all_def tree_inodes tree_listings vfs_entries)
qed

lemma lossy_ascii: "list_all (\<lambda>b. b < 0x80) bs \<Longrightarrow> from_utf8_lossy bs = bs"
  by (induction bs) (simp_all add: from_utf8_lossy.simps [of "_ # _"] utf8_step_def u8_at_def)

lemma decode_ascii: "list_all (\<lambda>b. b < 0x80) bs \<Longrightarrow> decode_name bs = bs"
  by (simp add: decode_name_def lossy_ascii)

lemma adapter_tests:
  "test_adapter_geometry_surface" "test_extents_on_empty_file_is_empty dbg sdbg"
proof -
  show "test_adapter_geometry_surface"
    by (simp add: test_adapter_geometry_surface_def tree_mount vfs_kind_def vfs_timestamp_zone_def
        vfs_sector_sizes_def vfs_root_def) (simp add: vfs_fs_def vfs_sb_def synthetic_sb_def vfs_consts)
  let ?fs = "tree_writes @ [(vfs_ino_byte 4, vfs_dinode 0x81A4 0 [])]"
  have "mount (slice_put image_with_tree (vfs_ino_byte 4) (vfs_dinode 0x81A4 0 [])) = Inr (vfs_fs ?fs)"
    unfolding image_with_tree_fixture fixture_put vfs_fs_def by (rule mount_fixture [OF _ tree_holds(9)]) simp
  moreover have "read_inode (fs_image (vfs_fs ?fs)) (fs_sb (vfs_fs ?fs)) 4 = Inr (vfs_inode 0x81A4 0 0)"
    by (rule tree_inode [where ds = "[]"]) (use tree_holds(10) in \<open>simp_all add: vfs_sb_geometry modes\<close>)
  moreover have "i_direct (vfs_inode 0x81A4 0 0) = replicate 12 0" "i_size (vfs_inode 0x81A4 0 0) = 0"
    by (simp_all add: vfs_inode_def plain_inode_def numeral_eq_Suc)
  ultimately show "test_extents_on_empty_file_is_empty dbg sdbg"
    by (simp add: test_extents_on_empty_file_is_empty_def vfs_extents_def require_default_stream_def
        fs_inode_def ino_of_def numeral_eq_Suc sb_consts)
qed

lemma zeros_no_superblock:
  assumes "1376 \<le> n"
  shows "sb_parse (replicate n 0) = Inl (ErrBadMagic FS_MAGIC_OFF [0, 0, 0, 0] 0 0)"
proof -
  have "sb_magic_bytes (replicate n 0) = [0, 0, 0, 0]"
    using assms by (simp add: sb_magic_bytes_def u8_at_def sb_consts)
  then show ?thesis
    using assms by (simp add: sb_parse_def sb_detect_def from_le_def from_be_def sb_consts)
qed

lemma open_rejects_test: "test_open_rejects_non_ufs_source_loud"
proof -
  let ?d = "replicate 67536 (0 :: u8)"
  have "parse_primary ?d SBLOCK_UFS2 = Inl (ErrBadMagic FS_MAGIC_OFF [0, 0, 0, 0] 0 0)"
    "parse_primary ?d SBLOCK_UFS1 = Inl (ErrBadMagic FS_MAGIC_OFF [0, 0, 0, 0] 0 0)"
    by (simp_all add: parse_primary_def slice_from_def sb_consts zeros_no_superblock)
  then have "mount ?d = Inl (map_err (ErrBadMagic FS_MAGIC_OFF [0, 0, 0, 0] 0 0))"
    by (simp add: mount_def ufs_open_def bytes_read_at_def bytes_len_def slice_from_def)
  then show ?thesis
    by (simp add: test_open_rejects_non_ufs_source_loud_def SBLOCK_UFS2_def map_err_def)
qed

lemma extents_loop_done: "extents_loop fsize bsize addrs 0 = []"
  by (cases addrs) simp_all

lemma navigate_test: "test_adapter_navigates_the_synthetic_tree dbg sdbg"
proof -
  let ?fs = "vfs_fs tree_writes"
  note inodes = tree_inodes tree_link
  note ops = vfs_meta_def vfs_read_at_def vfs_extents_def vfs_read_link_def fs_inode_def ino_of_def
    require_default_stream_def slice_from_def
  have sizes: "i32_max0 (sb_fsize vfs_sb) = 4096" "i32_max0 (sb_bsize vfs_sb) = 32768"
    "max (32768 :: u64) 1 = 32768" "min (10 :: u64) 32768 = 10" "sat_sub (10 :: u64) 32768 = 0"
    "sat_mul (61 :: u64) 4096 = 249856"
    by (simp_all add: vfs_sb_def synthetic_sb_def i32_max0_def sat_sub_def sat_mul_def max_def min_def
        word_le_nat_alt)
  note kinds = vfs_entry_kind_def node_kind_of_def vfs_link_parse(2)
  have types: "i_file_type (vfs_inode 0x41ED sz a) = FtDirectory" "i_file_type (vfs_inode 0x81A4 sz a) = FtRegular"
    "inode_symlink_target (vfs_inode 0x41ED sz a) = None" "inode_symlink_target (vfs_inode 0x81A4 sz a) = None"
    for sz a by (simp_all add: vfs_inode_def plain_inode_def modes inode_symlink_target_def)
  have read_dir: "vfs_read_dir dbg ?fs (FileIdOpaque 2) = (Inr (map (\<lambda>e. \<lparr> ve_name = de_name e, ve_ino = de_ino e,
      ve_kind = vfs_entry_kind ?fs (de_ino e) \<rparr>) (map raw_entry vfs_root_dirents)) :: vfs_dir_entry list vfs_out)"
    "vfs_read_dir dbg ?fs (FileIdOpaque 6) = (Inr (map (\<lambda>e. \<lparr> ve_name = de_name e, ve_ino = de_ino e,
      ve_kind = vfs_entry_kind ?fs (de_ino e) \<rparr>) (map raw_entry vfs_sub_dirents)) :: vfs_dir_entry list vfs_out)"
    by (simp_all add: vfs_read_dir_def ino_of_def tree_dirs)
  have lookup: "vfs_lookup dbg ?fs (vfs_root ?fs) name
      = (Inr (map_option (\<lambda>e. FileIdOpaque (de_ino e)) (find (\<lambda>e. de_name e = name) (map raw_entry vfs_root_dirents)))
        :: foreign_id file_id option vfs_out)" for name
    by (simp add: vfs_lookup_def vfs_root_def UFS_ROOTINO_def ino_of_def tree_dirs)
  show ?thesis
    unfolding test_adapter_navigates_the_synthetic_tree_def tree_mount ok_and_simps Let_def
    apply (intro conjI)
    subgoal by (simp add: vfs_meta_def vfs_root_def UFS_ROOTINO_def ino_of_def inodes types kinds)
    subgoal by (simp add: vfs_root_def UFS_ROOTINO_def read_dir vfs_entries decode_ascii inodes types kinds)
    subgoal
      by (simp add: lookup vfs_entries found_def ops inodes types kinds tree_content)
        (simp add: vfs_inode_def plain_inode_def vfs_fs_def sizes extents_loop_done vfs_consts)
    subgoal by (simp add: lookup vfs_entries not_found_def)
    subgoal by (simp add: lookup vfs_entries found_def read_dir decode_ascii ops inodes types kinds)
    subgoal by (simp add: lookup vfs_entries found_def ops inodes kinds vfs_link_parse(3) read_symlink_target_def)
    subgoal by (simp add: vfs_read_link_def fs_inode_def ino_of_def inodes types vfs_root_def UFS_ROOTINO_def)
    subgoal by (simp add: vfs_deleted_def)
    subgoal by (simp add: vfs_unallocated_def)
    done
qed

end
