(* ===== verification/TestsForensic.thy ===== *)
theory TestsForensic
  imports TestsVfs "HOL-Library.Sublist"
begin

text \<open>
  The unit tests at the end of \<open>forensic/src/lib.rs\<close>: the raw readers, the bitmap, the decoded names, and what an
  anomaly derives from its kind. The digest and the conversion to a finding are code of other crates: their tests take
  them as arguments, and pass when those do what they document.
\<close>

definition test_raw_readers_yield_zero_out_of_range :: bool where
  "test_raw_readers_yield_zero_out_of_range \<longleftrightarrow>
     read_u32_le [0, 0, 0] 0 = 0 \<and> read_u32_le [1, 0, 0, 0] 0 = 1
     \<and> read_u32_be [0, 0, 0] 0 = 0 \<and> read_u32_be [0, 0, 0, 1] 0 = 1"

definition test_bitmap_bit_reads_lsb_first :: bool where
  "test_bitmap_bit_reads_lsb_first \<longleftrightarrow>
     (let bmp = [0x05, 0x80] in
      bitmap_bit bmp 0 \<and> \<not> bitmap_bit bmp 1 \<and> bitmap_bit bmp 2 \<and> bitmap_bit bmp 15 \<and> \<not> bitmap_bit bmp 16)"

definition test_decode_name_is_lossy :: bool where
  "test_decode_name_is_lossy \<longleftrightarrow>
     decode_name (str ''secret.txt'') = str ''secret.txt''
     \<and> (let _ = decode_name [0xFF, 0xFE, 0x61] in True)"

text \<open>\<open>to_lowercase\<close> on text whose only characters outside ASCII have no case, and \<open>contains\<close>.\<close>

definition to_lowercase :: "string \<Rightarrow> string" where
  "to_lowercase s =
     map (\<lambda>c. let n = of_char c :: nat in if 65 \<le> n \<and> n \<le> 90 then char_of (n + 32) else c) s"

fun str_contains :: "string \<Rightarrow> string \<Rightarrow> bool" where
  "str_contains p [] = (p = [])"
| "str_contains p (c # cs) = (prefix p (c # cs) \<or> str_contains p cs)"

definition every_kind :: "anomaly_kind list" where
  "every_kind =
     [SuperblockMagicInvalid 66908 [0xDE, 0xAD, 0xBE, 0xEF],
      BackupSuperblockDivergence 1 ''fs_ipg'' 128 999 1146880,
      CgMagicInvalid 2 0x12345678 2228224,
      OrphanedInode 6 1,
      ImpossibleGeometry ''fs_ncg'' 100000 5]"

definition test_every_anomaly_kind_derives_code_severity_note_and_evidence :: bool where
  "test_every_anomaly_kind_derives_code_severity_note_and_evidence \<longleftrightarrow>
     list_all (\<lambda>kind.
       let a = anomaly_new kind; ob = anomaly_observation a in
       prefix ''UFS-'' (an_code a) \<and> an_code a = kind_code kind \<and> an_note a = kind_note kind
       \<and> an_severity a = kind_severity kind
       \<and> (str_contains ''consistent with'' (to_lowercase (an_note a))
          \<or> str_contains ''unlinked while still open'' (to_lowercase (an_note a)))
       \<and> kind_evidence (an_kind a) \<noteq> []
       \<and> obs_severity ob = Some (an_severity a) \<and> obs_code ob = an_code a \<and> obs_note ob = an_note a
       \<and> obs_evidence ob \<noteq> []) every_kind"

definition test_severity_grading_matches_spec :: bool where
  "test_severity_grading_matches_spec \<longleftrightarrow>
     kind_severity (OrphanedInode 6 1) = SevMedium \<and> kind_severity (CgMagicInvalid 0 0 0) = SevHigh"

definition test_evidence_locations_are_kind_specific :: bool where
  "test_evidence_locations_are_kind_specific \<longleftrightarrow>
     ev_location (kind_evidence (ImpossibleGeometry ''f'' 2 1) ! 0) = None
     \<and> ev_location (kind_evidence (SuperblockMagicInvalid 0x1234 [1, 2, 3, 4]) ! 0) = Some (LocByteOffset 0x1234)"

definition test_sha256_of_known_input :: "(bytes \<Rightarrow> bytes) \<Rightarrow> bool" where
  "test_sha256_of_known_input sha256 \<longleftrightarrow>
     sha256_hex sha256 (str ''abc'') = ''ba7816bf8f01cfea414140de5dae2223b00361a396177a9cb410ff61f20015ad''
     \<and> sha256_hex sha256 [] = ''e3b0c44298fc1c149afbf4c8996fb92427ae41e4649b934ca495991b7852b855''"

text \<open>\<open>to_finding\<close> and the fields of a finding are arguments.\<close>

definition test_to_finding_tags_analyzer_scope ::
  "(observation \<Rightarrow> report_source \<Rightarrow> 'f) \<Rightarrow> ('f \<Rightarrow> report_source) \<Rightarrow> ('f \<Rightarrow> string) \<Rightarrow> bool" where
  "test_to_finding_tags_analyzer_scope to_finding source_of code_of \<longleftrightarrow>
     (let source = \<lparr> src_analyzer = ''ufs-forensic'', src_scope = ''part0'', src_version = None \<rparr> in
      list_all (\<lambda>kind.
        let a = anomaly_new kind; f = to_finding (anomaly_observation a) source in
        src_analyzer (source_of f) = ''ufs-forensic'' \<and> src_scope (source_of f) = ''part0'' \<and> code_of f = an_code a)
      [OrphanedInode 9 2, ImpossibleGeometry ''x'' 2 1])"

section \<open>They pass\<close>

lemma str_contains_append: "str_contains p t \<Longrightarrow> str_contains p (s @ t)"
  by (induction s) simp_all

lemma str_contains_prefix: "prefix p t \<Longrightarrow> str_contains p t"
  by (cases t) simp_all

text \<open>A text that ends in a literal that contains the words contains them.\<close>

lemma lower_contains:
  "to_lowercase u = u \<Longrightarrow> str_contains p u \<Longrightarrow> str_contains p (to_lowercase (s @ u))"
  by (simp add: to_lowercase_def str_contains_append)

lemma note_words:
  "str_contains ''consistent with'' (to_lowercase (kind_note (SuperblockMagicInvalid off bs)))"
  "str_contains ''consistent with'' (to_lowercase (kind_note (BackupSuperblockDivergence cg f p b off)))"
  "str_contains ''consistent with'' (to_lowercase (kind_note (CgMagicInvalid cg fd off)))"
  "str_contains ''unlinked while still open'' (to_lowercase (kind_note (OrphanedInode ino nlink)))"
  "str_contains ''consistent with'' (to_lowercase (kind_note (ImpossibleGeometry f v l)))"
  unfolding kind_note.simps append_assoc [symmetric]
  by (rule lower_contains; simp add: to_lowercase_def)+

lemma forensic_tests:
  "test_raw_readers_yield_zero_out_of_range" "test_bitmap_bit_reads_lsb_first" "test_decode_name_is_lossy"
  "test_every_anomaly_kind_derives_code_severity_note_and_evidence" "test_severity_grading_matches_spec"
  "test_evidence_locations_are_kind_specific"
proof -
  show "test_raw_readers_yield_zero_out_of_range"
    by (simp add: test_raw_readers_yield_zero_out_of_range_def read_u32_le_def read_u32_be_def eval_readers usize_sat_add_def)
  show "test_bitmap_bit_reads_lsb_first"
    by (simp add: test_bitmap_bit_reads_lsb_first_def bitmap_bit_def)
  show "test_decode_name_is_lossy"
    by (simp add: test_decode_name_is_lossy_def decode_ascii)
  show "test_every_anomaly_kind_derives_code_severity_note_and_evidence"
    by (simp add: test_every_anomaly_kind_derives_code_severity_note_and_evidence_def every_kind_def Let_def
        anomaly_observation_def note_words del: kind_note.simps)
  show "test_severity_grading_matches_spec" "test_evidence_locations_are_kind_specific"
    by (simp_all add: test_severity_grading_matches_spec_def test_evidence_locations_are_kind_specific_def)
qed

text \<open>
  The published digests of the two inputs (FIPS 180-4), and a conversion that keeps the source it is given and the
  observation's code.
\<close>

definition sha256_vectors :: "(bytes \<times> bytes) list" where
  "sha256_vectors =
     [(str ''abc'',
       [186, 120, 22, 191, 143, 1, 207, 234, 65, 65, 64, 222, 93, 174, 34, 35,
        176, 3, 97, 163, 150, 23, 122, 156, 180, 16, 255, 97, 242, 0, 21, 173]),
      ([],
       [227, 176, 196, 66, 152, 252, 28, 20, 154, 251, 244, 200, 153, 111, 185, 36,
        39, 174, 65, 228, 100, 155, 147, 76, 164, 149, 153, 27, 120, 82, 184, 85])]"

lemma digit_chars [simp]:
  "digit_char 0 = CHR ''0''" "digit_char 1 = CHR ''1''" "digit_char 2 = CHR ''2''" "digit_char 3 = CHR ''3''"
  "digit_char 4 = CHR ''4''" "digit_char 5 = CHR ''5''" "digit_char 6 = CHR ''6''" "digit_char 7 = CHR ''7''"
  "digit_char 8 = CHR ''8''" "digit_char 9 = CHR ''9''" "digit_char 10 = CHR ''a''" "digit_char 11 = CHR ''b''"
  "digit_char 12 = CHR ''c''" "digit_char 13 = CHR ''d''" "digit_char 14 = CHR ''e''" "digit_char 15 = CHR ''f''"
  "digit_char (Suc 0) = CHR ''1''"
  by (code_simp; simp)+

lemma fmt_02x_digits: "fmt_02x b = [digit_char (unat b div 16), digit_char (unat b mod 16)]"
proof -
  have lt: "unat b div 16 < 16" using unat_lt [of b] by simp
  show ?thesis
  proof (cases "unat b < 16")
    case True
    then show ?thesis by (simp add: fmt_02x_def pad_zero_def fmt_hex_def digits_in.simps [of 16 "unat b"])
  next
    case False
    then show ?thesis
      using lt by (simp add: fmt_02x_def pad_zero_def fmt_hex_def digits_in.simps [of 16 "unat b"]
          digits_in.simps [of 16 "unat b div 16"])
  qed
qed

lemma sha256_test:
  assumes "\<forall>(d, h) \<in> set sha256_vectors. sha256 d = h"
  shows "test_sha256_of_known_input sha256"
  using assms
  by (simp add: test_sha256_of_known_input_def sha256_hex_def sha256_vectors_def fmt_02x_digits)

lemma to_finding_test:
  assumes "\<And>ob src. source_of (to_finding ob src) = src" "\<And>ob src. code_of (to_finding ob src) = obs_code ob"
  shows "test_to_finding_tags_analyzer_scope to_finding source_of code_of"
  by (simp add: test_to_finding_tags_analyzer_scope_def Let_def assms anomaly_observation_def)

end
