(* ===== verification/BlockWalker.thy ===== *)
theory BlockWalker
  imports UfsFile RustPanic
begin

text \<open>
  The second decoder of \<open>core/tests/file_indirect.rs\<close>: a reassembly of one file that re-reads the pointer blocks itself,
  written apart from the reader to check it. It is translated with its panics, since it indexes where the reader
  clamps, and the reader is proved to return the same bytes wherever the walker returns.
\<close>

section \<open>The walker\<close>

text \<open>The constants of the test.\<close>

definition W_BSIZE :: usize where [simp]: "W_BSIZE = 512"
definition W_FSIZE :: usize where [simp]: "W_FSIZE = 512"
definition W_NINDIR :: usize where [simp]: "W_NINDIR = 64"
definition W_ISIZE :: usize where [simp]: "W_ISIZE = 256"
definition W_IPG :: usize where [simp]: "W_IPG = 64"
definition W_FPG :: usize where [simp]: "W_FPG = 8192"
definition W_IBLKNO :: usize where [simp]: "W_IBLKNO = 4"
definition DI_DB :: usize where [simp]: "DI_DB = 112"
definition DI_IB :: usize where [simp]: "DI_IB = 208"

definition walker_ino_byte :: "usize \<Rightarrow> usize" where
  "walker_ino_byte ino =
     (let c = ino div W_IPG; within = ino mod W_IPG in (c * W_FPG + W_IBLKNO) * W_FSIZE + within * W_ISIZE)"

definition rd_ptr :: "bytes \<Rightarrow> usize \<Rightarrow> u64 option" where
  "rd_ptr p off = do { e \<leftarrow> usize_add off 8; b \<leftarrow> slice_get p off e; Some (from_le b) }"

definition ptr_at :: "bytes \<Rightarrow> u64 \<Rightarrow> usize \<Rightarrow> u64 option" where
  "ptr_at part ind_addr idx =
     (if ind_addr = 0 then Some 0
      else do {
        base \<leftarrow> usize_mul (unat ind_addr) W_FSIZE;
        k \<leftarrow> usize_mul idx 8;
        off \<leftarrow> usize_add base k;
        rd_ptr part off })"

definition walker_resolve :: "bytes \<Rightarrow> u64 list \<Rightarrow> u64 \<Rightarrow> u64 \<Rightarrow> u64 \<Rightarrow> usize \<Rightarrow> u64 option" where
  "walker_resolve part db single_ib double_ib triple_ib bi =
     (if bi < 12 then vec_index db bi
      else let i = bi - 12 in
        if i < W_NINDIR then ptr_at part single_ib i
        else let i = i - W_NINDIR in
          if i < W_NINDIR * W_NINDIR
          then do { sib \<leftarrow> ptr_at part double_ib (i div W_NINDIR); ptr_at part sib (i mod W_NINDIR) }
          else let i = i - W_NINDIR * W_NINDIR in
            do { dib \<leftarrow> ptr_at part triple_ib (i div (W_NINDIR * W_NINDIR));
                 let rem = i mod (W_NINDIR * W_NINDIR);
                 sib \<leftarrow> ptr_at part dib (rem div W_NINDIR);
                 ptr_at part sib (rem mod W_NINDIR) })"

text \<open>The loop over the logical blocks, with the addresses as \<open>resolve\<close> gives them.\<close>

fun walker_loop :: "bytes \<Rightarrow> usize \<Rightarrow> (usize \<Rightarrow> u64 option) \<Rightarrow> usize list \<Rightarrow> bytes \<Rightarrow> bytes option" where
  "walker_loop part sz resolve [] out = Some out"
| "walker_loop part sz resolve (bi # bis) out =
     do { addr \<leftarrow> resolve bi;
          logical \<leftarrow> usize_mul bi W_BSIZE;
          rest \<leftarrow> usize_sub sz logical;
          let this_len = min rest W_BSIZE;
          if addr = 0 then walker_loop part sz resolve bis out
          else do {
            src \<leftarrow> usize_mul (unat addr) W_FSIZE;
            src_end \<leftarrow> usize_add src this_len;
            dst_end \<leftarrow> usize_add logical this_len;
            dst \<leftarrow> slice_get out logical dst_end;
            data \<leftarrow> slice_get part src src_end;
            data \<leftarrow> copy_from_slice dst data;
            walker_loop part sz resolve bis (slice_put out logical data) } }"

definition independent_walk :: "bytes \<Rightarrow> u64 \<Rightarrow> bytes option" where
  "independent_walk part sz =
     (let n_blocks = unat (div_ceil sz (of_nat W_BSIZE)); ib = walker_ino_byte 4 in
      do { db \<leftarrow> those (map (\<lambda>i. rd_ptr part (ib + DI_DB + i * 8)) [0..<12]);
           single_ib \<leftarrow> rd_ptr part (ib + DI_IB);
           double_ib \<leftarrow> rd_ptr part (ib + DI_IB + 8);
           triple_ib \<leftarrow> rd_ptr part (ib + DI_IB + 16);
           out \<leftarrow> vec_zeroed (unat sz);
           walker_loop part (unat sz) (walker_resolve part db single_ib double_ib triple_ib) [0..<n_blocks] out })"

section \<open>Its pointers are the reader's\<close>

text \<open>The geometry the walker assumes.\<close>

definition walker_geometry :: "superblock \<Rightarrow> bool" where
  "walker_geometry sb \<longleftrightarrow> sb_version sb = Ufs2 \<and> sb_endian sb = Little \<and> sb_bsize sb = 512 \<and> sb_fsize sb = 512
     \<and> sb_nindir sb = 64 \<and> sb_ipg sb = 64 \<and> sb_ncg sb = 4 \<and> sb_iblkno sb = 4 \<and> sb_fpg sb = 8192"

lemma walker_sb:
  assumes "walker_geometry sb"
  shows "nat_i32 (sb_bsize sb) = 512" "nat_i32 (sb_fsize sb) = 512" "sb_nindir_nat sb = 64" "file_geometry_ok sb"
    "inode_geometry_ok sb" "ptr_bytes sb = 8" "dinode_size (sb_version sb) = 256" "inode_offset sb 4 = 3072"
    "inode_count sb = 256"
  using assms
  by (simp_all add: walker_geometry_def nat_i32_def sb_nindir_nat_def file_geometry_ok_def inode_geometry_ok_def
      ptr_bytes_def inode_ptr_size_def dinode_size_def inode_offset_def inode_count_def sb_consts)

lemma rd_ptr_Some:
  assumes "valid_slice part"
  shows "rd_ptr part off = Some v \<longleftrightarrow> off + 8 \<le> length part \<and> v = le_u64 part off"
proof -
  have "usize_add off 8 = Some (off + 8)" if "off + 8 \<le> length part"
    using that assms by (simp add: usize_add_def valid_slice_def)
  moreover have "off + 8 \<le> usize_max" if "off + 8 \<le> length part"
    using that assms by (simp add: valid_slice_def)
  ultimately show ?thesis
    by (cases "off + 8 \<le> length part")
      (auto simp: rd_ptr_def usize_add_def slice_get_def reader_defs read_array_def bind_eq_Some_conv)
qed

lemma ptr_at_reader:
  assumes "valid_slice part" "walker_geometry sb" "idx < 64" "ptr_at part a idx = Some v"
  shows "v = indirect_ptr part sb a (of_nat idx)"
proof (cases "a = 0")
  case True
  then show ?thesis using assms(4) by (simp add: ptr_at_def)
next
  case False
  then have v: "unat a * 512 + idx * 8 + 8 \<le> length part" "v = le_u64 part (unat a * 512 + idx * 8)"
    using assms(4) rd_ptr_Some [OF assms(1), of "unat a * 512 + idx * 8" v]
    by (auto simp: ptr_at_def usize_mul_def usize_add_def bind_eq_Some_conv split: if_splits)
  have "indirect_ptr part sb a (of_nat idx) = read_ptr (sb_version sb) (sb_endian sb) part (unat a * 512 + idx * 8)"
    using indirect_ptr_exact [OF assms(1) walker_sb(4) [OF assms(2)] False, of idx] v(1) assms(3)
    by (simp add: walker_sb [OF assms(2)])
  then show ?thesis using assms(2) v(2) by (simp add: walker_geometry_def read_ptr_def endian_u64_def)
qed

lemma walker_resolve_reader:
  assumes part: "valid_slice part" and sb: "walker_geometry sb" and i: "length (i_direct i) = 12"
    and bi: "bi < 12 + 64 + 64 ^ 2 + 64 ^ 3"
    and r: "walker_resolve part (i_direct i) (i_indirect i ! 0) (i_indirect i ! 1) (i_indirect i ! 2) bi = Some v"
  shows "v = block_addr part sb i bi"
proof -
  note p = ptr_at_reader [OF part sb]
  have "bi < 266316" using bi by simp
  then consider "bi < 12" | "12 \<le> bi" "bi < 76" | "76 \<le> bi" "bi < 4172" | "4172 \<le> bi" "bi < 266316"
    by linarith
  then show ?thesis
  proof cases
    case 1
    then show ?thesis
      using r i by (simp add: walker_resolve_def vec_index_def block_addr_def block_path_def place_addr_def)
  next
    case 2
    then have c: "\<not> bi < 12" "bi - 12 < 64" by linarith+
    then have "ptr_at part (i_indirect i ! 0) (bi - 12) = Some v" using r by (simp add: walker_resolve_def Let_def)
    from p [OF c(2) this] show ?thesis
      using c by (simp add: block_addr_def block_path_def place_addr_def walker_sb [OF sb] follow_def)
  next
    case 3
    then have c: "\<not> bi < 12" "\<not> bi - 12 < 64" "bi - 12 - 64 < 4096" by linarith+
    let ?i = "bi - 12 - 64"
    have d: "?i div 64 < 64" "?i mod 64 < 64" using c(3) by (simp_all add: less_mult_imp_div_less)
    from c r obtain s where s: "ptr_at part (i_indirect i ! 1) (?i div 64) = Some s" "ptr_at part s (?i mod 64) = Some v"
      by (auto simp: walker_resolve_def Let_def bind_eq_Some_conv)
    show ?thesis
      unfolding p [OF d(2) s(2)] p [OF d(1) s(1)]
      using c by (simp add: block_addr_def block_path_def place_addr_def walker_sb [OF sb] follow_def Let_def)
  next
    case 4
    then have c: "\<not> bi < 12" "\<not> bi - 12 < 64" "\<not> bi - 12 - 64 < 4096" "bi - 12 - 64 - 4096 < 262144" by linarith+
    let ?i = "bi - 12 - 64 - 4096"
    have d: "?i div 4096 < 64" "?i mod 4096 div 64 < 64" "?i mod 4096 mod 64 < 64"
      using c(4) by (simp_all add: less_mult_imp_div_less)
    have m: "?i mod 4096 mod 64 = ?i mod 64" by (simp add: mod_mod_cancel)
    from c r obtain t s where s: "ptr_at part (i_indirect i ! 2) (?i div 4096) = Some t"
      "ptr_at part t (?i mod 4096 div 64) = Some s" "ptr_at part s (?i mod 4096 mod 64) = Some v"
      by (auto simp: walker_resolve_def Let_def bind_eq_Some_conv)
    show ?thesis
      unfolding p [OF d(3) s(3)] p [OF d(2) s(2)] p [OF d(1) s(1)] m
      using c by (simp add: block_addr_def block_path_def place_addr_def walker_sb [OF sb] follow_def Let_def)
  qed
qed

section \<open>Its loop is the reader's assembly\<close>

text \<open>What the output holds when the blocks below \<open>k\<close> are done.\<close>

definition assembled :: "bytes \<Rightarrow> superblock \<Rightarrow> inode \<Rightarrow> nat \<Rightarrow> nat \<Rightarrow> bytes" where
  "assembled part sb i sz k = map (\<lambda>p. if p < k * 512 then file_byte part sb i p else 0) [0..<sz]"

lemma length_assembled [simp]: "length (assembled part sb i sz k) = sz"
  by (simp add: assembled_def)

lemma assembled_all: "sz \<le> k * 512 \<Longrightarrow> assembled part sb i sz k = map (file_byte part sb i) [0..<sz]"
  by (simp add: assembled_def)

definition block_inside :: "bytes \<Rightarrow> nat \<Rightarrow> u64 \<Rightarrow> nat \<Rightarrow> bool" where
  "block_inside part sz addr k \<longleftrightarrow> addr = 0 \<or> unat addr * 512 + min (sz - k * 512) 512 \<le> length part"

lemma block_byte:
  assumes "walker_geometry sb" "block_inside part sz (block_addr part sb i k) k" "k * 512 \<le> p" "p < k * 512 + 512" "p < sz"
  shows "file_byte part sb i p =
    (if block_addr part sb i k = 0 then 0 else part ! (unat (block_addr part sb i k) * 512 + (p - k * 512)))"
proof -
  have q: "p div 512 = k" using assms(3,4) by (intro div_nat_eqI) simp_all
  then have q': "p mod 512 = p - k * 512" by (simp add: minus_div_mult_eq_mod [symmetric])
  show ?thesis
    using assms(2-5) by (auto simp: file_byte_def walker_sb [OF assms(1)] Let_def q q' block_inside_def)
qed

lemma walker_loop_step:
  assumes part: "valid_slice part" and sb: "walker_geometry sb" and k: "k < n" "k * 512 < sz" "sz \<le> isize_max"
    and r: "resolve k = Some (block_addr part sb i k)"
  shows "walker_loop part sz resolve [k..<n] (assembled part sb i sz k) =
    (if block_inside part sz (block_addr part sb i k) k
     then walker_loop part sz resolve [Suc k..<n] (assembled part sb i sz (Suc k)) else None)"
proof -
  let ?a = "block_addr part sb i k" and ?m = "min (sz - k * 512) 512"
  have m: "k * 512 + ?m \<le> sz" using k by simp
  have logical: "usize_mul k W_BSIZE = Some (k * 512)" "usize_sub sz (k * 512) = Some (sz - k * 512)"
    "usize_add (k * 512) ?m = Some (k * 512 + ?m)"
    using k m by (simp_all add: usize_mul_def usize_sub_def usize_add_def)
  have u: "[k..<n] = k # [Suc k..<n]" using k by (simp add: upt_conv_Cons)
  have len: "length part \<le> isize_max" using part by (simp add: valid_slice_def)
  show ?thesis
  proof (cases "?a = 0")
    case True
    have "assembled part sb i sz (Suc k) = assembled part sb i sz k"
      unfolding assembled_def
    proof (rule map_cong)
      fix p assume "p \<in> set [0..<sz]"
      then show "(if p < Suc k * 512 then file_byte part sb i p else 0) = (if p < k * 512 then file_byte part sb i p else 0)"
        using block_byte [OF sb, of part sz i k p] True by (auto simp: block_inside_def)
    qed simp
    then show ?thesis using True r logical by (simp add: u block_inside_def Let_def)
  next
    case False
    let ?src = "unat ?a * 512"
    show ?thesis
    proof (cases "?src + ?m \<le> length part")
      case False
      then have "do { src \<leftarrow> usize_mul (unat ?a) W_FSIZE; src_end \<leftarrow> usize_add src ?m; slice_get part src src_end } = None"
        by (simp add: usize_mul_def usize_add_def slice_get_def)
      then show ?thesis
        using False \<open>?a \<noteq> 0\<close> r logical m
        by (auto simp: u block_inside_def Let_def slice_get_def usize_mul_def usize_add_def)
    next
      case True
      have cp: "slice_put (assembled part sb i sz k) (k * 512) (take ?m (drop ?src part)) = assembled part sb i sz (Suc k)"
      proof (rule nth_equalityI)
        fix p assume "p < length (slice_put (assembled part sb i sz k) (k * 512) (take ?m (drop ?src part)))"
        then have p: "p < sz" by simp
        show "slice_put (assembled part sb i sz k) (k * 512) (take ?m (drop ?src part)) ! p = assembled part sb i sz (Suc k) ! p"
          using p m True \<open>?a \<noteq> 0\<close> block_byte [OF sb, of part sz i k p]
          by (auto simp: slice_put_nth assembled_def block_inside_def min_def)
      qed simp
      have "slice_get (assembled part sb i sz k) (k * 512) (k * 512 + ?m) =
          Some (take ?m (drop (k * 512) (assembled part sb i sz k)))"
        using m by (simp add: slice_get_def)
      moreover have "slice_get part ?src (?src + ?m) = Some (take ?m (drop ?src part))"
        using True by (simp add: slice_get_def)
      moreover have "usize_mul (unat ?a) W_FSIZE = Some ?src" "usize_add ?src ?m = Some (?src + ?m)"
        using True len by (simp_all add: usize_mul_def usize_add_def)
      moreover have "copy_from_slice (take ?m (drop (k * 512) (assembled part sb i sz k))) (take ?m (drop ?src part))
          = Some (take ?m (drop ?src part))"
        using True m by (simp add: copy_from_slice_def)
      ultimately show ?thesis
        using True \<open>?a \<noteq> 0\<close> r logical cp by (simp add: u block_inside_def Let_def)
    qed
  qed
qed

lemma walker_loop_exact:
  assumes part: "valid_slice part" and sb: "walker_geometry sb" and sz: "sz \<le> isize_max"
    and n: "\<And>k. k < n \<Longrightarrow> k * 512 < sz" "sz \<le> n * 512"
    and r: "\<And>k. k < n \<Longrightarrow> resolve k = Some (block_addr part sb i k)" and k: "k \<le> n"
  shows "walker_loop part sz resolve [k..<n] (assembled part sb i sz k) =
    (if \<forall>j. k \<le> j \<and> j < n \<longrightarrow> block_inside part sz (block_addr part sb i j) j
     then Some (map (file_byte part sb i) [0..<sz]) else None)"
  using k
proof (induction "n - k" arbitrary: k)
  case 0
  then show ?case using n(2) by (auto simp: assembled_all)
next
  case (Suc d)
  then have k: "k < n" by simp
  have ih: "walker_loop part sz resolve [Suc k..<n] (assembled part sb i sz (Suc k)) =
    (if \<forall>j. Suc k \<le> j \<and> j < n \<longrightarrow> block_inside part sz (block_addr part sb i j) j
     then Some (map (file_byte part sb i) [0..<sz]) else None)"
    using Suc by (intro Suc.hyps(1)) simp_all
  have "(\<forall>j. k \<le> j \<and> j < n \<longrightarrow> block_inside part sz (block_addr part sb i j) j) \<longleftrightarrow>
      block_inside part sz (block_addr part sb i k) k
      \<and> (\<forall>j. Suc k \<le> j \<and> j < n \<longrightarrow> block_inside part sz (block_addr part sb i j) j)"
    using k by (metis Suc_le_eq le_eq_less_or_eq order.refl)
  then show ?case
    unfolding walker_loop_step [where resolve = resolve and i = i, OF part sb k n(1) [OF k] sz r [OF k]] ih by auto
qed

text \<open>A run that returns has resolved every block.\<close>

lemma walker_loop_resolved:
  "walker_loop part sz resolve ks out = Some res \<Longrightarrow> k \<in> set ks \<Longrightarrow> \<exists>v. resolve k = Some v"
proof (induction ks arbitrary: out)
  case (Cons bi bis)
  then show ?case
    by (cases "k = bi") (auto simp: bind_eq_Some_conv Let_def split: if_splits elim: Cons.IH)
qed simp

section \<open>The walker and the reader\<close>

lemma those_Some: "those (map Some xs) = Some xs"
  by (induction xs) simp_all

text \<open>What the walker reads of the inode, when the inode decodes.\<close>

lemma walker_inode:
  assumes part: "valid_slice part" and sb: "walker_geometry sb" and i: "read_inode part sb 4 = Inr i"
  shows "those (map (\<lambda>k. rd_ptr part (walker_ino_byte 4 + DI_DB + k * 8)) [0..<12]) = Some (i_direct i)"
    and "k < 3 \<Longrightarrow> rd_ptr part (walker_ino_byte 4 + DI_IB + k * 8) = Some (i_indirect i ! k)"
    and "length (i_direct i) = 12"
proof -
  have v: "sb_version sb = Ufs2" "sb_endian sb = Little" using sb by (simp_all add: walker_geometry_def)
  have at: "3072 + 256 \<le> length part"
    and dec: "i = inode_decode (take 256 (drop 3072 part)) Ufs2 Little (sb_maxsymlinklen sb)"
    using i v by (auto simp: read_inode_refines [OF part walker_sb(5) [OF sb]] walker_sb [OF sb] Let_def dinode_size_def
        sb_consts split: if_splits)
  have rd: "endian_u64 Little (take 256 (drop 3072 part)) off = endian_u64 Little part (3072 + off)"
    if "off + 8 \<le> 256" for off
    using that at part by (intro eu64.rd_window) (simp_all add: valid_slice_def)
  have pt: "rd_ptr part (3072 + off) = Some (endian_u64 Little (take 256 (drop 3072 part)) off)" if "off + 8 \<le> 256" for off
    using that at rd [OF that] rd_ptr_Some [OF part, of "3072 + off"] by (simp add: endian_u64_def)
  have "map (\<lambda>k. rd_ptr part (walker_ino_byte 4 + DI_DB + k * 8)) [0..<12] = map Some (i_direct i)"
    by (rule nth_equalityI)
      (simp_all add: dec inode_decode_def Let_def read_ptrs_def read_ptr_def walker_ino_byte_def sb_consts
        inode_db_off_def inode_ptr_size_def pt [of "112 + k * 8" for k, simplified])
  then show "those (map (\<lambda>k. rd_ptr part (walker_ino_byte 4 + DI_DB + k * 8)) [0..<12]) = Some (i_direct i)"
    by (simp only: those_Some)
  show "rd_ptr part (walker_ino_byte 4 + DI_IB + k * 8) = Some (i_indirect i ! k)" if "k < 3"
    using that pt [of "208 + k * 8"]
    by (simp add: dec inode_decode_def Let_def read_ptrs_def read_ptr_def walker_ino_byte_def sb_consts
        inode_ib_off_def inode_ptr_size_def)
  show "length (i_direct i) = 12" by (simp add: dec inode_decode_def Let_def read_ptrs_def sb_consts)
qed

definition walker_of :: "bytes \<Rightarrow> inode \<Rightarrow> usize \<Rightarrow> u64 option" where
  "walker_of part i = walker_resolve part (i_direct i) (i_indirect i ! 0) (i_indirect i ! 1) (i_indirect i ! 2)"

lemma independent_walk_loop:
  assumes "valid_slice part" "walker_geometry sb" "read_inode part sb 4 = Inr i" "unat (i_size i) \<le> isize_max"
  shows "independent_walk part (i_size i) =
    walker_loop part (unat (i_size i)) (walker_of part i) [0..<(unat (i_size i) + 511) div 512]
      (assembled part sb i (unat (i_size i)) 0)"
proof -
  note ptrs = walker_inode [OF assms(1-3)]
  have ib: "rd_ptr part (walker_ino_byte 4 + DI_IB) = Some (i_indirect i ! 0)"
    "rd_ptr part (walker_ino_byte 4 + DI_IB + 8) = Some (i_indirect i ! 1)"
    "rd_ptr part (walker_ino_byte 4 + DI_IB + 16) = Some (i_indirect i ! 2)"
    using ptrs(2) [of 0] ptrs(2) [of 1] ptrs(2) [of 2] by simp_all
  have n: "unat (div_ceil (i_size i) 512) = (unat (i_size i) + 511) div 512" by (simp add: unat_div_ceil)
  have z: "assembled part sb i (unat (i_size i)) 0 = replicate (unat (i_size i)) 0"
    by (simp add: assembled_def map_replicate_trivial)
  show ?thesis
    using assms(4) ptrs(1) ib unfolding independent_walk_def Let_def
    by (simp add: n z walker_of_def vec_zeroed_def)
qed

lemma walker_blocks:
  fixes sz :: nat
  shows "k < (sz + 511) div 512 \<Longrightarrow> k * 512 < sz" "sz \<le> (sz + 511) div 512 * 512"
  by (simp_all add: below_ceil_iff [of 512 k sz, simplified])

lemma independent_walk_returns:
  assumes part: "valid_slice part" and sb: "walker_geometry sb" and i: "read_inode part sb 4 = Inr i"
    and sz: "unat (i_size i) \<le> isize_max"
    and ok: "\<And>k. k * 512 < unat (i_size i) \<Longrightarrow> walker_of part i k = Some (block_addr part sb i k)
      \<and> block_inside part (unat (i_size i)) (block_addr part sb i k) k"
  shows "independent_walk part (i_size i) = Some (map (file_byte part sb i) [0..<unat (i_size i)])"
  unfolding independent_walk_loop [OF part sb i sz]
  by (subst walker_loop_exact [OF part sb sz]) (use ok walker_blocks in auto)

text \<open>
  C4. The reader agrees with the second decoder of the tests: on every partition of the walker's geometry, wherever the
  walker returns (no pointer or block outside the partition) for a file within the reach of its pointer tree and not
  longer than the partition, the reader returns exactly the same bytes.
\<close>

theorem reader_matches_walker:
  assumes "valid_slice part" and "walker_geometry sb" and "read_inode part sb 4 = Inr i"
    and "unat (i_size i) \<le> length part" and "unat (i_size i) \<le> (12 + 64 + 64 ^ 2 + 64 ^ 3) * 512"
    and "independent_walk part (i_size i) = Some out"
  shows "read_file part sb 4 = Inr out"
proof -
  let ?sz = "unat (i_size i)"
  let ?n = "(?sz + 511) div 512"
  have sz: "?sz \<le> isize_max" using assms(1,4) by (simp add: valid_slice_def)
  note run = assms(6) [unfolded independent_walk_loop [OF assms(1-3) sz]]
  have r: "walker_of part i k = Some (block_addr part sb i k)" if kn: "k < ?n" for k
  proof -
    obtain v where v: "walker_of part i k = Some v"
      using walker_loop_resolved [OF run, of k] kn by auto
    have "k < 12 + 64 + 64 ^ 2 + 64 ^ 3" using walker_blocks(1) [OF kn] assms(5) by simp
    then have "v = block_addr part sb i k"
      using walker_resolve_reader [OF assms(1,2) walker_inode(3) [OF assms(1-3)]] v by (simp add: walker_of_def)
    then show ?thesis using v by simp
  qed
  have "out = map (file_byte part sb i) [0..<?sz]"
    using run walker_loop_exact [where resolve = "walker_of part i" and k = 0, OF assms(1,2) sz walker_blocks r]
    by (auto split: if_splits)
  then show ?thesis
    using assms(3,4) read_inode_file_exact [OF assms(1) walker_sb(4) [OF assms(2)]] by (simp add: read_file_def)
qed

end
