(* ===== verification/CraftedFile.thy ===== *)
theory CraftedFile
  imports BlockWalker TestsDir ReadFrame
begin

text \<open>
  The partition that \<open>core/tests/file_indirect.rs\<close> builds: one file that reaches through the single, double and triple
  indirect blocks, with a hole and a partial last block, and the tests on it. The builder is translated; what it lays
  out is proved once, block by block, and not computed.
\<close>

section \<open>The builder\<close>

text \<open>\<open>i.wrapping_mul(2654435761) & 0xFF\<close>.\<close>

definition content_byte :: "usize \<Rightarrow> u8" where
  "content_byte i = of_nat (i * 2654435761 mod 2 ^ 64 mod 256)"

definition n_full_blocks :: usize where "n_full_blocks = 12 + 64 + 64 * 64 + 1"
definition tail :: usize where "tail = 123"
definition built_size :: usize where "built_size = n_full_blocks * 512 + tail"
definition n_blocks :: usize where "n_blocks = n_full_blocks + 1"
definition built_hole :: usize where "built_hole = 12 + 3"
definition data_start :: usize where "data_start = 256"

text \<open>The allocator hands out fragments in order; the loop gives one to every block but the hole.\<close>

definition alloc_data :: "usize list \<Rightarrow> usize \<Rightarrow> u64 list \<times> usize" where
  "alloc_data bs start =
     fold (\<lambda>b (addrs, nxt). if b = built_hole then (addrs @ [0], nxt) else (addrs @ [of_nat nxt], nxt + 1)) bs ([], start)"

definition data_addr :: "u64 list" where
  "data_addr = fst (alloc_data [0..<n_blocks] data_start)"

definition fill_ptrs :: "usize \<Rightarrow> usize \<Rightarrow> u64 list" where
  "fill_ptrs base cap =
     map (\<lambda>k. let b = base + k in if b < n_blocks \<and> b < cap then data_addr ! b else 0) [0..<64]"

definition single_ib :: usize where "single_ib = snd (alloc_data [0..<n_blocks] data_start)"
definition double_ib :: usize where "double_ib = single_ib + 1"

text \<open>The segments of the double-indirect tree, up to the break, and the block allocated for each.\<close>

definition double_segs :: "usize list" where
  "double_segs = takeWhile (\<lambda>s. 12 + 64 + s * 64 < n_blocks) [0..<64]"

definition seg_ib :: "usize \<Rightarrow> usize" where "seg_ib s = double_ib + 1 + s"

definition triple_ib :: usize where "triple_ib = double_ib + 1 + length double_segs"
definition triple_dib :: usize where "triple_dib = triple_ib + 1"
definition triple_sib :: usize where "triple_sib = triple_dib + 1"
definition total_frags :: usize where "total_frags = triple_sib + 1"

definition one_ptr :: "usize \<Rightarrow> u64 list" where "one_ptr a = of_nat a # replicate 63 0"

definition ind_blocks :: "(usize \<times> u64 list) list" where
  "ind_blocks =
     (single_ib, fill_ptrs 12 usize_max)
     # map (\<lambda>s. (seg_ib s, fill_ptrs (12 + 64 + s * 64) (12 + 64 + 64 * 64))) double_segs
     @ [(double_ib, map (\<lambda>s. if s < length double_segs then of_nat (seg_ib s) else 0) [0..<64]),
        (triple_sib, fill_ptrs (12 + 64 + 64 * 64) usize_max),
        (triple_dib, one_ptr triple_sib), (triple_ib, one_ptr triple_dib)]"

definition part_len :: usize where
  "part_len = max ((total_frags + 8) * 512) (SBLOCK_UFS2 + 1376 + 16)"

definition data_block :: "usize \<Rightarrow> bytes" where
  "data_block b =
     map content_byte [b * 512..<b * 512 + (if b = n_blocks - 1 then tail else 512)]"

definition data_writes :: "(usize \<times> bytes) list" where
  "data_writes =
     map (\<lambda>b. (unat (data_addr ! b) * 512, data_block b)) (filter (\<lambda>b. data_addr ! b \<noteq> 0) [0..<n_blocks])"

definition ptr_writes :: "(usize \<times> bytes) list" where
  "ptr_writes = map (\<lambda>(a, ptrs). (a * 512, concat (map (endian_bytes Little) ptrs))) ind_blocks"

definition inode_writes :: "(usize \<times> bytes) list" where
  "inode_writes =
     (let off = walker_ino_byte 4 in
      [(off, endian_bytes Little (0x81A4 :: u16)), (off + 2, endian_bytes Little (1 :: u16)),
       (off + 16, endian_bytes Little (of_nat built_size :: u64))]
      @ map (\<lambda>i. (off + DI_DB + i * 8, endian_bytes Little (data_addr ! i))) [0..<12]
      @ [(off + DI_IB, endian_bytes Little (of_nat single_ib :: u64)),
         (off + DI_IB + 8, endian_bytes Little (of_nat double_ib :: u64)),
         (off + DI_IB + 16, endian_bytes Little (of_nat triple_ib :: u64))])"

definition file_super_writes :: "(usize \<times> bytes) list" where
  "file_super_writes =
     map (\<lambda>(off, w). (SBLOCK_UFS2 + off, endian_bytes Little (w :: i32)))
       [(8, 1), (12, 2), (16, 4), (20, of_nat data_start), (44, 4), (48, 512), (52, 512), (56, 1), (116, 64), (120, 2),
        (184, 64), (188, 8192)]
     @ [(SBLOCK_UFS2 + 1080, endian_bytes Little (of_nat (part_len div 512) :: i64)),
        (SBLOCK_UFS2 + 1320, endian_bytes Little (120 :: i32)),
        (SBLOCK_UFS2 + 1372, endian_bytes Little FS_UFS2_MAGIC)]"

definition built_part :: bytes where
  "built_part = fixture part_len (data_writes @ ptr_writes @ inode_writes @ file_super_writes)"

section \<open>Where everything lies\<close>

lemma sizes: "n_full_blocks = 4173" "n_blocks = 4174" "built_size = 2136699"
  by (simp_all add: n_full_blocks_def n_blocks_def built_size_def tail_def)

definition addr_of :: "nat \<Rightarrow> nat" where
  "addr_of b = (if b = 15 then 0 else if b < 15 then 256 + b else 255 + b)"

lemma alloc_data_upto:
  "alloc_data [0..<n] 256 = (map (\<lambda>b. of_nat (addr_of b)) [0..<n], if 15 < n then 255 + n else 256 + n)"
proof (induction n)
  case (Suc n)
  have "alloc_data [0..<Suc n] 256 =
      (case alloc_data [0..<n] 256 of (addrs, nxt) \<Rightarrow>
        if n = built_hole then (addrs @ [0], nxt) else (addrs @ [of_nat nxt], nxt + 1))"
    by (simp add: alloc_data_def split: prod.split)
  then show ?case by (simp add: Suc.IH built_hole_def addr_of_def)
qed (simp add: alloc_data_def)

lemma data_addr_nth: "b < 4174 \<Longrightarrow> data_addr ! b = of_nat (addr_of b)"
  by (simp add: data_addr_def data_start_def alloc_data_upto sizes)

lemma segs: "double_segs = [0..<64]"
proof -
  have "\<And>s. s \<in> set [0..<64] \<Longrightarrow> 12 + 64 + s * 64 < n_blocks" by (simp add: sizes)
  then show ?thesis unfolding double_segs_def by (rule takeWhile_eq_all_conv [THEN iffD2, OF ballI])
qed

lemma places: "single_ib = 4429" "double_ib = 4430" "seg_ib s = 4431 + s" "triple_ib = 4495" "triple_dib = 4496"
  "triple_sib = 4497" "part_len = 2307072" "data_start = 256"
  by (simp_all add: single_ib_def double_ib_def seg_ib_def triple_ib_def triple_dib_def triple_sib_def segs part_len_def
      total_frags_def data_start_def alloc_data_upto sizes SBLOCK_UFS2_def)

lemma addr_of_inj: "addr_of b = addr_of b' \<Longrightarrow> addr_of b \<noteq> 0 \<Longrightarrow> b = b'"
  by (auto simp: addr_of_def split: if_splits)

text \<open>Blocks at different fragments do not overlap.\<close>

lemma patch_get_block:
  assumes "distinct (map fst bs)" "\<forall>(a, b) \<in> set bs. length b \<le> 512" "(a, blk) \<in> set bs"
    and "a * 512 + length blk \<le> length d"
  shows "slice_get (patch d (map (\<lambda>(a, b). (a * 512, b)) bs)) (a * 512) (a * 512 + length blk) = Some blk"
  using assms
proof (induction bs arbitrary: d)
  case (Cons c bs)
  obtain a' b' where c: "c = (a', b')" by (cases c)
  show ?case
  proof (cases "(a, blk) = c")
    case True
    have "\<forall>(off, b) \<in> set (map (\<lambda>(a, b). (a * 512, b)) bs). a * 512 + length blk \<le> off \<or> off + length b \<le> a * 512"
    proof (safe; clarsimp)
      fix a'' b'' assume m: "(a'', b'') \<in> set bs" and not: "\<not> a'' * 512 + length b'' \<le> a * 512"
      have "a'' \<noteq> a" using m Cons.prems(1) True by (auto simp: c image_iff)
      moreover have "length b'' \<le> 512" "length blk \<le> 512" using m Cons.prems(2) True by (auto simp: c)
      ultimately show "a * 512 + length blk \<le> a'' * 512"
        using not by (cases "a'' < a") linarith+
    qed
    then show ?thesis
      using True Cons.prems(4) by (simp add: c patch_get_other slice_get_put_same)
  next
    case False
    then show ?thesis using Cons.prems by (simp add: c, intro Cons.IH) (auto simp: c)
  qed
qed simp

definition built_blocks :: "(usize \<times> bytes) list" where
  "built_blocks =
     map (\<lambda>b. (unat (data_addr ! b), data_block b)) (filter (\<lambda>b. data_addr ! b \<noteq> 0) [0..<n_blocks])
     @ map (\<lambda>(a, ptrs). (a, concat (map (endian_bytes Little) ptrs))) ind_blocks"

lemma ind_addrs: "map fst ind_blocks = 4429 # [4431..<4495] @ [4430, 4497, 4496, 4495]"
proof -
  have "map seg_ib [0..<64] = [4431..<4495]"
    by (rule nth_equalityI) (simp_all add: places del: upt_rec_numeral)
  then show ?thesis by (simp add: ind_blocks_def segs comp_def places(1-2,4-) del: upt_rec_numeral)
qed

lemma unat_addr: "b < 4174 \<Longrightarrow> unat (data_addr ! b) = addr_of b"
  by (simp add: data_addr_nth unat_of_nat addr_of_def)

lemma data_nonzero: "b < 4174 \<Longrightarrow> data_addr ! b \<noteq> 0 \<longleftrightarrow> addr_of b \<noteq> 0"
  using unat_addr [of b] by (metis unat_eq_zero)

lemma addr_of_bounds: "b < 4174 \<Longrightarrow> addr_of b \<noteq> 0 \<Longrightarrow> 256 \<le> addr_of b \<and> addr_of b < 4429"
  by (auto simp: addr_of_def split: if_splits)

lemma built_blocks_distinct: "distinct (map fst built_blocks)"
proof -
  have "distinct (map (\<lambda>b. unat (data_addr ! b)) (filter (\<lambda>b. data_addr ! b \<noteq> 0) [0..<n_blocks]))"
  proof (subst distinct_map, intro conjI inj_onI)
    fix b b' assume b: "b \<in> set (filter (\<lambda>b. data_addr ! b \<noteq> 0) [0..<n_blocks])"
      "b' \<in> set (filter (\<lambda>b. data_addr ! b \<noteq> 0) [0..<n_blocks])" and e: "unat (data_addr ! b) = unat (data_addr ! b')"
    then have n: "b < 4174" "b' < 4174" "addr_of b \<noteq> 0" by (auto simp: sizes data_nonzero)
    then show "b = b'" using e addr_of_inj [of b b'] by (simp add: unat_addr)
  qed simp
  moreover have "distinct (map fst ind_blocks)" unfolding ind_addrs by (simp del: upt_rec_numeral)
  moreover have "unat (data_addr ! b) \<notin> set (map fst ind_blocks)" if "b < 4174" "data_addr ! b \<noteq> 0" for b
    using that addr_of_bounds [of b] by (auto simp: ind_addrs unat_addr data_nonzero simp del: upt_rec_numeral)
  ultimately show ?thesis
    by (auto simp: built_blocks_def comp_def case_prod_unfold sizes)
qed

lemma length_ptrs: "(a, ptrs) \<in> set ind_blocks \<Longrightarrow> length ptrs = 64"
  by (auto simp: ind_blocks_def fill_ptrs_def one_ptr_def simp del: upt_rec_numeral)

lemma length_concat_ptrs: "length (concat (map (endian_bytes e) (ptrs :: u64 list))) = 8 * length ptrs"
  by (induction ptrs) simp_all

lemma built_blocks_bounds:
  assumes "(a, blk) \<in> set built_blocks"
  shows "length blk \<le> 512 \<and> 256 \<le> a \<and> a < 4498"
proof -
  from assms consider b where "b < 4174" "addr_of b \<noteq> 0" "a = addr_of b" "blk = data_block b"
    | ptrs where "(a, ptrs) \<in> set ind_blocks" "blk = concat (map (endian_bytes Little) ptrs)"
    by (auto simp: built_blocks_def sizes unat_addr data_nonzero)
  then show ?thesis
  proof cases
    case 1
    then show ?thesis using addr_of_bounds [of b] by (simp add: data_block_def tail_def)
  next
    case 2
    then have "a \<in> set (map fst ind_blocks)" by force
    then show ?thesis using 2 length_ptrs [of a ptrs] unfolding ind_addrs by (auto simp: length_concat_ptrs)
  qed
qed

text \<open>The writes below the data do not reach the blocks, and the blocks do not reach below.\<close>

lemma low_writes: "(off, b) \<in> set (inode_writes @ file_super_writes) \<Longrightarrow> off + length b \<le> 131072"
  by (auto simp: inode_writes_def file_super_writes_def walker_ino_byte_def SBLOCK_UFS2_def)

lemma built_part_blocks:
  "built_part = patch (patch (replicate part_len 0) (map (\<lambda>(a, b). (a * 512, b)) built_blocks)) (inode_writes @ file_super_writes)"
  by (simp add: built_part_def fixture_def data_writes_def ptr_writes_def built_blocks_def comp_def case_prod_unfold
      patch_append)

lemma length_built [simp]: "length built_part = 2307072" and valid_built [simp]: "valid_slice built_part"
  by (simp_all add: built_part_def places valid_slice_def)

lemma built_block:
  assumes "(a, blk) \<in> set built_blocks"
  shows "take (length blk) (drop (a * 512) built_part) = blk"
proof -
  note b = built_blocks_bounds [OF assms]
  have "slice_get built_part (a * 512) (a * 512 + length blk) = Some blk"
    unfolding built_part_blocks
  proof (subst patch_get_other)
    show "\<forall>(off, b) \<in> set (inode_writes @ file_super_writes). a * 512 + length blk \<le> off \<or> off + length b \<le> a * 512"
      using low_writes b by fastforce
    show "slice_get (patch (replicate part_len 0) (map (\<lambda>(a, b). (a * 512, b)) built_blocks)) (a * 512) (a * 512 + length blk)
        = Some blk"
      using built_blocks_bounds b
      by (intro patch_get_block built_blocks_distinct assms) (auto simp: places)
  qed simp
  then show ?thesis by (simp add: slice_get_Some_iff)
qed

text \<open>Below the data it is the small fixture.\<close>

definition low_part :: bytes where
  "low_part = fixture 2307072 (inode_writes @ file_super_writes)"

lemma patch_nth_outside:
  "\<forall>(off, b) \<in> set fs. p < off \<or> off + length b \<le> p \<Longrightarrow> p < length d \<Longrightarrow> patch d fs ! p = d ! p"
  by (induction fs arbitrary: d) (auto simp: slice_put_nth)

lemma patch_agree: "agree_on P d d' \<Longrightarrow> agree_on P (patch d fs) (patch d' fs)"
proof (induction fs arbitrary: d d')
  case (Cons f fs)
  have "agree_on P (slice_put d (fst f) (snd f)) (slice_put d' (fst f) (snd f))"
    using Cons.prems by (auto simp: agree_on_def slice_put_nth)
  then show ?case using Cons.IH by (cases f) simp
qed simp

lemma built_low: "agree_on {..<131072} low_part built_part"
  unfolding low_part_def fixture_def built_part_blocks places
proof (rule patch_agree)
  have "patch (replicate 2307072 0) (map (\<lambda>(a, b). (a * 512, b)) built_blocks) ! p = 0" if "p < 131072" for p
  proof -
    have "\<forall>(off, b) \<in> set (map (\<lambda>(a, b). (a * 512, b)) built_blocks). p < off \<or> off + length b \<le> p"
      using that by (auto dest!: built_blocks_bounds)
    from patch_nth_outside [OF this, of "replicate 2307072 0"] that show ?thesis by simp
  qed
  then show "agree_on {..<131072} (replicate 2307072 0) (patch (replicate 2307072 0) (map (\<lambda>(a, b). (a * 512, b)) built_blocks))"
    by (simp add: agree_on_def)
qed

section \<open>Its superblock and inode\<close>

definition built_sb :: superblock where
  "built_sb = \<lparr> sb_version = Ufs2, sb_endian = Little, sb_sblkno = 1, sb_cblkno = 2, sb_iblkno = 4,
     sb_dblkno = 256, sb_ncg = 4, sb_bsize = 512, sb_fsize = 512, sb_frag = 1, sb_bshift = 0, sb_fshift = 0,
     sb_fragshift = 0, sb_fsbtodb = 0, sb_sbsize = 0, sb_nindir = 64, sb_inopb = 2, sb_ipg = 64,
     sb_fpg = 8192, sb_size = 4506, sb_dsize = 0, sb_csaddr = 0, sb_sblockloc = 0, sb_maxsymlinklen = 120 \<rparr>"

definition built_inode :: inode where
  "built_inode = plain_inode 0x81A4 1 2136699 (map (\<lambda>b. data_addr ! b) [0..<12]) [4429, 4430, 4495]"

lemma built_geometry: "walker_geometry built_sb"
  by (simp add: walker_geometry_def built_sb_def)

lemma built_simps: "sb_version built_sb = Ufs2" "sb_endian built_sb = Little"
  by (simp_all add: built_sb_def)

lemma built_sb_parse: "sb_parse (drop 65536 built_part) = Inr built_sb"
proof -
  have "sb_parse (drop 65536 low_part) = try_bind (sb_validate_geometry built_sb) (\<lambda>_. Inr built_sb)"
    unfolding low_part_def
    by (rule fixture_sb_at)
      (simp_all add: sb_fields_defs inode_writes_def file_super_writes_def walker_ino_byte_def places holds_def
        magic_of_def sb_consts built_sb_def upt_12)
  moreover have "sb_validate_geometry built_sb = Inr ()"
    by (simp add: validate_Inr wf_geometry_def built_sb_def)
  ultimately have "sb_parse (drop 65536 low_part) = Inr built_sb" by simp
  moreover have "agree_on {65536..<65536 + SB_MIN_LEN} low_part built_part"
    by (rule agree_mono [OF built_low]) (auto simp: sb_consts)
  ultimately show ?thesis using sb_parse_agree by metis
qed

lemma built_read_inode: "read_inode built_part built_sb 4 = Inr built_inode"
proof -
  have "read_inode low_part built_sb 4 = Inr built_inode"
    unfolding low_part_def
    by (rule fixture_inode_at [where k = 3072])
      (simp_all add: walker_sb [OF built_geometry] inode_fields_def ptr_fields_def ptr_enc_def birth_def holds_def
        inode_writes_def file_super_writes_def walker_ino_byte_def places sizes sb_consts built_inode_def plain_inode_def
        built_simps wf_inode_def modes dinode_size_def upt_12 upt_3)
  moreover have "agree_on (inode_record built_sb (unat (4 :: u64))) low_part built_part"
    by (rule agree_mono [OF built_low]) (auto simp: inode_record_def walker_sb [OF built_geometry])
  ultimately show ?thesis
    using read_inode_agree [of low_part built_sb 4 built_part] walker_sb(5) [OF built_geometry]
    by (simp add: low_part_def valid_slice_def)
qed

section \<open>Its block map\<close>

lemma concat_ptrs_at:
  "k < length ptrs \<Longrightarrow> take 8 (drop (k * 8) (concat (map (endian_bytes e) ptrs))) = endian_bytes e (ptrs ! k)"
  for ptrs :: "u64 list"
proof (induction ptrs arbitrary: k)
  case (Cons p ps)
  then show ?case by (cases k) simp_all
qed simp

lemma ptr_at_block:
  assumes "(a, ptrs) \<in> set ind_blocks" "k < 64"
  shows "ptr_at built_part (of_nat a) k = Some (ptrs ! k)"
proof -
  let ?c = "concat (map (endian_bytes Little) ptrs)"
  have m: "(a, ?c) \<in> set built_blocks" using assms(1) by (force simp: built_blocks_def)
  have len: "length ptrs = 64" using assms(1) by (rule length_ptrs)
  have a: "256 \<le> a" "a < 4498" using built_blocks_bounds [OF m] by simp_all
  then have ua: "unat (of_nat a :: u64) = a" by (simp add: unat_of_nat)
  then have nz: "(of_nat a :: u64) \<noteq> 0" using a(1) by auto
  have "take 8 (drop (a * 512 + k * 8) built_part) = endian_bytes Little (ptrs ! k)"
  proof -
    have "take 8 (drop (k * 8) (take (length ?c) (drop (a * 512) built_part))) = endian_bytes Little (ptrs ! k)"
      unfolding built_block [OF m] using concat_ptrs_at [of k ptrs Little] assms(2) len by simp
    then show ?thesis
      using assms(2) len by (simp add: length_concat_ptrs take_drop_window)
  qed
  then have "endian_u64 Little built_part (a * 512 + k * 8) = ptrs ! k"
    using a assms(2) by (intro eu64.rd_at) (simp_all add: slice_get_def)
  moreover have "usize_mul a W_FSIZE = Some (a * 512)" "usize_mul k 8 = Some (k * 8)"
    "usize_add (a * 512) (k * 8) = Some (a * 512 + k * 8)"
    using a assms(2) by (simp_all add: usize_mul_def usize_add_def)
  moreover have "a * 512 + k * 8 + 8 \<le> length built_part" using a assms(2) by simp
  ultimately show ?thesis
    using rd_ptr_Some [OF valid_built, of "a * 512 + k * 8" "ptrs ! k"]
    by (simp add: ptr_at_def ua nz endian_u64_def)
qed

lemma built_resolve:
  assumes "b < 4174"
  shows "walker_of built_part built_inode b = Some (data_addr ! b)"
proof -
  have d: "i_direct built_inode = map (\<lambda>b. data_addr ! b) [0..<12]"
    "i_indirect built_inode ! 0 = of_nat 4429" "i_indirect built_inode ! 1 = of_nat 4430"
    "i_indirect built_inode ! 2 = of_nat 4495"
    by (simp_all add: built_inode_def plain_inode_def)
  have ind: "(4429, fill_ptrs 12 usize_max) \<in> set ind_blocks" "(4495, one_ptr 4496) \<in> set ind_blocks"
    "(4496, one_ptr 4497) \<in> set ind_blocks" "(4497, fill_ptrs 4172 usize_max) \<in> set ind_blocks"
    "(4430, map (\<lambda>s. if s < 64 then of_nat (4431 + s) else 0) [0..<64]) \<in> set ind_blocks"
    by (simp_all add: ind_blocks_def segs places del: upt_rec_numeral)
  have seg: "(4431 + s, fill_ptrs (76 + s * 64) 4172) \<in> set ind_blocks" if "s < 64" for s
    using that by (simp add: ind_blocks_def segs places del: upt_rec_numeral)
  have fill: "fill_ptrs base cap ! k = (if base + k < 4174 \<and> base + k < cap then data_addr ! (base + k) else 0)"
    if "k < 64" for base cap k
    using that by (simp add: fill_ptrs_def sizes Let_def del: upt_rec_numeral)
  consider "b < 12" | "12 \<le> b" "b < 76" | "76 \<le> b" "b < 4172" | "4172 \<le> b" using assms by linarith
  then show ?thesis
  proof cases
    case 1
    then show ?thesis by (simp add: walker_of_def walker_resolve_def d vec_index_def del: upt_rec_numeral)
  next
    case 2
    then have c: "\<not> b < 12" "b - 12 < 64" by linarith+
    have "12 + (b - 12) = b" using c by simp
    then have "ptr_at built_part (of_nat 4429) (b - 12) = Some (data_addr ! b)"
      using ptr_at_block [OF ind(1) c(2)] fill [OF c(2), of 12 usize_max] assms by simp
    then show ?thesis
      using c unfolding walker_of_def walker_resolve_def d by (simp add: Let_def)
  next
    case 3
    let ?i = "b - 12 - 64"
    have c: "\<not> b < 12" "\<not> b - 12 < 64" "?i < 4096" using 3 by linarith+
    have s: "?i div 64 < 64" "?i mod 64 < 64" using c(3) by (simp_all add: less_mult_imp_div_less)
    have "ptr_at built_part (of_nat 4430) (?i div 64) = Some (of_nat (4431 + ?i div 64))"
      using ptr_at_block [OF ind(5) s(1)] s(1) by (simp del: upt_rec_numeral)
    moreover have "ptr_at built_part (of_nat (4431 + ?i div 64)) (?i mod 64) = Some (data_addr ! b)"
    proof -
      have "76 + ?i div 64 * 64 + ?i mod 64 = b" using 3 by simp
      then show ?thesis
        using ptr_at_block [OF seg [OF s(1)] s(2)] fill [OF s(2), of "76 + ?i div 64 * 64" 4172] 3 by simp
    qed
    ultimately show ?thesis
      using c unfolding walker_of_def walker_resolve_def d by (simp add: Let_def)
  next
    case 4
    let ?i = "b - 12 - 64 - 4096"
    have c: "\<not> b < 12" "\<not> b - 12 < 64" "\<not> b - 12 - 64 < 4096" "?i < 2" using 4 assms by linarith+
    have z: "?i div 4096 = 0" "?i mod 4096 div 64 = 0" "?i mod 4096 mod 64 = ?i" using c(4) by simp_all
    have "ptr_at built_part (of_nat 4495) 0 = Some (of_nat 4496)" "ptr_at built_part (of_nat 4496) 0 = Some (of_nat 4497)"
      using ptr_at_block [OF ind(2), of 0] ptr_at_block [OF ind(3), of 0] by (simp_all add: one_ptr_def)
    moreover have "ptr_at built_part (of_nat 4497) ?i = Some (data_addr ! b)"
    proof -
      have k: "?i < 64" and e: "4172 + ?i = b" using c(4) 4 by simp_all
      show ?thesis using ptr_at_block [OF ind(4) k] fill [OF k, of 4172 usize_max] e assms by simp
    qed
    ultimately show ?thesis
      using c z unfolding walker_of_def walker_resolve_def d by (simp add: Let_def)
  qed
qed

section \<open>What the reader and the walker return\<close>

text \<open>The content the test expects: the pattern, with zeros in the hole.\<close>

definition expected_content :: bytes where
  "expected_content = map (\<lambda>p. if p div 512 = built_hole then 0 else content_byte p) [0..<built_size]"

lemma built_block_addr: "b < 4174 \<Longrightarrow> block_addr built_part built_sb built_inode b = data_addr ! b"
  using walker_resolve_reader [OF valid_built built_geometry, of built_inode b "data_addr ! b"] built_resolve [of b]
  by (simp add: walker_of_def built_inode_def plain_inode_def)

lemma built_data: "(b * 512 + k) < built_size \<Longrightarrow> k < 512 \<Longrightarrow> b \<noteq> 15 \<Longrightarrow> b < 4174
    \<and> built_part ! (addr_of b * 512 + k) = content_byte (b * 512 + k)
    \<and> addr_of b * 512 + min (built_size - b * 512) 512 \<le> length built_part"
proof -
  assume p: "b * 512 + k < built_size" "k < 512" "b \<noteq> 15"
  then have b: "b < 4174" and nz: "addr_of b \<noteq> 0" by (simp_all add: sizes addr_of_def)
  have m: "(addr_of b, data_block b) \<in> set built_blocks"
    using b nz by (force simp: built_blocks_def sizes unat_addr data_nonzero)
  have len: "k < length (data_block b)" using p by (auto simp: data_block_def sizes tail_def)
  have "data_block b ! k = content_byte (b * 512 + k)"
    using len by (simp add: data_block_def)
  moreover have "take (length (data_block b)) (drop (addr_of b * 512) built_part) ! k = built_part ! (addr_of b * 512 + k)"
    using len addr_of_bounds [OF b nz] by (simp add: data_block_def tail_def split: if_splits)
  moreover have "min (built_size - b * 512) 512 \<le> 512" by simp
  then have "addr_of b * 512 + min (built_size - b * 512) 512 \<le> 4429 * 512"
    using addr_of_bounds [OF b nz] by linarith
  ultimately show ?thesis
    using built_block [OF m] b by simp
qed

lemma built_content: "map (file_byte built_part built_sb built_inode) [0..<built_size] = expected_content"
  unfolding expected_content_def
proof (rule map_cong)
  fix p assume "p \<in> set [0..<built_size]"
  then have p: "p < built_size" by simp
  let ?b = "p div 512" and ?k = "p mod 512"
  have bk: "?b * 512 + ?k = p" "?k < 512" by simp_all
  have b: "?b < 4174" using p by (simp add: sizes)
  show "file_byte built_part built_sb built_inode p = (if ?b = built_hole then 0 else content_byte p)"
  proof (cases "?b = 15")
    case True
    then show ?thesis
      by (simp add: file_byte_def walker_sb [OF built_geometry] built_block_addr data_addr_nth addr_of_def
          built_hole_def)
  next
    case False
    then have "data_addr ! ?b \<noteq> 0" using data_nonzero [OF b] by (simp add: addr_of_def)
    moreover have "addr_of ?b \<noteq> 0" using False by (simp add: addr_of_def)
    from addr_of_bounds [OF b this] bk(2) have "addr_of ?b * 512 + ?k < length built_part"
      by (simp del: mod_less_divisor)
    ultimately show ?thesis
      using built_data [of ?b ?k] p bk False b
      by (simp add: file_byte_def walker_sb [OF built_geometry] built_block_addr unat_addr Let_def built_hole_def)
  qed
qed simp

lemma built_size_word: "unat (i_size built_inode) = built_size"
  by (simp add: built_inode_def plain_inode_def sizes)

lemma built_walk: "independent_walk built_part (i_size built_inode) = Some expected_content"
proof -
  have "walker_of built_part built_inode k = Some (block_addr built_part built_sb built_inode k)
      \<and> block_inside built_part built_size (block_addr built_part built_sb built_inode k) k" if k: "k * 512 < built_size" for k
  proof -
    have b: "k < 4174" using k by (simp add: sizes)
    have "block_inside built_part built_size (data_addr ! k) k"
    proof (cases "k = 15")
      case True
      then show ?thesis using data_nonzero [OF b] by (simp add: block_inside_def addr_of_def)
    next
      case False
      then show ?thesis using built_data [of k 0] k b by (simp add: block_inside_def unat_addr)
    qed
    then show ?thesis using built_resolve [OF b] built_block_addr [OF b] by simp
  qed
  then show ?thesis
    using independent_walk_returns [OF valid_built built_geometry built_read_inode] built_content
    by (simp add: built_size_word sizes)
qed

section \<open>The tests\<close>

definition test_read_file_assembles_indirect_chains_matching_pattern_and_independent_walk :: bool where
  "test_read_file_assembles_indirect_chains_matching_pattern_and_independent_walk \<longleftrightarrow>
     ok_and (sb_parse (drop SBLOCK_UFS2 built_part)) (\<lambda>sb. ok_and (read_file built_part sb 4) (\<lambda>got.
       length got = built_size \<and> got = expected_content
       \<and> independent_walk built_part (of_nat built_size) = Some got
       \<and> 12 + 64 + 64 * 64 < unat (div_ceil (of_nat built_size) (512 :: u64))))"

definition test_read_file_zero_fills_a_hole :: bool where
  "test_read_file_zero_fills_a_hole \<longleftrightarrow>
     ok_and (sb_parse (drop SBLOCK_UFS2 built_part)) (\<lambda>sb. ok_and (read_file built_part sb 4) (\<lambda>got.
       let logical = built_hole * 512 in
         (case slice_get got logical (logical + 512) of None \<Rightarrow> False | Some s \<Rightarrow> list_all (\<lambda>x. x = 0) s)))"

definition test_read_file_rejects_absurd_di_size_as_allocation_bomb :: bool where
  "test_read_file_rejects_absurd_di_size_as_allocation_bomb \<longleftrightarrow>
     ok_and (sb_parse (drop SBLOCK_UFS2 built_part)) (\<lambda>sb.
       let part = slice_put built_part (walker_ino_byte 4 + 16) (endian_bytes Little (0xFFFFFFFFFFFFFFFF :: u64)) in
         err_and (read_file part sb 4) (is_impossible ''di_size''))"

definition test_read_file_truncated_partition_does_not_panic :: bool where
  "test_read_file_truncated_partition_does_not_panic \<longleftrightarrow>
     ok_and (sb_parse (drop SBLOCK_UFS2 built_part)) (\<lambda>sb.
       ok_and (read_file (take built_size built_part) sb 4) (\<lambda>got. length got = built_size))"

definition test_read_file_lying_indirect_pointer_does_not_over_read :: bool where
  "test_read_file_lying_indirect_pointer_does_not_over_read \<longleftrightarrow>
     ok_and (sb_parse (drop SBLOCK_UFS2 built_part)) (\<lambda>sb.
       let part = slice_put built_part (walker_ino_byte 4 + DI_IB) (endian_bytes Little (0xFFFFFFFFFFFFFFFF :: u64)) in
         ok_and (read_file part sb 4) (\<lambda>got. length got = built_size))"

lemma built_read_file: "read_file built_part built_sb 4 = Inr expected_content"
  using built_read_inode read_inode_file_exact [OF valid_built walker_sb(4) [OF built_geometry], of built_inode]
    built_content
  by (simp add: read_file_def built_size_word sizes)

text \<open>The inode when more has been written to it.\<close>

lemma patched_inode:
  assumes "list_all (\<lambda>(off, b). holds 2307072 ((inode_writes @ file_super_writes) @ extra) (3072 + off, b)) (inode_fields Little i)"
    and "wf_inode i" "i_version i = Ufs2" "i_file_type i = FtRegular" "i_fast_symlink i = None"
  shows "read_inode (patch built_part extra) built_sb 4 = Inr i"
proof -
  let ?low = "fixture 2307072 ((inode_writes @ file_super_writes) @ extra)"
  have "read_inode ?low built_sb 4 = Inr i"
    by (rule fixture_inode_at [where k = 3072])
      (use assms in \<open>simp_all add: walker_sb [OF built_geometry] built_simps dinode_size_def sb_consts\<close>)
  moreover have "agree_on {..<131072} ?low (patch built_part extra)"
    using patch_agree [OF built_low, of extra] by (simp add: low_part_def fixture_def patch_append)
  then have "agree_on (inode_record built_sb (unat (4 :: u64))) ?low (patch built_part extra)"
    by (rule agree_mono) (auto simp: inode_record_def walker_sb [OF built_geometry])
  ultimately show ?thesis
    using read_inode_agree [of ?low built_sb 4 "patch built_part extra"] walker_sb(5) [OF built_geometry]
    by (simp add: valid_slice_def)
qed

lemmas patched_inode_simps = inode_fields_def ptr_fields_def ptr_enc_def birth_def holds_def inode_writes_def
  file_super_writes_def walker_ino_byte_def places sizes sb_consts plain_inode_def wf_inode_def modes upt_12 upt_3

lemma indirect_tests:
  "test_read_file_assembles_indirect_chains_matching_pattern_and_independent_walk" "test_read_file_zero_fills_a_hole"
  "test_read_file_rejects_absurd_di_size_as_allocation_bomb" "test_read_file_truncated_partition_does_not_panic"
  "test_read_file_lying_indirect_pointer_does_not_over_read"
proof -
  have sb: "sb_parse (drop SBLOCK_UFS2 built_part) = Inr built_sb" using built_sb_parse by (simp add: SBLOCK_UFS2_def)
  have rf: "read_inode_file part built_sb i =
      (if length part < unat (i_size i) then Inl (ErrImpossibleGeometry ''di_size'' (i_size i) (of_nat (length part)))
       else Inr (map (file_byte part built_sb i) [0..<unat (i_size i)]))" if "valid_slice part" for part i
    using read_inode_file_exact [OF that walker_sb(4) [OF built_geometry]] .
  have sz: "(of_nat built_size :: u64) = i_size built_inode" by (simp add: built_inode_def plain_inode_def sizes)
  have len: "length expected_content = built_size" by (simp add: expected_content_def)
  show "test_read_file_assembles_indirect_chains_matching_pattern_and_independent_walk"
    unfolding test_read_file_assembles_indirect_chains_matching_pattern_and_independent_walk_def sb
    by (simp only: ok_and_simps built_read_file len sz built_walk) (simp add: built_inode_def plain_inode_def div_ceil_def)
  have "list_all (\<lambda>x. x = 0) (take 512 (drop 7680 expected_content))"
    by (auto simp: list_all_length expected_content_def built_hole_def sizes div_nat_eqI)
  then show "test_read_file_zero_fills_a_hole"
    unfolding test_read_file_zero_fills_a_hole_def sb
    by (simp add: built_read_file Let_def built_hole_def slice_get_def len sizes)
  let ?bomb = "plain_inode 0x81A4 1 0xFFFFFFFFFFFFFFFF (map (\<lambda>b. data_addr ! b) [0..<12]) [4429, 4430, 4495]"
  have "read_inode (patch built_part [(3088, endian_bytes Little (0xFFFFFFFFFFFFFFFF :: u64))]) built_sb 4 = Inr ?bomb"
    by (rule patched_inode) (simp_all add: patched_inode_simps)
  then show "test_read_file_rejects_absurd_di_size_as_allocation_bomb"
    unfolding test_read_file_rejects_absurd_di_size_as_allocation_bomb_def sb
    by (simp add: walker_ino_byte_def Let_def read_file_def rf valid_slice_def) (simp add: plain_inode_def)
  have "read_inode (take built_size built_part) built_sb 4 = Inr built_inode"
  proof -
    have w: "take 256 (drop 3072 (take built_size built_part)) = take 256 (drop 3072 built_part)"
      by (simp add: sizes take_drop_window [of 3072 256 _ 0, simplified] drop_take min_def)
    have v: "valid_slice (take built_size built_part)" by (simp add: sizes valid_slice_def)
    show ?thesis
      using built_read_inode
      unfolding read_inode_refines [OF v walker_sb(5) [OF built_geometry]]
        read_inode_refines [OF valid_built walker_sb(5) [OF built_geometry]]
      by (simp add: walker_sb [OF built_geometry] w Let_def split: if_splits) (simp add: sizes)
  qed
  then show "test_read_file_truncated_partition_does_not_panic"
    unfolding test_read_file_truncated_partition_does_not_panic_def sb
    by (simp add: read_file_def rf valid_slice_def built_size_word sizes)
  let ?lie = "plain_inode 0x81A4 1 2136699 (map (\<lambda>b. data_addr ! b) [0..<12]) [0xFFFFFFFFFFFFFFFF, 4430, 4495]"
  have "read_inode (patch built_part [(3280, endian_bytes Little (0xFFFFFFFFFFFFFFFF :: u64))]) built_sb 4 = Inr ?lie"
    by (rule patched_inode) (simp_all add: patched_inode_simps)
  then show "test_read_file_lying_indirect_pointer_does_not_over_read"
    unfolding test_read_file_lying_indirect_pointer_does_not_over_read_def sb
    by (simp add: walker_ino_byte_def Let_def read_file_def rf valid_slice_def) (simp add: plain_inode_def sizes)
qed

theorem reader_matches_walker_witness:
  "read_file built_part built_sb 4 = Inr expected_content \<and> length expected_content = 2136699"
proof -
  have "unat (i_size built_inode) \<le> (12 + 64 + 64 ^ 2 + 64 ^ 3) * 512" by (simp add: built_size_word sizes)
  then show ?thesis
    using reader_matches_walker [OF valid_built built_geometry built_read_inode _ _ built_walk]
    by (simp add: built_size_word sizes expected_content_def)
qed

end
