(* ===== verification/CraftedVolume.thy ===== *)
theory CraftedVolume
  imports TestsDir Deletion
begin

text \<open>
  The builders of \<open>forensic/tests/common/mod.rs\<close> and the volumes that \<open>integrity.rs\<close>, \<open>edge.rs\<close> and \<open>carve.rs\<close> build
  with them: four cylinder groups with backup superblocks, headers and bitmaps, an inode table and a root directory.
  A built volume is brought to a normal form, a zeroed buffer with one write per structure, from which the lemmas read
  what the components find in it.
\<close>

section \<open>The builders\<close>

definition super_writes :: "(usize \<times> bytes) list" where
  "super_writes =
     map (\<lambda>(off, w). (off, endian_bytes Little (w :: i32)))
       [(8, 24), (12, 32), (16, 40), (20, 48), (44, 4), (48, 32768), (52, 4096), (56, 8), (80, 15), (84, 12), (116, 4096),
        (120, 128), (184, 128), (188, 256), (1320, 120)]
     @ map (\<lambda>(off, w). (off, endian_bytes Little (w :: i64))) [(1080, 1022), (1088, 901), (1000, 65536)]
     @ [(1372, endian_bytes Little FS_UFS2_MAGIC)]"

definition shifted :: "usize \<Rightarrow> (usize \<times> bytes) list \<Rightarrow> (usize \<times> bytes) list" where
  "shifted k fs = map (\<lambda>(off, b). (k + off, b)) fs"

definition write_superblock :: "usize \<Rightarrow> bytes \<Rightarrow> bytes" where
  "write_superblock off part = patch part (shifted off super_writes)"

definition header_writes :: "u32 \<Rightarrow> (usize \<times> bytes) list" where
  "header_writes cgx =
     map (\<lambda>(off, w). (off, endian_bytes Little (w :: u32)))
       [(4, CG_MAGIC), (12, cgx), (20, 256), (116, 128), (120, 128), (92, 168), (96, 184), (108, 200)]"

definition write_cg_header :: "usize \<Rightarrow> u32 \<Rightarrow> bytes \<Rightarrow> bytes" where
  "write_cg_header off cgx part = patch part (shifted off (header_writes cgx))"

definition set_inode_used :: "usize \<Rightarrow> usize \<Rightarrow> bool \<Rightarrow> bytes \<Rightarrow> bytes" where
  "set_inode_used cg ino used part =
     (let cg_off = (cg * 256 + 32) * 4096;
          idx = ino mod 128;
          byte = cg_off + 168 + idx div 8;
          mask = push_bit (idx mod 8) 1 :: u8
      in slice_put part byte [if used then part ! byte OR mask else part ! byte AND NOT mask])"

definition crafted_dinode_writes :: "u16 \<Rightarrow> u64 \<Rightarrow> u64 \<Rightarrow> (usize \<times> bytes) list" where
  "crafted_dinode_writes mode sz db0 =
     [(0, endian_bytes Little mode), (2, endian_bytes Little (1 :: u16)), (16, endian_bytes Little sz),
      (112, endian_bytes Little db0)]"

definition crafted_dinode :: "u16 \<Rightarrow> u64 \<Rightarrow> u64 \<Rightarrow> bytes" where
  "crafted_dinode mode sz db0 = fixture 256 (crafted_dinode_writes mode sz db0)"

definition crafted_ino_byte :: "usize \<Rightarrow> usize" where
  "crafted_ino_byte ino =
     (let c = ino div 128; within = ino mod 128 in (c * 256 + 40) * 4096 + within * 256)"

definition crafted_direct :: "u32 \<Rightarrow> u16 \<Rightarrow> u8 \<Rightarrow> string \<Rightarrow> bytes" where
  "crafted_direct ino reclen d_type name = dirent_bytes ino reclen d_type (str name)"

text \<open>The groups, as every builder writes them.\<close>

definition write_groups :: "bytes \<Rightarrow> bytes" where
  "write_groups part =
     fold (\<lambda>cg part.
       let sb_off = (cg * 256 + 24) * 4096; cg_off = (cg * 256 + 32) * 4096
       in write_cg_header cg_off (of_nat cg) (write_superblock sb_off part)) [0..<4] (write_superblock 65536 part)"

definition last_cg_end :: usize where "last_cg_end = ((4 - 1) * 256 + 32 + 8) * 4096"
definition last_itbl :: usize where "last_itbl = ((4 - 1) * 256 + 40) * 4096 + 128 * 256"

definition crafted_len :: usize where
  "crafted_len = max (max (max last_cg_end last_itbl) (200 * 4096)) (65536 + 1376) + 4096"

text \<open>
  \<open>clean_partition\<close> of \<open>integrity.rs\<close>, where all inodes are free, and of \<open>edge.rs\<close>, where the root is used. The second
  takes the end of the root's data at fragment 205 into the length; the inode table decides it in both.
\<close>

definition clean_partition :: bytes where
  "clean_partition =
     (let part = write_groups (replicate crafted_len 0);
          rdi = crafted_dinode 0x41ED 512 200;
          part = slice_put part (crafted_ino_byte 2) rdi;
          rb = 200 * 4096;
          part = slice_put part rb (crafted_direct 2 12 4 ''.'')
      in slice_put part (rb + 12) (crafted_direct 2 500 4 ''..''))"

definition edge_partition :: bytes where
  "edge_partition = set_inode_used 0 2 True clean_partition"

section \<open>Normal forms\<close>

lemma take_drop_put:
  assumes "off + length b \<le> n" "k + n \<le> length d"
  shows "take n (drop k (slice_put d (k + off) b)) = slice_put (take n (drop k d)) off b"
  using assms by (intro nth_equalityI) (auto simp: slice_put_nth min_def)

lemma patch_shifted:
  assumes "\<forall>(off, b) \<in> set fs. off + length b \<le> n" "k + n \<le> length d"
  shows "patch d (shifted k fs) = slice_put d k (patch (take n (drop k d)) fs)"
  using assms
proof (induction fs arbitrary: d)
  case Nil
  then show ?case by (simp add: shifted_def slice_put_id slice_get_Some_iff min_absorb2)
next
  case (Cons f fs)
  obtain off b where f: "f = (off, b)" by (cases f)
  have b: "off + length b \<le> n" using Cons.prems(1) by (simp add: f)
  let ?w = "slice_put (take n (drop k d)) off b"
  have "take n (drop k (slice_put d (k + off) b)) = ?w" using b Cons.prems(2) by (rule take_drop_put)
  then have "patch d (shifted k (f # fs)) = slice_put (slice_put d (k + off) b) k (patch ?w fs)"
    using Cons.IH [of "slice_put d (k + off) b"] Cons.prems by (simp add: f shifted_def)
  also have "\<dots> = slice_put d k (patch ?w fs)"
    using b Cons.prems(2)
    by (intro nth_equalityI) (auto simp: slice_put_nth min_def)
  finally show ?case by (simp add: f)
qed

text \<open>A structure written field by field over zeros is one write.\<close>

lemma fixture_structure:
  assumes "\<forall>(off, b) \<in> set ws. off + length b \<le> n" "holds N fs (k, replicate n 0)"
  shows "patch (fixture N fs) (shifted k ws) = fixture N (fs @ [(k, fixture n ws)])"
proof -
  have "take n (drop k (fixture N fs)) = replicate n 0" using assms(2) by (rule fixture_take) simp
  moreover have "k + n \<le> N" using assms(2) by (simp add: holds_def)
  ultimately show ?thesis using patch_shifted [OF assms(1), of k "fixture N fs"] by (simp add: fixture_def patch_snoc)
qed

definition SB_BYTES :: bytes where "SB_BYTES = fixture 1376 super_writes"
definition CG_BYTES :: "u32 \<Rightarrow> bytes" where "CG_BYTES cgx = fixture 124 (header_writes cgx)"

lemma length_structures [simp]: "length SB_BYTES = 1376" "length (CG_BYTES cgx) = 124"
  "length (crafted_dinode mode sz db0) = 256" "length (crafted_direct ino reclen ty name) = unat reclen"
  by (simp_all add: SB_BYTES_def CG_BYTES_def crafted_dinode_def crafted_direct_def dirent_bytes_def)

lemma superblock_written:
  "holds N fs (k, replicate 1376 0) \<Longrightarrow> write_superblock k (fixture N fs) = fixture N (fs @ [(k, SB_BYTES)])"
  unfolding write_superblock_def SB_BYTES_def
  by (rule fixture_structure) (auto simp: super_writes_def)

lemma header_written:
  "holds N fs (k, replicate 124 0) \<Longrightarrow> write_cg_header k cgx (fixture N fs) = fixture N (fs @ [(k, CG_BYTES cgx)])"
  unfolding write_cg_header_def CG_BYTES_def
  by (rule fixture_structure) (auto simp: header_writes_def)

definition group_fields :: "(usize \<times> bytes) list" where
  "group_fields =
     [(65536, SB_BYTES), (98304, SB_BYTES), (131072, CG_BYTES 0), (1146880, SB_BYTES), (1179648, CG_BYTES 1),
      (2195456, SB_BYTES), (2228224, CG_BYTES 2), (3244032, SB_BYTES), (3276800, CG_BYTES 3)]"

lemma crafted_len: "crafted_len = 3346432"
  by (simp add: crafted_len_def last_cg_end_def last_itbl_def)

lemma upt_4: "[0..<4] = [0, 1, 2, 3]"
  by (simp add: upt_rec)

lemma groups_fields: "write_groups (replicate crafted_len 0) = fixture 3346432 group_fields"
proof -
  have "replicate crafted_len 0 = fixture 3346432 []" by (simp add: fixture_def crafted_len)
  then show ?thesis
    by (simp add: write_groups_def upt_4 superblock_written header_written holds_def group_fields_def Let_def)
qed

definition clean_fields :: "(usize \<times> bytes) list" where
  "clean_fields =
     group_fields
     @ [(164352, crafted_dinode 0x41ED 512 200), (819200, crafted_direct 2 12 4 ''.''),
        (819212, crafted_direct 2 500 4 ''..'')]"

lemma clean_normal: "clean_partition = fixture 3346432 clean_fields"
  by (simp add: clean_partition_def groups_fields fixture_put crafted_ino_byte_def clean_fields_def)

lemma fixture_used:
  assumes "holds N fs (byte, [x])" "byte = (cg * 256 + 32) * 4096 + 168 + ino mod 128 div 8"
  shows "set_inode_used cg ino used (fixture N fs) =
    fixture N (fs @ [(byte, [if used then x OR push_bit (ino mod 128 mod 8) 1
                             else x AND NOT (push_bit (ino mod 128 mod 8) 1)])])"
proof -
  have "fixture N fs ! byte = x" using fixture_nth [OF assms(1), of 0] by simp
  then show ?thesis by (simp add: set_inode_used_def Let_def assms(2) fixture_put)
qed

lemmas layout_simps = holds_def clean_fields_def group_fields_def

lemma edge_normal: "edge_partition = fixture 3346432 (clean_fields @ [(131240, [4])])"
  unfolding edge_partition_def clean_normal
  by (subst fixture_used [where x = 0 and byte = 131240]) (simp_all add: layout_simps)

section \<open>What a volume with these structures holds\<close>

definition crafted_sb :: superblock where
  "crafted_sb = \<lparr> sb_version = Ufs2, sb_endian = Little, sb_sblkno = 24, sb_cblkno = 32, sb_iblkno = 40,
     sb_dblkno = 48, sb_ncg = 4, sb_bsize = 32768, sb_fsize = 4096, sb_frag = 8, sb_bshift = 15, sb_fshift = 12,
     sb_fragshift = 0, sb_fsbtodb = 0, sb_sbsize = 0, sb_nindir = 4096, sb_inopb = 128, sb_ipg = 128,
     sb_fpg = 256, sb_size = 1022, sb_dsize = 901, sb_csaddr = 0, sb_sblockloc = 65536, sb_maxsymlinklen = 120 \<rparr>"

definition crafted_cg :: "u32 \<Rightarrow> cylinder_group" where
  "crafted_cg cgx = \<lparr> cg_cgx = cgx, cg_ndblk = 256, cg_niblk = 128, cg_initediblk = 128, cg_iusedoff = 168,
     cg_freeoff = 184, cg_clusteroff = 200 \<rparr>"

lemma SB_BYTES_parse: "sb_parse SB_BYTES = Inr crafted_sb"
proof -
  have "sb_parse SB_BYTES = try_bind (sb_validate_geometry crafted_sb) (\<lambda>_. Inr crafted_sb)"
    unfolding SB_BYTES_def
    by (rule fixture_sb)
      (simp_all add: sb_fields_defs super_writes_def holds_def magic_of_def sb_consts crafted_sb_def)
  moreover have "sb_validate_geometry crafted_sb = Inr ()" by (simp add: validate_Inr wf_geometry_def crafted_sb_def)
  ultimately show ?thesis by simp
qed

lemma CG_BYTES_parse: "cg_parse (CG_BYTES c) Little = Inr (crafted_cg c)"
  unfolding CG_BYTES_def
  by (rule fixture_cg) (simp_all add: cg_fields_def holds_def sb_consts crafted_cg_def header_writes_def)

lemma crafted_geometry:
  "inode_geometry_ok crafted_sb" "file_geometry_ok crafted_sb" "inode_count crafted_sb = 512"
  "sb_version crafted_sb = Ufs2" "sb_endian crafted_sb = Little" "sb_ncg crafted_sb = 4" "sb_fpg crafted_sb = 256"
  "sb_cblkno crafted_sb = 32" "sb_sblkno crafted_sb = 24" "sb_ipg crafted_sb = 128" "sb_fsize crafted_sb = 4096"
  "sb_bsize crafted_sb = 32768" "nat_i32 128 = 128" "sb_maxsymlinklen crafted_sb = 120"
  "frag_off crafted_sb c 24 = (c * 256 + 24) * 4096" "frag_off crafted_sb c 32 = (c * 256 + 32) * 4096"
  "inode_offset crafted_sb n = (n div 128 * 256 + 40) * 4096 + n mod 128 * 256" "cg_bytes crafted_sb = 1048576"
  by (simp_all add: crafted_sb_def inode_geometry_ok_def file_geometry_ok_def inode_count_def inode_offset_def
      nat_i32_def dinode_size_def sb_consts frag_off_def cg_bytes_def)

lemma parse_at:
  assumes "take 1376 (drop off img) = SB_BYTES"
  shows "sb_parse (drop off img) = Inr crafted_sb"
proof -
  have "1376 \<le> length (drop off img)" using arg_cong [OF assms, of length] by simp
  then show ?thesis using sb_parse_prefix [of "drop off img"] assms SB_BYTES_parse by (simp add: sb_consts)
qed

lemma parse_header_at:
  assumes "take 124 (drop off img) = CG_BYTES c"
  shows "cg_parse (drop off img) Little = Inr (crafted_cg c)"
proof -
  have "124 \<le> length (drop off img)" using arg_cong [OF assms, of length] by simp
  then show ?thesis using cg_parse_prefix [of "drop off img" Little] assms CG_BYTES_parse by (simp add: sb_consts)
qed

text \<open>The primary superblock decides; a group whose backup is the same and whose header is right is silent.\<close>

lemma crafted_primary:
  assumes "take 1376 (drop 65536 img) = SB_BYTES"
  shows "parse_primary_sb img = Inr crafted_sb"
proof -
  have "65536 \<le> length img" using arg_cong [OF assms, of length] by simp
  then show ?thesis using parse_at [OF assms] by (simp add: parse_primary_sb_Inr SBLOCK_UFS2_def)
qed

lemma silent_backup:
  assumes "take 1376 (drop ((c * 256 + 24) * 4096) img) = SB_BYTES"
  shows "divergences img crafted_sb c = []"
  using parse_at [OF assms] by (simp add: divergences_def crafted_geometry Let_def backup_checks_def)

lemma silent_header:
  assumes "take 124 (drop ((c * 256 + 32) * 4096) img) = CG_BYTES g"
  shows "bad_cg_magic img crafted_sb c = []"
proof -
  let ?o = "(c * 256 + 32) * 4096"
  have "take 4 (drop (?o + 4) img) = take 4 (drop 4 (CG_BYTES g))"
    unfolding assms [symmetric] by (simp add: take_drop_window)
  also have "\<dots> = endian_bytes Little CG_MAGIC"
    unfolding CG_BYTES_def by (rule fixture_take) (simp_all add: header_writes_def holds_def)
  finally show ?thesis by (simp add: bad_cg_magic_def Let_def crafted_geometry)
qed

text \<open>The bitmap of a group lies after its header.\<close>

lemma crafted_bitmap:
  assumes "valid_slice img" "c < 4" "take 124 (drop ((c * 256 + 32) * 4096) img) = CG_BYTES g"
    and "take 16 (drop ((c * 256 + 32) * 4096 + 168) img) = bm" "length bm = 16"
  shows "cg_inode_bitmap img crafted_sb (of_nat c) = Some bm"
proof -
  let ?o = "(c * 256 + 32) * 4096"
  have len: "?o + 124 \<le> length img" "?o + 168 + 16 \<le> length img"
    using arg_cong [OF assms(3), of length] arg_cong [OF assms(4), of length] assms(5) by simp_all
  have "cg_parse (drop ?o img) Little = Inr (crafted_cg g)" by (rule parse_header_at [OF assms(3)])
  moreover have "slice_get img (?o + cg_inosused_off (crafted_cg g))
    (?o + cg_inosused_off (crafted_cg g) + 16) = Some bm"
    using len assms(4) by (simp add: cg_inosused_off_def crafted_cg_def slice_get_Some_iff)
  ultimately show ?thesis
    using len assms(2)
    by (subst cg_inode_bitmap_at [OF assms(1)]) (simp_all add: crafted_geometry nat_i32_def add.commute)
qed

lemma crafted_allocated:
  assumes "valid_slice img" "take 124 (drop ((c * 256 + 32) * 4096) img) = CG_BYTES g"
    and "take 16 (drop ((c * 256 + 32) * 4096 + 168) img) = bm" "length bm = 16" "c < 4" "n div 128 = c"
  shows "inode_allocated img crafted_sb n \<longleftrightarrow> bit (bm ! (n mod 128 div 8)) (n mod 8)"
    and "inode_free img crafted_sb n \<longleftrightarrow> \<not> bit (bm ! (n mod 128 div 8)) (n mod 8)"
proof -
  have "n mod 128 div 8 < 16" by simp
  moreover have "n mod 128 mod 8 = n mod 8" by (simp add: mod_mod_cancel)
  ultimately show "inode_allocated img crafted_sb n \<longleftrightarrow> bit (bm ! (n mod 128 div 8)) (n mod 8)"
    "inode_free img crafted_sb n \<longleftrightarrow> \<not> bit (bm ! (n mod 128 div 8)) (n mod 8)"
    using crafted_bitmap [OF assms(1,5,2,3,4)] assms(4,6)
    by (simp_all add: inode_allocated_def inode_free_def crafted_geometry bitmap_bit_iff)
qed

lemma crafted_no_header:
  assumes "valid_slice img" "cg_parse (drop ((c * 256 + 32) * 4096) img) Little = Inl e" "c < 4" "n div 128 = c"
  shows "\<not> inode_allocated img crafted_sb n"
proof -
  have "cg_inode_bitmap img crafted_sb (of_nat c) \<noteq> Some used" for used
    using assms(2,3) by (subst cg_inode_bitmap_at [OF assms(1)]) (simp_all add: crafted_geometry)
  then have "cg_inode_bitmap img crafted_sb (of_nat c) = None" by (metis not_Some_eq)
  then show ?thesis using assms(4) by (simp add: inode_allocated_def crafted_geometry)
qed

text \<open>The audit of a volume with the builder's superblock, and one where at most one inode can be an orphan.\<close>

lemma crafted_audit:
  assumes "valid_slice img" "take 1376 (drop 65536 img) = SB_BYTES" "3145728 < length img"
  shows "audit_image img =
    concat (map (\<lambda>c. divergences img crafted_sb c @ bad_cg_magic img crafted_sb c) [0, 1, 2, 3])
    @ concat (map (orphan_emit img crafted_sb) [0..<512])"
proof -
  have "\<not> geometry_beyond img crafted_sb" using assms(3) by (simp add: geometry_beyond_def crafted_geometry)
  then show ?thesis
    using audit_image_exact [OF assms(1) crafted_primary [OF assms(2)]] by (simp add: crafted_geometry upt_4)
qed

lemma concat_only:
  assumes "\<And>n. n < m \<Longrightarrow> n \<noteq> k \<Longrightarrow> f n = []" "k < m"
  shows "concat (map f [0..<m]) = f k"
proof -
  have "[0..<m] = [0..<k] @ k # [Suc k..<m]"
    using assms(2) upt_add_eq_append [of 0 k "m - k"] by (simp add: upt_conv_Cons)
  moreover have "concat (map f [0..<k]) = []" "concat (map f [Suc k..<m]) = []"
    unfolding concat_eq_Nil_conv using assms by auto
  ultimately show ?thesis by (simp del: concat_eq_Nil_conv)
qed

lemma only_orphan:
  assumes "\<And>n. 3 \<le> n \<Longrightarrow> n < 512 \<Longrightarrow> n \<noteq> k \<Longrightarrow> \<not> inode_allocated img crafted_sb n" "k < 512"
  shows "concat (map (orphan_emit img crafted_sb) [0..<512]) = orphan_emit img crafted_sb k"
  by (rule concat_only) (use assms in \<open>auto simp: orphan_emit_def\<close>)

text \<open>Inodes and directories as the builder writes them.\<close>

lemma crafted_dinode_parse:
  assumes "file_type_from_mode mode \<noteq> FtSymlink"
  shows "inode_parse_with_maxsymlink (crafted_dinode mode sz db0) Ufs2 Little m
    = Inr (plain_inode mode 1 sz (db0 # replicate 11 0) [0, 0, 0])"
  unfolding crafted_dinode_def
  by (rule plain_inode_parse)
    (use assms in \<open>simp_all add: inode_fixture_simps crafted_dinode_writes_def plain_inode_def\<close>)

lemma crafted_read_inode:
  assumes "valid_slice img" "unat ino < 512" "crafted_ino_byte (unat ino) = k"
    and "take 256 (drop k img) = crafted_dinode mode sz db0" "file_type_from_mode mode \<noteq> FtSymlink"
  shows "read_inode img crafted_sb ino = Inr (plain_inode mode 1 sz (db0 # replicate 11 0) [0, 0, 0])"
proof -
  have "k + 256 \<le> length img" using arg_cong [OF assms(4), of length] by simp
  moreover have "inode_decode (take 256 (drop k img)) Ufs2 Little 120
      = plain_inode mode 1 sz (db0 # replicate 11 0) [0, 0, 0]"
    using crafted_dinode_parse [OF assms(5), of sz db0 120] unfolding assms(4)
    by (simp add: inode_parse_with_maxsymlink_def Let_def split: if_splits)
  ultimately show ?thesis
    using assms(2,3)
    by (simp add: read_inode_refines [OF assms(1)] crafted_geometry crafted_ino_byte_def Let_def dinode_size_def sb_consts)
qed

lemma crafted_listing:
  assumes "valid_slice img" "read_inode img crafted_sb ino = Inr (plain_inode mode 1 512 (frag # replicate 11 0) [0, 0, 0])"
    and "take 512 (drop (unat frag * 4096) img) = concat (map (raw_bytes Little) rs)"
    and "\<forall>r \<in> set rs. raw_ok r" "frag \<noteq> 0"
  shows "list_dir_all img crafted_sb ino = Inr (map raw_entry rs)"
proof -
  have "list_dir_entries img crafted_sb (plain_inode mode 1 512 (frag # replicate 11 0) [0, 0, 0]) = map raw_entry rs"
    using assms(3,4,5) by (intro one_block_dir [OF assms(1), where addr = frag])
      (simp_all add: plain_inode_def, simp_all add: crafted_sb_def nat_i32_def)
  then show ?thesis using assms(2) by (simp add: list_dir_all_def)
qed

lemma crafted_entry:
  "8 + length name \<le> unat reclen \<Longrightarrow> crafted_direct ino reclen ty name = raw_bytes Little (plain_dirent ino reclen ty (str name))"
  by (simp add: crafted_direct_def dirent_bytes_layout)

end
