(* ===== verification/CraftedEdits.thy ===== *)
theory CraftedEdits
  imports CraftedVolume
begin

text \<open>
  Edits of the clean volume of \<open>forensic/tests\<close>: a write apart from a structure leaves it, so the audit of an edited
  volume is what the edited places give; groups whose header and bitmap no write touches have no allocated inode.
\<close>

section \<open>The clean volume\<close>

lemma zeros_bit [simp]: "k < n \<Longrightarrow> \<not> bit (replicate n (0 :: u8) ! k) j"
  by simp

lemma group_cases: "c < 4 \<Longrightarrow> c = 0 \<or> c = 1 \<or> c = 2 \<or> c = (3 :: nat)"
  by linarith

lemma clean_holds:
  assumes "c < 4"
  shows "holds 3346432 clean_fields ((c * 256 + 24) * 4096, SB_BYTES)"
    and "holds 3346432 clean_fields ((c * 256 + 32) * 4096, CG_BYTES (of_nat c))"
    and "holds 3346432 clean_fields ((c * 256 + 32) * 4096 + 168, replicate 16 0)"
  by (insert group_cases [OF assms], elim disjE; simp add: layout_simps)+

text \<open>Writes apart from a structure leave it.\<close>

definition apart :: "(usize \<times> bytes) list \<Rightarrow> usize \<Rightarrow> usize \<Rightarrow> bool" where
  "apart gs a n \<longleftrightarrow> list_all (\<lambda>(off, b). a + n \<le> off \<or> off + length b \<le> a) gs"

lemma holds_apart:
  assumes "holds m fs (a, b)" "apart gs a (length b)"
  shows "holds m (fs @ gs) (a, b)"
  using assms(2)
proof (induction gs rule: rev_induct)
  case Nil
  show ?case using assms(1) by simp
next
  case (snoc g gs)
  then show ?case by (cases g) (simp add: holds_def apart_def)
qed

abbreviation edited :: "(usize \<times> bytes) list \<Rightarrow> bytes" where
  "edited gs \<equiv> fixture 3346432 (clean_fields @ gs)"

lemma edited_valid [simp]: "valid_slice (edited gs)"
  by (simp add: valid_slice_def)

lemma edited_put: "slice_put clean_partition off b = edited [(off, b)]"
  by (simp add: clean_normal fixture_put)

lemma edited_structures:
  assumes "c < 4"
  shows "apart gs ((c * 256 + 24) * 4096) 1376 \<Longrightarrow> take 1376 (drop ((c * 256 + 24) * 4096) (edited gs)) = SB_BYTES"
    and "apart gs ((c * 256 + 32) * 4096) 124 \<Longrightarrow> take 124 (drop ((c * 256 + 32) * 4096) (edited gs)) = CG_BYTES (of_nat c)"
    and "apart gs ((c * 256 + 32) * 4096 + 168) 16 \<Longrightarrow>
      take 16 (drop ((c * 256 + 32) * 4096 + 168) (edited gs)) = replicate 16 0"
proof -
  note h = clean_holds [OF assms, THEN holds_apart]
  show "apart gs ((c * 256 + 24) * 4096) 1376 \<Longrightarrow> take 1376 (drop ((c * 256 + 24) * 4096) (edited gs)) = SB_BYTES"
    by (rule fixture_take [OF h(1)]) simp_all
  show "apart gs ((c * 256 + 32) * 4096) 124 \<Longrightarrow> take 124 (drop ((c * 256 + 32) * 4096) (edited gs)) = CG_BYTES (of_nat c)"
    by (rule fixture_take [OF h(2)]) simp_all
  show "apart gs ((c * 256 + 32) * 4096 + 168) 16 \<Longrightarrow>
      take 16 (drop ((c * 256 + 32) * 4096 + 168) (edited gs)) = replicate 16 0"
    by (rule fixture_take [OF h(3)]) simp_all
qed

lemma edited_free:
  assumes "apart gs ((c * 256 + 32) * 4096) 124" "apart gs ((c * 256 + 32) * 4096 + 168) 16" "c < 4" "n div 128 = c"
  shows "\<not> inode_allocated (edited gs) crafted_sb n"
proof -
  have "n mod 128 div 8 < 16" by simp
  then show ?thesis
    using crafted_allocated(1) [OF edited_valid edited_structures(2) [OF assms(3,1)] edited_structures(3) [OF assms(3,2)]]
      assms(3,4) by simp
qed

lemma edited_silent:
  assumes "apart gs ((c * 256 + 24) * 4096) 1376" "apart gs ((c * 256 + 32) * 4096) 124" "c < 4"
  shows "divergences (edited gs) crafted_sb c = []" "bad_cg_magic (edited gs) crafted_sb c = []"
  using silent_backup [OF edited_structures(1)] silent_header [OF edited_structures(2)] assms by blast+

lemma primary_holds: "holds 3346432 clean_fields (65536, SB_BYTES)"
  by (simp add: layout_simps)

lemma edited_primary: "apart gs 65536 1376 \<Longrightarrow> take 1376 (drop 65536 (edited gs)) = SB_BYTES"
  by (rule fixture_take [OF holds_apart [OF primary_holds]]) simp_all

text \<open>Edits outside all groups but one, and the audit they give.\<close>

lemma edited_audit:
  assumes "apart gs 65536 1376" "g < 4"
    and "list_all (\<lambda>c. apart gs ((c * 256 + 24) * 4096) 1376 \<and> apart gs ((c * 256 + 32) * 4096) 124) (remove1 g [0, 1, 2, 3])"
  shows "audit_image (edited gs) = divergences (edited gs) crafted_sb g @ bad_cg_magic (edited gs) crafted_sb g
    @ concat (map (orphan_emit (edited gs) crafted_sb) [0..<512])"
proof -
  have "concat (map (\<lambda>c. divergences (edited gs) crafted_sb c @ bad_cg_magic (edited gs) crafted_sb c) [0..<4])
      = divergences (edited gs) crafted_sb g @ bad_cg_magic (edited gs) crafted_sb g"
  proof (rule concat_only)
    fix c assume "c < 4" "c \<noteq> g"
    then have "c \<in> set (remove1 g [0, 1, 2, 3])" using group_cases [of c] by auto
    then show "divergences (edited gs) crafted_sb c @ bad_cg_magic (edited gs) crafted_sb c = []"
      using assms(3) edited_silent \<open>c < 4\<close> by (simp add: list_all_iff)
  qed (rule assms(2))
  then show ?thesis using crafted_audit [OF edited_valid edited_primary [OF assms(1)]] by (simp add: upt_4)
qed

text \<open>Groups whose header and bitmap no edit touches have no allocated inode.\<close>

definition headers_apart :: "(usize \<times> bytes) list \<Rightarrow> nat list \<Rightarrow> bool" where
  "headers_apart gs cs \<longleftrightarrow>
     list_all (\<lambda>c. c < 4 \<and> apart gs ((c * 256 + 32) * 4096) 124 \<and> apart gs ((c * 256 + 32) * 4096 + 168) 16) cs"

lemma headers_apart_free:
  "headers_apart gs cs \<Longrightarrow> n div 128 \<in> set cs \<Longrightarrow> \<not> inode_allocated (edited gs) crafted_sb n"
  using edited_free [of gs "n div 128" n] by (simp add: headers_apart_def list_all_iff)

lemma group_of: "n < 512 \<Longrightarrow> n div 128 \<in> {0, 1, 2, 3 :: nat}"
  using group_cases [of "n div 128"] by auto

lemma no_orphans:
  assumes "headers_apart gs [0, 1, 2, 3]"
  shows "concat (map (orphan_emit (edited gs) crafted_sb) [0..<512]) = []"
  using headers_apart_free [OF assms] group_of unfolding concat_eq_Nil_conv by (force simp: orphan_emit_def)

text \<open>The root directory of an edited volume.\<close>

definition root_dirents2 :: "raw_dirent list" where
  "root_dirents2 = [plain_dirent 2 12 4 (str ''.''), plain_dirent 2 500 4 (str ''..'')]"

lemma edited_root:
  assumes "apart gs 164352 256" "apart gs 819200 512"
  shows "list_dir_all (edited gs) crafted_sb 2 = Inr (map raw_entry root_dirents2)"
proof -
  have ab: "apart gs 819200 12" "apart gs 819212 500"
    using assms(2) by (auto simp: apart_def list_all_iff)
  have h: "holds 3346432 clean_fields (164352, crafted_dinode 0x41ED 512 200)"
    "holds 3346432 clean_fields (819200, crafted_direct 2 12 4 ''.'')"
    "holds 3346432 clean_fields (819212, crafted_direct 2 500 4 ''..'')"
    by (simp_all add: layout_simps)
  have "take 256 (drop 164352 (edited gs)) = crafted_dinode 0x41ED 512 200"
    by (rule fixture_take [OF holds_apart [OF h(1)]]) (use assms(1) in simp_all)
  then have i: "read_inode (edited gs) crafted_sb 2 = Inr (plain_inode 0x41ED 1 512 (200 # replicate 11 0) [0, 0, 0])"
    by (intro crafted_read_inode [where k = 164352])
      (simp_all add: crafted_ino_byte_def file_type_from_mode_def sb_consts)
  have "take 12 (drop 819200 (edited gs)) = crafted_direct 2 12 4 ''.''"
    by (rule fixture_take [OF holds_apart [OF h(2)]]) (use ab in simp_all)
  moreover have "take 500 (drop 819212 (edited gs)) = crafted_direct 2 500 4 ''..''"
    by (rule fixture_take [OF holds_apart [OF h(3)]]) (use ab in simp_all)
  ultimately have "take 512 (drop 819200 (edited gs)) = concat (map (raw_bytes Little) root_dirents2)"
    using take_add [of 12 500 "drop 819200 (edited gs)"] by (simp add: root_dirents2_def crafted_entry)
  then show ?thesis
    by (intro crafted_listing [OF edited_valid i]) (simp_all add: root_dirents2_def plain_dirent_ok)
qed

lemma edited_reachable:
  assumes "apart gs 164352 256" "apart gs 819200 512"
  shows "reachable_inodes (edited gs) crafted_sb = [2]"
proof -
  have "reach_entries (map raw_entry root_dirents2) [] [2] = ([], [2])"
    by (simp add: root_dirents2_def plain_dirent_def raw_entry_def)
  then show ?thesis
    using edited_root [OF assms]
    by (simp add: reachable_inodes_def WALK_BUDGET_def sb_consts reach_loop.simps [of _ _ _ "[2]"]
        reach_loop.simps [of _ _ _ "[]"] vec_pop_def)
qed

text \<open>One field of one superblock edited.\<close>

lemma edited_superblock:
  assumes "take 1376 (drop k (edited gs)) = SB_BYTES" "f + length v \<le> 1376" "k + 1376 \<le> 3346432"
    and "list_all (holds 1376 (super_writes @ [(f, v)])) (sb_fields sb)" "wf_geometry sb" "sb_version sb = Ufs2"
  shows "sb_parse (drop k (edited (gs @ [(k + f, v)]))) = Inr sb"
proof -
  have "edited (gs @ [(k + f, v)]) = slice_put (edited gs) (k + f) v" by (simp add: fixture_put)
  then have w: "take 1376 (drop k (edited (gs @ [(k + f, v)]))) = fixture 1376 (super_writes @ [(f, v)])"
    using take_drop_put [of f v 1376 k "edited gs"] assms(1-3) by (simp add: SB_BYTES_def fixture_put)
  have "sb_parse (fixture 1376 (super_writes @ [(f, v)])) = try_bind (sb_validate_geometry sb) (\<lambda>_. Inr sb)"
    by (rule fixture_sb) (use assms(4,6) in \<open>simp_all add: sb_consts\<close>)
  then have "sb_parse (fixture 1376 (super_writes @ [(f, v)])) = Inr sb"
    using assms(5) validate_Inr [of sb "()"] by simp
  then show ?thesis
    using sb_parse_prefix [of "drop k (edited (gs @ [(k + f, v)]))"] assms(3) w by (simp add: sb_consts)
qed

text \<open>One bit set in the bitmap of the first group.\<close>

lemma used_bit:
  assumes "gs = hs @ [(131240, [2 ^ k])]" "apart hs 131240 16" "k < 8" "apart hs 131072 124" "n div 128 = 0"
  shows "inode_allocated (edited gs) crafted_sb n \<longleftrightarrow> n = k"
proof -
  have bm: "holds 3346432 clean_fields (131240, replicate 16 0)" using clean_holds(3) [of 0] by simp
  have "take 16 (drop 131240 (edited gs)) = slice_put (take 16 (drop 131240 (edited hs))) 0 [2 ^ k]"
    using take_drop_put [of 0 "[2 ^ k]" 16 131240 "edited hs"] by (simp add: assms(1) fixture_put)
  also have "take 16 (drop 131240 (edited hs)) = replicate 16 0"
    by (rule fixture_take [OF holds_apart [OF bm]]) (use assms(2) in simp_all)
  also have "slice_put (replicate 16 0) 0 [2 ^ k] = (2 ^ k :: u8) # replicate 15 0" by (simp add: slice_put_def)
  finally have w: "take 16 (drop 131240 (edited gs)) = 2 ^ k # replicate 15 0" .
  have "take 124 (drop 131072 (edited gs)) = CG_BYTES (of_nat 0)"
    using edited_structures(2) [of 0 gs] assms(1,4) by (simp add: apart_def)
  then have "inode_allocated (edited gs) crafted_sb n \<longleftrightarrow> bit ((2 ^ k # replicate 15 0) ! (n mod 128 div 8) :: u8) (n mod 8)"
    using w assms(5) by (intro crafted_allocated(1) [OF edited_valid, where c = 0]) simp_all
  also have "\<dots> \<longleftrightarrow> n = k"
  proof (cases "n < 8")
    case True
    then show ?thesis using assms(3) by (auto simp: bit_exp_iff)
  next
    case False
    moreover have "n < 128" using assms(5) by simp
    moreover then have "n div 8 - 1 < 15" "n div 8 \<noteq> 0" using False by auto
    ultimately show ?thesis using assms(3) by (simp add: nth_Cons')
  qed
  finally show ?thesis .
qed

lemma used_orphans:
  assumes "gs = hs @ [(131240, [2 ^ k])]" "apart hs 131240 16" "k < 8" "apart hs 131072 124"
    and "headers_apart gs [1, 2, 3]"
  shows "concat (map (orphan_emit (edited gs) crafted_sb) [0..<512]) = orphan_emit (edited gs) crafted_sb k"
proof (rule only_orphan)
  fix n :: nat assume "3 \<le> n" "n < 512" "n \<noteq> k"
  then show "\<not> inode_allocated (edited gs) crafted_sb n"
    using used_bit [OF assms(1-4), of n] headers_apart_free [OF assms(5), of n] group_of [of n] by auto
qed (use assms(3) in simp)

end
