(* ===== verification/TestsIntegrity.thy ===== *)
theory TestsIntegrity
  imports CraftedEdits RunVolume
begin

text \<open>
  The tests of \<open>forensic/tests/integrity.rs\<close>: one corruption each of a clean volume, and the anomaly it gives. The proofs
  read each structure from the normal form of the volume and compute the whole list of anomalies. A call whose result
  is dropped is a condition that it does not panic.
\<close>

section \<open>The tests\<close>

definition is_magic_invalid :: "anomaly \<Rightarrow> bool" where
  "is_magic_invalid a = (case an_kind a of SuperblockMagicInvalid _ _ \<Rightarrow> True | _ \<Rightarrow> False)"
definition is_divergence :: "anomaly \<Rightarrow> bool" where
  "is_divergence a = (case an_kind a of BackupSuperblockDivergence _ _ _ _ _ \<Rightarrow> True | _ \<Rightarrow> False)"
definition is_cg_magic :: "anomaly \<Rightarrow> bool" where
  "is_cg_magic a = (case an_kind a of CgMagicInvalid _ _ _ \<Rightarrow> True | _ \<Rightarrow> False)"
definition is_orphan :: "anomaly \<Rightarrow> bool" where
  "is_orphan a = (case an_kind a of OrphanedInode _ _ \<Rightarrow> True | _ \<Rightarrow> False)"
definition is_orphan_of :: "u64 \<Rightarrow> anomaly \<Rightarrow> bool" where
  "is_orphan_of n a = (case an_kind a of OrphanedInode ino _ \<Rightarrow> ino = n | _ \<Rightarrow> False)"
definition is_geometry :: "anomaly \<Rightarrow> bool" where
  "is_geometry a = (case an_kind a of ImpossibleGeometry _ _ _ \<Rightarrow> True | _ \<Rightarrow> False)"

text \<open>\<open>iter().find(p).unwrap()\<close>, and an assertion on it.\<close>

definition first_with :: "('a \<Rightarrow> bool) \<Rightarrow> 'a list \<Rightarrow> ('a \<Rightarrow> bool) \<Rightarrow> bool" where
  "first_with p xs q = (case find p xs of None \<Rightarrow> False | Some x \<Rightarrow> q x)"

definition test_clean_crafted_partition_emits_nothing :: bool where
  "test_clean_crafted_partition_emits_nothing \<longleftrightarrow> audit_image clean_partition = []"

definition bad_magic_part :: bytes where
  "bad_magic_part = slice_put clean_partition (65536 + 1372) (endian_bytes Little (0xdeadbeef :: u32))"

definition test_bad_superblock_magic_flags_magic_invalid :: bool where
  "test_bad_superblock_magic_flags_magic_invalid \<longleftrightarrow>
     (let anomalies = audit_image bad_magic_part in
      list_ex is_magic_invalid anomalies
      \<and> first_with is_magic_invalid anomalies (\<lambda>a. an_code a = ''UFS-SUPERBLOCK-MAGIC-INVALID''
          \<and> (case an_kind a of SuperblockMagicInvalid _ bs \<Rightarrow> bs = endian_bytes Little (0xdeadbeef :: u32) | _ \<Rightarrow> True)))"

definition test_backup_superblock_divergence_flags_divergence :: bool where
  "test_backup_superblock_divergence_flags_divergence \<longleftrightarrow>
     (let sb_off = (256 + 24) * 4096;
          part = slice_put clean_partition (sb_off + 184) (endian_bytes Little (999 :: i32));
          anomalies = audit_image part in
      list_ex is_divergence anomalies
      \<and> first_with is_divergence anomalies (\<lambda>a. an_code a = ''UFS-BACKUP-SUPERBLOCK-DIVERGENCE''))"

definition test_bad_cg_magic_flags_cg_magic_invalid :: bool where
  "test_bad_cg_magic_flags_cg_magic_invalid \<longleftrightarrow>
     (let cg_off = (2 * 256 + 32) * 4096;
          part = slice_put clean_partition (cg_off + 4) (endian_bytes Little (0x12345678 :: u32));
          anomalies = audit_image part in
      list_ex is_cg_magic anomalies
      \<and> first_with is_cg_magic anomalies (\<lambda>a. an_code a = ''UFS-CG-MAGIC-INVALID''
          \<and> (case an_kind a of CgMagicInvalid _ w _ \<Rightarrow> w = 0x12345678 | _ \<Rightarrow> True)))"

definition test_orphaned_inode_flags_orphan :: bool where
  "test_orphaned_inode_flags_orphan \<longleftrightarrow>
     (let orphan = crafted_dinode 0x81A4 116 60;
          part = slice_put clean_partition (crafted_ino_byte 6) orphan;
          part = set_inode_used 0 6 True part;
          anomalies = audit_image part in
      list_ex (is_orphan_of 6) anomalies
      \<and> first_with is_orphan anomalies (\<lambda>a. an_code a = ''UFS-ORPHANED-INODE'' \<and> an_severity a = SevMedium))"

definition test_reachable_allocated_inode_is_not_orphan :: bool where
  "test_reachable_allocated_inode_is_not_orphan \<longleftrightarrow>
     \<not> list_ex (is_orphan_of 2) (audit_image (set_inode_used 0 2 True clean_partition))"

definition test_impossible_geometry_flags_bomb :: bool where
  "test_impossible_geometry_flags_bomb \<longleftrightarrow>
     list_ex is_geometry (audit_image (slice_put clean_partition (65536 + 44) (endian_bytes Little (100000 :: i32))))"

definition test_malformed_input_never_panics :: bool where
  "test_malformed_input_never_panics \<longleftrightarrow>
     audit_image [] = [] \<and> audit_image (replicate 3 0) = [] \<and> audit_image (replicate 4096 0xFF) = []
     \<and> audit_image_run (take 70000 clean_partition) \<noteq> None
     \<and> audit_image_run (slice_put (replicate 200000 0xAB) (65536 + 1372) (endian_bytes Little FS_UFS2_MAGIC)) \<noteq> None"

definition test_audit_findings_tags_analyzer_and_scope ::
  "(observation \<Rightarrow> report_source \<Rightarrow> 'f) \<Rightarrow> ('f \<Rightarrow> report_source) \<Rightarrow> ('f \<Rightarrow> string) \<Rightarrow> bool" where
  "test_audit_findings_tags_analyzer_and_scope to_finding source_of code_of \<longleftrightarrow>
     (let findings = audit_findings to_finding bad_magic_part ''case-1/ufs2'' in
      findings \<noteq> []
      \<and> list_all (\<lambda>f. src_analyzer (source_of f) = ''ufs-forensic'' \<and> src_scope (source_of f) = ''case-1/ufs2'') findings
      \<and> list_ex (\<lambda>f. code_of f = ''UFS-SUPERBLOCK-MAGIC-INVALID'') findings)"

section \<open>They pass\<close>

lemma clean_audit: "audit_image (edited []) = []"
  using edited_audit [of "[]" 0] edited_silent [of "[]" 0] no_orphans [of "[]"]
  by (simp add: apart_def headers_apart_def del: concat_eq_Nil_conv)

lemma bad_magic_audit:
  "audit_image bad_magic_part = [anomaly_new (SuperblockMagicInvalid 66908 (endian_bytes Little (0xdeadbeef :: u32)))]"
proof -
  let ?b = "endian_bytes Little (0xdeadbeef :: u32)"
  have t: "take 4 (drop 66908 bad_magic_part) = ?b"
    unfolding bad_magic_part_def edited_put by (rule fixture_take) (simp_all add: holds_def)
  have "?b \<noteq> endian_bytes e (magic_of v)" for e v
    by (cases e; cases v) (simp_all add: magic_of_def sb_consts endian_bytes_def word_to_be_def word_to_le_def)
  then have "magic_bad bad_magic_part SBLOCK_UFS2"
    using t by (simp add: magic_bad_def sb_consts bad_magic_part_def edited_put SBLOCK_UFS2_def)
  then show ?thesis by (simp add: audit_image_def parse_primary_sb_cases t)
qed

lemma divergence_audit:
  "audit_image (edited [(1147064, endian_bytes Little (999 :: i32))]) =
    [anomaly_new (BackupSuperblockDivergence 1 ''fs_ipg'' 128 999 1146880)]"
proof -
  let ?gs = "[(1147064, endian_bytes Little (999 :: i32))]"
  have p: "sb_parse (drop 1146880 (edited ?gs)) = Inr (crafted_sb\<lparr> sb_ipg := 999 \<rparr>)"
    using edited_superblock [of 1146880 "[]" 184 "endian_bytes Little (999 :: i32)" "crafted_sb\<lparr> sb_ipg := 999 \<rparr>"]
      edited_structures(1) [of 1 "[]"]
    by (simp add: apart_def sb_fields_defs super_writes_def holds_def magic_of_def sb_consts crafted_sb_def wf_geometry_def)
  have d: "divergences (edited ?gs) crafted_sb 1 = [anomaly_new (BackupSuperblockDivergence 1 ''fs_ipg'' 128 999 1146880)]"
    using p by (simp add: divergences_def Let_def crafted_geometry backup_checks_def)
  have "concat (map (orphan_emit (edited ?gs) crafted_sb) [0..<512]) = []"
    by (rule no_orphans) (simp add: headers_apart_def apart_def)
  moreover have "bad_cg_magic (edited ?gs) crafted_sb 1 = []"
    by (rule silent_header [OF edited_structures(2)]) (simp_all add: apart_def)
  moreover have "audit_image (edited ?gs) = divergences (edited ?gs) crafted_sb 1 @ bad_cg_magic (edited ?gs) crafted_sb 1
      @ concat (map (orphan_emit (edited ?gs) crafted_sb) [0..<512])"
    by (rule edited_audit) (simp_all add: apart_def)
  ultimately show ?thesis using d by (simp del: concat_eq_Nil_conv)
qed

lemma cg_magic_audit:
  "audit_image (edited [(2228228, endian_bytes Little (0x12345678 :: u32))]) =
    [anomaly_new (CgMagicInvalid 2 0x12345678 2228224)]"
proof -
  let ?gs = "[(2228228, endian_bytes Little (0x12345678 :: u32))]"
  have h: "holds 3346432 (clean_fields @ ?gs) (2228228, endian_bytes Little (0x12345678 :: u32))" by (simp add: holds_def)
  have m: "le_u32 (edited ?gs) 2228228 = 0x12345678" using fixture_u32 [OF h] by (simp add: endian_u32_def)
  have t: "take 4 (drop 2228228 (edited ?gs)) = endian_bytes Little (0x12345678 :: u32)"
    by (rule fixture_take [OF h]) simp
  have "endian_bytes Little (0x12345678 :: u32) \<noteq> endian_bytes e CG_MAGIC" for e
    by (cases e) (simp_all add: sb_consts endian_bytes_def word_to_be_def word_to_le_def)
  then have b: "bad_cg_magic (edited ?gs) crafted_sb 2 = [anomaly_new (CgMagicInvalid 2 0x12345678 2228224)]"
    using t m by (simp add: bad_cg_magic_def Let_def crafted_geometry)
  have "slice_get (drop 2228224 (edited ?gs)) 4 8 = Some (endian_bytes Little (0x12345678 :: u32))"
    using fixture_get [OF h] by (subst slice_get_drop) simp_all
  then have "endian_u32 Little (drop 2228224 (edited ?gs)) 4 = 0x12345678"
    by (intro eu32.rd_at) (simp_all add: slice_get_Some_iff)
  then have "cg_parse (drop 2228224 (edited ?gs)) Little = Inl (ErrBadCgMagic 0x12345678 Little)"
    by (simp add: cg_parse_def sb_consts)
  then have n2: "\<not> inode_allocated (edited ?gs) crafted_sb n" if "n div 128 = 2" for n
    using that crafted_no_header [of "edited ?gs" 2] by simp
  have "headers_apart ?gs [0, 1, 3]" by (simp add: headers_apart_def apart_def)
  then have "\<not> inode_allocated (edited ?gs) crafted_sb n" if "n < 512" for n
    using headers_apart_free [of ?gs "[0, 1, 3]" n] n2 [of n] group_of [OF that] by auto
  then have "concat (map (orphan_emit (edited ?gs) crafted_sb) [0..<512]) = []"
    unfolding concat_eq_Nil_conv by (auto simp: orphan_emit_def)
  moreover have "divergences (edited ?gs) crafted_sb 2 = []"
    by (rule silent_backup [OF edited_structures(1)]) (simp_all add: apart_def)
  moreover have "audit_image (edited ?gs) = divergences (edited ?gs) crafted_sb 2 @ bad_cg_magic (edited ?gs) crafted_sb 2
      @ concat (map (orphan_emit (edited ?gs) crafted_sb) [0..<512])"
    by (rule edited_audit) (simp_all add: apart_def)
  ultimately show ?thesis using b by (simp del: concat_eq_Nil_conv)
qed

lemma orphan_audit:
  "audit_image (edited [(165376, crafted_dinode 0x81A4 116 60), (131240, [64])]) = [anomaly_new (OrphanedInode 6 1)]"
proof -
  let ?hs = "[(165376, crafted_dinode 0x81A4 116 60)]" and ?gs = "[(165376, crafted_dinode 0x81A4 116 60), (131240, [64])]"
  have e: "?gs = ?hs @ [(131240, [2 ^ 6])]" by simp
  have h: "holds 3346432 (clean_fields @ ?gs) (165376, crafted_dinode 0x81A4 116 60)" by (simp add: holds_def)
  have "take 256 (drop 165376 (edited ?gs)) = crafted_dinode 0x81A4 116 60" by (rule fixture_take [OF h]) simp
  then have "read_inode (edited ?gs) crafted_sb 6 = Inr (plain_inode 0x81A4 1 116 (60 # replicate 11 0) [0, 0, 0])"
    by (intro crafted_read_inode [where k = 165376]) (simp_all add: crafted_ino_byte_def modes)
  moreover have "inode_allocated (edited ?gs) crafted_sb 6"
    using used_bit [OF e, of 6] by (simp add: apart_def)
  moreover have "reachable_inodes (edited ?gs) crafted_sb = [2]" by (rule edited_reachable) (simp_all add: apart_def)
  ultimately have "orphan_emit (edited ?gs) crafted_sb 6 = [anomaly_new (OrphanedInode 6 1)]"
    by (simp add: orphan_emit_def plain_inode_def)
  moreover have "concat (map (orphan_emit (edited ?gs) crafted_sb) [0..<512]) = orphan_emit (edited ?gs) crafted_sb 6"
    by (rule used_orphans [OF e]) (simp_all add: apart_def headers_apart_def)
  moreover have "audit_image (edited ?gs) = divergences (edited ?gs) crafted_sb 0 @ bad_cg_magic (edited ?gs) crafted_sb 0
      @ concat (map (orphan_emit (edited ?gs) crafted_sb) [0..<512])"
    by (rule edited_audit) (simp_all add: apart_def)
  moreover have "divergences (edited ?gs) crafted_sb 0 = []" "bad_cg_magic (edited ?gs) crafted_sb 0 = []"
    using edited_silent [of ?gs 0] by (simp_all add: apart_def)
  ultimately show ?thesis by (simp del: concat_eq_Nil_conv)
qed

lemma root_audit: "audit_image (edited [(131240, [4])]) = []"
proof -
  let ?gs = "[(131240 :: usize, [4 :: u8])]"
  have e: "?gs = [] @ [(131240, [2 ^ 2])]" by simp
  have "concat (map (orphan_emit (edited ?gs) crafted_sb) [0..<512]) = orphan_emit (edited ?gs) crafted_sb 2"
    by (rule used_orphans [OF e]) (simp_all add: apart_def headers_apart_def)
  also have "\<dots> = []" by (simp add: orphan_emit_def)
  finally have "concat (map (orphan_emit (edited ?gs) crafted_sb) [0..<512]) = []" .
  then show ?thesis
    using edited_audit [of ?gs 0] edited_silent [of ?gs 0] by (simp add: apart_def del: concat_eq_Nil_conv)
qed

lemma geometry_audit:
  "audit_image (edited [(65580, endian_bytes Little (100000 :: i32))]) = [anomaly_new (ImpossibleGeometry ''fs_ncg'' 100000 4)]"
proof -
  let ?gs = "[(65580, endian_bytes Little (100000 :: i32))]" and ?sb = "crafted_sb\<lparr> sb_ncg := 100000 \<rparr>"
  have "sb_parse (drop 65536 (edited ?gs)) = Inr ?sb"
    using edited_superblock [of 65536 "[]" 44 "endian_bytes Little (100000 :: i32)" ?sb] edited_primary [of "[]"]
    by (simp add: apart_def sb_fields_defs super_writes_def holds_def magic_of_def sb_consts crafted_sb_def wf_geometry_def)
  then have p: "parse_primary_sb (edited ?gs) = Inr ?sb" by (simp add: parse_primary_sb_Inr SBLOCK_UFS2_def)
  have g: "cg_bytes ?sb = 1048576" "sb_ncg ?sb = 100000" by (simp_all add: cg_bytes_def crafted_sb_def nat_i32_def)
  then have "geometry_beyond (edited ?gs) ?sb" unfolding geometry_beyond_def by simp
  then show ?thesis using audit_image_exact [OF edited_valid p] g by simp
qed

lemma short_audit:
  assumes "length img < 8192"
  shows "audit_image img = []"
proof -
  have "\<not> magic_bad img off" "parse_primary img off \<noteq> Inr sb" if "8192 \<le> off" for off sb
    using that assms by (simp_all add: magic_bad_def parse_primary_Inr)
  then show ?thesis
    by (auto simp: audit_image_def parse_primary_sb_cases SBLOCK_UFS1_def SBLOCK_UFS2_def split: sum.split)
qed

lemma find_single: "first_with p [a] q \<longleftrightarrow> p a \<and> q a"
  by (simp add: first_with_def)

lemma integrity_tests:
  "test_clean_crafted_partition_emits_nothing" "test_bad_superblock_magic_flags_magic_invalid"
  "test_backup_superblock_divergence_flags_divergence" "test_bad_cg_magic_flags_cg_magic_invalid"
  "test_orphaned_inode_flags_orphan" "test_reachable_allocated_inode_is_not_orphan"
  "test_impossible_geometry_flags_bomb" "test_malformed_input_never_panics"
proof -
  note an = anomaly_new_def find_single
    is_magic_invalid_def is_divergence_def is_cg_magic_def is_orphan_def is_orphan_of_def is_geometry_def
  show "test_clean_crafted_partition_emits_nothing"
    using clean_audit by (simp add: test_clean_crafted_partition_emits_nothing_def clean_normal)
  show "test_bad_superblock_magic_flags_magic_invalid"
    by (simp add: test_bad_superblock_magic_flags_magic_invalid_def bad_magic_audit an)
  show "test_backup_superblock_divergence_flags_divergence"
    by (simp add: test_backup_superblock_divergence_flags_divergence_def edited_put divergence_audit an)
  show "test_bad_cg_magic_flags_cg_magic_invalid"
    by (simp add: test_bad_cg_magic_flags_cg_magic_invalid_def edited_put cg_magic_audit an)
  show "test_orphaned_inode_flags_orphan"
  proof -
    have "set_inode_used 0 6 True (edited [(165376, crafted_dinode 0x81A4 116 60)]) =
        edited [(165376, crafted_dinode 0x81A4 116 60), (131240, [64])]"
      by (subst fixture_used [where x = 0 and byte = 131240]) (simp_all add: layout_simps)
    then show ?thesis
      by (simp add: test_orphaned_inode_flags_orphan_def edited_put crafted_ino_byte_def Let_def orphan_audit an)
  qed
  show "test_reachable_allocated_inode_is_not_orphan"
    using root_audit edited_put by (simp add: test_reachable_allocated_inode_is_not_orphan_def flip: edge_partition_def)
      (simp add: edge_normal)
  show "test_impossible_geometry_flags_bomb"
    by (simp add: test_impossible_geometry_flags_bomb_def edited_put geometry_audit an)
  show "test_malformed_input_never_panics"
    by (simp add: test_malformed_input_never_panics_def short_audit audit_image_run_Some valid_slice_def clean_normal)
qed

lemma findings_test:
  assumes "\<And>ob src. source_of (to_finding ob src) = src" "\<And>ob src. code_of (to_finding ob src) = obs_code ob"
  shows "test_audit_findings_tags_analyzer_and_scope to_finding source_of code_of"
  by (simp add: test_audit_findings_tags_analyzer_and_scope_def audit_findings_def bad_magic_audit assms Let_def
      anomaly_observation_def anomaly_new_def)

end
