(* ===== verification/TestsEdge.thy ===== *)
theory TestsEdge
  imports TestsIntegrity TestsVfs
begin

text \<open>
  The tests of \<open>forensic/tests/edge.rs\<close>: truncated volumes, an unparseable backup, stale bitmap bits, a directory cycle,
  a subdirectory with a deleted entry, hostile sizes and numbers. A call whose result the test drops is a condition
  that it does not panic; SHA-256 is an argument.
\<close>

section \<open>The tests\<close>

definition is_deleted_file_of :: "u64 \<Rightarrow> recovered_item \<Rightarrow> bool" where
  "is_deleted_file_of n r = (case r of DeletedFile _ ino _ _ _ \<Rightarrow> ino = n | _ \<Rightarrow> False)"
definition is_deleted_dirent_named :: "string \<Rightarrow> recovered_item \<Rightarrow> bool" where
  "is_deleted_dirent_named nm r = (case r of DeletedDirent n _ \<Rightarrow> n = str nm | _ \<Rightarrow> False)"

definition test_truncated_after_primary_sb_skips_cg_regions_without_panic :: "(bytes \<Rightarrow> bytes) \<Rightarrow> bool" where
  "test_truncated_after_primary_sb_skips_cg_regions_without_panic sha256 \<longleftrightarrow>
     (let part = take (65536 + 1376) edge_partition; anomalies = audit_image part in
      \<not> list_ex is_cg_magic anomalies \<and> \<not> list_ex is_divergence anomalies \<and> recover_deleted_run sha256 part \<noteq> None)"

definition test_cg_region_off_end_without_geometry_error :: bool where
  "test_cg_region_off_end_without_geometry_error \<longleftrightarrow>
     (let part = slice_put edge_partition (65536 + 44) (endian_bytes Little (2 :: i32));
          anomalies = audit_image (take 1100000 part) in
      \<not> list_ex is_geometry anomalies \<and> \<not> list_ex is_cg_magic anomalies)"

definition test_cg_header_slice_too_short_is_skipped :: bool where
  "test_cg_header_slice_too_short_is_skipped \<longleftrightarrow>
     (let part = slice_put edge_partition (65536 + 44) (endian_bytes Little (2 :: i32))
      in audit_image_run (take (1179648 + 2) part) \<noteq> None)"

definition test_unparseable_backup_superblock_is_skipped :: bool where
  "test_unparseable_backup_superblock_is_skipped \<longleftrightarrow>
     (let bsb = (256 + 24) * 4096;
          part = slice_put edge_partition (bsb + 1372) (endian_bytes Little (0xdeadbeef :: u32))
      in \<not> list_ex is_divergence (audit_image part))"

definition test_allocated_inode_with_zeroed_dinode_is_not_orphan :: bool where
  "test_allocated_inode_with_zeroed_dinode_is_not_orphan \<longleftrightarrow>
     \<not> list_ex (is_orphan_of 7) (audit_image (set_inode_used 0 7 True edge_partition))"

definition test_allocated_inode_off_truncated_end_is_skipped_without_panic :: "(bytes \<Rightarrow> bytes) \<Rightarrow> bool" where
  "test_allocated_inode_off_truncated_end_is_skipped_without_panic sha256 \<longleftrightarrow>
     (let part = set_inode_used 3 389 True edge_partition;
          cut = (3 * 256 + 40) * 4096 + 10;
          part = take (max cut (65536 + 1376)) part
      in audit_image_run part \<noteq> None \<and> recover_deleted_run sha256 part \<noteq> None)"

text \<open>A directory block of three entries, written over the root's or a subdirectory's.\<close>

definition put_entries :: "usize \<Rightarrow> bytes \<Rightarrow> bytes \<Rightarrow> bytes \<Rightarrow> bytes \<Rightarrow> bytes" where
  "put_entries at a b c part = slice_put (slice_put (slice_put part at a) (at + 12) b) (at + 24) c"

definition test_directory_cycle_terminates :: "(bytes \<Rightarrow> bytes) \<Rightarrow> bool" where
  "test_directory_cycle_terminates sha256 \<longleftrightarrow>
     (let part = put_entries (200 * 4096) (crafted_direct 2 12 4 ''.'') (crafted_direct 2 12 4 ''..'')
            (crafted_direct 8 488 4 ''d'') edge_partition;
          part = slice_put part (crafted_ino_byte 8) (crafted_dinode 0x41ED 512 201);
          part = put_entries (201 * 4096) (crafted_direct 8 12 4 ''.'') (crafted_direct 2 12 4 ''..'')
            (crafted_direct 2 488 4 ''loop'') part;
          part = set_inode_used 0 8 True part
      in audit_image_run part \<noteq> None \<and> recover_deleted_run sha256 part \<noteq> None)"

definition deleted_below_part :: bytes where
  "deleted_below_part =
     (let part = put_entries (200 * 4096) (crafted_direct 2 12 4 ''.'') (crafted_direct 2 12 4 ''..'')
            (crafted_direct 9 488 4 ''sub'') edge_partition;
          part = slice_put part (crafted_ino_byte 9) (crafted_dinode 0x41ED 512 202);
          part = put_entries (202 * 4096) (crafted_direct 9 12 4 ''.'') (crafted_direct 2 12 4 ''..'')
            (crafted_direct 0 488 8 ''gone'') part
      in set_inode_used 0 9 True part)"

definition test_deleted_dirent_walk_descends_subdirectory :: "(bytes \<Rightarrow> bytes) \<Rightarrow> bool" where
  "test_deleted_dirent_walk_descends_subdirectory sha256 \<longleftrightarrow>
     list_ex (is_deleted_dirent_named ''gone'') (recover_deleted sha256 deleted_below_part)"

definition test_free_inode_with_absurd_di_size_is_not_carved :: "(bytes \<Rightarrow> bytes) \<Rightarrow> bool" where
  "test_free_inode_with_absurd_di_size_is_not_carved sha256 \<longleftrightarrow>
     (let fi = crafted_dinode 0x81A4 0xFFFFFFFFFFFFFFFF 203;
          part = slice_put edge_partition (crafted_ino_byte 10) fi
      in \<not> list_ex (is_deleted_file_of 10) (recover_deleted sha256 part))"

definition test_dir_entry_to_out_of_range_inode_is_skipped_in_walk :: "(bytes \<Rightarrow> bytes) \<Rightarrow> bool" where
  "test_dir_entry_to_out_of_range_inode_is_skipped_in_walk sha256 \<longleftrightarrow>
     (let part = put_entries (200 * 4096) (crafted_direct 2 12 4 ''.'') (crafted_direct 2 12 4 ''..'')
            (crafted_direct 99999 488 4 ''bad'') edge_partition
      in audit_image_run part \<noteq> None \<and> recover_deleted_run sha256 part \<noteq> None)"

definition test_zero_fpg_geometry_skips_cg_walk_without_panic :: "(bytes \<Rightarrow> bytes) \<Rightarrow> bool" where
  "test_zero_fpg_geometry_skips_cg_walk_without_panic sha256 \<longleftrightarrow>
     (let part = slice_put edge_partition (65536 + 188) (endian_bytes Little (0 :: i32)) in
      \<not> list_ex is_cg_magic (audit_image part) \<and> recover_deleted_run sha256 part \<noteq> None)"

section \<open>They pass\<close>

abbreviation root_used :: "usize \<times> bytes" where
  "root_used \<equiv> (131240, [4])"

lemma edge_put: "slice_put edge_partition off b = edited [root_used, (off, b)]"
  by (simp add: edge_normal fixture_put)

lemma take_window: "k + n \<le> m \<Longrightarrow> take n (drop k (take m xs)) = take n (drop k xs)"
  by (simp add: drop_take min_def)

text \<open>The kinds of anomaly an audit can have, by what has to be there for each.\<close>

lemma audit_cases:
  assumes "valid_slice img" "parse_primary_sb img = Inr sb" "a \<in> set (audit_image img)"
  obtains (geometry) v l where "geometry_beyond img sb" "a = anomaly_new (ImpossibleGeometry ''fs_ncg'' v l)"
    | (backup) c g f p b off where "c < unat (sb_ncg sb)" "a \<in> set (divergences img sb c)"
        "a = anomaly_new (BackupSuperblockDivergence g f p b off)"
    | (header) c g w off where "c < unat (sb_ncg sb)" "0 < sint (sb_fpg sb)" "a \<in> set (bad_cg_magic img sb c)"
        "a = anomaly_new (CgMagicInvalid g w off)"
    | (orphan) n i where "n < inode_count sb" "read_inode img sb (of_nat n) = Inr i" "i_nlink i \<noteq> 0"
        "a = anomaly_new (OrphanedInode (of_nat n) (i_nlink i))"
proof (cases "geometry_beyond img sb")
  case True
  then show ?thesis using assms(3) geometry unfolding in_audit_image [OF assms(1,2)] by auto
next
  case False
  then consider (b) c where "c < unat (sb_ncg sb)" "a \<in> set (divergences img sb c)"
    | (h) c where "0 < sint (sb_fpg sb)" "c < unat (sb_ncg sb)" "a \<in> set (bad_cg_magic img sb c)"
    | (o) n where "n < inode_count sb" "a \<in> set (orphan_emit img sb n)"
    using assms(3) unfolding in_audit_image [OF assms(1,2)] by auto
  then show ?thesis
  proof cases
    case b
    then show ?thesis using backup [OF b] unfolding in_divergences by (auto simp: Let_def)
  next
    case h
    then show ?thesis using header [OF h(2,1,3)] unfolding in_bad_cg_magic by (auto simp: Let_def)
  next
    case o
    then show ?thesis using orphan [of n] unfolding in_orphan_emit by auto
  qed
qed

lemmas kind_tests = is_geometry_def is_cg_magic_def is_divergence_def is_orphan_of_def anomaly_new_def

lemma audit_kinds:
  assumes "valid_slice img" "parse_primary_sb img = Inr sb"
  shows "list_ex is_geometry (audit_image img) \<Longrightarrow> geometry_beyond img sb"
    and "list_ex is_cg_magic (audit_image img) \<Longrightarrow> \<exists>c < unat (sb_ncg sb). 0 < sint (sb_fpg sb) \<and> bad_cg_magic img sb c \<noteq> []"
    and "list_ex is_divergence (audit_image img) \<Longrightarrow> \<exists>c < unat (sb_ncg sb). divergences img sb c \<noteq> []"
    and "list_ex (is_orphan_of k) (audit_image img) \<Longrightarrow> \<exists>i. read_inode img sb k = Inr i \<and> i_nlink i \<noteq> 0"
proof -
  note c = audit_cases [OF assms]
  show "list_ex is_geometry (audit_image img) \<Longrightarrow> geometry_beyond img sb"
    by (auto simp: list_ex_iff elim!: c) (simp_all add: kind_tests)
  show "list_ex is_cg_magic (audit_image img) \<Longrightarrow> \<exists>c < unat (sb_ncg sb). 0 < sint (sb_fpg sb) \<and> bad_cg_magic img sb c \<noteq> []"
    by (auto simp: list_ex_iff elim!: c) (auto simp: kind_tests)
  show "list_ex is_divergence (audit_image img) \<Longrightarrow> \<exists>c < unat (sb_ncg sb). divergences img sb c \<noteq> []"
    by (auto simp: list_ex_iff elim!: c) (auto simp: kind_tests)
  show "list_ex (is_orphan_of k) (audit_image img) \<Longrightarrow> \<exists>i. read_inode img sb k = Inr i \<and> i_nlink i \<noteq> 0"
    by (auto simp: list_ex_iff elim!: c) (auto simp: kind_tests)
qed

text \<open>Truncated volumes.\<close>

lemma parse_truncated:
  assumes "66912 \<le> m" "m \<le> length img"
  shows "sb_parse (drop 65536 (take m img)) = sb_parse (drop 65536 img)"
proof -
  have "take 1376 (drop 65536 (take m img)) = take 1376 (drop 65536 img)" using assms(1) by (intro take_window) simp
  then show ?thesis
    using sb_parse_prefix [of "drop 65536 (take m img)"] sb_parse_prefix [of "drop 65536 img"] assms by (simp add: sb_consts)
qed

lemma parse_primary_at:
  assumes "sb_parse (drop 65536 img) = Inr sb" "65536 \<le> length img"
  shows "parse_primary_sb img = Inr sb"
  using assms by (simp add: parse_primary_sb_Inr SBLOCK_UFS2_def)

lemma valid_take: "valid_slice img \<Longrightarrow> valid_slice (take m img)"
  by (simp add: valid_slice_def)

lemma edge_parse: "sb_parse (drop 65536 (edited [root_used])) = Inr crafted_sb"
  by (rule parse_at [OF edited_primary]) (simp add: apart_def)

lemma truncated_test: "test_truncated_after_primary_sb_skips_cg_regions_without_panic sha256"
proof -
  let ?img = "take 66912 (edited [root_used])"
  have v: "valid_slice ?img" by (rule valid_take) simp
  have p: "parse_primary_sb ?img = Inr crafted_sb"
    by (rule parse_primary_at) (simp_all add: parse_truncated edge_parse)
  have "geometry_beyond ?img crafted_sb" by (simp add: geometry_beyond_def crafted_geometry)
  then have "\<exists>v l. audit_image ?img = [anomaly_new (ImpossibleGeometry ''fs_ncg'' v l)]"
    using audit_image_exact [OF v p] by simp
  then show ?thesis
    using recover_deleted_run_Some [OF v]
    by (auto simp: test_truncated_after_primary_sb_skips_cg_regions_without_panic_def edge_normal kind_tests)
qed

definition two_groups :: superblock where "two_groups = crafted_sb\<lparr> sb_ncg := 2 \<rparr>"

lemma two_groups_parse: "sb_parse (drop 65536 (edited [root_used, (65580, endian_bytes Little (2 :: i32))])) = Inr two_groups"
  using edited_superblock [of 65536 "[root_used]" 44 "endian_bytes Little (2 :: i32)" two_groups] edited_primary [of "[root_used]"]
  by (simp add: apart_def sb_fields_defs super_writes_def holds_def magic_of_def sb_consts two_groups_def crafted_sb_def
      wf_geometry_def)

lemma region_off_end_test: "test_cg_region_off_end_without_geometry_error"
proof -
  let ?part = "edited [root_used, (65580, endian_bytes Little (2 :: i32))]"
  let ?img = "take 1100000 ?part"
  have v: "valid_slice ?img" by (rule valid_take) simp
  have p: "parse_primary_sb ?img = Inr two_groups"
    by (rule parse_primary_at) (simp_all add: parse_truncated two_groups_parse)
  have two: "sb_ncg two_groups = 2" "cg_bytes two_groups = 1048576"
    "bad_cg_magic img two_groups c = bad_cg_magic img crafted_sb c" for img c
    by (simp_all add: two_groups_def crafted_geometry cg_bytes_def bad_cg_magic_def frag_off_def)
      (simp_all add: crafted_sb_def nat_i32_def)
  have "\<not> geometry_beyond ?img two_groups" by (simp add: geometry_beyond_def two)
  moreover have "bad_cg_magic ?img two_groups 0 = []"
  proof -
    have "take 124 (drop 131072 ?img) = take 124 (drop 131072 ?part)" by (rule take_window) simp
    then have "take 124 (drop ((0 * 256 + 32) * 4096) ?img) = CG_BYTES (of_nat 0)"
      using edited_structures(2) [of 0 "[root_used, (65580, endian_bytes Little (2 :: i32))]"] by (simp add: apart_def)
    then show ?thesis unfolding two(3) by (rule silent_header)
  qed
  moreover have "bad_cg_magic ?img two_groups 1 = []"
    unfolding two(3) by (simp add: bad_cg_magic_def Let_def crafted_geometry)
  ultimately show ?thesis
    using audit_kinds(1,2) [OF v p]
    by (auto simp: test_cg_region_off_end_without_geometry_error_def edge_put two less_2_cases_iff Let_def)
qed

lemma unparseable_test: "test_unparseable_backup_superblock_is_skipped"
proof -
  let ?b = "endian_bytes Little (0xdeadbeef :: u32)" and ?gs = "[root_used, (1148252, endian_bytes Little (0xdeadbeef :: u32))]"
  have "take 4 (drop 1148252 (edited ?gs)) = ?b" by (rule fixture_take) (simp_all add: holds_def)
  moreover have "?b \<noteq> endian_bytes e (magic_of v)" for e v
    by (cases e; cases v) (simp_all add: magic_of_def sb_consts endian_bytes_def word_to_be_def word_to_le_def)
  ultimately have "magic_bad (edited ?gs) 1146880" by (simp add: magic_bad_def sb_consts)
  then obtain e where e: "sb_parse (drop 1146880 (edited ?gs)) = Inl e"
    using magic_bad_parse [of 1146880 "edited ?gs"] by (cases "sb_parse (drop 1146880 (edited ?gs))") auto
  have "divergences (edited ?gs) crafted_sb c = []" if "c < 4" for c
  proof (cases "c = 1")
    case True
    then show ?thesis using e by (simp add: divergences_def Let_def crafted_geometry)
  next
    case False
    then have "apart ?gs ((c * 256 + 24) * 4096) 1376" using group_cases [OF that] by (auto simp: apart_def)
    then show ?thesis using silent_backup [OF edited_structures(1)] that by blast
  qed
  moreover have "parse_primary_sb (edited ?gs) = Inr crafted_sb"
    by (rule crafted_primary [OF edited_primary]) (simp add: apart_def)
  ultimately show ?thesis
    using audit_kinds(3) [of "edited ?gs" crafted_sb]
    by (auto simp: test_unparseable_backup_superblock_is_skipped_def edge_put crafted_geometry)
qed

lemma zero_fpg_test: "test_zero_fpg_geometry_skips_cg_walk_without_panic sha256"
proof -
  let ?sb = "crafted_sb\<lparr> sb_fpg := 0 \<rparr>" and ?gs = "[root_used, (65724, endian_bytes Little (0 :: i32))]"
  have "sb_parse (drop 65536 (edited ?gs)) = Inr ?sb"
    using edited_superblock [of 65536 "[root_used]" 188 "endian_bytes Little (0 :: i32)" ?sb] edited_primary [of "[root_used]"]
    by (simp add: apart_def sb_fields_defs super_writes_def holds_def magic_of_def sb_consts crafted_sb_def wf_geometry_def)
  then have "parse_primary_sb (edited ?gs) = Inr ?sb" by (rule parse_primary_at) simp
  then show ?thesis
    using audit_kinds(2) [of "edited ?gs" ?sb] recover_deleted_run_Some [of "edited ?gs" sha256]
    by (auto simp: test_zero_fpg_geometry_skips_cg_walk_without_panic_def edge_put)
qed

text \<open>A slot of zeros is an inode without mode, links and blocks.\<close>

lemma zero_inode:
  assumes "valid_slice img" "unat ino < 512" "take 256 (drop (crafted_ino_byte (unat ino)) img) = replicate 256 0"
  shows "read_inode img crafted_sb ino = Inr (plain_inode 0 0 0 (replicate 12 0) [0, 0, 0])"
proof -
  have z: "fixture 256 [] = replicate 256 0" by (simp add: fixture_def)
  have t: "replicate 12 (0 :: u64) = [0, 0, 0, 0, 0, 0, 0, 0, 0, 0, 0, 0]" using replicate_11 [of "0 :: u64"] replicate_Suc [of 11 "0 :: u64"]
    by simp
  have "inode_parse_with_maxsymlink (fixture 256 []) Ufs2 Little 120 = Inr (plain_inode 0 0 0 (replicate 12 0) [0, 0, 0])"
    unfolding t by (rule plain_inode_parse) (simp_all add: inode_fixture_simps plain_inode_def modes file_type_from_mode_def sb_consts)
  then have "inode_decode (replicate 256 0) Ufs2 Little 120 = plain_inode 0 0 0 (replicate 12 0) [0, 0, 0]"
    by (simp add: z inode_parse_with_maxsymlink_def Let_def split: if_splits)
  moreover have "crafted_ino_byte (unat ino) + 256 \<le> length img" using arg_cong [OF assms(3), of length] by simp
  ultimately show ?thesis
    using assms(2,3)
    by (simp add: read_inode_refines [OF assms(1)] crafted_geometry crafted_ino_byte_def Let_def dinode_size_def sb_consts)
qed

lemma zeroed_dinode_test: "test_allocated_inode_with_zeroed_dinode_is_not_orphan"
proof -
  let ?gs = "[root_used, (131240, [132])]"
  have u: "set_inode_used 0 7 True (edited [root_used]) = edited ?gs"
    by (subst fixture_used [where x = 4 and byte = 131240]) (simp_all add: layout_simps)
  have "take 256 (drop 165632 (edited ?gs)) = replicate 256 0"
    by (rule fixture_take) (simp_all add: layout_simps)
  then have "read_inode (edited ?gs) crafted_sb 7 = Inr (plain_inode 0 0 0 (replicate 12 0) [0, 0, 0])"
    by (intro zero_inode) (simp_all add: crafted_ino_byte_def)
  moreover have "parse_primary_sb (edited ?gs) = Inr crafted_sb"
    by (rule crafted_primary [OF edited_primary]) (simp add: apart_def)
  ultimately show ?thesis
    using audit_kinds(4) [of "edited ?gs" crafted_sb 7] u
    by (auto simp: test_allocated_inode_with_zeroed_dinode_is_not_orphan_def edge_normal plain_inode_def)
qed

text \<open>A recovered file is one of its inode.\<close>

lemma recovered_file:
  assumes "parse_primary_sb img = Inr crafted_sb" "r \<in> set (recover_deleted sha256 img)" "is_deleted_file_of k r"
  obtains i content nm where "read_inode img crafted_sb k = Inr i" "carvable i" "inode_free img crafted_sb (unat k)"
    "read_inode_file img crafted_sb i = Inr content" "r = DeletedFile nm k (i_size i) content (sha256_hex sha256 content)"
proof -
  obtain nm sz content h where r: "r = DeletedFile nm k sz content h"
    using assms(3) by (cases r) (auto simp: is_deleted_file_of_def)
  have "\<exists>n < 512. r \<in> set (carve_emit sha256 img crafted_sb (collect_deleted_dirents img crafted_sb) n)"
    using assms(2) r unfolding recover_deleted_exact [OF assms(1)] crafted_geometry(3) by auto
  then obtain n where n: "n < 512"
    "r \<in> set (carve_emit sha256 img crafted_sb (collect_deleted_dirents img crafted_sb) n)" by blast
  then have "of_nat n = k" "unat (of_nat n :: u64) = n" using r unfolding in_carve_emit by (auto simp: unat_of_nat)
  then show ?thesis using n(2) r that unfolding in_carve_emit by auto
qed

lemma absurd_size_test: "test_free_inode_with_absurd_di_size_is_not_carved sha256"
proof -
  let ?d = "crafted_dinode 0x81A4 0xFFFFFFFFFFFFFFFF 203"
  let ?img = "edited [root_used, (166400, ?d)]"
  let ?i = "plain_inode 0x81A4 1 0xFFFFFFFFFFFFFFFF (203 # replicate 11 0) [0, 0, 0]"
  have h: "holds 3346432 (clean_fields @ [root_used, (166400, ?d)]) (166400, ?d)" by (simp add: holds_def)
  have "take 256 (drop 166400 ?img) = ?d" by (rule fixture_take [OF h]) simp
  then have i: "read_inode ?img crafted_sb 10 = Inr ?i"
    by (intro crafted_read_inode [where k = 166400]) (simp_all add: crafted_ino_byte_def modes)
  have f: "read_inode_file ?img crafted_sb ?i \<noteq> Inr content" for content
    by (subst read_inode_file_exact [OF edited_valid]) (simp_all add: crafted_geometry plain_inode_def)
  have p: "parse_primary_sb ?img = Inr crafted_sb" by (rule crafted_primary [OF edited_primary]) (simp add: apart_def)
  have "\<not> is_deleted_file_of 10 r" if "r \<in> set (recover_deleted sha256 ?img)" for r
    using recovered_file [OF p that, of 10] i f by auto
  then show ?thesis
    by (auto simp: test_free_inode_with_absurd_di_size_is_not_carved_def edge_put crafted_ino_byte_def list_ex_iff)
qed

text \<open>The tests that only call.\<close>

lemma length_put_entries [simp]: "length (put_entries at a b c part) = length part"
  by (simp add: put_entries_def)

lemma length_set_used [simp]: "length (set_inode_used g ino used part) = length part"
  by (simp add: set_inode_used_def Let_def)

lemma length_edge [simp]: "length edge_partition = 3346432"
  by (simp add: edge_normal)

lemma call_tests:
  "test_cg_header_slice_too_short_is_skipped" "test_allocated_inode_off_truncated_end_is_skipped_without_panic sha256"
  "test_directory_cycle_terminates sha256" "test_dir_entry_to_out_of_range_inode_is_skipped_in_walk sha256"
  by (simp_all add: test_cg_header_slice_too_short_is_skipped_def test_directory_cycle_terminates_def
      test_allocated_inode_off_truncated_end_is_skipped_without_panic_def
      test_dir_entry_to_out_of_range_inode_is_skipped_in_walk_def Let_def audit_image_run_Some recover_deleted_run_Some
      valid_slice_def)

text \<open>A directory block of three entries.\<close>

lemma three_entries:
  assumes "valid_slice img" "read_inode img crafted_sb ino = Inr (plain_inode mode 1 512 (frag # replicate 11 0) [0, 0, 0])"
    and "frag \<noteq> 0" "unat frag * 4096 = a"
    and "take 12 (drop a img) = crafted_direct i1 12 t1 n1" "take 12 (drop (a + 12) img) = crafted_direct i2 12 t2 n2"
    and "take 488 (drop (a + 24) img) = crafted_direct i3 488 t3 n3"
    and "length n1 \<le> 4" "length n2 \<le> 4" "length n3 \<le> 255"
  shows "list_dir_all img crafted_sb ino = Inr (map raw_entry
    [plain_dirent i1 12 t1 (str n1), plain_dirent i2 12 t2 (str n2), plain_dirent i3 488 t3 (str n3)])"
proof -
  have "take 512 (drop a img) = crafted_direct i1 12 t1 n1 @ crafted_direct i2 12 t2 n2 @ crafted_direct i3 488 t3 n3"
    using take_add [of 12 500 "drop a img"] take_add [of 12 488 "drop (a + 12) img"] assms(5-7)
    by (simp add: add.commute)
  then show ?thesis
    using assms(3,4,8-10)
    by (intro crafted_listing [OF assms(1,2)]) (simp_all add: crafted_entry plain_dirent_ok)
qed

lemma edited_puts: "put_entries at a b c (edited gs) = edited (gs @ [(at, a), (at + 12, b), (at + 24, c)])"
  by (simp add: put_entries_def fixture_put)

definition below_writes :: "(usize \<times> bytes) list" where
  "below_writes =
     [root_used, (819200, crafted_direct 2 12 4 ''.''), (819212, crafted_direct 2 12 4 ''..''),
      (819224, crafted_direct 9 488 4 ''sub''), (166144, crafted_dinode 0x41ED 512 202),
      (827392, crafted_direct 9 12 4 ''.''), (827404, crafted_direct 2 12 4 ''..''),
      (827416, crafted_direct 0 488 8 ''gone''), (131241, [2])]"

lemma below_normal: "deleted_below_part = edited below_writes"
proof -
  have "deleted_below_part = set_inode_used 0 9 True (edited (butlast below_writes))"
    by (simp add: deleted_below_part_def edge_normal edited_puts crafted_ino_byte_def Let_def fixture_put below_writes_def)
  also have "\<dots> = edited below_writes"
    by (subst fixture_used [where x = 0 and byte = 131241]) (simp_all add: layout_simps below_writes_def)
  finally show ?thesis .
qed

lemma below_holds: "list_all (holds 3346432 (clean_fields @ below_writes)) (tl below_writes)"
  by (simp add: below_writes_def holds_def)

lemma below_at: "(a, b) \<in> set (tl below_writes) \<Longrightarrow> take (length b) (drop a (edited below_writes)) = b"
  using below_holds by (intro fixture_take) (auto simp: list_all_iff)

lemma below_listings:
  "list_dir_all (edited below_writes) crafted_sb 2 = Inr (map raw_entry
    [plain_dirent 2 12 4 (str ''.''), plain_dirent 2 12 4 (str ''..''), plain_dirent 9 488 4 (str ''sub'')])"
  "list_dir_all (edited below_writes) crafted_sb 9 = Inr (map raw_entry
    [plain_dirent 9 12 4 (str ''.''), plain_dirent 2 12 4 (str ''..''), plain_dirent 0 488 8 (str ''gone'')])"
proof -
  have "take 256 (drop 164352 (edited below_writes)) = crafted_dinode 0x41ED 512 200"
    by (rule fixture_take) (simp_all add: layout_simps below_writes_def)
  then have r: "read_inode (edited below_writes) crafted_sb 2 = Inr (plain_inode 0x41ED 1 512 (200 # replicate 11 0) [0, 0, 0])"
    by (intro crafted_read_inode [where k = 164352]) (simp_all add: crafted_ino_byte_def modes)
  have "take 256 (drop 166144 (edited below_writes)) = crafted_dinode 0x41ED 512 202"
    using below_at [of 166144 "crafted_dinode 0x41ED 512 202"] by (simp add: below_writes_def)
  then have b: "read_inode (edited below_writes) crafted_sb 9 = Inr (plain_inode 0x41ED 1 512 (202 # replicate 11 0) [0, 0, 0])"
    by (intro crafted_read_inode [where k = 166144]) (simp_all add: crafted_ino_byte_def modes)
  have at: "take (unat len) (drop a (edited below_writes)) = crafted_direct n len ty nm"
    if "(a, crafted_direct n len ty nm) \<in> set (tl below_writes)" for a n len ty nm
    using below_at [OF that] by simp
  show "list_dir_all (edited below_writes) crafted_sb 2 = Inr (map raw_entry
      [plain_dirent 2 12 4 (str ''.''), plain_dirent 2 12 4 (str ''..''), plain_dirent 9 488 4 (str ''sub'')])"
    using at [of 819200 2 12 4 "''.''"] at [of 819212 2 12 4 "''..''"] at [of 819224 9 488 4 "''sub''"]
    by (intro three_entries [OF edited_valid r, where a = 819200]) (simp_all add: below_writes_def)
  show "list_dir_all (edited below_writes) crafted_sb 9 = Inr (map raw_entry
      [plain_dirent 9 12 4 (str ''.''), plain_dirent 2 12 4 (str ''..''), plain_dirent 0 488 8 (str ''gone'')])"
    using at [of 827392 9 12 4 "''.''"] at [of 827404 2 12 4 "''..''"] at [of 827416 0 488 8 "''gone''"]
    by (intro three_entries [OF edited_valid b, where a = 827392]) (simp_all add: below_writes_def)
qed

lemma descends_test: "test_deleted_dirent_walk_descends_subdirectory sha256"
proof -
  have p: "parse_primary_sb (edited below_writes) = Inr crafted_sb"
    by (rule crafted_primary [OF edited_primary]) (simp add: apart_def below_writes_def)
  have "collect_deleted_dirents (edited below_writes) crafted_sb = [(str ''gone'', 0)]"
    by (simp add: collect_deleted_dirents_def WALK_BUDGET_def sb_consts below_listings vec_pop_def plain_dirent_def
        raw_entry_def from_d_type_def is_dir_entry_def decode_ascii
        collect_loop.simps [of _ _ _ "[2]"] collect_loop.simps [of _ _ _ "[9]"] collect_loop.simps [of _ _ _ "[]"])
  then show ?thesis
    by (simp add: test_deleted_dirent_walk_descends_subdirectory_def below_normal recover_deleted_exact [OF p]
        is_deleted_dirent_named_def)
qed

lemmas edge_tests = truncated_test region_off_end_test unparseable_test zero_fpg_test zeroed_dinode_test absurd_size_test
  call_tests descends_test

end
