(* ===== verification/TestsCarve.thy ===== *)
theory TestsCarve
  imports TestsEdge Deletion
begin

text \<open>
  The tests of \<open>forensic/tests/carve.rs\<close>: a volume with one file, the removal of it, and what the recovery returns before
  and after. The removal is the one of \<open>Deletion\<close>, at this volume's slot and inode.
\<close>

section \<open>The deletion case\<close>

definition carve_sha256_hex :: "(bytes \<Rightarrow> bytes) \<Rightarrow> bytes \<Rightarrow> string" where
  "carve_sha256_hex sha256 data = concat (map fmt_02x (sha256 data))"

definition carve_content_byte :: "usize \<Rightarrow> u8" where
  "carve_content_byte i = of_nat (i * 2654435761 mod 2 ^ 64 mod 256)"

record deletion_case =
  dc_part :: bytes
  dc_inode :: u64
  dc_name :: bytes
  dc_size :: u64
  dc_sha256 :: string
  dc_content :: bytes

definition secret_content :: bytes where
  "secret_content = map carve_content_byte [0..<250]"

definition carve_len :: usize where
  "carve_len = max (max (max last_cg_end last_itbl) ((210 + 2) * 4096)) (65536 + 1376) + 4096"

definition build_part :: bytes where
  "build_part =
     (let part = write_groups (replicate carve_len 0);
          part = slice_put part (210 * 4096) secret_content;
          part = slice_put part (crafted_ino_byte 6) (crafted_dinode 0x81A4 250 210);
          part = slice_put part (crafted_ino_byte 2) (crafted_dinode 0x41ED 512 200);
          part = put_entries (200 * 4096) (crafted_direct 2 12 4 ''.'') (crafted_direct 2 12 4 ''..'')
            (crafted_direct 6 488 8 ''secret.txt'') part
      in set_inode_used 0 6 True (set_inode_used 0 2 True part))"

definition build_deletion_case :: "(bytes \<Rightarrow> bytes) \<Rightarrow> deletion_case" where
  "build_deletion_case sha256 =
     \<lparr> dc_part = build_part, dc_inode = 6, dc_name = str ''secret.txt'', dc_size = 250,
       dc_sha256 = carve_sha256_hex sha256 secret_content, dc_content = secret_content \<rparr>"

definition carve_delete :: "deletion_case \<Rightarrow> deletion_case" where
  "carve_delete c =
     (let rb = 200 * 4096; part = slice_put (dc_part c) (rb + 24) [0, 0, 0, 0]
      in c\<lparr> dc_part := set_inode_used 0 6 False part \<rparr>)"

section \<open>The tests\<close>

definition test_recovers_deleted_file_content_matching_pre_delete_hash :: "(bytes \<Rightarrow> bytes) \<Rightarrow> bool" where
  "test_recovers_deleted_file_content_matching_pre_delete_hash sha256 \<longleftrightarrow>
     (let c = carve_delete (build_deletion_case sha256); recovered = recover_deleted sha256 (dc_part c) in
      first_with (is_deleted_file_of (dc_inode c)) recovered (\<lambda>r.
        case r of DeletedFile _ _ sz content sha \<Rightarrow> sz = dc_size c \<and> content = dc_content c \<and> sha = dc_sha256 c
                | _ \<Rightarrow> False))"

definition test_recovers_deleted_dirent_name :: "(bytes \<Rightarrow> bytes) \<Rightarrow> bool" where
  "test_recovers_deleted_dirent_name sha256 \<longleftrightarrow>
     (let c = carve_delete (build_deletion_case sha256); recovered = recover_deleted sha256 (dc_part c) in
      list_ex (\<lambda>r. case r of DeletedDirent n _ \<Rightarrow> n = dc_name c | _ \<Rightarrow> False) recovered)"

definition test_clean_partition_recovers_nothing :: "(bytes \<Rightarrow> bytes) \<Rightarrow> bool" where
  "test_clean_partition_recovers_nothing sha256 \<longleftrightarrow>
     recover_deleted sha256 (dc_part (build_deletion_case sha256)) = []"

definition test_malformed_input_recovers_nothing_without_panic :: "(bytes \<Rightarrow> bytes) \<Rightarrow> bool" where
  "test_malformed_input_recovers_nothing_without_panic sha256 \<longleftrightarrow>
     recover_deleted sha256 [] = [] \<and> recover_deleted sha256 (replicate 16 0) = []
     \<and> recover_deleted sha256 (replicate 200000 0xFF) = []
     \<and> recover_deleted_run sha256 (take 70000 (dc_part (build_deletion_case sha256))) \<noteq> None"

section \<open>Normal forms\<close>

definition secret_writes :: "(usize \<times> bytes) list" where
  "secret_writes =
     [(860160, secret_content), (165376, crafted_dinode 0x81A4 250 210), (164352, crafted_dinode 0x41ED 512 200),
      (819200, crafted_direct 2 12 4 ''.''), (819212, crafted_direct 2 12 4 ''..''),
      (819224, crafted_direct 6 488 8 ''secret.txt'')]"

lemma length_secret [simp]: "length secret_content = 250"
  by (simp add: secret_content_def)

lemma carve_len: "carve_len = crafted_len"
  by (simp add: carve_len_def crafted_len last_cg_end_def last_itbl_def)

definition live_writes :: "(usize \<times> bytes) list" where
  "live_writes = group_fields @ secret_writes @ [(131240, [4]), (131240, [68])]"

definition gone_writes :: "(usize \<times> bytes) list" where
  "gone_writes = live_writes @ [(819224, [0, 0, 0, 0]), (131240, [4])]"

lemmas carve_layout = holds_def live_writes_def gone_writes_def group_fields_def secret_writes_def

lemma live_normal: "build_part = fixture 3346432 live_writes"
proof -
  let ?w = "group_fields @ secret_writes"
  have "build_part = set_inode_used 0 6 True (set_inode_used 0 2 True (fixture 3346432 ?w))"
    by (simp add: build_part_def Let_def carve_len groups_fields put_entries_def fixture_put secret_writes_def
        crafted_ino_byte_def)
  also have "set_inode_used 0 2 True (fixture 3346432 ?w) = fixture 3346432 (?w @ [(131240, [4])])"
    by (subst fixture_used [where x = 0 and byte = 131240]) (simp_all add: carve_layout)
  also have "set_inode_used 0 6 True \<dots> = fixture 3346432 live_writes"
    by (subst fixture_used [where x = 4 and byte = 131240]) (simp_all add: carve_layout)
  finally show ?thesis .
qed

lemma gone_normal: "dc_part (carve_delete (build_deletion_case sha256)) = fixture 3346432 gone_writes"
proof -
  have "set_inode_used 0 6 False (fixture 3346432 (live_writes @ [(819224, [0, 0, 0, 0])])) = fixture 3346432 gone_writes"
    by (subst fixture_used [where x = 68 and byte = 131240]) (simp_all add: carve_layout)
  then show ?thesis by (simp add: carve_delete_def build_deletion_case_def live_normal fixture_put Let_def)
qed

text \<open>The removal is the general one.\<close>

lemma carve_delete_simulates:
  "dc_part (carve_delete (build_deletion_case sha256)) = simulate_delete crafted_sb (crafted_cg 0) 819224 6 build_part"
proof -
  have "slice_put p 131240 [x] = p[131240 := x]" if "131240 < length p" for p :: bytes and x
    using that by (intro nth_equalityI) (auto simp: slice_put_nth nth_list_update)
  then show ?thesis
    by (simp add: carve_delete_def build_deletion_case_def Let_def set_inode_used_def simulate_delete_def
        clear_inode_used_def used_byte_def crafted_geometry cg_inosused_off_def crafted_cg_def live_normal)
qed

section \<open>What the volumes hold\<close>

text \<open>The two volumes, with the byte of the bitmap.\<close>

definition carve_state :: "(usize \<times> bytes) list \<Rightarrow> u8 \<Rightarrow> bool" where
  "carve_state ws u \<longleftrightarrow> ws = live_writes \<and> u = 68 \<or> ws = gone_writes \<and> u = 4"

abbreviation carved :: "(usize \<times> bytes) list \<Rightarrow> bytes" where
  "carved ws \<equiv> fixture 3346432 ws"

lemma carve_valid [simp]: "valid_slice (carved ws)"
  by (simp add: valid_slice_def)

definition carve_parts :: "u8 \<Rightarrow> (usize \<times> bytes) list" where
  "carve_parts u =
     [(65536, SB_BYTES), (131072, CG_BYTES 0), (1179648, CG_BYTES 1), (2228224, CG_BYTES 2), (3276800, CG_BYTES 3),
      (131240, [u]), (131241, replicate 15 0), (1179816, replicate 16 0), (2228392, replicate 16 0),
      (3276968, replicate 16 0), (165376, crafted_dinode 0x81A4 250 210), (164352, crafted_dinode 0x41ED 512 200),
      (819200, crafted_direct 2 12 4 ''.''), (819212, crafted_direct 2 12 4 ''..''), (860160, secret_content)]"

lemma carve_holds:
  assumes "carve_state ws u"
  shows "list_all (holds 3346432 ws) (carve_parts u)"
proof -
  have "list_all (holds 3346432 live_writes) (carve_parts 68)" by (simp add: carve_layout carve_parts_def)
  moreover have "list_all (holds 3346432 gone_writes) (carve_parts 4)" by (simp add: carve_layout carve_parts_def)
  ultimately show ?thesis using assms by (auto simp: carve_state_def)
qed

lemma carve_at: "carve_state ws u \<Longrightarrow> (a, b) \<in> set (carve_parts u) \<Longrightarrow> take (length b) (drop a (carved ws)) = b"
  using carve_holds by (intro fixture_take) (auto simp: list_all_iff)

lemma carve_primary: "carve_state ws u \<Longrightarrow> parse_primary_sb (carved ws) = Inr crafted_sb"
  using carve_at [of ws u 65536 SB_BYTES] by (intro crafted_primary) (simp add: carve_parts_def)

lemma carve_free:
  assumes "carve_state ws u" "n < 512" "3 \<le> n"
  shows "inode_free (carved ws) crafted_sb n \<longleftrightarrow> (n = 6 \<longrightarrow> u = 4)"
proof -
  note at = carve_at [OF assms(1)]
  have hd: "take 124 (drop ((c * 256 + 32) * 4096) (carved ws)) = CG_BYTES (of_nat c)" if "c < 4" for c
    using group_cases [OF that] at [of 131072 "CG_BYTES 0"] at [of 1179648 "CG_BYTES 1"] at [of 2228224 "CG_BYTES 2"]
      at [of 3276800 "CG_BYTES 3"] by (auto simp: carve_parts_def)
  show ?thesis
  proof (cases "n < 128")
    case True
    have w: "take 16 (drop ((0 * 256 + 32) * 4096 + 168) (carved ws)) = u # replicate 15 0"
      using take_add [of 1 15 "drop 131240 (carved ws)"] at [of 131240 "[u]"] at [of 131241 "replicate 15 0"]
      by (simp add: carve_parts_def)
    have "inode_free (carved ws) crafted_sb n \<longleftrightarrow> \<not> bit ((u # replicate 15 0) ! (n mod 128 div 8)) (n mod 8)"
      using crafted_allocated(2) [OF carve_valid hd w] True by simp
    also have "\<dots> \<longleftrightarrow> (n = 6 \<longrightarrow> u = 4)"
    proof (cases "n < 8")
      case True
      then have "n \<in> {3, 4, 5, 6, 7}" using assms(3) by auto
      then show ?thesis using assms(1) by (auto simp: carve_state_def)
    next
      case False
      moreover have "n div 8 - 1 < 15" "n div 8 \<noteq> 0" using False True by auto
      ultimately show ?thesis using True by (simp add: nth_Cons')
    qed
    finally show ?thesis .
  next
    case False
    then have c: "n div 128 < 4" "n div 128 \<noteq> 0" using assms(2) by auto
    have w: "take 16 (drop ((n div 128 * 256 + 32) * 4096 + 168) (carved ws)) = replicate 16 0"
      using group_cases [OF c(1)] c(2) at [of 1179816 "replicate 16 0"] at [of 2228392 "replicate 16 0"]
        at [of 3276968 "replicate 16 0"] by (auto simp: carve_parts_def)
    have "n mod 128 div 8 < 16" by simp
    then show ?thesis using crafted_allocated(2) [OF carve_valid hd [OF c(1)] w] c(1) False by simp
  qed
qed

text \<open>Every slot but those of the two inodes is zero.\<close>

lemma zeros_apart:
  assumes "apart fs a k" "a + k \<le> m"
  shows "take k (drop a (fixture m fs)) = replicate k 0"
  by (rule fixture_take [where fs = fs]) (use holds_apart [of m "[]" a "replicate k 0" fs] assms in \<open>simp_all add: holds_def\<close>)

lemma slot_apart:
  assumes "c < 4" "m < 128" "c = 0 \<Longrightarrow> m \<noteq> 2 \<and> m \<noteq> 6"
  shows "apart (group_fields @ secret_writes) ((c * 256 + 40) * 4096 + m * 256) 256"
proof -
  consider "c = 0" "m < 2 \<or> 2 < m" "m < 6 \<or> 6 < m" | "c = 1" | "c = 2" | "c = 3"
    using group_cases [OF assms(1)] assms(3) by linarith
  then show ?thesis
    using assms(2) by cases (auto simp: apart_def group_fields_def secret_writes_def)
qed

lemma carve_slot:
  assumes "carve_state ws u" "n < 512" "n \<noteq> 2" "n \<noteq> 6"
  shows "read_inode (carved ws) crafted_sb (of_nat n) = Inr (plain_inode 0 0 0 (replicate 12 0) [0, 0, 0])"
proof -
  define c m where "c = n div 128" "m = n mod 128"
  note cm = this
  have b: "c < 4" "m < 128" "c = 0 \<Longrightarrow> m \<noteq> 2 \<and> m \<noteq> 6" using assms(2-4) by (auto simp: cm)
  have a: "crafted_ino_byte n = (c * 256 + 40) * 4096 + m * 256" by (simp add: crafted_ino_byte_def cm)
  have "apart (group_fields @ secret_writes) (crafted_ino_byte n) 256" unfolding a by (rule slot_apart [OF b])
  moreover have "apart [(131240, [x]), (131240, [y]), (819224, [0, 0, 0, 0]), (131240, [z])] (crafted_ino_byte n) 256" for x y z
    unfolding a using group_cases [OF b(1)] b(2) by (auto simp: apart_def)
  ultimately have "apart ws (crafted_ino_byte n) 256"
    using assms(1) by (auto simp: carve_state_def live_writes_def gone_writes_def apart_def)
  moreover have "crafted_ino_byte n + 256 \<le> 3346432" using b(1,2) by (simp add: a)
  ultimately have "take 256 (drop (crafted_ino_byte n) (carved ws)) = replicate 256 0" by (rule zeros_apart)
  then show ?thesis using assms(2) by (intro zero_inode) (simp_all add: unat_of_nat)
qed

abbreviation secret_inode :: inode where
  "secret_inode \<equiv> plain_inode 0x81A4 1 250 (210 # replicate 11 0) [0, 0, 0]"

lemma carve_inodes:
  assumes "carve_state ws u"
  shows "read_inode (carved ws) crafted_sb 6 = Inr secret_inode"
    and "read_inode (carved ws) crafted_sb 2 = Inr (plain_inode 0x41ED 1 512 (200 # replicate 11 0) [0, 0, 0])"
  using carve_at [OF assms, of 165376 "crafted_dinode 0x81A4 250 210"] carve_at [OF assms, of 164352 "crafted_dinode 0x41ED 512 200"]
  by (intro crafted_read_inode [where k = 165376] crafted_read_inode [where k = 164352];
      simp add: carve_parts_def crafted_ino_byte_def modes)+

lemma carve_content:
  assumes "carve_state ws u"
  shows "read_inode_file (carved ws) crafted_sb secret_inode = Inr secret_content"
proof -
  have "holds 3346432 ws (860160, secret_content)"
    using carve_holds [OF assms] by (simp add: carve_parts_def)
  then have "file_byte (carved ws) crafted_sb secret_inode k = secret_content ! k" if "k < 250" for k
    using that fixture_nth [of 3346432 ws 860160 secret_content k]
    by (simp add: file_byte_def block_addr_def crafted_geometry nat_i32_def block_path_def place_addr_def plain_inode_def)
  then have "map (file_byte (carved ws) crafted_sb secret_inode) [0..<250] = secret_content"
    by (intro nth_equalityI) simp_all
  then show ?thesis
    by (simp add: read_inode_file_exact crafted_geometry plain_inode_def)
qed

text \<open>The root directory, with the entry of the file live or erased.\<close>

lemma carve_listing:
  assumes "carve_state ws u"
  shows "list_dir_all (carved ws) crafted_sb 2 = Inr (map raw_entry
    [plain_dirent 2 12 4 (str ''.''), plain_dirent 2 12 4 (str ''..''),
     plain_dirent (if u = 4 then 0 else 6) 488 8 (str ''secret.txt'')])"
proof -
  have live: "take 488 (drop 819224 (carved live_writes)) = crafted_direct 6 488 8 ''secret.txt''"
    by (rule fixture_take) (simp_all add: carve_layout)
  have gone: "take 488 (drop 819224 (carved gone_writes)) = crafted_direct 0 488 8 ''secret.txt''"
  proof -
    have "take 488 (drop 819224 (carved gone_writes)) = fixture 488 (writes_in 819224 488 gone_writes)"
      by (rule fixture_window) (simp_all add: carve_layout uncut_def Let_def)
    also have "\<dots> = slice_put (fixture 488 [(0, crafted_direct 6 488 8 ''secret.txt'')]) 0 [0, 0, 0, 0]"
      by (simp add: writes_in_def carve_layout fixture_put)
    also have "fixture 488 [(0, crafted_direct 6 488 8 ''secret.txt'')] = crafted_direct 6 488 8 ''secret.txt''"
      by (simp add: fixture_def slice_put_def)
    also have "slice_put (crafted_direct 6 488 8 ''secret.txt'') 0 [0, 0, 0, 0] = crafted_direct 0 488 8 ''secret.txt''"
      by (simp add: crafted_entry raw_bytes_def plain_dirent_def raw_reclen_def slice_put_def zeros4)
    finally show ?thesis .
  qed
  show ?thesis
    using assms live gone carve_at [OF assms, of 819200 "crafted_direct 2 12 4 ''.''"]
      carve_at [OF assms, of 819212 "crafted_direct 2 12 4 ''..''"]
    by (intro three_entries [OF carve_valid carve_inodes(2) [OF assms], where a = 819200])
      (auto simp: carve_parts_def carve_state_def)
qed

lemma carve_names:
  assumes "carve_state ws u"
  shows "collect_deleted_dirents (carved ws) crafted_sb = (if u = 4 then [(str ''secret.txt'', 0)] else [])"
  by (simp add: collect_deleted_dirents_def WALK_BUDGET_def sb_consts carve_listing [OF assms] vec_pop_def plain_dirent_def
      raw_entry_def from_d_type_def is_dir_entry_def decode_ascii
      collect_loop.simps [of _ _ _ "[2]"] collect_loop.simps [of _ _ _ "[]"])

text \<open>The whole result of the recovery, before and after.\<close>

lemma carve_recovers:
  assumes "carve_state ws u"
  shows "recover_deleted sha256 (carved ws) =
    (if u = 4 then [DeletedDirent (str ''secret.txt'') 0,
                    DeletedFile None 6 250 secret_content (sha256_hex sha256 secret_content)]
     else [])"
proof -
  let ?names = "collect_deleted_dirents (carved ws) crafted_sb"
  have "carve_emit sha256 (carved ws) crafted_sb ?names n = []" if "n < 512" "n \<noteq> 6" for n
  proof (cases "n < 3")
    case False
    then have "\<not> carvable (plain_inode 0 0 0 (replicate 12 0) [0, 0, 0])" by (simp add: carvable_def plain_inode_def)
    then show ?thesis
      using False carve_slot [OF assms that(1)] that(2) by (simp add: carve_emit_def)
  qed (simp add: carve_emit_def)
  then have "concat (map (carve_emit sha256 (carved ws) crafted_sb ?names) [0..<512])
      = carve_emit sha256 (carved ws) crafted_sb ?names 6"
    by (intro concat_only) simp_all
  also have "\<dots> = (if u = 4 then [DeletedFile None 6 250 secret_content (sha256_hex sha256 secret_content)] else [])"
  proof -
    have "secret_content \<noteq> []" using length_secret by fastforce
    moreover have "carvable secret_inode" by (simp add: carvable_def plain_inode_def inode_is_regular_def modes)
    ultimately show ?thesis
      using carve_free [OF assms, of 6]
      by (simp add: carve_emit_def carve_inodes [OF assms] carve_content [OF assms] carve_names [OF assms])
        (simp add: plain_inode_def)
  qed
  finally show ?thesis
    unfolding recover_deleted_exact [OF carve_primary [OF assms]] crafted_geometry(3)
    by (simp add: carve_names [OF assms])
qed

section \<open>They pass\<close>

lemma no_magic_recover:
  assumes "length img < 8192 \<or> magic_bad img SBLOCK_UFS2"
  shows "recover_deleted sha256 img = []"
proof -
  have "parse_primary img off \<noteq> Inr sb" "\<not> magic_bad img off" if "length img < 8192" "8192 \<le> off" for off sb
    using that by (simp_all add: magic_bad_def parse_primary_Inr)
  then show ?thesis
    using assms
    by (auto simp: recover_deleted_def parse_primary_sb_cases SBLOCK_UFS1_def SBLOCK_UFS2_def split: sum.split)
qed

lemma carve_tests:
  "test_recovers_deleted_file_content_matching_pre_delete_hash sha256" "test_recovers_deleted_dirent_name sha256"
  "test_clean_partition_recovers_nothing sha256" "test_malformed_input_recovers_nothing_without_panic sha256"
proof -
  have gone: "recover_deleted sha256 (dc_part (carve_delete (build_deletion_case sha256))) =
      [DeletedDirent (str ''secret.txt'') 0, DeletedFile None 6 250 secret_content (sha256_hex sha256 secret_content)]"
    using carve_recovers [of gone_writes 4 sha256] by (simp add: gone_normal carve_state_def)
  have c: "dc_inode (carve_delete (build_deletion_case sha256)) = 6" "dc_size (carve_delete (build_deletion_case sha256)) = 250"
    "dc_name (carve_delete (build_deletion_case sha256)) = str ''secret.txt''"
    "dc_content (carve_delete (build_deletion_case sha256)) = secret_content"
    "dc_sha256 (carve_delete (build_deletion_case sha256)) = sha256_hex sha256 secret_content"
    by (simp_all add: carve_delete_def build_deletion_case_def Let_def carve_sha256_hex_def sha256_hex_def)
  show "test_recovers_deleted_file_content_matching_pre_delete_hash sha256"
    by (simp add: test_recovers_deleted_file_content_matching_pre_delete_hash_def Let_def gone c first_with_def
        is_deleted_file_of_def)
  show "test_recovers_deleted_dirent_name sha256"
    by (simp add: test_recovers_deleted_dirent_name_def Let_def gone c)
  have live: "dc_part (build_deletion_case sha256) = carved live_writes" by (simp add: build_deletion_case_def live_normal)
  show "test_clean_partition_recovers_nothing sha256"
    using carve_recovers [of live_writes 68 sha256] by (simp add: test_clean_partition_recovers_nothing_def live carve_state_def)
  have "magic_bad (replicate 200000 0xFF) SBLOCK_UFS2"
  proof -
    have "replicate 4 (0xFF :: u8) = [0xFF, 0xFF, 0xFF, 0xFF]" by (simp add: eval_nat_numeral)
    then have "replicate 4 (0xFF :: u8) \<noteq> endian_bytes e (magic_of v)" for e v
      by (cases e; cases v) (simp_all add: magic_of_def sb_consts endian_bytes_def word_to_be_def word_to_le_def)
    then show ?thesis by (simp add: magic_bad_def sb_consts SBLOCK_UFS2_def)
  qed
  then show "test_malformed_input_recovers_nothing_without_panic sha256"
    by (simp add: test_malformed_input_recovers_nothing_without_panic_def no_magic_recover live recover_deleted_run_Some
        valid_slice_def)
qed

end
