(* ===== verification/TestsReal.thy ===== *)
theory TestsReal
  imports TestsDir
begin

text \<open>
  The tests of \<open>core/tests/fixture.rs\<close> on bytes of a real UFS2 image: the files under \<open>tests/data\<close>, written here as
  the runs of their non-zero bytes, cut where a field begins. The expected values are what the Sleuth Kit reports of
  the image, so the model is checked against an implementation that is not the program's.
\<close>

section \<open>The committed files\<close>

definition SUPERBLOCK :: bytes where
  "SUPERBLOCK = fixture 1376
     [(8, [0x18, 0, 0, 0]), (12, [0x20, 0, 0, 0]), (16, [0x28, 0, 0, 0]), (20, [0x30, 0, 0, 0]),
      (44, [0x04, 0, 0, 0]), (48, [0, 0x80, 0, 0]), (52, [0, 0x10, 0, 0]), (56, [0x08, 0, 0, 0]), (60, [0x08]),
      (73, [0x80, 0xFF, 0xFF, 0, 0xF0, 0xFF, 0xFF]), (80, [0x0F, 0, 0, 0]), (84, [0x0C, 0, 0, 0]),
      (88, [0x20, 0, 0, 0, 0, 0x10]), (96, [0x03, 0, 0, 0]), (100, [0x03, 0, 0, 0]), (104, [0, 0x10, 0, 0]),
      (116, [0, 0x10, 0, 0]), (120, [0x80, 0, 0, 0]),
      (144, [0x47, 0x27, 0x4E, 0x64, 0x85, 0xB5, 0xD6, 0x03, 0, 0, 0, 0, 0, 0x10, 0, 0, 0, 0x10]),
      (184, [0x80, 0, 0, 0]), (188, [0, 0x01, 0, 0]),
      (209, [0x01, 0, 0x80, 0x2F, 0x6D, 0x6E, 0x74, 0x2F, 0x64, 0x66, 0x76, 0x66, 0x73]),
      (680, [0x75, 0x66, 0x73, 0x32, 0x5F, 0x74, 0x65, 0x73, 0x74]), (861, [0x80]),
      (872, [0xFE, 0x03, 0, 0, 0, 0, 0, 0, 0x08]), (994, [0x01]), (1000, [0, 0, 0x01, 0, 0, 0, 0, 0]),
      (1008, [0x03]), (1016, [0x6C]), (1024, [0xF7, 0x01, 0, 0, 0, 0, 0, 0, 0x1F]),
      (1072, [0x47, 0x27, 0x4E, 0x64]), (1080, [0xFE, 0x03, 0, 0, 0, 0, 0, 0]),
      (1088, [0x85, 0x03, 0, 0, 0, 0, 0, 0]), (1096, [0x30, 0, 0, 0, 0, 0, 0, 0]), (1197, [0x40, 0, 0, 0x40]),
      (1208, [0x47, 0x27, 0x4E, 0x64]), (1304, [0x45, 0xDC, 0x27, 0x5C, 0x07, 0, 0, 0, 0, 0x02, 0, 0, 0x10]),
      (1320, [0x78, 0, 0, 0]),
      (1328, [0xFF, 0xFF, 0x05, 0x08, 0x80, 0, 0x08, 0, 0xFF, 0x7F, 0, 0, 0, 0, 0, 0, 0xFF, 0x0F]),
      (1372, [0x19, 0x01, 0x54, 0x19])]"

definition CG0 :: bytes where
  "CG0 = fixture 256
     [(4, [0x55, 0x02, 0x09, 0]), (8, [0x47, 0x27, 0x4E, 0x64]), (20, [0, 0x01, 0, 0]),
      (24, [0x02, 0, 0, 0, 0x17, 0, 0, 0, 0x7A, 0, 0, 0, 0x14]), (44, [0x38, 0, 0, 0, 0x05]),
      (76, [0x01, 0, 0, 0, 0x02]), (92, [0xA8, 0, 0, 0]), (96, [0xB8, 0, 0, 0]), (100, [0x1C, 0x01, 0, 0, 0xD4]),
      (108, [0x18, 0x01, 0, 0]), (112, [0x20]), (116, [0x80, 0, 0, 0]), (120, [0x80, 0, 0, 0]),
      (132, [0xEE, 0xDA, 0x14, 0xC7, 0x47, 0x27, 0x4E, 0x64]), (168, [0x3F]),
      (190, [0xFE, 0xFC, 0xFE, 0xFF, 0xFF, 0xFF, 0xFF, 0xFF, 0xFF, 0xFF, 0xFF, 0xFF, 0xFF, 0xFF, 0xFF, 0xFF, 0xFF,
         0xFF, 0xFF, 0xFF, 0xFF, 0xFF, 0xFF, 0xFF, 0xFF, 0xFF])]"

definition inodes_writes :: "(nat \<times> bytes) list" where
  "inodes_writes =
     [(80, [0xCF, 0xB0, 0x88, 0x5E]), (336, [0xB8, 0x93, 0x6D, 0x3D]), (512, [0xED, 0x41]), (514, [0x04, 0]),
      (528, [0, 0x02, 0, 0, 0, 0, 0, 0]), (536, [0x08, 0, 0, 0, 0, 0, 0, 0]),
      (544, [0x47, 0x27, 0x4E, 0x64, 0, 0, 0, 0]), (552, [0x47, 0x27, 0x4E, 0x64, 0, 0, 0, 0]),
      (560, [0x47, 0x27, 0x4E, 0x64, 0, 0, 0, 0]), (568, [0x47, 0x27, 0x4E, 0x64, 0, 0, 0, 0]),
      (576, [0x40, 0x83, 0x82, 0x2D]), (584, [0x40, 0x83, 0x82, 0x2D]), (592, [0x24, 0x86, 0x11, 0x1F]),
      (624, [0x38, 0, 0, 0, 0, 0, 0, 0]), (744, [0x03]), (756, [0x03, 0xCB, 0x47, 0x7C]), (768, [0xFD, 0x41]),
      (770, [0x02, 0]), (776, [0x05, 0, 0, 0]), (784, [0, 0x02, 0, 0, 0, 0, 0, 0]),
      (792, [0x08, 0, 0, 0, 0, 0, 0, 0]), (800, [0x47, 0x27, 0x4E, 0x64, 0, 0, 0, 0]),
      (808, [0x47, 0x27, 0x4E, 0x64, 0, 0, 0, 0]), (816, [0x47, 0x27, 0x4E, 0x64, 0, 0, 0, 0]),
      (824, [0x47, 0x27, 0x4E, 0x64, 0, 0, 0, 0]), (880, [0x40, 0, 0, 0, 0, 0, 0, 0]),
      (1012, [0x54, 0x0A, 0x49, 0x13]), (1024, [0xA4, 0x81]), (1026, [0x01, 0]),
      (1040, [0x74, 0, 0, 0, 0, 0, 0, 0]), (1048, [0x08, 0, 0, 0, 0, 0, 0, 0]),
      (1056, [0x47, 0x27, 0x4E, 0x64, 0, 0, 0, 0]), (1064, [0x47, 0x27, 0x4E, 0x64, 0, 0, 0, 0]),
      (1072, [0x47, 0x27, 0x4E, 0x64, 0, 0, 0, 0]), (1080, [0x47, 0x27, 0x4E, 0x64, 0, 0, 0, 0]),
      (1088, [0x10, 0x28, 0x54, 0x2D]), (1092, [0xA0, 0x70, 0x44, 0x2D]), (1096, [0x10, 0x28, 0x54, 0x2D]),
      (1100, [0xB8, 0x6C, 0x44, 0x2D]), (1104, [0xD6, 0x95, 0xA3, 0xF7]), (1136, [0x39, 0, 0, 0, 0, 0, 0, 0]),
      (1256, [0x02]), (1268, [0xE3, 0x57, 0x90, 0x8A]), (1280, [0xED, 0xA1]), (1282, [0x01, 0]),
      (1296, [0x18, 0, 0, 0, 0, 0, 0, 0]), (1312, [0x47, 0x27, 0x4E, 0x64, 0, 0, 0, 0]),
      (1320, [0x47, 0x27, 0x4E, 0x64, 0, 0, 0, 0]), (1328, [0x47, 0x27, 0x4E, 0x64, 0, 0, 0, 0]),
      (1336, [0x47, 0x27, 0x4E, 0x64, 0, 0, 0, 0]), (1344, [0xA8, 0x84, 0x78, 0x2D]),
      (1348, [0x10, 0xF1, 0x71, 0x2D]), (1352, [0xA8, 0x84, 0x78, 0x2D]), (1356, [0x40, 0xE9, 0x71, 0x2D]),
      (1360, [0x73, 0x66, 0xFD, 0xA5]),
      (1392, [0x61, 0x5F, 0x64, 0x69, 0x72, 0x65, 0x63, 0x74, 0x6F, 0x72, 0x79, 0x2F, 0x61, 0x6E, 0x6F, 0x74, 0x68,
         0x65, 0x72, 0x5F, 0x66, 0x69, 0x6C, 0x65]),
      (1512, [0x02]), (1524, [0xC3, 0x3E, 0x06, 0x3B]), (1616, [0x1E, 0x38, 0xBF, 0x46]),
      (1872, [0x8D, 0xA2, 0x48, 0x73]), (2128, [0x1F, 0x3A, 0xAE, 0x06]), (2384, [0x8B, 0x23, 0xF5, 0xC8]),
      (2640, [0x10, 0x9C, 0xBB, 0xF9]), (2896, [0x2B, 0xE3, 0xB3, 0x84]), (3152, [0x24, 0x68, 0x5D, 0xDE]),
      (3408, [0x2A, 0xAC, 0x71, 0x57]), (3664, [0xEC, 0x93, 0xE4, 0x92]), (3920, [0x2D, 0x03, 0x65, 0x64])]"

definition INODES_0_15 :: bytes where
  "INODES_0_15 = fixture 4096 inodes_writes"

definition ROOTDIR :: bytes where
  "ROOTDIR = fixture 512
     [(0, [0x02, 0, 0, 0, 0x0C, 0, 0x04, 0x01, 0x2E, 0, 0, 0, 0x02, 0, 0, 0, 0x0C, 0, 0x04, 0x02, 0x2E, 0x2E, 0, 0,
         0x03, 0, 0, 0, 0x10, 0, 0x04, 0x05, 0x2E, 0x73, 0x6E, 0x61, 0x70, 0, 0, 0, 0x80, 0, 0, 0, 0x14, 0, 0x04,
         0x0B, 0x61, 0x5F, 0x64, 0x69, 0x72, 0x65, 0x63, 0x74, 0x6F, 0x72, 0x79, 0, 0x04, 0, 0, 0, 0x18, 0, 0x08,
         0x0D, 0x70, 0x61, 0x73, 0x73, 0x77, 0x6F, 0x72, 0x64, 0x73, 0x2E, 0x74, 0x78, 0x74, 0, 0, 0, 0x05, 0, 0,
         0, 0xAC, 0x01, 0x0A, 0x06, 0x61, 0x5F, 0x6C, 0x69, 0x6E, 0x6B])]"

definition real_dinode :: "usize \<Rightarrow> bytes" where
  "real_dinode ino = take UFS2_DINODE_SIZE (drop (ino * UFS2_DINODE_SIZE) INODES_0_15)"

section \<open>The tests\<close>

definition test_committed_ufs2_superblock_fixture_decodes :: bool where
  "test_committed_ufs2_superblock_fixture_decodes \<longleftrightarrow>
     ok_and (sb_parse SUPERBLOCK) (\<lambda>sb.
       sb_version sb = Ufs2 \<and> sb_endian sb = Little \<and> sb_bsize sb = 32768 \<and> sb_fsize sb = 4096 \<and> sb_ncg sb = 4
       \<and> sb_ipg sb = 128 \<and> sb_fpg sb = 256 \<and> sb_size sb = 1022 \<and> sb_maxsymlinklen sb = 120 \<and> sb_inode_size sb = 256)"

definition test_committed_ufs2_cg0_fixture_decodes :: bool where
  "test_committed_ufs2_cg0_fixture_decodes \<longleftrightarrow>
     ok_and (cg_parse CG0 Little) (\<lambda>cg.
       cg_cgx cg = 0 \<and> cg_ndblk cg = 256 \<and> cg_iusedoff cg = 168 \<and> cg_freeoff cg = 184)"

definition test_committed_root_inode2_decodes_as_dir :: bool where
  "test_committed_root_inode2_decodes_as_dir \<longleftrightarrow>
     ok_and (inode_parse (real_dinode 2) Ufs2 Little) (\<lambda>ino.
       i_file_type ino = FtDirectory \<and> inode_is_dir ino \<and> i_mode ino AND 0xFFF = 0x1ED \<and> i_nlink ino = 4
       \<and> i_uid ino = 0 \<and> i_gid ino = 0 \<and> i_size ino = 512 \<and> ts_sec (i_mtime ino) = 1682843463
       \<and> i_direct ino ! 0 = 56 \<and> list_all (\<lambda>b. b = 0) (tl (i_direct ino)) \<and> list_all (\<lambda>b. b = 0) (i_indirect ino)
       \<and> inode_symlink_target ino = None)"

definition test_committed_file_inode4_matches_istat :: bool where
  "test_committed_file_inode4_matches_istat \<longleftrightarrow>
     ok_and (inode_parse (real_dinode 4) Ufs2 Little) (\<lambda>ino.
       i_file_type ino = FtRegular \<and> \<not> inode_is_dir ino \<and> i_mode ino AND 0xFFF = 0x1A4 \<and> i_nlink ino = 1
       \<and> i_uid ino = 0 \<and> i_gid ino = 0 \<and> i_size ino = 116 \<and> ts_sec (i_mtime ino) = 1682843463
       \<and> i_direct ino ! 0 = 57 \<and> inode_symlink_target ino = None)"

definition test_committed_symlink_inode5_is_fast_symlink :: bool where
  "test_committed_symlink_inode5_is_fast_symlink \<longleftrightarrow>
     ok_and (inode_parse (real_dinode 5) Ufs2 Little) (\<lambda>ino.
       i_file_type ino = FtSymlink \<and> i_size ino = 24
       \<and> inode_symlink_target ino = Some (str ''a_directory/another_file''))"

text \<open>
  The partition assembled from the files; the superblock is first written at offset 0 too, as the test does.
\<close>

definition real_root_part :: "superblock \<Rightarrow> bytes" where
  "real_root_part sb =
     (let iblkno = nat_i32 (sb_iblkno sb); fsize = nat_i32 (sb_fsize sb);
          ino2_byte = iblkno * fsize + 2 * 256;
          root_block_byte = 56 * fsize;
          part_end = max (max (ino2_byte + 256) (root_block_byte + length ROOTDIR)) (length SUPERBLOCK)
      in fixture (part_end + 16)
           [(0, SUPERBLOCK), (SBLOCK_UFS2, SUPERBLOCK), (ino2_byte, real_dinode 2), (root_block_byte, ROOTDIR)])"

definition test_committed_root_directory_walk_matches_fls :: bool where
  "test_committed_root_directory_walk_matches_fls \<longleftrightarrow>
     ok_and (sb_parse SUPERBLOCK) (\<lambda>sb. ok_and (list_dir_all (real_root_part sb) sb 2) (\<lambda>entries.
       let by_name = (\<lambda>n. map_option de_ino (find (\<lambda>e. de_name e = n) entries));
           ftype = (\<lambda>n. map_option de_file_type (find (\<lambda>e. de_name e = n) entries))
       in map de_name entries = root_names
         \<and> by_name (str ''.snap'') = Some 3 \<and> by_name (str ''a_directory'') = Some 128
         \<and> by_name (str ''passwords.txt'') = Some 4 \<and> by_name (str ''a_link'') = Some 5
         \<and> ftype (str ''a_directory'') = Some DtDirectory \<and> ftype (str ''passwords.txt'') = Some DtRegular
         \<and> ftype (str ''a_link'') = Some DtSymlink \<and> list_all (\<lambda>e. \<not> de_deleted e) entries))"

section \<open>What the files hold\<close>

definition real_sb :: superblock where
  "real_sb = \<lparr> sb_version = Ufs2, sb_endian = Little, sb_sblkno = 24, sb_cblkno = 32, sb_iblkno = 40,
     sb_dblkno = 48, sb_ncg = 4, sb_bsize = 32768, sb_fsize = 4096, sb_frag = 8, sb_bshift = 15, sb_fshift = 12,
     sb_fragshift = 3, sb_fsbtodb = 3, sb_sbsize = 4096, sb_nindir = 4096, sb_inopb = 128, sb_ipg = 128,
     sb_fpg = 256, sb_size = 1022, sb_dsize = 901, sb_csaddr = 48, sb_sblockloc = 65536, sb_maxsymlinklen = 120 \<rparr>"

definition real_cg0 :: cylinder_group where
  "real_cg0 = \<lparr> cg_cgx = 0, cg_ndblk = 256, cg_niblk = 128, cg_initediblk = 128, cg_iusedoff = 168,
     cg_freeoff = 184, cg_clusteroff = 280 \<rparr>"

definition real_inode :: "u16 \<Rightarrow> u16 \<Rightarrow> u64 \<Rightarrow> i32 \<Rightarrow> i32 \<Rightarrow> i32 \<Rightarrow> u64 \<Rightarrow> inode" where
  "real_inode mode nlink sz mns ans bns db0 = \<lparr> i_version = Ufs2, i_mode = mode, i_file_type = file_type_from_mode mode,
     i_nlink = nlink, i_uid = 0, i_gid = 0, i_size = sz, i_blocks = 8,
     i_atime = \<lparr> ts_sec = 1682843463, ts_nsec = ans \<rparr>, i_mtime = \<lparr> ts_sec = 1682843463, ts_nsec = mns \<rparr>,
     i_ctime = \<lparr> ts_sec = 1682843463, ts_nsec = mns \<rparr>, i_birthtime = Some \<lparr> ts_sec = 1682843463, ts_nsec = bns \<rparr>,
     i_direct = db0 # replicate 11 0, i_indirect = [0, 0, 0], i_fast_symlink = None \<rparr>"

lemmas le_bytes = endian_bytes_def word_to_le_def

lemma real_superblock: "sb_parse SUPERBLOCK = Inr real_sb"
proof -
  have "sb_parse SUPERBLOCK = try_bind (sb_validate_geometry real_sb) (\<lambda>_. Inr real_sb)"
    unfolding SUPERBLOCK_def
    by (rule fixture_sb) (simp_all add: sb_fields_defs holds_def magic_of_def sb_consts real_sb_def le_bytes)
  moreover have "sb_validate_geometry real_sb = Inr ()" by (simp add: validate_Inr wf_geometry_def real_sb_def)
  ultimately show ?thesis by simp
qed

lemma real_header: "cg_parse CG0 Little = Inr real_cg0"
  unfolding CG0_def
  by (rule fixture_cg) (simp_all add: cg_fields_def holds_def sb_consts real_cg0_def le_bytes)

section \<open>The inodes\<close>

lemma real_window:
  assumes "n < 16" "list_all (uncut (n * 256) 256) inodes_writes"
  shows "real_dinode n = fixture 256 (writes_in (n * 256) 256 inodes_writes)"
  using assms fixture_window [of "n * 256" 256 4096 inodes_writes]
  by (simp add: real_dinode_def INODES_0_15_def sb_consts)

lemma real_windows:
  "real_dinode 2 = fixture 256
      [(0, [0xED, 0x41]), (2, [0x04, 0]), (16, [0, 0x02, 0, 0, 0, 0, 0, 0]), (24, [0x08, 0, 0, 0, 0, 0, 0, 0]),
       (32, [0x47, 0x27, 0x4E, 0x64, 0, 0, 0, 0]), (40, [0x47, 0x27, 0x4E, 0x64, 0, 0, 0, 0]),
       (48, [0x47, 0x27, 0x4E, 0x64, 0, 0, 0, 0]), (56, [0x47, 0x27, 0x4E, 0x64, 0, 0, 0, 0]),
       (64, [0x40, 0x83, 0x82, 0x2D]), (72, [0x40, 0x83, 0x82, 0x2D]), (80, [0x24, 0x86, 0x11, 0x1F]),
       (112, [0x38, 0, 0, 0, 0, 0, 0, 0]), (232, [0x03]), (244, [0x03, 0xCB, 0x47, 0x7C])]"
  "real_dinode 4 = fixture 256
      [(0, [0xA4, 0x81]), (2, [0x01, 0]), (16, [0x74, 0, 0, 0, 0, 0, 0, 0]), (24, [0x08, 0, 0, 0, 0, 0, 0, 0]),
       (32, [0x47, 0x27, 0x4E, 0x64, 0, 0, 0, 0]), (40, [0x47, 0x27, 0x4E, 0x64, 0, 0, 0, 0]),
       (48, [0x47, 0x27, 0x4E, 0x64, 0, 0, 0, 0]), (56, [0x47, 0x27, 0x4E, 0x64, 0, 0, 0, 0]),
       (64, [0x10, 0x28, 0x54, 0x2D]), (68, [0xA0, 0x70, 0x44, 0x2D]), (72, [0x10, 0x28, 0x54, 0x2D]),
       (76, [0xB8, 0x6C, 0x44, 0x2D]), (80, [0xD6, 0x95, 0xA3, 0xF7]), (112, [0x39, 0, 0, 0, 0, 0, 0, 0]),
       (232, [0x02]), (244, [0xE3, 0x57, 0x90, 0x8A])]"
  "real_dinode 5 = fixture 256
      [(0, [0xED, 0xA1]), (2, [0x01, 0]), (16, [0x18, 0, 0, 0, 0, 0, 0, 0]),
       (32, [0x47, 0x27, 0x4E, 0x64, 0, 0, 0, 0]), (40, [0x47, 0x27, 0x4E, 0x64, 0, 0, 0, 0]),
       (48, [0x47, 0x27, 0x4E, 0x64, 0, 0, 0, 0]), (56, [0x47, 0x27, 0x4E, 0x64, 0, 0, 0, 0]),
       (64, [0xA8, 0x84, 0x78, 0x2D]), (68, [0x10, 0xF1, 0x71, 0x2D]), (72, [0xA8, 0x84, 0x78, 0x2D]),
       (76, [0x40, 0xE9, 0x71, 0x2D]), (80, [0x73, 0x66, 0xFD, 0xA5]),
       (112, [0x61, 0x5F, 0x64, 0x69, 0x72, 0x65, 0x63, 0x74, 0x6F, 0x72, 0x79, 0x2F, 0x61, 0x6E, 0x6F, 0x74, 0x68,
          0x65, 0x72, 0x5F, 0x66, 0x69, 0x6C, 0x65]),
       (232, [0x02]), (244, [0xC3, 0x3E, 0x06, 0x3B])]"
  using real_window [of 2] real_window [of 4] real_window [of 5]
  by (simp_all add: inodes_writes_def uncut_def writes_in_def)

lemmas real_inode_simps = inode_fields_def ptr_fields_def ptr_enc_def upt_12 upt_3 birth_def holds_def sb_consts
  real_inode_def le_bytes replicate_11

lemma real_inodes:
  "inode_parse_with_maxsymlink (real_dinode 2) Ufs2 Little m = Inr (real_inode 0x41ED 4 512 763528000 0 0 56)"
  "inode_parse_with_maxsymlink (real_dinode 4) Ufs2 Little m = Inr (real_inode 0x81A4 1 116 760490000 759460000 759459000 57)"
proof -
  have ft: "file_type_from_mode 0x41ED \<noteq> FtSymlink" "file_type_from_mode 0x81A4 \<noteq> FtSymlink"
    by (simp_all add: file_type_from_mode_def IFMT_def)
  have parse: "inode_parse_with_maxsymlink (fixture 256 fs) Ufs2 Little m = Inr (real_inode mode nlink sz mns ans bns db0)"
    if "list_all (holds 256 fs) (inode_fields Little (real_inode mode nlink sz mns ans bns db0))"
      "file_type_from_mode mode \<noteq> FtSymlink" for fs mode nlink sz mns ans bns db0
    using fixture_inode [OF _ that(1), of Ufs2 m] that(2)
    by (simp add: dinode_size_def sb_consts wf_inode_def inode_fast_symlink_def) (simp add: real_inode_def wf_inode_def sb_consts)
  show "inode_parse_with_maxsymlink (real_dinode 2) Ufs2 Little m = Inr (real_inode 0x41ED 4 512 763528000 0 0 56)"
    unfolding real_windows by (rule parse [OF _ ft(1)]) (simp add: real_inode_simps)
  show "inode_parse_with_maxsymlink (real_dinode 4) Ufs2 Little m
      = Inr (real_inode 0x81A4 1 116 760490000 759460000 759459000 57)"
    unfolding real_windows by (rule parse [OF _ ft(2)]) (simp add: real_inode_simps)
qed

section \<open>The root directory\<close>

definition real_dirent :: "u32 \<Rightarrow> u8 \<Rightarrow> string \<Rightarrow> nat \<Rightarrow> raw_dirent" where
  "real_dirent ino ty name pad = \<lparr> rd_ino = ino, rd_type = ty, rd_name = str name, rd_pad = replicate pad 0 \<rparr>"

definition real_dirents :: "raw_dirent list" where
  "real_dirents =
     [real_dirent 2 4 ''.'' 3, real_dirent 2 4 ''..'' 2, real_dirent 3 4 ''.snap'' 3, real_dirent 128 4 ''a_directory'' 1,
      real_dirent 4 8 ''passwords.txt'' 3, real_dirent 5 10 ''a_link'' 414]"

lemma ROOTDIR_layout: "ROOTDIR = concat (map (raw_bytes Little) real_dirents)"
proof -
  have "replicate 2 (0 :: u8) = [0, 0]" "replicate 3 (0 :: u8) = [0, 0, 0]" by (simp_all add: eval_nat_numeral)
  then show ?thesis
    by (simp add: ROOTDIR_def fixture_def slice_put_def real_dirents_def real_dirent_def raw_bytes_def
        raw_reclen_def le_bytes)
qed

lemma real_part:
  "real_root_part real_sb = fixture 229904
     [(0, SUPERBLOCK), (65536, SUPERBLOCK), (164352, real_dinode 2), (229376, ROOTDIR)]"
  by (simp add: real_root_part_def real_sb_def nat_i32_def ROOTDIR_def SUPERBLOCK_def SBLOCK_UFS2_def)

lemma real_listing: "list_dir_all (real_root_part real_sb) real_sb 2 = Inr (map raw_entry real_dirents)"
proof -
  let ?part = "real_root_part real_sb" and ?i = "real_inode 0x41ED 4 512 763528000 0 0 56"
  have len: "length (real_dinode 2) = 256" "length SUPERBLOCK = 1376" "length ROOTDIR = 512"
    by (simp_all add: real_windows SUPERBLOCK_def ROOTDIR_def)
  have sb: "inode_geometry_ok real_sb" "inode_count real_sb = 512" "inode_offset real_sb 2 = 164352"
    "sb_version real_sb = Ufs2" "sb_endian real_sb = Little" "0 < sint (sb_fsize real_sb)" "512 \<le> sint (sb_bsize real_sb)"
    "nat_i32 (sb_fsize real_sb) = 4096" "nat_i32 (sb_bsize real_sb) = 32768"
    by (simp_all add: real_sb_def inode_geometry_ok_def inode_count_def inode_offset_def nat_i32_def dinode_size_def sb_consts)
  have v: "valid_slice ?part" by (simp add: real_part valid_slice_def)
  have inode: "read_inode ?part real_sb 2 = Inr ?i"
    unfolding real_part
    by (rule fixture_read_inode [where d = "real_dinode 2"])
      (simp_all add: sb holds_def len dinode_size_def sb_consts real_inodes)
  have "take 512 (drop (unat (56 :: u64) * 4096) ?part) = concat (map (raw_bytes Little) real_dirents)"
  proof -
    have "take 512 (drop 229376 ?part) = ROOTDIR"
      unfolding real_part by (rule fixture_take) (simp_all add: holds_def len)
    then show ?thesis by (simp add: ROOTDIR_layout [symmetric])
  qed
  moreover have "\<forall>r \<in> set real_dirents. raw_ok r"
    by (simp add: real_dirents_def real_dirent_def raw_ok_def raw_reclen_def)
  ultimately have "list_dir_entries ?part real_sb ?i = map raw_entry real_dirents"
    using v by (intro one_block_dir [where addr = 56]) (simp_all add: sb real_inode_def)
  then show ?thesis using inode by (simp add: list_dir_all_def)
qed

section \<open>They pass\<close>

lemma real_fixture_tests:
  "test_committed_ufs2_superblock_fixture_decodes" "test_committed_ufs2_cg0_fixture_decodes"
  "test_committed_root_inode2_decodes_as_dir" "test_committed_file_inode4_matches_istat"
  "test_committed_symlink_inode5_is_fast_symlink" "test_committed_root_directory_walk_matches_fls"
proof -
  show "test_committed_ufs2_superblock_fixture_decodes"
    by (simp add: test_committed_ufs2_superblock_fixture_decodes_def real_superblock)
      (simp add: real_sb_def sb_inode_size_def sb_consts)
  show "test_committed_ufs2_cg0_fixture_decodes"
    by (simp add: test_committed_ufs2_cg0_fixture_decodes_def real_header) (simp add: real_cg0_def)
  show "test_committed_root_inode2_decodes_as_dir"
    by (simp add: test_committed_root_inode2_decodes_as_dir_def inode_parse_def real_inodes)
      (simp add: real_inode_def inode_is_dir_def inode_symlink_target_def modes replicate_11)
  show "test_committed_file_inode4_matches_istat"
    by (simp add: test_committed_file_inode4_matches_istat_def inode_parse_def real_inodes)
      (simp add: real_inode_def inode_is_dir_def inode_symlink_target_def modes)
  show "test_committed_symlink_inode5_is_fast_symlink"
  proof -
    let ?t = "str ''a_directory/another_file''"
    have "inode_parse_with_maxsymlink (real_dinode 5) Ufs2 Little DEFAULT_MAXSYMLINKLEN
          = Inr (inode_decode (real_dinode 5) Ufs2 Little DEFAULT_MAXSYMLINKLEN)
        \<and> i_file_type (inode_decode (real_dinode 5) Ufs2 Little DEFAULT_MAXSYMLINKLEN) = FtSymlink
        \<and> inode_symlink_target (inode_decode (real_dinode 5) Ufs2 Little DEFAULT_MAXSYMLINKLEN) = Some ?t"
      unfolding real_windows
      by (rule fixture_symlink [where mode = "0xA1ED"])
        (simp_all add: dinode_size_def sb_consts holds_def le_bytes inode_db_off_def inode_ptr_size_def
          file_type_from_mode_def)
    moreover have "endian_u64 Little (real_dinode 5) 16 = 24"
      unfolding real_windows by (rule fixture_u64) (simp_all add: holds_def le_bytes)
    then have "i_size (inode_decode (real_dinode 5) Ufs2 Little DEFAULT_MAXSYMLINKLEN) = 24"
      by (simp add: inode_decode_def Let_def sb_consts)
    ultimately show ?thesis by (simp add: test_committed_symlink_inode5_is_fast_symlink_def inode_parse_def)
  qed
  show "test_committed_root_directory_walk_matches_fls"
    by (simp add: test_committed_root_directory_walk_matches_fls_def real_superblock real_listing Let_def)
      (simp add: real_dirents_def real_dirent_def raw_entry_def from_d_type_def)
qed

end
