(* ===== verification/RealImage.thy ===== *)
theory RealImage
  imports TestsReal
begin

text \<open>
  The image \<open>tests/data/ufs2.raw\<close> that the oracle tests read: its UFS2 volume of 4186112 bytes, written as the structures it
  holds and the few non-zero bytes between them. The backup superblocks are the primary one with the fields that
  differ; an inode slot is its generation number and, in seven slots, the fields of a used inode. The 8192 bytes in
  front of the volume (disk label and boot code) do not matter and are arbitrary.
\<close>

section \<open>The structures\<close>

definition BACKUP :: "u8 \<Rightarrow> bytes \<Rightarrow> bytes" where
  "BACKUP g hash =
     patch SUPERBLOCK
       [(212, replicate 10 0), (993, [128, g]), (1008, [0]), (1016, [111]), (1024, [254]), (1032, [13]),
        (1208, replicate 4 0), (1304, hash)]"

definition HEADER1 :: bytes where
  "HEADER1 = fixture 300
     [(4, [0x55, 0x02, 0x09, 0]), (8, [0x47, 0x27, 0x4E, 0x64]), (12, [0x01, 0, 0, 0]), (20, [0, 0x01, 0, 0]),
      (24, [0x01, 0, 0, 0, 0x1C, 0, 0, 0, 0x7D, 0, 0, 0, 0x05]), (44, [0x30, 0, 0, 0, 0x02]), (72, [0x01]),
      (92, [0xA8, 0, 0, 0]), (96, [0xB8, 0, 0, 0]), (100, [0x1C, 0x01, 0, 0, 0xD4]), (108, [0x18, 0x01, 0, 0]),
      (112, [0x20, 0, 0, 0]), (116, [0x80, 0, 0, 0]), (120, [0x80, 0, 0, 0]), (132, [0x90, 0x59, 0xEB, 0x3A,
      0x47, 0x27, 0x4E, 0x64]), (168, [0x07, 0, 0, 0, 0, 0, 0, 0, 0, 0, 0, 0, 0, 0, 0, 0]), (184, [0xFF, 0xFF,
      0xFF, 0, 0, 0, 0xF8, 0xFF, 0xFF, 0xFF, 0xFF, 0xFF, 0xFF, 0xFF, 0xFF, 0xFF, 0xFF, 0xFF, 0xFF, 0xFF, 0xFF,
      0xFF, 0xFF, 0xFF, 0xFF, 0xFF, 0xFF, 0xFF, 0xFF, 0xFF, 0xFF, 0xFF]), (224, [0x01]), (276, [0x01, 0, 0, 0,
      0x87, 0xFF, 0xFF, 0xFF])]"

definition HEADER2 :: bytes where
  "HEADER2 = fixture 300
     [(4, [0x55, 0x02, 0x09, 0]), (12, [0x02, 0, 0, 0]), (20, [0, 0x01, 0, 0]), (28, [0x1D, 0, 0, 0, 0x80]),
      (92, [0xA8, 0, 0, 0]), (96, [0xB8, 0, 0, 0]), (100, [0x1C, 0x01, 0, 0, 0xD4]), (108, [0x18, 0x01, 0, 0]),
      (112, [0x20, 0, 0, 0]), (116, [0x80, 0, 0, 0]), (120, [0x80, 0, 0, 0]), (132, [0xDD, 0x2C, 0x0F, 0x39,
      0x47, 0x27, 0x4E, 0x64]), (184, [0xFF, 0xFF, 0xFF, 0, 0, 0, 0xFF, 0xFF, 0xFF, 0xFF, 0xFF, 0xFF, 0xFF,
      0xFF, 0xFF, 0xFF, 0xFF, 0xFF, 0xFF, 0xFF, 0xFF, 0xFF, 0xFF, 0xFF, 0xFF, 0xFF, 0xFF, 0xFF, 0xFF, 0xFF,
      0xFF, 0xFF]), (224, [0x01]), (276, [0x01, 0, 0, 0, 0xC7, 0xFF, 0xFF, 0xFF])]"

definition HEADER3 :: bytes where
  "HEADER3 = fixture 300
     [(4, [0x55, 0x02, 0x09, 0]), (12, [0x03, 0, 0, 0]), (20, [0xFE, 0, 0, 0]), (28, [0x1C, 0, 0, 0, 0x80, 0,
      0, 0, 0x06]), (76, [0x01]), (92, [0xA8, 0, 0, 0]), (96, [0xB8, 0, 0, 0]), (100, [0x1C, 0x01, 0, 0,
      0xD4]), (108, [0x18, 0x01, 0, 0]), (112, [0x1F, 0, 0, 0]), (116, [0x80, 0, 0, 0]), (120, [0x80, 0, 0,
      0]), (132, [0x7F, 0x9E, 0x0B, 0x3A, 0x47, 0x27, 0x4E, 0x64]), (184, [0xFF, 0xFF, 0xFF, 0, 0, 0, 0xFF,
      0xFF, 0xFF, 0xFF, 0xFF, 0xFF, 0xFF, 0xFF, 0xFF, 0xFF, 0xFF, 0xFF, 0xFF, 0xFF, 0xFF, 0xFF, 0xFF, 0xFF,
      0xFF, 0xFF, 0xFF, 0xFF, 0xFF, 0xFF, 0xFF, 0x3F]), (224, [0x01]), (276, [0x01, 0, 0, 0, 0xC7, 0xFF, 0xFF,
      0x7F])]"

definition stat_fields ::
  "u16 \<Rightarrow> u16 \<Rightarrow> u32 \<Rightarrow> u64 \<Rightarrow> i32 \<Rightarrow> i32 \<Rightarrow> i32 \<Rightarrow> u64 \<Rightarrow> u32 \<Rightarrow> u32 \<Rightarrow> (usize \<times> bytes) list" where
  "stat_fields mode nlink gid sz mns ans bns db0 depth hash =
     (let t = endian_bytes Little (1682843463 :: i64); le = endian_bytes Little in
      [(0, endian_bytes Little mode), (2, endian_bytes Little nlink), (8, endian_bytes Little gid),
       (16, endian_bytes Little sz), (24, endian_bytes Little (8 :: u64)), (32, t), (40, t), (48, t), (56, t),
       (64, le mns), (68, le ans), (72, le mns), (76, le bns), (112, endian_bytes Little db0),
       (232, endian_bytes Little depth), (244, endian_bytes Little hash)])"

definition link_fields :: "(usize \<times> bytes) list" where
  "link_fields =
     (let t = endian_bytes Little (1682843463 :: i64) in
      [(0, endian_bytes Little (0xA1ED :: u16)), (2, endian_bytes Little (1 :: u16)), (16, endian_bytes Little (24 :: u64)),
       (32, t), (40, t), (48, t), (56, t), (64, [0xA8, 0x84, 0x78, 0x2D]), (68, [0x10, 0xF1, 0x71, 0x2D]),
       (72, [0xA8, 0x84, 0x78, 0x2D]), (76, [0x40, 0xE9, 0x71, 0x2D]), (112, str ''a_directory/another_file''),
       (232, [0x02]), (244, [0xC3, 0x3E, 0x06, 0x3B])])"

definition slot_fields :: "nat \<Rightarrow> (usize \<times> bytes) list" where
  "slot_fields n =
     (if n = 2 then stat_fields 0x41ED 4 0 512 763528000 0 0 56 3 0x7C47CB03
      else if n = 3 then stat_fields 0x41FD 2 5 512 0 0 0 64 0 0x13490A54
      else if n = 4 then stat_fields 0x81A4 1 0 116 760490000 759460000 759459000 57 2 0x8A9057E3
      else if n = 5 then link_fields
      else if n = 128 then stat_fields 0x41ED 2 0 512 761110000 757397000 757170000 304 3 0xDE19E014
      else if n = 129 then stat_fields 0x81A4 1 0 53 759179000 758144000 758143000 305 2 0xAFAC16A6
      else if n = 130 then stat_fields 0x81A4 1 0 22 761651000 760757000 760757000 306 2 0x2CBD2C31
      else [])"

text \<open>The generation numbers of the 512 slots.\<close>

definition generations :: "u32 list" where
  "generations =
     [1586016463, 1030591416, 521242148, 0, 4154693078, 2784847475, 1186936862, 1934140045, 112081439,
      3371508619, 4189821968, 2226381611, 3730663460, 1467067434, 2464453612, 1684341549, 1387713790,
      488512810, 3706807969, 2748431793, 784248726, 2496938558, 3943762420, 2706517131, 2452610757, 3027075636,
      1596206435, 1818667652, 2753588942, 1156565325, 13624556, 1447072494, 2114681227, 2562580112, 1456442053,
      3426904392, 507169934, 2076281155, 2250919308, 3626363794, 116341604, 1822963144, 1033589706, 2111999081,
      2104576942, 303856087, 1848606734, 534289442, 3881808984, 1858512883, 251587004, 928783522, 2917838063,
      3352615261, 1533367890, 2561506310, 1264870615, 2560097703, 3711555078, 3777643262, 1241522026,
      2870984790, 856443828, 695950676, 3194891645, 3032337756, 2929661553, 1274113487, 1736009821, 706393358,
      2064969622, 4212827658, 2923787424, 3125880916, 709128564, 3924026127, 1628577458, 3465294279,
      1899080889, 4031054146, 3245983861, 1728164551, 2504831018, 1169645577, 1780697196, 2441868584,
      2041925880, 3554865269, 3955228772, 3920006537, 2271562242, 189451701, 4271461703, 4051125200,
      1298242793, 680349597, 2836345671, 823977035, 3000955777, 4188568215, 4171993118, 2452795892, 858354036,
      864757658, 4180816227, 499854173, 2277073806, 3153806913, 1120668736, 1923163698, 4000706531, 2832248865,
      2983658014, 2764137590, 1301109196, 2814717847, 1404608697, 2396061073, 3046495674, 3848361321,
      1648672035, 74795504, 2511714349, 1101781340, 44216915, 888193872, 336507813, 3767703622, 3913546011,
      445474095, 3274573161, 394231066, 950309154, 878207807, 1860198974, 669793328, 522011426, 2862499599,
      232813207, 2544364893, 2547347856, 3897168626, 3752457787, 3682803979, 4000210818, 3105287970,
      1728681288, 1946203385, 3531283797, 3330708712, 521808327, 2820343491, 914856370, 1718658935, 4139234712,
      1094828785, 4266163917, 3682688818, 184415253, 4186005736, 2852376360, 4092343774, 1598793369,
      1006140137, 1490993809, 3071159632, 1801893974, 2965712226, 2667275000, 3285527103, 2669760815,
      142269857, 121790657, 3916608881, 3582955585, 3305516635, 1745444833, 3758680335, 892426375, 493627228,
      3210136663, 611590180, 12552299, 3725072995, 4206763931, 972904386, 980092467, 3497510579, 792670020,
      2229586474, 1853025579, 1827587393, 532111774, 4196919065, 3856493365, 229216212, 3706400878, 2793014703,
      3113452812, 2740012877, 1097042606, 461700942, 4244549728, 1038943515, 2104801649, 2528614663,
      1080474053, 1281134213, 334095718, 1524033427, 4129699110, 4080594156, 23273461, 1518529107, 2377762376,
      1269262733, 1277012694, 2744414829, 3076596971, 2169943259, 2924610817, 475562935, 233495724, 4049299104,
      3332812924, 2430447694, 2257554977, 1804868650, 222487156, 3161750795, 853415677, 584687374, 2211767330,
      2099540986, 3299896816, 3775657818, 366116564, 3452966957, 3250014045, 1860415154, 1570888302, 187781782,
      1648891343, 856577818, 4068990914, 4149671183, 388747452, 3002078076, 528667687, 2059551502, 234382421,
      4121720222, 889200247, 947937733, 2273128381, 2628744629, 2590647354, 971398361, 3321792706, 1813170614,
      3319568542, 238615475, 1126848493, 3180763193, 4293501302, 48016118, 2927202106, 2982812906, 4244085843,
      3389996571, 2865381374, 2745176002, 2453700190, 315644178, 1933800726, 1087750416, 4266516074,
      2752345638, 3326877677, 3367818326, 1006161768, 2404297044, 264013881, 2607462276, 4022610524,
      3314792917, 3470119596, 1623170050, 2977171619, 1645842911, 4136970616, 3283725095, 524701899,
      3574348624, 686447227, 175943666, 2575836146, 1608827008, 3879415347, 1992840934, 1920730008, 273692401,
      3527478837, 3433711237, 919683489, 2360147077, 3078048557, 2596337601, 4275668846, 2312568022,
      3151094017, 1043802578, 4099130770, 2244932355, 3803244167, 3624082711, 3035036965, 907256405,
      2640911028, 3309892643, 2122700251, 3478859129, 1738077659, 2328926991, 738594664, 3665228030,
      3747051547, 1532847346, 3324716378, 255894871, 2797223283, 3696146194, 2645402427, 3531368007,
      1986522789, 3165221746, 1706640640, 2176467185, 653702852, 2492152528, 2776602551, 3606049236,
      4073288647, 2977451416, 540020029, 2982649101, 900574748, 1466587689, 2534232739, 2397135652, 2074722435,
      2499297518, 2650994108, 838353689, 2587624948, 1337657065, 2133271344, 4179147197, 1466488978,
      2666439321, 2337792216, 3210908081, 1196109786, 1983402124, 1894406226, 1022209666, 39713001, 2535571006,
      3225731468, 49348225, 372989278, 3623219911, 389595523, 1686351514, 1161827553, 2900918845, 204730302,
      794399586, 3794671782, 3793095375, 341620138, 2109573605, 4084358674, 130202556, 3015916326, 3515404043,
      1471824798, 3245751439, 909331374, 3893931739, 2865256916, 900237619, 1648080592, 1762352946, 3634813389,
      678354829, 3299579775, 2334473449, 504197196, 1611160064, 1862272437, 3787982709, 274301321, 2651122649,
      873537125, 3815384580, 1410430233, 3115229818, 3945188957, 1698634382, 3141158452, 2063425015, 392940940,
      2986964540, 1455707336, 4022836541, 280310939, 282461414, 1699385243, 470074397, 1056869075, 3706794400,
      3514462741, 2986731854, 2830307532, 3142846910, 928979596, 805595683, 1664142556, 1655279479, 2789636000,
      2152381487, 934466722, 3730730174, 3736964744, 1950099165, 2867333359, 2380750036, 1027549765,
      1369340379, 3746586812, 4090587733, 3256140129, 570260463, 2154583555, 3482700850, 4114961111, 709287214,
      3726152236, 2339853512, 3164154013, 424311302, 2124329332, 106927060, 3863103563, 1931473881, 4262827903,
      1212760496, 3105041114, 1644359591, 1045908773, 3402192175, 2158872176, 1349442165, 3525205166,
      1590671877, 1900797170, 2904535504, 4075592483, 1269407431, 814694024, 301882579, 3018101183, 1654127601,
      3012629448, 3606075160, 210688786, 3878422485, 4035191151, 2995194335, 2766488227, 2021965469,
      2359077036, 1125275914, 1428985583, 128913611, 1627320693, 3959618497, 3588231363, 1695807590, 200260920,
      538011815, 3211793200, 2989977463, 2421452225, 1451653202, 2251578136, 3662658728, 2331469442, 140202286,
      3360537979, 3879766952, 3123234173, 3121225914, 3734128034, 406121561, 2029291997, 2014492019, 468377972,
      3650781433, 1534195693, 3221772821]"

definition slot :: "nat \<Rightarrow> bytes" where
  "slot n = fixture 256 ((80, endian_bytes Little (generations ! n)) # slot_fields n)"

definition itable :: "nat \<Rightarrow> bytes" where
  "itable c = concat (map slot [c * 128..<c * 128 + 128])"

text \<open>The directories besides the root, and the files.\<close>

definition snap_dirents :: "raw_dirent list" where
  "snap_dirents = [real_dirent 3 4 ''.'' 3, real_dirent 2 4 ''..'' 490]"

definition sub_dirents :: "raw_dirent list" where
  "sub_dirents =
     [real_dirent 128 4 ''.'' 3, real_dirent 2 4 ''..'' 2, real_dirent 129 8 ''a_file'' 2,
      real_dirent 130 8 ''another_file'' 452]"

definition SNAPDIR :: bytes where "SNAPDIR = concat (map (raw_bytes Little) snap_dirents)"
definition SUBDIR :: bytes where "SUBDIR = concat (map (raw_bytes Little) sub_dirents)"

definition PASSWORDS :: bytes where
  "PASSWORDS =
     str ''place,user,password'' @ [10] @ str ''bank,joesmith,superrich'' @ [10] @ str ''alarm system,-,1234'' @ [10]
     @ str ''treasure chest,-,1111'' @ [10] @ str ''uber secret laire,admin,admin'' @ [10]"

definition A_FILE :: bytes where
  "A_FILE = str ''This is a text file.'' @ [10, 10] @ str ''We should be able to parse it.'' @ [10]"

definition ANOTHER_FILE :: bytes where
  "ANOTHER_FILE = str ''This is another file.'' @ [10]"

section \<open>The volume\<close>

text \<open>Bytes no operation of the program reads as part of a structure: summaries, a check hash per directory block.\<close>

definition real_scraps :: "(usize \<times> bytes) list" where
  "real_scraps =
     [(65516, [0x19, 0x01, 0x54, 0x19, 0x03, 0, 0, 0, 0x18]), (65529, [0x01, 0, 0, 0x04]), (131348, [0x01]),
      (131353, [0xFE, 0xFF, 0xFF]), (196608, [0x02, 0, 0, 0, 0x17, 0, 0, 0, 0x7A, 0, 0, 0, 0x14, 0, 0, 0, 0x01,
      0, 0, 0, 0x1C, 0, 0, 0, 0x7D, 0, 0, 0, 0x05]), (196644, [0x1D, 0, 0, 0, 0x80]), (196660, [0x1C, 0, 0, 0,
      0x80, 0, 0, 0, 0x06]), (229968, [0x9E, 0x43, 0xBA, 0x57]), (230224, [0x8F, 0x3C, 0x76, 0xC1]), (230480,
      [0xAE, 0x4B, 0x33, 0x36]), (230736, [0xDB, 0xAE, 0x18, 0xE8]), (230992, [0xD4, 0x59, 0xC8, 0xAA]),
      (231248, [0x33, 0x89, 0xA8, 0x35]), (231504, [0xD0, 0xB6, 0x3B, 0x62]), (231760, [0x32, 0x5F, 0x0B,
      0x69]), (232016, [0xCD, 0xD9, 0xA6, 0xD8]), (232272, [0x8D, 0xDF, 0x6E, 0x28]), (232528, [0x7F, 0x97,
      0xAB, 0xC4]), (232784, [0xE9, 0x3C, 0x25, 0x8B]), (233040, [0x4C, 0x70, 0x0D, 0x1E]), (233297, [0x5A,
      0x08, 0x60]), (262736, [0x9E, 0x43, 0xBA, 0x57]), (262992, [0x8F, 0x3C, 0x76, 0xC1]), (263248, [0xAE,
      0x4B, 0x33, 0x36]), (263504, [0xDB, 0xAE, 0x18, 0xE8]), (263760, [0xD4, 0x59, 0xC8, 0xAA]), (264016,
      [0x33, 0x89, 0xA8, 0x35]), (264272, [0xD0, 0xB6, 0x3B, 0x62]), (264528, [0x32, 0x5F, 0x0B, 0x69]),
      (264784, [0xCD, 0xD9, 0xA6, 0xD8]), (265040, [0x8D, 0xDF, 0x6E, 0x28]), (265296, [0x7F, 0x97, 0xAB,
      0xC4]), (265552, [0xE9, 0x3C, 0x25, 0x8B]), (265808, [0x4C, 0x70, 0x0D, 0x1E]), (266065, [0x5A, 0x08,
      0x60]), (4185811, [0x80])]"

definition real_chunks :: "(usize \<times> bytes) list" where
  "real_chunks =
     [(65536, SUPERBLOCK), (98304, BACKUP 0x01 [0x6F, 0x9C, 0x70, 0x74]), (131072, CG0), (163840, itable 0),
      (229376, ROOTDIR), (233472, PASSWORDS), (262144, SNAPDIR), (1146880, BACKUP 0x11 [0x6A, 0x56, 0x2D,
      0x74]), (1179648, HEADER1), (1212416, itable 1), (1245184, SUBDIR), (1249280, A_FILE), (1253376,
      ANOTHER_FILE), (2195456, BACKUP 0x21 [0x65, 0x08, 0xCB, 0x74]), (2228224, HEADER2), (2260992, itable 2),
      (3244032, BACKUP 0x31 [0x60, 0xC2, 0x96, 0x74]), (3276800, HEADER3), (3309568, itable 3)]"

definition real_part :: bytes where
  "real_part = fixture 4186112 (real_scraps @ real_chunks)"

definition real_image :: "(nat \<Rightarrow> u8) \<Rightarrow> bytes" where
  "real_image boot = map boot [0..<8192] @ real_part"

section \<open>Reading its structures\<close>

lemma concat_block:
  assumes "\<forall>x \<in> set xs. length (f x) = m" "k < length xs"
  shows "take m (drop (k * m) (concat (map f xs))) = f (xs ! k)"
  using assms
proof (induction xs arbitrary: k)
  case (Cons x xs)
  then show ?case by (cases k) simp_all
qed simp

lemma length_concat_blocks: "\<forall>x \<in> set xs. length (f x) = m \<Longrightarrow> length (concat (map f xs)) = length xs * m"
  by (induction xs) simp_all

lemma length_slot [simp]: "length (slot n) = 256"
  by (simp add: slot_def)

lemma length_itable [simp]: "length (itable c) = 32768"
  by (simp add: itable_def length_concat_blocks [where m = 256] del: upt_rec_numeral)

lemma itable_slot:
  assumes "k < 128"
  shows "take 256 (drop (k * 256) (itable c)) = slot (c * 128 + k)"
  unfolding itable_def using assms by (subst concat_block) simp_all

lemma length_real [simp]:
  "length (BACKUP g h) = 1376" "length SUPERBLOCK = 1376" "length CG0 = 256" "length HEADER1 = 300" "length HEADER2 = 300"
  "length HEADER3 = 300" "length ROOTDIR = 512" "length SNAPDIR = 512" "length SUBDIR = 512" "length PASSWORDS = 116"
  "length A_FILE = 53" "length ANOTHER_FILE = 22"
  by (simp_all add: BACKUP_def SUPERBLOCK_def CG0_def HEADER1_def HEADER2_def HEADER3_def ROOTDIR_def SNAPDIR_def SUBDIR_def
      snap_dirents_def sub_dirents_def real_dirent_def raw_bytes_def raw_reclen_def PASSWORDS_def A_FILE_def ANOTHER_FILE_def)

lemma real_valid [simp]: "valid_slice real_part"
  by (simp add: real_part_def valid_slice_def)

lemma real_chunks_hold: "list_all (holds 4186112 (real_scraps @ real_chunks)) real_chunks"
  by (simp add: real_chunks_def real_scraps_def holds_def)

lemma real_at: "(a, b) \<in> set real_chunks \<Longrightarrow> take (length b) (drop a real_part) = b"
  unfolding real_part_def using real_chunks_hold by (intro fixture_take) (auto simp: list_all_iff)

end
