(* ===== verification/OracleVolume.thy ===== *)
theory OracleVolume
  imports RealImage CraftedVolume TestsForensic
begin

text \<open>
  What the program reads from the volume of \<open>tests/data/ufs2.raw\<close>: its superblocks and headers, every inode, the three
  directories, the files, the audit and the recovery.
\<close>

section \<open>Superblocks and headers\<close>

lemma BACKUP_parse: "sb_parse (BACKUP g [a, b, c, d]) = Inr real_sb"
proof -
  have "sb_parse (BACKUP g [a, b, c, d]) = try_bind (sb_validate_geometry real_sb) (\<lambda>_. Inr real_sb)"
    unfolding BACKUP_def SUPERBLOCK_def patch_simps fixture_put append_Cons append_Nil
    by (rule fixture_sb) (simp_all add: sb_fields_defs holds_def magic_of_def sb_consts real_sb_def le_bytes)
  moreover have "sb_validate_geometry real_sb = Inr ()" by (simp add: validate_Inr wf_geometry_def real_sb_def)
  ultimately show ?thesis by simp
qed

definition real_cg :: "u32 \<Rightarrow> u32 \<Rightarrow> cylinder_group" where
  "real_cg cgx nd = \<lparr> cg_cgx = cgx, cg_ndblk = nd, cg_niblk = 128, cg_initediblk = 128, cg_iusedoff = 168,
     cg_freeoff = 184, cg_clusteroff = 280 \<rparr>"

lemma HEADER_parse:
  "cg_parse HEADER1 Little = Inr (real_cg 1 256)" "cg_parse HEADER2 Little = Inr (real_cg 2 256)"
  "cg_parse HEADER3 Little = Inr (real_cg 3 254)"
  unfolding HEADER1_def HEADER2_def HEADER3_def
  by (rule fixture_cg; simp add: cg_fields_def holds_def sb_consts real_cg_def le_bytes)+

lemma real_geometry:
  "inode_geometry_ok real_sb" "file_geometry_ok real_sb" "inode_count real_sb = 512"
  "sb_version real_sb = Ufs2" "sb_endian real_sb = Little" "sb_ncg real_sb = 4" "sb_fpg real_sb = 256"
  "sb_cblkno real_sb = 32" "sb_sblkno real_sb = 24" "sb_ipg real_sb = 128" "sb_fsize real_sb = 4096"
  "sb_bsize real_sb = 32768" "nat_i32 128 = 128" "nat_i32 4096 = 4096" "nat_i32 32768 = 32768" "sb_maxsymlinklen real_sb = 120"
  "frag_off real_sb c 24 = (c * 256 + 24) * 4096" "frag_off real_sb c 32 = (c * 256 + 32) * 4096"
  "inode_offset real_sb n = (n div 128 * 256 + 40) * 4096 + n mod 128 * 256" "cg_bytes real_sb = 1048576"
  by (simp_all add: real_sb_def inode_geometry_ok_def file_geometry_ok_def inode_count_def inode_offset_def
      nat_i32_def dinode_size_def sb_consts frag_off_def cg_bytes_def)

lemma length_real_part [simp]: "length real_part = 4186112"
  by (simp add: real_part_def)

lemma real_sb_at:
  assumes "(a, b) \<in> set real_chunks" "sb_parse b = Inr real_sb" "length b = 1376" "a + 1376 \<le> 4186112"
  shows "sb_parse (drop a real_part) = Inr real_sb"
  using real_at [OF assms(1)] sb_parse_prefix [of "drop a real_part"] assms(2-4) by (simp add: sb_consts)

lemma real_primary: "sb_parse (drop 65536 real_part) = Inr real_sb" "parse_primary_sb real_part = Inr real_sb"
proof -
  show "sb_parse (drop 65536 real_part) = Inr real_sb"
    by (rule real_sb_at [where b = SUPERBLOCK]) (simp_all add: real_chunks_def real_superblock)
  then show "parse_primary_sb real_part = Inr real_sb" by (simp add: parse_primary_sb_Inr SBLOCK_UFS2_def)
qed

lemma real_backups:
  assumes "c < 4"
  shows "sb_parse (drop ((c * 256 + 24) * 4096) real_part) = Inr real_sb"
proof -
  have "c = 0 \<or> c = 1 \<or> c = 2 \<or> c = 3" using assms by linarith
  then have "\<exists>g a b c' d. ((c * 256 + 24) * 4096, BACKUP g [a, b, c', d]) \<in> set real_chunks"
    by (elim disjE; simp add: real_chunks_def; blast)
  then obtain g h1 h2 h3 h4 where "((c * 256 + 24) * 4096, BACKUP g [h1, h2, h3, h4]) \<in> set real_chunks" by blast
  then show ?thesis by (rule real_sb_at) (use assms in \<open>simp_all add: BACKUP_parse\<close>)
qed

text \<open>The header and the bitmap of used inodes of each group.\<close>

definition real_bitmap :: "nat \<Rightarrow> bytes" where
  "real_bitmap c = (if c = 0 then 0x3F # replicate 15 0 else if c = 1 then 0x07 # replicate 15 0 else replicate 16 0)"

lemma header_bitmaps:
  "take 16 (drop 168 CG0) = real_bitmap 0" "take 16 (drop 168 HEADER1) = real_bitmap 1"
  "take 16 (drop 168 HEADER2) = real_bitmap 2" "take 16 (drop 168 HEADER3) = real_bitmap 3"
proof -
  have "take 1 (drop 168 CG0) = [0x3F]" "take 15 (drop 169 CG0) = replicate 15 0"
    unfolding CG0_def by (rule fixture_take; simp add: holds_def)+
  then show "take 16 (drop 168 CG0) = real_bitmap 0"
    using take_add [of 1 15 "drop 168 CG0"] by (simp add: real_bitmap_def)
  have "take 16 (drop 168 HEADER1) = [0x07, 0, 0, 0, 0, 0, 0, 0, 0, 0, 0, 0, 0, 0, 0, 0]"
    unfolding HEADER1_def by (rule fixture_take) (simp_all add: holds_def)
  moreover have "replicate 15 (0 :: u8) = [0, 0, 0, 0, 0, 0, 0, 0, 0, 0, 0, 0, 0, 0, 0]" by (simp add: eval_nat_numeral)
  ultimately show "take 16 (drop 168 HEADER1) = real_bitmap 1" by (simp add: real_bitmap_def)
  have "take 16 (drop 168 HEADER2) = replicate 16 0" unfolding HEADER2_def by (rule fixture_take) (simp_all add: holds_def)
  then show "take 16 (drop 168 HEADER2) = real_bitmap 2" by (simp add: real_bitmap_def)
  have "take 16 (drop 168 HEADER3) = replicate 16 0" unfolding HEADER3_def by (rule fixture_take) (simp_all add: holds_def)
  then show "take 16 (drop 168 HEADER3) = real_bitmap 3" by (simp add: real_bitmap_def)
qed

lemma real_header_at:
  assumes "(o', h) \<in> set real_chunks" "cg_parse h Little = Inr cg" "124 \<le> length h" "o' + length h \<le> 4186112"
    and "take 16 (drop 168 h) = bm" "184 \<le> length h"
  shows "cg_parse (drop o' real_part) Little = Inr cg" "take 16 (drop (o' + 168) real_part) = bm"
proof -
  note w = real_at [OF assms(1)]
  have "take 124 (drop o' real_part) = take 124 h"
    using arg_cong [OF w, of "take 124"] assms(3) by (simp add: min_absorb1)
  then show "cg_parse (drop o' real_part) Little = Inr cg"
    using cg_parse_prefix [of "drop o' real_part" Little] cg_parse_prefix [of h Little] assms(2-4) by (simp add: sb_consts)
  show "take 16 (drop (o' + 168) real_part) = bm"
    using arg_cong [OF w, of "\<lambda>x. take 16 (drop 168 x)"] assms(5,6) by (simp add: take_drop_window)
qed

lemma real_headers:
  assumes "c < 4"
  shows "\<exists>cg. cg_parse (drop ((c * 256 + 32) * 4096) real_part) Little = Inr cg \<and> cg_inosused_off cg = 168"
    and "take 16 (drop ((c * 256 + 32) * 4096 + 168) real_part) = real_bitmap c"
proof -
  have c: "c = 0 \<or> c = 1 \<or> c = 2 \<or> c = 3" using assms by linarith
  have m: "(131072, CG0) \<in> set real_chunks" "(1179648, HEADER1) \<in> set real_chunks" "(2228224, HEADER2) \<in> set real_chunks"
    "(3276800, HEADER3) \<in> set real_chunks" by (simp_all add: real_chunks_def)
  note h = real_header_at [OF m(1) real_header _ _ header_bitmaps(1)] real_header_at [OF m(2) HEADER_parse(1) _ _ header_bitmaps(2)]
    real_header_at [OF m(3) HEADER_parse(2) _ _ header_bitmaps(3)] real_header_at [OF m(4) HEADER_parse(3) _ _ header_bitmaps(4)]
  show "\<exists>cg. cg_parse (drop ((c * 256 + 32) * 4096) real_part) Little = Inr cg \<and> cg_inosused_off cg = 168"
    using c by (elim disjE) (simp_all add: h cg_inosused_off_def real_cg0_def real_cg_def)
  show "take 16 (drop ((c * 256 + 32) * 4096 + 168) real_part) = real_bitmap c"
    using c h(2,4,6,8) by (elim disjE) simp_all
qed

lemma real_bitmaps: "c < 4 \<Longrightarrow> cg_inode_bitmap real_part real_sb (of_nat c) = Some (real_bitmap c)"
proof -
  assume c: "c < 4"
  obtain cg where cg: "cg_parse (drop ((c * 256 + 32) * 4096) real_part) Little = Inr cg" "cg_inosused_off cg = 168"
    using real_headers(1) [OF c] by blast
  have "slice_get real_part ((c * 256 + 32) * 4096 + 168) ((c * 256 + 32) * 4096 + 168 + 16) = Some (real_bitmap c)"
    using real_headers(2) [OF c] c by (simp add: slice_get_Some_iff)
  then show "cg_inode_bitmap real_part real_sb (of_nat c) = Some (real_bitmap c)"
    using cg c by (subst cg_inode_bitmap_at [OF real_valid]) (simp_all add: real_geometry add.commute)
qed

lemma bitmap_used:
  assumes "m < 128"
  shows "bitmap_bit (real_bitmap c) m \<longleftrightarrow> c = 0 \<and> m < 6 \<or> c = 1 \<and> m < 3"
proof -
  have mask: "(0x3F :: u8) = mask 6" "(0x07 :: u8) = mask 3" by (simp_all add: mask_eq_exp_minus_1)
  have len: "length (real_bitmap c) = 16" by (simp add: real_bitmap_def)
  show ?thesis
  proof (cases "m < 8")
    case True
    have "real_bitmap c ! 0 = (if c = 0 then mask 6 else if c = 1 then mask 3 else 0)"
      by (simp add: real_bitmap_def mask)
    moreover have "m div 8 = 0" "m mod 8 = m" using True by simp_all
    ultimately show ?thesis unfolding bitmap_bit_iff len using assms True by (simp add: bit_mask_iff)
  next
    case False
    define j where "j = m div 8 - 1"
    have "m div 8 = Suc j" "j < 15" using assms False by (simp_all add: j_def)
    moreover have "real_bitmap c ! Suc j = 0" if "j < 15" for j
      unfolding real_bitmap_def using that by (cases "c = 0"; cases "c = 1") simp_all
    ultimately show ?thesis using False unfolding bitmap_bit_iff len by simp
  qed
qed

lemma real_used:
  assumes "n < 512"
  shows "inode_allocated real_part real_sb n \<longleftrightarrow> n < 6 \<or> n \<in> {128, 129, 130}"
    and "inode_free real_part real_sb n \<longleftrightarrow> \<not> (n < 6 \<or> n \<in> {128, 129, 130})"
proof -
  have c: "n div 128 < 4" using assms by simp
  have "n div 128 = 0 \<and> n mod 128 < 6 \<or> n div 128 = 1 \<and> n mod 128 < 3 \<longleftrightarrow> n < 6 \<or> n \<in> {128, 129, 130}"
    using assms by (cases "n < 128"; cases "n < 256") (auto simp: div_if mod_if)
  then have eq: "bitmap_bit (real_bitmap (n div 128)) (n mod 128) \<longleftrightarrow> n < 6 \<or> n \<in> {128, 129, 130}"
    by (simp add: bitmap_used)
  show "inode_allocated real_part real_sb n \<longleftrightarrow> n < 6 \<or> n \<in> {128, 129, 130}"
    "inode_free real_part real_sb n \<longleftrightarrow> \<not> (n < 6 \<or> n \<in> {128, 129, 130})"
    using real_bitmaps [OF c] eq by (simp_all add: inode_allocated_def inode_free_def real_geometry)
qed

section \<open>The inodes\<close>

lemma div_4: "n < 512 \<Longrightarrow> n div 128 = 0 \<or> n div 128 = 1 \<or> n div 128 = 2 \<or> n div 128 = (3 :: nat)"
  by (cases "n < 128"; cases "n < 256"; cases "n < 384") (simp_all add: div_if)

lemma real_slot:
  assumes "n < 512"
  shows "take 256 (drop ((n div 128 * 256 + 40) * 4096 + n mod 128 * 256) real_part) = slot n"
proof -
  let ?c = "n div 128" and ?k = "n mod 128"
  have c: "?c = 0 \<or> ?c = 1 \<or> ?c = 2 \<or> ?c = 3" using div_4 [OF assms] .
  then have "((?c * 256 + 40) * 4096, itable ?c) \<in> set real_chunks" by (elim disjE) (simp_all add: real_chunks_def)
  from arg_cong [OF real_at [OF this], of "\<lambda>t. take 256 (drop (?k * 256) t)"]
  have "take 256 (drop ((?c * 256 + 40) * 4096 + ?k * 256) real_part) = take 256 (drop (?k * 256) (itable ?c))"
    by (simp add: take_drop_window)
  also have "\<dots> = slot (?c * 128 + ?k)" by (rule itable_slot) simp
  finally show ?thesis by simp
qed

lemma real_read_inode:
  assumes "unat ino < 512"
  shows "read_inode real_part real_sb ino = inode_parse_with_maxsymlink (slot (unat ino)) Ufs2 Little 120"
proof -
  have b: "(c * 256 + 40) * 4096 + k * 256 + 256 \<le> 4186112" if "c < 4" "k < 128" for c k :: nat using that by simp
  have "(unat ino div 128 * 256 + 40) * 4096 + unat ino mod 128 * 256 + 256 \<le> 4186112"
    by (rule b) (use assms in simp_all)
  then show ?thesis
    using assms real_slot [OF assms]
    by (simp add: read_inode_refines real_geometry Let_def dinode_size_def sb_consts inode_parse_with_maxsymlink_def)
qed

text \<open>A slot nothing uses, and one with the fields of a file or directory.\<close>

lemma stat_slot:
  assumes "slot_fields n = stat_fields mode nlink gid sz mns ans bns db0 depth hash" "file_type_from_mode mode \<noteq> FtSymlink"
  shows "inode_parse_with_maxsymlink (slot n) Ufs2 Little m = Inr (real_inode mode nlink sz mns ans bns db0 \<lparr> i_gid := gid \<rparr>)"
proof -
  let ?i = "real_inode mode nlink sz mns ans bns db0 \<lparr> i_gid := gid \<rparr>"
  have "list_all (holds 256 ((80, endian_bytes Little (generations ! n)) # slot_fields n)) (inode_fields Little ?i)"
    unfolding assms(1) by (simp add: stat_fields_def Let_def inode_fixture_simps real_inode_def)
  from fixture_inode [OF _ this, of Ufs2 m] show ?thesis
    using assms(2) by (simp add: slot_def dinode_size_def sb_consts wf_inode_def inode_fast_symlink_def)
      (simp add: real_inode_def wf_inode_def sb_consts)
qed

lemma free_slot:
  assumes "slot_fields n = []"
  shows "inode_parse_with_maxsymlink (slot n) Ufs2 Little m = Inr (plain_inode 0 0 0 (replicate 12 0) [0, 0, 0])"
  unfolding slot_def assms
  by (rule plain_inode_parse)
    (simp_all add: inode_fixture_simps plain_inode_def file_type_from_mode_def IFMT_def)

lemma real_inodes_read:
  "read_inode real_part real_sb 2 = Inr (real_inode 0x41ED 4 512 763528000 0 0 56)"
  "read_inode real_part real_sb 3 = Inr (real_inode 0x41FD 2 512 0 0 0 64 \<lparr> i_gid := 5 \<rparr>)"
  "read_inode real_part real_sb 4 = Inr (real_inode 0x81A4 1 116 760490000 759460000 759459000 57)"
  "read_inode real_part real_sb 128 = Inr (real_inode 0x41ED 2 512 761110000 757397000 757170000 304)"
  "read_inode real_part real_sb 129 = Inr (real_inode 0x81A4 1 53 759179000 758144000 758143000 305)"
  "read_inode real_part real_sb 130 = Inr (real_inode 0x81A4 1 22 761651000 760757000 760757000 306)"
proof -
  have g: "i \<lparr> i_gid := 0 \<rparr> = i" if "i_gid i = 0" for i :: inode using that by simp
  have t: "file_type_from_mode 0x41ED \<noteq> FtSymlink" "file_type_from_mode 0x41FD \<noteq> FtSymlink"
    "file_type_from_mode 0x81A4 \<noteq> FtSymlink"
    by (simp_all add: file_type_from_mode_def IFMT_def)
  note r = real_read_inode stat_slot t slot_fields_def
  show "read_inode real_part real_sb 2 = Inr (real_inode 0x41ED 4 512 763528000 0 0 56)" by (simp add: r g real_inode_def)
  show "read_inode real_part real_sb 3 = Inr (real_inode 0x41FD 2 512 0 0 0 64 \<lparr> i_gid := 5 \<rparr>)" by (simp add: r)
  show "read_inode real_part real_sb 4 = Inr (real_inode 0x81A4 1 116 760490000 759460000 759459000 57)"
    by (simp add: r g real_inode_def)
  show "read_inode real_part real_sb 128 = Inr (real_inode 0x41ED 2 512 761110000 757397000 757170000 304)"
    by (simp add: r g real_inode_def)
  show "read_inode real_part real_sb 129 = Inr (real_inode 0x81A4 1 53 759179000 758144000 758143000 305)"
    by (simp add: r g real_inode_def)
  show "read_inode real_part real_sb 130 = Inr (real_inode 0x81A4 1 22 761651000 760757000 760757000 306)"
    by (simp add: r g real_inode_def)
qed

lemma real_link:
  obtains i where "read_inode real_part real_sb 5 = Inr i" "i_file_type i = FtSymlink" "i_size i = 24"
    "inode_symlink_target i = Some (str ''a_directory/another_file'')" "i_nlink i = 1"
proof -
  let ?t = "str ''a_directory/another_file''" and ?d = "fixture 256 ((80, endian_bytes Little (generations ! 5)) # link_fields)"
  let ?i = "inode_decode ?d Ufs2 Little 120"
  have s: "slot 5 = ?d" by (simp add: slot_def slot_fields_def)
  note simps = dinode_size_def sb_consts holds_def link_fields_def Let_def inode_db_off_def inode_ptr_size_def
    file_type_from_mode_def
  have "inode_parse_with_maxsymlink ?d Ufs2 Little 120 = Inr ?i \<and> i_file_type ?i = FtSymlink
      \<and> inode_symlink_target ?i = Some ?t"
    by (rule fixture_symlink [where mode = "0xA1ED"]) (simp_all add: simps)
  moreover have "endian_u64 Little ?d 16 = 24" "endian_u16 Little ?d 2 = 1"
    by (rule fixture_u64 fixture_u16; simp add: simps)+
  then have "i_size ?i = 24" "i_nlink ?i = 1" by (simp_all add: inode_decode_def Let_def sb_consts)
  ultimately show ?thesis using that [of ?i] real_read_inode [of 5] by (simp add: s)
qed

section \<open>Directories and files\<close>

lemma real_one_block:
  assumes "read_inode real_part real_sb ino = Inr i" "i_direct i = addr # replicate 11 0" "i_size i = 512"
    and "(unat addr * 4096, b) \<in> set real_chunks" "b = concat (map (raw_bytes Little) rs)" "length b = 512"
    and "\<forall>r \<in> set rs. raw_ok r" "addr \<noteq> 0"
  shows "list_dir_all real_part real_sb ino = Inr (map raw_entry rs)"
proof -
  have "list_dir_entries real_part real_sb i = map raw_entry rs"
    using real_at [OF assms(4)] assms(2,3,5-8)
    by (intro one_block_dir [where addr = addr]) (simp_all add: real_geometry)
  then show ?thesis using assms(1) by (simp add: list_dir_all_def)
qed

lemma real_dirs:
  "list_dir_all real_part real_sb 2 = Inr (map raw_entry real_dirents)"
  "list_dir_all real_part real_sb 3 = Inr (map raw_entry snap_dirents)"
  "list_dir_all real_part real_sb 128 = Inr (map raw_entry sub_dirents)"
proof -
  note ok = real_dirent_def raw_ok_def raw_reclen_def
  show "list_dir_all real_part real_sb 2 = Inr (map raw_entry real_dirents)"
    by (rule real_one_block [OF real_inodes_read(1), where b = ROOTDIR and addr = 56])
      (simp_all add: ROOTDIR_layout [symmetric] real_chunks_def real_inode_def, simp add: ok real_dirents_def)
  show "list_dir_all real_part real_sb 3 = Inr (map raw_entry snap_dirents)"
    by (rule real_one_block [OF real_inodes_read(2), where b = SNAPDIR and addr = 64])
      (simp_all add: SNAPDIR_def [symmetric] real_chunks_def real_inode_def, simp add: ok snap_dirents_def)
  show "list_dir_all real_part real_sb 128 = Inr (map raw_entry sub_dirents)"
    by (rule real_one_block [OF real_inodes_read(4), where b = SUBDIR and addr = 304])
      (simp_all add: SUBDIR_def [symmetric] real_chunks_def real_inode_def, simp add: ok sub_dirents_def)
qed

lemma real_content:
  assumes "(unat db * 4096, b) \<in> set real_chunks" "length b = unat sz" "unat sz \<le> 4096" "db \<noteq> 0"
    and "unat db * 4096 + unat sz \<le> 4186112"
  shows "read_inode_file real_part real_sb (real_inode mode nlink sz mns ans bns db) = Inr b"
proof -
  let ?i = "real_inode mode nlink sz mns ans bns db"
  have "file_byte real_part real_sb ?i k = b ! k" if k: "k < unat sz" for k
  proof -
    have "real_part ! (unat db * 4096 + k) = take (length b) (drop (unat db * 4096) real_part) ! k"
      using k assms(2,5) by simp
    then have "real_part ! (unat db * 4096 + k) = b ! k" by (simp only: real_at [OF assms(1)])
    then show ?thesis
      using k assms(2-5)
      by (simp add: file_byte_def block_addr_def real_geometry block_path_def place_addr_def real_inode_def)
  qed
  then have "map (file_byte real_part real_sb ?i) [0..<unat sz] = b"
    using assms(2) by (intro nth_equalityI) simp_all
  then show ?thesis using assms(3,5) by (simp add: read_inode_file_exact real_geometry) (simp add: real_inode_def)
qed

lemma real_files:
  "read_file real_part real_sb 4 = Inr PASSWORDS" "read_file real_part real_sb 129 = Inr A_FILE"
  "read_file real_part real_sb 130 = Inr ANOTHER_FILE"
  by (simp_all add: read_file_def real_inodes_read real_content real_chunks_def)

section \<open>Paths, the audit and the recovery\<close>

lemma real_kinds:
  "inode_is_dir (real_inode 0x41ED nlink sz mns ans bns db)" "\<not> inode_is_dir (real_inode 0x81A4 nlink sz mns ans bns db)"
  "inode_is_regular (real_inode 0x81A4 nlink sz mns ans bns db)" "\<not> inode_is_regular (real_inode 0x41ED nlink sz mns ans bns db)"
  by (simp_all add: real_inode_def inode_is_dir_def inode_is_regular_def modes)

lemma real_entries:
  "map raw_entry real_dirents =
     [\<lparr> de_name = str ''.'', de_ino = 2, de_file_type = DtDirectory, de_deleted = False \<rparr>,
      \<lparr> de_name = str ''..'', de_ino = 2, de_file_type = DtDirectory, de_deleted = False \<rparr>,
      \<lparr> de_name = str ''.snap'', de_ino = 3, de_file_type = DtDirectory, de_deleted = False \<rparr>,
      \<lparr> de_name = str ''a_directory'', de_ino = 128, de_file_type = DtDirectory, de_deleted = False \<rparr>,
      \<lparr> de_name = str ''passwords.txt'', de_ino = 4, de_file_type = DtRegular, de_deleted = False \<rparr>,
      \<lparr> de_name = str ''a_link'', de_ino = 5, de_file_type = DtSymlink, de_deleted = False \<rparr>]"
  "map raw_entry snap_dirents =
     [\<lparr> de_name = str ''.'', de_ino = 3, de_file_type = DtDirectory, de_deleted = False \<rparr>,
      \<lparr> de_name = str ''..'', de_ino = 2, de_file_type = DtDirectory, de_deleted = False \<rparr>]"
  "map raw_entry sub_dirents =
     [\<lparr> de_name = str ''.'', de_ino = 128, de_file_type = DtDirectory, de_deleted = False \<rparr>,
      \<lparr> de_name = str ''..'', de_ino = 2, de_file_type = DtDirectory, de_deleted = False \<rparr>,
      \<lparr> de_name = str ''a_file'', de_ino = 129, de_file_type = DtRegular, de_deleted = False \<rparr>,
      \<lparr> de_name = str ''another_file'', de_ino = 130, de_file_type = DtRegular, de_deleted = False \<rparr>]"
  by (simp_all add: real_dirents_def snap_dirents_def sub_dirents_def real_dirent_def raw_entry_def from_d_type_def)

lemma real_listed:
  assumes "list_dir_all real_part real_sb ino = Inr es" "read_inode real_part real_sb ino = Inr i"
  shows "list_dir_entries real_part real_sb i = es"
  using assms by (simp add: list_dir_all_def)

lemmas real_dir_entries = real_listed [OF real_dirs(1) real_inodes_read(1)] real_listed [OF real_dirs(3) real_inodes_read(4)]

lemma real_reachable: "reachable_inodes real_part real_sb = [2, 3, 128, 4, 5, 129, 130]"
  by (simp add: reachable_inodes_def WALK_BUDGET_def sb_consts reach_loop.simps [of _ _ _ "[2]"]
      reach_loop.simps [of _ _ _ "[3, 128]"] reach_loop.simps [of _ _ _ "[3]"] reach_loop.simps [of _ _ _ "[]"]
      vec_pop_def real_dirs real_entries is_dir_entry_def)

lemma real_quiet:
  assumes "c < 4"
  shows "divergences real_part real_sb c = []" and "bad_cg_magic real_part real_sb c = []"
proof -
  show "divergences real_part real_sb c = []"
    using real_backups [OF assms] by (simp add: divergences_def real_geometry Let_def backup_checks_def)
  have c: "c = 0 \<or> c = 1 \<or> c = 2 \<or> c = 3" using assms by linarith
  have m: "take 4 (drop 4 CG0) = endian_bytes Little CG_MAGIC" "take 4 (drop 4 HEADER1) = endian_bytes Little CG_MAGIC"
    "take 4 (drop 4 HEADER2) = endian_bytes Little CG_MAGIC" "take 4 (drop 4 HEADER3) = endian_bytes Little CG_MAGIC"
    unfolding CG0_def HEADER1_def HEADER2_def HEADER3_def
    by (rule fixture_take; simp add: holds_def sb_consts le_bytes)+
  have "\<exists>h. ((c * 256 + 32) * 4096, h) \<in> set real_chunks \<and> 8 \<le> length h \<and> take 4 (drop 4 h) = endian_bytes Little CG_MAGIC"
    using c m by (elim disjE) (auto simp: real_chunks_def)
  then obtain h where h: "((c * 256 + 32) * 4096, h) \<in> set real_chunks" "8 \<le> length h"
      "take 4 (drop 4 h) = endian_bytes Little CG_MAGIC" by blast
  have "take 4 (drop ((c * 256 + 32) * 4096 + 4) real_part) = take 4 (drop 4 h)"
    using arg_cong [OF real_at [OF h(1)], of "\<lambda>x. take 4 (drop 4 x)"] h(2) by (simp add: take_drop_window)
  then show "bad_cg_magic real_part real_sb c = []" by (simp add: bad_cg_magic_def Let_def real_geometry h(3))
qed

lemma real_orphans: "n < 512 \<Longrightarrow> orphan_emit real_part real_sb n = []"
proof -
  assume n: "n < 512"
  have r: "of_nat n \<in> set (reachable_inodes real_part real_sb)" if "3 \<le> n" "n < 6 \<or> n \<in> {128, 129, 130}"
  proof -
    have "n = 3 \<or> n = 4 \<or> n = 5 \<or> n = 128 \<or> n = 129 \<or> n = 130" using that by auto
    then show ?thesis by (elim disjE) (simp_all add: real_reachable)
  qed
  show "orphan_emit real_part real_sb n = []" using r real_used(1) [OF n] unfolding orphan_emit_def by metis
qed

lemma real_audit: "audit_image real_part = []"
proof -
  have "\<not> geometry_beyond real_part real_sb" by (simp add: geometry_beyond_def real_geometry)
  moreover have "concat (map (\<lambda>c. divergences real_part real_sb c @ bad_cg_magic real_part real_sb c) [0..<4]) = []"
    using real_quiet by (simp add: concat_eq_Nil_conv)
  moreover have "concat (map (orphan_emit real_part real_sb) [0..<512]) = []"
    using real_orphans by (simp add: concat_eq_Nil_conv del: upt_rec_numeral)
  ultimately show ?thesis
    using audit_image_exact [OF real_valid real_primary(2)] by (simp add: real_geometry del: upt_rec_numeral)
qed

text \<open>No slot is an erased name, and no free inode has content.\<close>

lemma real_recovery: "recover_deleted sha256 real_part = []"
proof -
  have names: "collect_deleted_dirents real_part real_sb = []"
    by (simp add: collect_deleted_dirents_def WALK_BUDGET_def sb_consts collect_loop.simps [of _ _ _ "[2]"]
        collect_loop.simps [of _ _ _ "[3, 128]"] collect_loop.simps [of _ _ _ "[3]"] collect_loop.simps [of _ _ _ "[]"]
        vec_pop_def real_dirs real_entries is_dir_entry_def)
  have "carve_emit sha256 real_part real_sb [] n = []" if n: "n < 512" for n
  proof (cases "inode_free real_part real_sb n")
    case True
    then have "slot_fields n = []" using real_used(2) [OF n] by (auto simp: slot_fields_def)
    then have "read_inode real_part real_sb (of_nat n) = Inr (plain_inode 0 0 0 (replicate 12 0) [0, 0, 0])"
      using n by (simp add: real_read_inode unat_of_nat free_slot)
    then show ?thesis by (simp add: carve_emit_def carvable_def plain_inode_def)
  qed (simp add: carve_emit_def)
  then have "concat (map (carve_emit sha256 real_part real_sb []) [0..<512]) = []"
    by (simp add: concat_eq_Nil_conv del: upt_rec_numeral)
  then show ?thesis
    using recover_deleted_exact [OF real_primary(2)] by (simp add: names real_geometry del: upt_rec_numeral)
qed

end
