(* ===== verification/TestsOracle.thy ===== *)
theory TestsOracle
  imports OracleVolume "HOL-Library.List_Lexorder"
begin

text \<open>
  The tests of \<open>core/tests/superblock_oracle.rs\<close>, \<open>inode_oracle.rs\<close>, \<open>dir_oracle.rs\<close> and \<open>file_oracle.rs\<close>, and the first
  test of \<open>forensic/tests/integrity.rs\<close>, on the image \<open>tests/data/ufs2.raw\<close>. The argument \<open>oracle\<close> is what the environment
  variable and \<open>fs::read\<close> give: \<^const>\<open>None\<close> when either fails, and then the tests skip.
\<close>

section \<open>The tests\<close>

abbreviation PART_BASE :: usize where "PART_BASE \<equiv> 8192"

text \<open>\<open>img[from..]\<close> panics past the end.\<close>

definition sliced :: "bytes \<Rightarrow> usize \<Rightarrow> (bytes \<Rightarrow> bool) \<Rightarrow> bool" where
  "sliced img from P \<longleftrightarrow> from \<le> length img \<and> P (drop from img)"

definition on_oracle_image :: "bytes option \<Rightarrow> (bytes \<Rightarrow> bool) \<Rightarrow> bool" where
  "on_oracle_image oracle P = (case oracle of None \<Rightarrow> True | Some img \<Rightarrow> P img)"

definition on_oracle_partition :: "bytes option \<Rightarrow> (bytes \<Rightarrow> bool) \<Rightarrow> bool" where
  "on_oracle_partition oracle P = (case oracle of None \<Rightarrow> True | Some img \<Rightarrow> sliced img PART_BASE P)"

text \<open>The partition and its superblock.\<close>

definition with_oracle :: "bytes option \<Rightarrow> (bytes \<Rightarrow> superblock \<Rightarrow> bool) \<Rightarrow> bool" where
  "with_oracle oracle P \<longleftrightarrow>
     on_oracle_partition oracle (\<lambda>part. sliced part SBLOCK_UFS2 (\<lambda>d. ok_and (sb_parse d) (P part)))"

definition test_ufs2_superblock_matches_fsstat_ground_truth :: "bytes option \<Rightarrow> bool" where
  "test_ufs2_superblock_matches_fsstat_ground_truth oracle \<longleftrightarrow>
     on_oracle_image oracle (\<lambda>img. sliced img (PART_BASE + SBLOCK_UFS2) (\<lambda>d. ok_and (sb_parse d) (\<lambda>sb.
       sb_version sb = Ufs2 \<and> sb_endian sb = Little \<and> sb_bsize sb = 32768 \<and> sb_fsize sb = 4096 \<and> sb_frag sb = 8
       \<and> sb_ncg sb = 4 \<and> sb_ipg sb = 128 \<and> sb_fpg sb = 256 \<and> sb_inopb sb = 128 \<and> sb_sblkno sb = 24
       \<and> sb_cblkno sb = 32 \<and> sb_iblkno sb = 40 \<and> sb_dblkno sb = 48 \<and> sb_bshift sb = 15 \<and> sb_fshift sb = 12
       \<and> sb_size sb = 1022 \<and> sb_maxsymlinklen sb = 120 \<and> sb_sblockloc sb = of_nat SBLOCK_UFS2
       \<and> sb_inode_size sb = 256 \<and> UFS_ROOTINO = 2 \<and> FS_UFS2_MAGIC = 0x19540119)))"

definition test_ufs2_first_cylinder_group_matches_fsstat :: "bytes option \<Rightarrow> bool" where
  "test_ufs2_first_cylinder_group_matches_fsstat oracle \<longleftrightarrow>
     on_oracle_image oracle (\<lambda>img. sliced img (PART_BASE + 32 * 4096) (\<lambda>d. ok_and (cg_parse d Little) (\<lambda>cg.
       cg_cgx cg = 0 \<and> cg_ndblk cg = 256 \<and> cg_iusedoff cg = 168 \<and> cg_freeoff cg = 184
       \<and> cg_inosused_off cg < cg_blksfree_off cg)))"

definition test_read_inode_locates_and_decodes_root_inode2 :: "bytes option \<Rightarrow> bool" where
  "test_read_inode_locates_and_decodes_root_inode2 oracle \<longleftrightarrow>
     with_oracle oracle (\<lambda>part sb. sb_version sb = Ufs2 \<and> ok_and (read_inode part sb 2) (\<lambda>ino.
       i_file_type ino = FtDirectory \<and> inode_is_dir ino \<and> i_mode ino AND 0xFFF = 0x1ED \<and> i_nlink ino = 4
       \<and> i_uid ino = 0 \<and> i_gid ino = 0 \<and> i_size ino = 512 \<and> ts_sec (i_mtime ino) = 1682843463
       \<and> i_direct ino ! 0 = 56))"

definition test_read_inode_matches_istat_for_file_inode4 :: "bytes option \<Rightarrow> bool" where
  "test_read_inode_matches_istat_for_file_inode4 oracle \<longleftrightarrow>
     with_oracle oracle (\<lambda>part sb. ok_and (read_inode part sb 4) (\<lambda>ino.
       i_file_type ino = FtRegular \<and> i_mode ino AND 0xFFF = 0x1A4 \<and> i_nlink ino = 1 \<and> i_size ino = 116
       \<and> ts_sec (i_mtime ino) = 1682843463 \<and> i_direct ino ! 0 = 57
       \<and> list_all (\<lambda>b. b = 0) (drop 1 (i_direct ino))))"

definition test_read_inode_decodes_fast_symlink_inode5 :: "bytes option \<Rightarrow> bool" where
  "test_read_inode_decodes_fast_symlink_inode5 oracle \<longleftrightarrow>
     with_oracle oracle (\<lambda>part sb. ok_and (read_inode part sb 5) (\<lambda>ino.
       i_file_type ino = FtSymlink \<and> i_size ino = 24
       \<and> inode_symlink_target ino = Some (str ''a_directory/another_file'')))"

definition test_read_inode_rejects_out_of_range_ino :: "bytes option \<Rightarrow> bool" where
  "test_read_inode_rejects_out_of_range_ino oracle \<longleftrightarrow>
     with_oracle oracle (\<lambda>part sb.
       let past_end = ucast (sb_ipg sb) * ucast (sb_ncg sb)
       in err_and (read_inode part sb past_end) (\<lambda>_. True))"

text \<open>\<open>entries.iter().find(..).map(..)\<close>\<close>

definition by_name :: "(dir_entry \<Rightarrow> 'a) \<Rightarrow> dir_entry list \<Rightarrow> bytes \<Rightarrow> 'a option" where
  "by_name f entries n = map_option f (find (\<lambda>e. de_name e = n) entries)"

definition fls_root_names :: "dir_entry list \<Rightarrow> bytes list" where
  "fls_root_names entries = filter (\<lambda>n. n \<noteq> dot \<and> n \<noteq> dotdot) (map de_name entries)"

definition test_list_dir_root_matches_fls :: "bytes option \<Rightarrow> bool" where
  "test_list_dir_root_matches_fls oracle \<longleftrightarrow>
     with_oracle oracle (\<lambda>part sb. ok_and (list_dir part sb 2) (\<lambda>entries.
       list_all (\<lambda>e. \<not> de_deleted e) entries
       \<and> by_name de_ino entries (str ''.snap'') = Some 3
       \<and> by_name de_ino entries (str ''a_directory'') = Some 128
       \<and> by_name de_ino entries (str ''passwords.txt'') = Some 4
       \<and> by_name de_ino entries (str ''a_link'') = Some 5
       \<and> by_name de_file_type entries (str ''a_directory'') = Some DtDirectory
       \<and> by_name de_file_type entries (str ''passwords.txt'') = Some DtRegular
       \<and> by_name de_file_type entries (str ''a_link'') = Some DtSymlink
       \<and> sort (fls_root_names entries)
         = sort (map str [''.snap'', ''a_directory'', ''passwords.txt'', ''a_link''])))"

definition test_list_dir_nested_a_directory_matches_fls_r :: "bytes option \<Rightarrow> bool" where
  "test_list_dir_nested_a_directory_matches_fls_r oracle \<longleftrightarrow>
     with_oracle oracle (\<lambda>part sb. ok_and (list_dir part sb 128) (\<lambda>entries.
       by_name de_ino entries (str ''a_file'') = Some 129
       \<and> by_name de_ino entries (str ''another_file'') = Some 130))"

definition test_read_by_path_matches_ffind :: "bytes option \<Rightarrow> bool" where
  "test_read_by_path_matches_ffind oracle \<longleftrightarrow>
     with_oracle oracle (\<lambda>part sb.
       found (read_by_path part sb (str ''/passwords.txt''))
         (\<lambda>(ino, inode). ino = 4 \<and> i_size inode = 116 \<and> inode_is_regular inode)
       \<and> found (read_by_path part sb (str ''/a_directory/a_file'')) (\<lambda>(ino, inode). ino = 129 \<and> inode_is_regular inode)
       \<and> found (read_by_path part sb (str ''/'')) (\<lambda>(ino, inode). ino = 2 \<and> inode_is_dir inode)
       \<and> not_found (read_by_path part sb (str ''/does_not_exist'')))"

definition oracle_sha256_hex :: "(bytes \<Rightarrow> bytes) \<Rightarrow> bytes \<Rightarrow> string" where
  "oracle_sha256_hex sha256 data = concat (map fmt_02x (sha256 data))"

definition test_read_file_matches_icat_for_passwords_txt_inode4 :: "(bytes \<Rightarrow> bytes) \<Rightarrow> bytes option \<Rightarrow> bool" where
  "test_read_file_matches_icat_for_passwords_txt_inode4 sha256 oracle \<longleftrightarrow>
     with_oracle oracle (\<lambda>part sb. ok_and (read_file part sb 4) (\<lambda>content. length content = 116
       \<and> oracle_sha256_hex sha256 content = ''02a2a6af2f1ecf4720d7d49d640f0d0a269a7ec733e41973bdd34f09dad0e252''))"

definition test_read_path_content_matches_icat_for_a_file_inode129 :: "(bytes \<Rightarrow> bytes) \<Rightarrow> bytes option \<Rightarrow> bool" where
  "test_read_path_content_matches_icat_for_a_file_inode129 sha256 oracle \<longleftrightarrow>
     with_oracle oracle (\<lambda>part sb. found (read_path_content part sb (str ''/a_directory/a_file'')) (\<lambda>content.
       length content = 53
       \<and> oracle_sha256_hex sha256 content = ''4a49638d0e1055fd9e4c17fef7fdf4d6ccf892b6d9c2f64164203c4bfb0ec92d''))"

definition test_read_path_content_matches_icat_for_another_file_inode130 ::
  "(bytes \<Rightarrow> bytes) \<Rightarrow> bytes option \<Rightarrow> bool" where
  "test_read_path_content_matches_icat_for_another_file_inode130 sha256 oracle \<longleftrightarrow>
     with_oracle oracle (\<lambda>part sb. found (read_path_content part sb (str ''/a_directory/another_file'')) (\<lambda>content.
       length content = 22
       \<and> oracle_sha256_hex sha256 content = ''c7fbc0e821c0871805a99584c6a384533909f68a6bbe9a2a687d28d9f3b10c16''))"

definition test_read_path_content_missing_path_is_none :: "bytes option \<Rightarrow> bool" where
  "test_read_path_content_missing_path_is_none oracle \<longleftrightarrow>
     with_oracle oracle (\<lambda>part sb. not_found (read_path_content part sb (str ''/nope'')))"

definition test_read_symlink_target_returns_fast_link_target_inode5 :: "bytes option \<Rightarrow> bool" where
  "test_read_symlink_target_returns_fast_link_target_inode5 oracle \<longleftrightarrow>
     with_oracle oracle (\<lambda>part sb. found (read_by_path part sb (str ''/a_link'')) (\<lambda>(ino, inode). ino = 5
       \<and> ok_and (read_symlink_target part sb inode) (\<lambda>target. target = str ''a_directory/another_file'')))"

definition test_clean_real_image_emits_no_anomalies ::
  "(observation \<Rightarrow> report_source \<Rightarrow> 'f) \<Rightarrow> bytes option \<Rightarrow> bool" where
  "test_clean_real_image_emits_no_anomalies to_finding oracle \<longleftrightarrow>
     on_oracle_partition oracle (\<lambda>part. audit_image part = [] \<and> audit_findings to_finding part ''ufs2.raw'' = [])"

section \<open>They pass on the image\<close>

lemma real_partition: "drop 8192 (real_image boot) = real_part" "length (real_image boot) = 4194304"
  by (simp_all add: real_image_def del: upt_rec_numeral)

lemma on_real:
  "on_oracle_partition (Some (real_image boot)) Q \<longleftrightarrow> Q real_part"
  "with_oracle (Some (real_image boot)) P \<longleftrightarrow> P real_part real_sb"
  by (simp_all add: on_oracle_partition_def with_oracle_def sliced_def real_partition real_primary SBLOCK_UFS2_def)

lemma real_from: "8192 \<le> a \<Longrightarrow> drop a (real_image boot) = drop (a - 8192) real_part"
  using drop_drop [of "a - 8192" 8192 "real_image boot"] by (simp add: real_partition)

lemma oracle_structure_tests:
  "test_ufs2_superblock_matches_fsstat_ground_truth (Some (real_image boot))"
  "test_ufs2_first_cylinder_group_matches_fsstat (Some (real_image boot))"
  "test_clean_real_image_emits_no_anomalies to_finding (Some (real_image boot))"
proof -
  show "test_ufs2_superblock_matches_fsstat_ground_truth (Some (real_image boot))"
    by (simp add: test_ufs2_superblock_matches_fsstat_ground_truth_def on_oracle_image_def sliced_def real_partition
        real_from real_primary SBLOCK_UFS2_def) (simp add: real_sb_def sb_inode_size_def sb_consts)
  have "cg_parse (drop 131072 real_part) Little = Inr real_cg0"
    by (rule real_header_at [OF _ real_header _ _ header_bitmaps(1)]) (simp_all add: real_chunks_def)
  then show "test_ufs2_first_cylinder_group_matches_fsstat (Some (real_image boot))"
    by (simp add: test_ufs2_first_cylinder_group_matches_fsstat_def on_oracle_image_def sliced_def real_partition real_from)
      (simp add: real_cg0_def cg_inosused_off_def cg_blksfree_off_def)
  show "test_clean_real_image_emits_no_anomalies to_finding (Some (real_image boot))"
    by (simp add: test_clean_real_image_emits_no_anomalies_def on_real real_audit audit_findings_def Let_def)
qed

lemma oracle_inode_tests:
  "test_read_inode_locates_and_decodes_root_inode2 (Some (real_image boot))"
  "test_read_inode_matches_istat_for_file_inode4 (Some (real_image boot))"
  "test_read_inode_decodes_fast_symlink_inode5 (Some (real_image boot))"
  "test_read_inode_rejects_out_of_range_ino (Some (real_image boot))"
proof -
  show "test_read_inode_locates_and_decodes_root_inode2 (Some (real_image boot))"
    by (simp add: test_read_inode_locates_and_decodes_root_inode2_def on_real real_inodes_read real_geometry)
      (simp add: real_inode_def inode_is_dir_def modes)
  show "test_read_inode_matches_istat_for_file_inode4 (Some (real_image boot))"
    by (simp add: test_read_inode_matches_istat_for_file_inode4_def on_real real_inodes_read)
      (simp add: real_inode_def modes replicate_11)
  show "test_read_inode_decodes_fast_symlink_inode5 (Some (real_image boot))"
    by (rule real_link) (simp add: test_read_inode_decodes_fast_symlink_inode5_def on_real)
  show "test_read_inode_rejects_out_of_range_ino (Some (real_image boot))"
    by (simp add: test_read_inode_rejects_out_of_range_ino_def on_real real_geometry read_inode_refines)
qed

lemma oracle_dir_tests:
  "test_list_dir_root_matches_fls (Some (real_image boot))"
  "test_list_dir_nested_a_directory_matches_fls_r (Some (real_image boot))"
proof -
  show "test_list_dir_root_matches_fls (Some (real_image boot))"
    by (simp add: test_list_dir_root_matches_fls_def on_real list_dir_def real_dirs real_entries by_name_def
        fls_root_names_def)
  show "test_list_dir_nested_a_directory_matches_fls_r (Some (real_image boot))"
    by (simp add: test_list_dir_nested_a_directory_matches_fls_r_def on_real list_dir_def real_dirs real_entries by_name_def)
qed

lemma oracle_path_tests:
  "test_read_by_path_matches_ffind (Some (real_image boot))"
  "test_read_path_content_missing_path_is_none (Some (real_image boot))"
  "test_read_symlink_target_returns_fast_link_target_inode5 (Some (real_image boot))"
proof -
  note paths = on_real found_def not_found_def read_by_path_def UFS_ROOTINO_def real_inodes_read real_dir_entries
    real_entries real_kinds
  show "test_read_by_path_matches_ffind (Some (real_image boot))"
    by (simp add: test_read_by_path_matches_ffind_def paths) (simp add: real_inode_def)
  show "test_read_path_content_missing_path_is_none (Some (real_image boot))"
    by (simp add: test_read_path_content_missing_path_is_none_def read_path_content_def paths)
  show "test_read_symlink_target_returns_fast_link_target_inode5 (Some (real_image boot))"
    by (rule real_link)
      (simp add: test_read_symlink_target_returns_fast_link_target_inode5_def read_symlink_target_def paths)
qed

text \<open>The digests of the three files as the Sleuth Kit's \<open>icat\<close> and \<open>sha256sum\<close> give them.\<close>

definition icat_digests :: "(bytes \<times> bytes) list" where
  "icat_digests =
     [(PASSWORDS,
       [2, 162, 166, 175, 47, 30, 207, 71, 32, 215, 212, 157, 100, 15, 13, 10,
        38, 154, 126, 199, 51, 228, 25, 115, 189, 211, 79, 9, 218, 208, 226, 82]),
      (A_FILE,
       [74, 73, 99, 141, 14, 16, 85, 253, 158, 76, 23, 254, 247, 253, 244, 214,
        204, 248, 146, 182, 217, 194, 246, 65, 100, 32, 60, 75, 251, 14, 201, 45]),
      (ANOTHER_FILE,
       [199, 251, 192, 232, 33, 192, 135, 24, 5, 169, 149, 132, 198, 163, 132, 83,
        57, 9, 246, 138, 107, 190, 154, 42, 104, 125, 40, 217, 243, 177, 12, 22])]"

lemma oracle_content_tests:
  assumes "\<forall>(d, h) \<in> set icat_digests. sha256 d = h"
  shows "test_read_file_matches_icat_for_passwords_txt_inode4 sha256 (Some (real_image boot))"
    and "test_read_path_content_matches_icat_for_a_file_inode129 sha256 (Some (real_image boot))"
    and "test_read_path_content_matches_icat_for_another_file_inode130 sha256 (Some (real_image boot))"
proof -
  have h: "sha256 PASSWORDS = snd (icat_digests ! 0)" "sha256 A_FILE = snd (icat_digests ! 1)"
    "sha256 ANOTHER_FILE = snd (icat_digests ! 2)"
    using assms by (simp_all add: icat_digests_def)
  note hex = oracle_sha256_hex_def h icat_digests_def fmt_02x_digits
  have contents: "read_path_content real_part real_sb (str ''/a_directory/a_file'') = Inr (Some A_FILE)"
    "read_path_content real_part real_sb (str ''/a_directory/another_file'') = Inr (Some ANOTHER_FILE)"
    by (simp_all add: read_path_content_def read_by_path_def UFS_ROOTINO_def real_inodes_read real_dir_entries
        real_entries real_kinds real_content real_chunks_def)
  show "test_read_file_matches_icat_for_passwords_txt_inode4 sha256 (Some (real_image boot))"
    by (simp add: test_read_file_matches_icat_for_passwords_txt_inode4_def on_real real_files) (simp add: hex)
  show "test_read_path_content_matches_icat_for_a_file_inode129 sha256 (Some (real_image boot))"
    using contents(1)
    by (simp add: test_read_path_content_matches_icat_for_a_file_inode129_def on_real found_def) (simp add: hex)
  show "test_read_path_content_matches_icat_for_another_file_inode130 sha256 (Some (real_image boot))"
    using contents(2)
    by (simp add: test_read_path_content_matches_icat_for_another_file_inode130_def on_real found_def) (simp add: hex)
qed

end
