(* ===== verification/Spec2Isabelle.thy ===== *)
theory Spec2Isabelle
  imports Residue VfsProperties FuzzTargets TestsFile TestsForensic CraftedFile TestsCarve TestsOracle
begin

text \<open>
  Verification of ufs-forensic, a panic-free reader of UFS1 and UFS2 (FFS) volumes and a forensic
  analyzer over it, both in Rust.

  The program. The reader (\<open>core/src\<close>) works on a byte slice: \<open>bytes.rs\<close> reads integers in either byte
  order, \<open>superblock.rs\<close> detects version and byte order and decodes the geometry, \<open>cg.rs\<close> decodes
  cylinder-group headers, \<open>inode.rs\<close> locates and decodes dinodes, \<open>dir.rs\<close> walks directory blocks and
  resolves paths, \<open>file.rs\<close> assembles content through the block map, \<open>vfs.rs\<close> adapts all this to a
  file-system contract. The analyzer (\<open>forensic/src/lib.rs\<close>) audits an image for five kinds of anomaly
  and recovers deleted entries and files. All state is the image and the decoded superblock; every
  operation is a function of them, and every failure is a value.

  The theories, in the order of the code:

    \<^item> \<open>UfsPrelude\<close>: integers of the program (words; \<open>usize\<close> is \<open>nat\<close> below \<open>2^64\<close>), saturating
      arithmetic, slices (\<open>get\<close>, suffixes, writes), patched buffers, \<open>try_bind\<close> for the question mark;
    \<^item> \<open>UfsBytes\<close> (\<open>bytes.rs\<close>), \<open>UfsError\<close> (\<open>error.rs\<close> with its formatted messages),
      \<open>UfsSuperblock\<close> (\<open>superblock.rs\<close>), \<open>UfsCg\<close> (\<open>cg.rs\<close>), \<open>UfsInode\<close> (\<open>inode.rs\<close>), \<open>UfsDir\<close>
      (\<open>dir.rs\<close>), \<open>UfsFile\<close> (\<open>file.rs\<close>), \<open>UfsVfs\<close> (\<open>vfs.rs\<close>): one record or datatype per type and one
      definition per function, named as in the code with the component's prefix where a name is taken;
    \<^item> \<open>ForensicAnomaly\<close>, \<open>ForensicAudit\<close>, \<open>ForensicCarve\<close> (the three parts of \<open>lib.rs\<close>), with \<open>Utf8\<close>
      for names and \<open>ForensicLoops\<close> for the loops the three share;
    \<^item> \<open>Sample\<close>: two small volumes on which the properties are instantiated; \<open>ForensicProperties\<close>,
      \<open>VfsProperties\<close> and this theory: the properties that span components;
    \<^item> \<open>ReadFrame\<close>: which bytes each read of the reader depends on; \<open>Deletion\<close> and \<open>Residue\<close>: removing a file, as
      \<open>forensic/tests/carve.rs\<close> does it, and what the recovery returns afterwards;
    \<^item> \<open>RustPanic\<close>: what can panic (checked addition, subtraction and multiplication, division, remainder,
      shifts, indexing, \<open>copy_from_slice\<close>, vector capacity) as option-valued operations; \<open>RunReader\<close>,
      \<open>RunContent\<close>, \<open>RunVolume\<close>: every function of the reader, the adapter and the analyzer once more with
      these operations where the code has them, under its name with the suffix \<open>_run\<close>, and the lemma that it returns
      what the plain function returns; \<open>FuzzTargets\<close>: the six targets of \<open>fuzz/fuzz_targets\<close> over them;
    \<^item> \<open>Fixtures\<close>: the vocabulary of the unit tests; \<open>TestsParsers\<close>, \<open>TestsInode\<close>, \<open>TestsDir\<close>, \<open>TestsFile\<close>,
      \<open>TestsVfs\<close>, \<open>TestsForensic\<close>: the test modules of the source files, each test a condition \<open>test_<name>\<close> on the
      model, with the bytes of its fixtures, and its proof;
    \<^item> \<open>BlockWalker\<close>, \<open>CraftedFile\<close> (\<open>core/tests/file_indirect.rs\<close>): the second decoder, with its panics, and the partition with
      one file through every level of indirection; \<open>TestsReal\<close> (\<open>core/tests/fixture.rs\<close>): the committed bytes of a real
      volume; \<open>CraftedVolume\<close> (\<open>forensic/tests/common/mod.rs\<close>) and \<open>CraftedEdits\<close>: the volumes the tests of the analyzer
      build and what an edit of one changes; \<open>TestsIntegrity\<close>, \<open>TestsEdge\<close>, \<open>TestsCarve\<close> (\<open>integrity.rs\<close>, \<open>edge.rs\<close>,
      \<open>carve.rs\<close> beside it); \<open>RealImage\<close>: the bytes of the committed image \<open>tests/data/ufs2.raw\<close>, structure by structure,
      \<open>OracleVolume\<close>: all the program reads from it, \<open>TestsOracle\<close>: the tests that compare this with other tools
      (\<open>core/tests/*_oracle.rs\<close>).

  What the lemmas show. Parsers: a parser accepts exactly the buffers that are the layout of what it
  returns, and each rejection is the error that describes it. Addressing: saturating 64-bit location
  of inodes and blocks equals the exact one in natural numbers whenever the result is used. Walks: the
  record walk, the two directory-tree walks and the inode sweeps are described by closed forms, with
  soundness for every image and completeness within the walk budget. Content: a file is, byte for
  byte, what its block map points at. Analyzer: each anomaly and each recovered item is reported
  exactly under a condition on the image, and what a removal leaves behind is recovered, name and content. Adapter: its views agree with the reader and each other.
  Panics: in the default build with overflow checks no operation panics on any bytes, except opening a source
  that reports more bytes than a vector can hold; so the plain functions are what the checked code computes,
  and no input makes a fuzz target panic. Tests: the program's unit and integration tests hold of the model, computed on their
  fixtures (lemmas, which check the model against the program's own expectations). The reader returns what the tests'
  second decoder returns wherever that decoder returns, for a file no longer than the partition and within the reach
  of its pointers; a sparse file longer than the partition the decoder reads as zeros and the reader rejects.

  Interfaces. \<open>UfsBytes\<close> states the reader contract that the integer readers of each width satisfy,
  and what the layout of an on-disk structure promises its parser, which superblock, cylinder group and
  dinode satisfy;
  \<open>ForensicLoops\<close> states what an operation that only appends to its output, a sweep over groups, a
  stack walk, a marking walk (reachability) and a visiting walk (collection) share. Each is interpreted on
  the code's definitions in the theory that provides them.

  Bounds. Loops are structural or have a measure: record lengths of at least 8 advance the block walk,
  block numbers increase to a bound in content assembly. The tree walks carry the code's own budget of
  \<open>2^20\<close> steps (\<open>WALK_BUDGET\<close>), which is part of the model, not fuel added to it; it is enough for
  complete results when the tree has at most that many directories (reachability) or subdirectory
  entries (collection), as \<open>reachable_exact\<close> and \<open>recovered_dirents_exact\<close> state. Images are
  \<open>valid_slice\<close>: shorter than \<open>2^63\<close> bytes, as every Rust slice is.

  Parameters. The SHA-256 digest, the debug rendering of foreign identities, the byte source and the
  sniff window of the contract crate, and the conversion of an observation to a finding are arguments; the tests
  that check such code hold under its documented behaviour (\<open>TestsForensic.sha256_test\<close>, \<open>TestsForensic.to_finding_test\<close>,
  \<open>TestsIntegrity.findings_test\<close>, \<open>TestsOracle.oracle_content_tests\<close>).

  Not modelled: \<open>core/src/lib.rs\<close> and the re-exports (no logic), the environment variable and the file read by which
  the oracle tests find their image, the constant \<open>OFF_OLD_TIME\<close> (never read), running out of memory below the capacity limit of a vector, and 32-bit targets.
\<close>

section \<open>Reader and auditor\<close>

text \<open>
  C21. Reader and auditor agree on the volume: whatever superblock the auditor settles on, opening the
  volume settles on the same one; and a volume that opens but is not audited is exactly one whose region
  at 65536 is full and has no UFS magic, which is every UFS1 volume of at least 66912 bytes without
  such a magic there: it opens, yet the audit is the single finding of an invalid magic.
\<close>

theorem open_audit_agree:
  assumes "read_at 0 (replicate (unat len) 0) = Inr (length img, img)" and "valid_slice img"
  shows "(parse_primary_sb img = Inr sb \<longrightarrow> ufs_open len read_at = Inr \<lparr> fs_image = img, fs_sb = sb \<rparr>)
    \<and> (ufs_open len read_at = Inr fs \<longrightarrow> fs_image fs = img \<and>
         (if magic_bad img SBLOCK_UFS2
          then audit_image img = [anomaly_new (SuperblockMagicInvalid 66908 (take 4 (drop 66908 img)))]
          else parse_primary_sb img = Inr (fs_sb fs)))"
proof -
  have op: "ufs_open len read_at = Inr fs' \<longleftrightarrow> fs_image fs' = img \<and>
      (parse_primary img SBLOCK_UFS2 = Inr (fs_sb fs')
       \<or> (\<exists>e. parse_primary img SBLOCK_UFS2 = Inl e) \<and> parse_primary img SBLOCK_UFS1 = Inr (fs_sb fs'))" for fs'
    using ufs_open_Inr [of read_at len "length img" img fs'] assms(1) by simp
  have nb: "\<not> magic_bad img off" if "parse_primary img off = Inr s" for off s
    using that magic_bad_parse [of off img] by (auto simp: parse_primary_Inr)
  show ?thesis
  proof (intro conjI impI)
    assume "parse_primary_sb img = Inr sb"
    then show "ufs_open len read_at = Inr \<lparr> fs_image = img, fs_sb = sb \<rparr>"
      unfolding op by (cases "parse_primary img SBLOCK_UFS2"; cases "parse_primary img SBLOCK_UFS1")
        (auto simp: parse_primary_sb_cases split: if_splits)
  next
    assume o: "ufs_open len read_at = Inr fs"
    then show "fs_image fs = img" by (simp add: op)
    show "if magic_bad img SBLOCK_UFS2
        then audit_image img = [anomaly_new (SuperblockMagicInvalid 66908 (take 4 (drop 66908 img)))]
        else parse_primary_sb img = Inr (fs_sb fs)"
      using o nb unfolding op
      by (auto simp: audit_image_def parse_primary_sb_cases split: sum.split)
  qed
qed

text \<open>A UFS1 volume with zeros where a UFS2 superblock would be: it opens, and its audit is a bad magic.\<close>

definition ufs1_sb :: superblock where
  "ufs1_sb = sample_sb\<lparr> sb_version := Ufs1, sb_sblockloc := 0 \<rparr>"

definition ufs1_image :: bytes where
  "ufs1_image = replicate 8192 0 @ sb_write ufs1_sb (replicate 1376 0) @ replicate 57344 0"

theorem open_audit_agree_witness:
  "ufs_open 66912 (\<lambda>off buf. Inr (66912, ufs1_image))
     = (Inr \<lparr> fs_image = ufs1_image, fs_sb = ufs1_sb \<rparr> :: unit vfs_error + ufs_fs)
   \<and> audit_image ufs1_image = [anomaly_new (SuperblockMagicInvalid 66908 [0, 0, 0, 0])]"
proof -
  let ?read = "\<lambda>(off :: u64) (buf :: bytes). Inr (66912, ufs1_image) :: unit vfs_error + usize \<times> bytes"
  let ?fs = "\<lparr> fs_image = ufs1_image, fs_sb = ufs1_sb \<rparr>"
  have len: "length ufs1_image = 66912" by (simp add: ufs1_image_def)
  have z: "take 4 (drop 66908 ufs1_image) = [0, 0, 0, 0]" by (simp add: ufs1_image_def zeros4)
  have "[0, 0, 0, 0] \<noteq> endian_bytes e (magic_of v)" for e v by (cases e; cases v) (simp_all add: magic_of_def)
  then have b: "magic_bad ufs1_image SBLOCK_UFS2"
    by (simp add: magic_bad_def len z SBLOCK_UFS2_def FS_MAGIC_OFF_def SB_MIN_LEN_def)
  then have "\<nexists>sb. parse_primary ufs1_image SBLOCK_UFS2 = Inr sb"
    using magic_bad_parse [of SBLOCK_UFS2 ufs1_image] by (auto simp: parse_primary_Inr)
  then obtain e where e: "parse_primary ufs1_image SBLOCK_UFS2 = Inl e" by (metis sum.exhaust)
  have "wf_superblock ufs1_sb" by (simp add: ufs1_sb_def sample_sb_def wf_superblock_def wf_geometry_def)
  then have "sb_parse (drop 8192 ufs1_image) = Inr ufs1_sb"
    by (simp add: ufs1_image_def sb_parse_append SB_MIN_LEN_def)
  then have "parse_primary ufs1_image SBLOCK_UFS1 = Inr ufs1_sb"
    by (simp add: parse_primary_Inr SBLOCK_UFS1_def len)
  then have o: "ufs_open 66912 ?read = Inr ?fs"
    using ufs_open_Inr [of ?read 66912 66912 ufs1_image ?fs] e len by simp
  moreover have "audit_image ufs1_image = [anomaly_new (SuperblockMagicInvalid 66908 [0, 0, 0, 0])]"
    using open_audit_agree [of ?read 66912 ufs1_image ufs1_sb ?fs] o b len z by (simp add: valid_slice_def)
  ultimately show ?thesis by simp
qed

section \<open>Opened volumes\<close>

lemma listing_bound:
  assumes "valid_slice part" "0 < sint (sb_fsize sb)" "0 < sint (sb_bsize sb)" "list_dir part sb d = Inr es"
  shows "8 * length es \<le> 12 * nat_i32 (sb_bsize sb)"
proof -
  let ?f = "\<lambda>i k. walk_entries (dir_block part sb i k) (sb_endian sb)"
  obtain i where i: "read_inode part sb d = Inr i" and es: "es = filter (\<lambda>e. \<not> de_deleted e) (list_dir_entries part sb i)"
    using assms(4) by (auto simp: list_dir_def list_dir_all_def try_bind_Inr_iff)
  have "length (dir_block part sb i k) \<le> nat_i32 (sb_bsize sb)" for k
    by (simp add: dir_block_def Let_def min.coboundedI2)
  then have "8 * length (?f i k) \<le> nat_i32 (sb_bsize sb)" for k
    using length_walk_entries [of "dir_block part sb i k" "sb_endian sb"] le_trans by blast
  then have step: "8 * length (?f i k) \<le> nat_i32 (sb_bsize sb)" for k .
  have "8 * length (concat (map (?f i) [0..<n])) \<le> n * nat_i32 (sb_bsize sb)" for n
  proof (induction n)
    case (Suc n)
    then show ?case using add_mono [OF step [of n] Suc.IH] by simp
  qed simp
  then have "8 * length (list_dir_entries part sb i) \<le> 12 * nat_i32 (sb_bsize sb)"
    unfolding list_dir_entries_exact [OF assms(1-3)] length_inode_direct [OF i] .
  then show ?thesis
    unfolding es using length_filter_le [of "\<lambda>e. \<not> de_deleted e" "list_dir_entries part sb i"] by linarith
qed

text \<open>
  C25. What an opened volume guarantees whatever its bytes are: its block and fragment sizes are
  positive and at most 65536, it has at most \<open>2^24\<close> groups, a listing has at most 98304 entries, and
  reading any inode either fails or gives at most as many bytes as the image has, so that no length
  field of the image makes a result larger than the image.
\<close>

theorem opened_volume_bounds:
  assumes "read_at 0 (replicate (unat len) 0) = Inr (length img, img)" and "valid_slice img"
    and "ufs_open len read_at = Inr fs"
  shows "0 < sint (sb_fsize (fs_sb fs)) \<and> sint (sb_fsize (fs_sb fs)) \<le> sint (sb_bsize (fs_sb fs))
    \<and> sint (sb_bsize (fs_sb fs)) \<le> 65536 \<and> unat (sb_ncg (fs_sb fs)) \<le> 2 ^ 24
    \<and> (\<forall>d es. list_dir (fs_image fs) (fs_sb fs) d = Inr es \<longrightarrow> length es \<le> 98304)
    \<and> (\<forall>n c. read_file (fs_image fs) (fs_sb fs) n = Inr c \<longrightarrow> length c \<le> length img)"
proof -
  have img: "fs_image fs = img" and "parse_primary img SBLOCK_UFS2 = Inr (fs_sb fs) \<or> parse_primary img SBLOCK_UFS1 = Inr (fs_sb fs)"
    using assms(1,3) ufs_open_Inr [of read_at len "length img" img fs] by auto
  then have g: "wf_geometry (fs_sb fs)" by (auto simp: parse_primary_Inr dest: sb_parse_InrD(4))
  then have pos: "0 < sint (sb_fsize (fs_sb fs))" "0 < sint (sb_bsize (fs_sb fs))"
    and "nat_i32 (sb_bsize (fs_sb fs)) \<le> 65536"
    by (auto simp: wf_geometry_def nat_i32_def)
  then have "length es \<le> 98304" if "list_dir img (fs_sb fs) d = Inr es" for d es
    using listing_bound [OF assms(2) pos that] by linarith
  moreover have "length c \<le> length img" if "read_file img (fs_sb fs) n = Inr c" for n c
    using that read_inode_file_length [OF assms(2)] by (auto simp: read_file_def try_bind_Inr_iff)
  ultimately show ?thesis using g img by (auto simp: wf_geometry_def)
qed

theorem opened_volume_bounds_witness:
  "\<exists>es. list_dir sample_image sample_sb 2 = Inr es \<and> length es \<le> 98304"
proof -
  let ?read = "\<lambda>(off :: u64) (buf :: bytes). Inr (66912, sample_image) :: unit vfs_error + usize \<times> bytes"
  have "parse_primary sample_image SBLOCK_UFS2 = Inr sample_sb"
    using sample_parse by (simp add: parse_primary_Inr SBLOCK_UFS2_def)
  then have "ufs_open 66912 ?read = Inr sample_fs"
    using ufs_open_Inr [of ?read 66912 66912 sample_image sample_fs] by simp
  then show ?thesis
    using opened_volume_bounds [of ?read 66912 sample_image sample_fs] sample_list_dir by simp
qed


section \<open>The program's own tests\<close>

text \<open>
  The unit tests of the eight source files that have some hold of the model: each is a condition on the definitions, on
  the fixtures the test builds; the rendering of foreign identities and streams is arbitrary. The two tests left out
  check foreign code and are \<open>sha256_test\<close> and \<open>to_finding_test\<close>.
\<close>

lemma unit_tests_pass:
  "list_all (\<lambda>t. t)
    [test_readers_decode_both_orders, test_readers_yield_zero_out_of_range,
      test_endian_selector_dispatches_both_orders, test_parses_valid_cg_little_endian,
      test_parses_valid_cg_big_endian, test_bad_cg_magic_fails_loud, test_wrong_endian_is_detected_as_bad_magic,
      test_truncated_cg_does_not_panic, test_detects_ufs2_little_endian, test_detects_ufs2_big_endian,
      test_detects_ufs1_and_uses_old_size_fields, test_detects_ufs1_big_endian,
      test_bad_magic_fails_loud_with_bytes, test_truncated_buffer_fails_loud_not_panic,
      test_empty_buffer_reports_truncated_not_panic, test_impossible_block_size_rejected,
      test_impossible_fragment_size_rejected, test_absurd_cg_count_rejected,
      test_file_type_from_mode_classifies_all_ifmt, test_decodes_ufs2_regular_file, test_decodes_ufs2_directory,
      test_decodes_ufs2_fast_symlink_inline_target, test_slow_symlink_over_threshold_has_no_inline_target,
      test_decodes_ufs2_big_endian, test_decodes_ufs1_dinode_32bit_layout, test_decodes_ufs1_fast_symlink,
      test_truncated_dinode_fails_loud_not_panic, test_empty_dinode_buffer_does_not_panic,
      test_read_inode_locates_and_decodes, test_read_inode_rejects_out_of_range,
      test_read_inode_truncated_partition_fails_loud, test_read_inode_rejects_zero_ipg_geometry,
      test_read_inode_rejects_zero_fpg_geometry, test_read_inode_rejects_zero_fsize_geometry,
      test_read_inode_rejects_negative_iblkno_geometry, test_d_type_classifies_all_dt_values,
      test_walk_block_decodes_real_root_layout, test_walk_block_surfaces_deleted_slot,
      test_lying_zero_reclen_does_not_loop_forever, test_over_long_namlen_is_clamped_not_overread,
      test_reclen_below_head_ends_block, test_walk_empty_or_short_block_is_safe,
      test_read_block_offsets_by_fragment_size, test_read_block_clamps_past_end_without_error,
      test_read_block_rejects_zero_fsize, test_list_dir_returns_live_root_entries,
      test_list_dir_skips_hole_in_direct_pointers, test_read_by_path_root_resolves_to_inode2,
      test_read_by_path_resolves_known_file_inode4, test_read_by_path_descends_nested_directory,
      test_read_by_path_missing_component_is_none, test_read_by_path_through_non_directory_is_none,
      test_read_file_direct_only_single_block, test_read_file_zero_size_is_empty,
      test_read_file_single_indirect_block, test_read_file_double_and_triple_indirect_with_nindir2,
      test_read_file_hole_zero_fills, test_read_file_rejects_allocation_bomb, test_read_file_rejects_zero_bsize,
      test_read_file_rejects_zero_fsize, test_read_file_truncated_partition_no_panic,
      test_resolve_block_zero_nindir_collapses_to_direct_only, test_indirect_ptr_hole_addr_is_zero,
      test_read_file_ufs1_single_indirect_uses_4byte_pointers, test_read_symlink_target_fast_inline,
      test_read_symlink_target_slow_reads_data_block, test_read_file_by_inode_number_locates_then_reads,
      test_read_path_content_reads_a_file_and_missing_is_none, test_node_kind_maps_every_ifmt_type,
      test_to_ts_carries_ns_and_inode_table_provenance, test_map_err_splits_truncated_from_decode,
      test_require_default_stream_refuses_named_streams sdbg, test_ino_of_refuses_foreign_identity dbg,
      test_ufs_probe_matches_ufs2_magic_either_order, test_ufs_probe_matches_ufs1_magic_either_order,
      test_ufs_probe_declines_non_ufs, test_open_rejects_non_ufs_source_loud, test_adapter_geometry_surface,
      test_extents_on_empty_file_is_empty dbg sdbg, test_adapter_navigates_the_synthetic_tree dbg sdbg,
      test_raw_readers_yield_zero_out_of_range, test_bitmap_bit_reads_lsb_first, test_decode_name_is_lossy,
      test_every_anomaly_kind_derives_code_severity_note_and_evidence, test_severity_grading_matches_spec,
      test_evidence_locations_are_kind_specific]"
  by (simp only: list.pred_inject bytes_tests cg_tests superblock_tests decoder_tests read_inode_tests walk_tests
      read_block_tests path_tests hole_test direct_only_test single_indirect_test triple_indirect_test hole_fill_test
      content_tests zero_nindir_test ufs1_pointers_test fast_link_test slow_link_test minimal_tests mapping_tests
      probe_tests adapter_tests open_rejects_test navigate_test forensic_tests simp_thms)

text \<open>
  The integration tests hold of the model: the reading of a file through every level of indirection, with its hole,
  its partial last block and the hostile variants of the partition; the decoding of the committed bytes of a real volume
  against what the Sleuth Kit reports of it; the audit of a clean volume, of one with each corruption and of truncated
  and hostile ones; and the recovery before and after the removal of a file. So do the tests that compare the reading of
  the committed third-party image, superblock, inodes, directories, paths and link target, with what other tools report
  of it, and the one that a clean real volume audits to nothing. The digest, the conversion to a finding and the boot
  blocks of the image are arbitrary; the four tests left out, which check a digest or a finding, are
  \<open>oracle_content_tests\<close> and \<open>findings_test\<close>.
\<close>

lemma integration_tests_pass:
  "list_all (\<lambda>t. t)
    [test_read_file_assembles_indirect_chains_matching_pattern_and_independent_walk, test_read_file_zero_fills_a_hole,
      test_read_file_rejects_absurd_di_size_as_allocation_bomb, test_read_file_truncated_partition_does_not_panic,
      test_read_file_lying_indirect_pointer_does_not_over_read, test_committed_ufs2_superblock_fixture_decodes,
      test_committed_ufs2_cg0_fixture_decodes, test_committed_root_inode2_decodes_as_dir,
      test_committed_file_inode4_matches_istat, test_committed_symlink_inode5_is_fast_symlink,
      test_committed_root_directory_walk_matches_fls, test_clean_crafted_partition_emits_nothing,
      test_bad_superblock_magic_flags_magic_invalid, test_backup_superblock_divergence_flags_divergence,
      test_bad_cg_magic_flags_cg_magic_invalid, test_orphaned_inode_flags_orphan,
      test_reachable_allocated_inode_is_not_orphan, test_impossible_geometry_flags_bomb,
      test_malformed_input_never_panics, test_truncated_after_primary_sb_skips_cg_regions_without_panic sha256,
      test_cg_region_off_end_without_geometry_error, test_cg_header_slice_too_short_is_skipped,
      test_unparseable_backup_superblock_is_skipped, test_allocated_inode_with_zeroed_dinode_is_not_orphan,
      test_allocated_inode_off_truncated_end_is_skipped_without_panic sha256, test_directory_cycle_terminates sha256,
      test_deleted_dirent_walk_descends_subdirectory sha256, test_free_inode_with_absurd_di_size_is_not_carved sha256,
      test_dir_entry_to_out_of_range_inode_is_skipped_in_walk sha256,
      test_zero_fpg_geometry_skips_cg_walk_without_panic sha256,
      test_recovers_deleted_file_content_matching_pre_delete_hash sha256, test_recovers_deleted_dirent_name sha256,
      test_clean_partition_recovers_nothing sha256, test_malformed_input_recovers_nothing_without_panic sha256,
      test_ufs2_superblock_matches_fsstat_ground_truth (Some (real_image boot)),
      test_ufs2_first_cylinder_group_matches_fsstat (Some (real_image boot)),
      test_read_inode_locates_and_decodes_root_inode2 (Some (real_image boot)),
      test_read_inode_matches_istat_for_file_inode4 (Some (real_image boot)),
      test_read_inode_decodes_fast_symlink_inode5 (Some (real_image boot)),
      test_read_inode_rejects_out_of_range_ino (Some (real_image boot)),
      test_list_dir_root_matches_fls (Some (real_image boot)),
      test_list_dir_nested_a_directory_matches_fls_r (Some (real_image boot)),
      test_read_by_path_matches_ffind (Some (real_image boot)),
      test_read_path_content_missing_path_is_none (Some (real_image boot)),
      test_read_symlink_target_returns_fast_link_target_inode5 (Some (real_image boot)),
      test_clean_real_image_emits_no_anomalies to_finding (Some (real_image boot))]"
  by (simp only: list.pred_inject indirect_tests real_fixture_tests integrity_tests edge_tests carve_tests
      oracle_structure_tests oracle_inode_tests oracle_dir_tests oracle_path_tests simp_thms)

end
